(* ===== verification/Prelude.thy ===== *)
theory Prelude
  imports Main "HOL-Library.Word" "HOL-Library.Monad_Syntax" "HOL-Library.State_Monad"
begin

text \<open>
  What every component of the Winny development shares.

  \<^item> The values of the TypeScript sources: a \<open>Number\<close> that holds an integer and a
    \<open>BigInt\<close> are \<^typ>\<open>int\<close> (a \<open>Number\<close> is exact up to \<open>2\<^sup>53 - 1\<close>, see
    \<open>js_safe\<close>), a \<open>Uint8Array\<close> or \<open>Buffer\<close> is a list of 8-bit words, a
    string is a \<^typ>\<open>string\<close>, \<open>null\<close> and \<open>undefined\<close> are \<^const>\<open>None\<close>.
  \<^item> Thrown errors: a call that may throw returns \<open>string + 'a\<close>, where \<^const>\<open>Inl\<close>
    holds the message of the error.
  \<^item> Effects: an asynchronous function is a \<open>('s, 'a) state\<close> computation of the library's
    state monad; its state holds the module's variables and the outside world.
  \<^item> A small Hoare logic over that monad (\<open>valid\<close>, \<open>keeps\<close>), whose rules the
    collection \<open>hoare\<close> holds: the component invariants are proved with it.
\<close>

named_theorems hoare \<open>rules of the Hoare logic over the state monad\<close>
named_theorems wire \<open>facts that read and write little-endian fields\<close>

type_synonym byte = "8 word"
type_synonym buffer = "byte list"
type_synonym 'a result = "string + 'a"

section \<open>Numbers\<close>

definition js_safe :: "int \<Rightarrow> bool" where
  "js_safe x \<longleftrightarrow> - (2 ^ 53) < x \<and> x < 2 ^ 53"

text \<open>\<open>BigInt\<close> division truncates towards zero.\<close>

definition big_div :: "int \<Rightarrow> int \<Rightarrow> int" where
  "big_div a b = sgn a * sgn b * (\<bar>a\<bar> div \<bar>b\<bar>)"

lemma big_div_nonneg [simp]: "0 \<le> a \<Longrightarrow> 0 < b \<Longrightarrow> big_div a b = a div b"
  by (cases "a = 0") (simp_all add: big_div_def)

section \<open>Strings\<close>

text \<open>\<open>s.includes(t)\<close>.\<close>

fun js_starts :: "string \<Rightarrow> string \<Rightarrow> bool" where
  "js_starts _ [] = True"
| "js_starts [] (_ # _) = False"
| "js_starts (x # xs) (y # ys) = (x = y \<and> js_starts xs ys)"

fun js_includes :: "string \<Rightarrow> string \<Rightarrow> bool" where
  "js_includes [] t = (t = [])"
| "js_includes (x # xs) t = (js_starts (x # xs) t \<or> js_includes xs t)"

lemma js_starts_iff: "js_starts s t \<longleftrightarrow> (\<exists>b. s = t @ b)"
  by (induction s t rule: js_starts.induct) auto

lemma js_includes_iff: "js_includes s t \<longleftrightarrow> (\<exists>a b. s = a @ t @ b)"
proof (induction s)
  case Nil
  then show ?case by simp
next
  case (Cons x xs)
  have "(\<exists>a b. x # xs = a @ t @ b) \<longleftrightarrow> (\<exists>b. x # xs = t @ b) \<or> (\<exists>a b. xs = a @ t @ b)"
    (is "?l \<longleftrightarrow> ?r1 \<or> ?r2")
  proof
    assume ?l
    then obtain a b where "x # xs = a @ t @ b" by blast
    then show "?r1 \<or> ?r2" by (cases a) auto
  next
    assume "?r1 \<or> ?r2"
    then show ?l by (metis append_Cons append_Nil)
  qed
  with Cons show ?case by (simp add: js_starts_iff)
qed

text \<open>The decimal digits of a number: \<open>String(n)\<close>.\<close>

fun nat_digits :: "nat \<Rightarrow> string" where
  "nat_digits n =
     (if n < 10 then [char_of (48 + n)] else nat_digits (n div 10) @ [char_of (48 + n mod 10)])"

declare nat_digits.simps [simp del]

definition js_string :: "int \<Rightarrow> string" where
  "js_string n = (if n < 0 then CHR ''-'' # nat_digits (nat (- n)) else nat_digits (nat n))"

section \<open>Errors\<close>

definition and_then :: "'e + 'a \<Rightarrow> ('a \<Rightarrow> 'e + 'b) \<Rightarrow> 'e + 'b" where
  "and_then r f = (case r of Inl e \<Rightarrow> Inl e | Inr x \<Rightarrow> f x)"

lemma and_then_simps [simp]:
  "and_then (Inl e) f = Inl e" "and_then (Inr x) f = f x"
  by (simp_all add: and_then_def)

lemma and_then_Inr_iff:
  "and_then r f = Inr y \<longleftrightarrow> (\<exists>x. r = Inr x \<and> f x = Inr y)"
  by (cases r) simp_all

section \<open>A Hoare logic for the state monad\<close>

definition valid :: "('s \<Rightarrow> bool) \<Rightarrow> ('s, 'a) state \<Rightarrow> ('a \<Rightarrow> 's \<Rightarrow> bool) \<Rightarrow> bool" where
  "valid P m Q \<longleftrightarrow> (\<forall>s. P s \<longrightarrow> (case run_state m s of (x, t) \<Rightarrow> Q x t))"

abbreviation keeps :: "('s \<Rightarrow> bool) \<Rightarrow> ('s, 'a) state \<Rightarrow> bool" where
  "keeps P m \<equiv> valid P m (\<lambda>_. P)"

lemma run_state_simps [simp]:
  "run_state (State_Monad.return x) s = (x, s)"
  "run_state (State_Monad.bind m f) s = (case run_state m s of (x, t) \<Rightarrow> run_state (f x) t)"
  "run_state State_Monad.get s = (s, s)"
  "run_state (State_Monad.set t) s = ((), t)"
  "run_state (State_Monad.update g) s = ((), g s)"
  by (simp_all add: State_Monad.return_def State_Monad.bind_def State_Monad.get_def
      State_Monad.set_def State_Monad.update_def split: prod.splits)

lemma validI: "(\<And>s x t. P s \<Longrightarrow> run_state m s = (x, t) \<Longrightarrow> Q x t) \<Longrightarrow> valid P m Q"
  by (auto simp: valid_def split: prod.splits)

lemma validD: "valid P m Q \<Longrightarrow> P s \<Longrightarrow> run_state m s = (x, t) \<Longrightarrow> Q x t"
  by (fastforce simp: valid_def)

lemma valid_run: "valid P m Q \<Longrightarrow> P s \<Longrightarrow> Q (fst (run_state m s)) (snd (run_state m s))"
  by (cases "run_state m s") (auto dest: validD)

lemma valid_return [hoare]: "(\<And>s. P s \<Longrightarrow> Q x s) \<Longrightarrow> valid P (State_Monad.return x) Q"
  by (rule validI) auto

lemma valid_bind:
  assumes "valid P m R" and "\<And>x. valid (R x) (f x) Q"
  shows "valid P (State_Monad.bind m f) Q"
proof (rule validI)
  fix s y u
  assume P: "P s" and run: "run_state (State_Monad.bind m f) s = (y, u)"
  obtain x t where m: "run_state m s = (x, t)" by (cases "run_state m s")
  with assms(1) P have "R x t" by (rule validD)
  moreover from run m have "run_state (f x) t = (y, u)" by simp
  ultimately show "Q y u" using assms(2) by (blast dest: validD)
qed

lemma keeps_bind [hoare]:
  "keeps P m \<Longrightarrow> (\<And>x. valid P (f x) Q) \<Longrightarrow> valid P (State_Monad.bind m f) Q"
  by (rule valid_bind)

lemma valid_get [hoare]: "(\<And>s. P s \<Longrightarrow> Q s s) \<Longrightarrow> valid P State_Monad.get Q"
  by (rule validI) auto

lemma valid_update [hoare]: "(\<And>s. P s \<Longrightarrow> Q () (g s)) \<Longrightarrow> valid P (State_Monad.update g) Q"
  by (rule validI) auto

lemma valid_if [hoare]:
  "(b \<Longrightarrow> valid P m Q) \<Longrightarrow> (\<not> b \<Longrightarrow> valid P n Q) \<Longrightarrow> valid P (if b then m else n) Q"
  by simp

lemma valid_case_option [hoare]:
  "(x = None \<Longrightarrow> valid P m Q) \<Longrightarrow> (\<And>y. x = Some y \<Longrightarrow> valid P (f y) Q) \<Longrightarrow>
   valid P (case x of None \<Rightarrow> m | Some y \<Rightarrow> f y) Q"
  by (cases x) simp_all

lemma valid_case_sum [hoare]:
  "(\<And>e. x = Inl e \<Longrightarrow> valid P (f e) Q) \<Longrightarrow> (\<And>y. x = Inr y \<Longrightarrow> valid P (g y) Q) \<Longrightarrow>
   valid P (case x of Inl e \<Rightarrow> f e | Inr y \<Rightarrow> g y) Q"
  by (cases x) simp_all

lemma valid_case_prod [hoare]:
  "(\<And>a b. x = (a, b) \<Longrightarrow> valid P (f a b) Q) \<Longrightarrow> valid P (case x of (a, b) \<Rightarrow> f a b) Q"
  by (cases x) simp

lemma valid_Let [hoare]: "valid P (f x) Q \<Longrightarrow> valid P (let y = x in f y) Q"
  by simp

lemma valid_weaken:
  "valid P' m Q' \<Longrightarrow> (\<And>s. P s \<Longrightarrow> P' s) \<Longrightarrow> (\<And>x s. Q' x s \<Longrightarrow> Q x s) \<Longrightarrow> valid P m Q"
  by (fastforce simp: valid_def)

lemma valid_conj:
  "valid P m Q \<Longrightarrow> valid P' m Q' \<Longrightarrow> valid (\<lambda>s. P s \<and> P' s) m (\<lambda>x s. Q x s \<and> Q' x s)"
  by (fastforce simp: valid_def)

lemma valid_ex: "(\<And>x. valid (P x) m Q) \<Longrightarrow> valid (\<lambda>s. \<exists>x. P x s) m Q"
  by (fastforce simp: valid_def)

text \<open>A loop over a list: \<open>for (const x of xs) body(x)\<close>.\<close>

fun for_each :: "'x list \<Rightarrow> ('x \<Rightarrow> ('s, unit) state) \<Rightarrow> ('s, unit) state" where
  "for_each [] body = State_Monad.return ()"
| "for_each (x # xs) body = do { body x; for_each xs body }"

lemma valid_for_each [hoare]:
  "(\<And>x. x \<in> set xs \<Longrightarrow> keeps P (body x)) \<Longrightarrow> keeps P (for_each xs body)"
  by (induction xs) (auto intro!: hoare)

section \<open>Lists and maps\<close>

text \<open>Writing \<open>bs\<close> into \<open>d\<close> at offset \<open>off\<close>, as a slice copy does.\<close>

definition splice_at :: "nat \<Rightarrow> 'a list \<Rightarrow> 'a list \<Rightarrow> 'a list" where
  "splice_at off bs d = take off d @ bs @ drop (off + length bs) d"

lemma length_splice_at [simp]:
  "off + length bs \<le> length d \<Longrightarrow> length (splice_at off bs d) = length d"
  by (simp add: splice_at_def)

definition subarray :: "'a list \<Rightarrow> nat \<Rightarrow> nat \<Rightarrow> 'a list" where
  "subarray d a b = take (b - a) (drop a d)"

lemma length_subarray [simp]: "b \<le> length d \<Longrightarrow> length (subarray d a b) = b - a"
  by (auto simp: subarray_def)

lemma nth_splice_at:
  assumes "off + length bs \<le> length d" and "i < length d"
  shows "splice_at off bs d ! i =
    (if off \<le> i \<and> i < off + length bs then bs ! (i - off) else d ! i)"
  using assms by (auto simp: splice_at_def nth_append min_def)

lemma subarray_splice_same [wire]:
  "off + length bs \<le> length d \<Longrightarrow> b = off + length bs \<Longrightarrow> subarray (splice_at off bs d) off b = bs"
  by (simp add: subarray_def splice_at_def)

lemma subarray_splice_other [wire]:
  assumes "off + length bs \<le> length d" and "b \<le> length d" and "b \<le> off \<or> off + length bs \<le> a"
  shows "subarray (splice_at off bs d) a b = subarray d a b"
proof (rule nth_equalityI)
  show "length (subarray (splice_at off bs d) a b) = length (subarray d a b)"
    using assms by simp
next
  fix i
  assume "i < length (subarray (splice_at off bs d) a b)"
  then have i: "i < b - a" using assms by simp
  then show "subarray (splice_at off bs d) a b ! i = subarray d a b ! i"
    using assms by (auto simp: subarray_def nth_splice_at)
qed

lemma subarray_splice_after [wire]:
  assumes "off + length bs \<le> length d" and "off + length bs \<le> a"
  shows "subarray (splice_at off bs d) a b = subarray d a b"
proof -
  have "drop a (splice_at off bs d) = drop a d"
    using assms by (simp add: splice_at_def)
  then show ?thesis by (simp add: subarray_def)
qed

lemma splice_at_append [wire]:
  assumes "off + length a + length b \<le> length d"
  shows "splice_at off (a @ b) d = splice_at (off + length a) b (splice_at off a d)"
  using assms by (simp add: splice_at_def ac_simps)

end
