(* ===== verification/Wire.thy ===== *)
theory Wire
  imports Prelude
begin

text \<open>
  Byte-level access to account data: the little-endian integer fields of a \<open>DataView\<close>
  (getters that throw a \<open>RangeError\<close> past the end of the buffer, here \<^const>\<open>None\<close>), the
  unchecked indexing \<open>d[i]\<close> (\<open>undefined\<close> past the end), and the checked writers of the
  on-chain program (\<open>write_u64_at\<close> and its kin of
  \<open>jackpot_pinocchio_poc/src/legacy_layouts.rs\<close>). The lemmas in the collection
  \<open>wire\<close> compute what a getter reads after a writer has run.
\<close>

section \<open>Little-endian integers\<close>

primrec le_uint :: "buffer \<Rightarrow> int" where
  "le_uint [] = 0"
| "le_uint (b # bs) = uint b + 256 * le_uint bs"

primrec le_bytes :: "nat \<Rightarrow> int \<Rightarrow> buffer" where
  "le_bytes 0 x = []"
| "le_bytes (Suc n) x = word_of_int x # le_bytes n (x div 256)"

lemma length_le_bytes [simp]: "length (le_bytes n x) = n"
  by (induction n arbitrary: x) simp_all

lemma uint_byte_of_int [simp]: "uint (word_of_int x :: byte) = x mod 256"
  by (simp add: uint_word_of_int)

lemma uint_byte_bounds: "0 \<le> uint (b :: byte)" "uint (b :: byte) < 256"
  using uint_lt2p [of b] by simp_all

lemma le_uint_bounds: "0 \<le> le_uint bs \<and> le_uint bs < 256 ^ length bs"
proof (induction bs)
  case Nil
  then show ?case by simp
next
  case (Cons b bs)
  moreover have "0 \<le> uint b" "uint b \<le> 255" using uint_byte_bounds [of b] by simp_all
  ultimately show ?case by simp
qed

lemma le_uint_zeros: "le_uint (replicate n 0) = 0"
  by (induction n) simp_all

lemma le_uint_le_bytes_mod: "le_uint (le_bytes n x) = x mod 256 ^ n"
proof (induction n arbitrary: x)
  case 0
  then show ?case by simp
next
  case (Suc n)
  have "x mod 256 ^ Suc n = 256 * (x div 256 mod 256 ^ n) + x mod 256"
    using zmod_zmult2_eq [of "256 ^ n" x 256] by simp
  with Suc show ?case by simp
qed

lemma le_uint_le_bytes [wire]:
  "0 \<le> x \<Longrightarrow> x < 256 ^ n \<Longrightarrow> le_uint (le_bytes n x) = x"
  by (simp add: le_uint_le_bytes_mod)

lemma le_bytes_le_uint: "le_bytes (length bs) (le_uint bs) = bs"
proof (induction bs)
  case Nil
  then show ?case by simp
next
  case (Cons b bs)
  have "0 \<le> uint b" "uint b < 256" using uint_byte_bounds by auto
  then have "(uint b + 256 * le_uint bs) div 256 = le_uint bs" by simp
  moreover have "(word_of_int (uint b + 256 * le_uint bs) :: byte) = b"
  proof -
    have "uint (word_of_int (uint b + 256 * le_uint bs) :: byte) = (uint b + 256 * le_uint bs) mod 256"
      by (rule uint_byte_of_int)
    also have "\<dots> = uint b" using \<open>0 \<le> uint b\<close> \<open>uint b < 256\<close> by simp
    finally show ?thesis by (simp only: word_uint_eq_iff)
  qed
  ultimately show ?case using Cons by simp
qed

section \<open>The getters of a DataView\<close>

definition get_uint :: "nat \<Rightarrow> buffer \<Rightarrow> nat \<Rightarrow> int option" where
  "get_uint n d off = (if off + n \<le> length d then Some (le_uint (subarray d off (off + n))) else None)"

definition getUint16 :: "buffer \<Rightarrow> nat \<Rightarrow> int option" where
  "getUint16 = get_uint 2"

definition getUint32 :: "buffer \<Rightarrow> nat \<Rightarrow> int option" where
  "getUint32 = get_uint 4"

definition getBigUint64 :: "buffer \<Rightarrow> nat \<Rightarrow> int option" where
  "getBigUint64 = get_uint 8"

definition to_i64 :: "int \<Rightarrow> int" where
  "to_i64 x = (if x < 2 ^ 63 then x else x - 2 ^ 64)"

definition getBigInt64 :: "buffer \<Rightarrow> nat \<Rightarrow> int option" where
  "getBigInt64 d off = map_option to_i64 (getBigUint64 d off)"

text \<open>\<open>d[i]\<close>: a byte as a number, or \<open>undefined\<close>.\<close>

definition js_at :: "buffer \<Rightarrow> nat \<Rightarrow> int option" where
  "js_at d i = (if i < length d then Some (uint (d ! i)) else None)"

lemmas getter_defs = getUint16_def getUint32_def getBigUint64_def getBigInt64_def

lemma to_i64_mod [wire]: "- (2 ^ 63) \<le> x \<Longrightarrow> x < 2 ^ 63 \<Longrightarrow> to_i64 (x mod 2 ^ 64) = x"
proof (cases "0 \<le> x")
  case True
  assume "- (2 ^ 63) \<le> x" and "x < 2 ^ 63"
  with True show ?thesis by (simp add: to_i64_def)
next
  case False
  assume "- (2 ^ 63) \<le> x" and "x < 2 ^ 63"
  with False have "(x + 2 ^ 64) mod 2 ^ 64 = x + 2 ^ 64"
    by (intro mod_pos_pos_trivial) simp_all
  then have "x mod 2 ^ 64 = x + 2 ^ 64" by simp
  with False \<open>- (2 ^ 63) \<le> x\<close> show ?thesis by (simp add: to_i64_def)
qed

lemma get_uint_None_iff: "get_uint n d off = None \<longleftrightarrow> length d < off + n"
  by (auto simp: get_uint_def)

lemma js_at_None_iff: "js_at d i = None \<longleftrightarrow> length d \<le> i"
  by (auto simp: js_at_def)

lemma js_at_subarray: "js_at d i = get_uint 1 d i"
  by (auto simp: js_at_def get_uint_def subarray_def take_Suc_conv_app_nth hd_drop_conv_nth
      simp flip: Suc_eq_plus1 dest!: Suc_le_lessD)

section \<open>The writers of the on-chain program\<close>

datatype LayoutError = SliceTooShort | InvalidBool | MathOverflow

definition write_bytes_at :: "buffer \<Rightarrow> nat \<Rightarrow> buffer \<Rightarrow> LayoutError + buffer" where
  "write_bytes_at d off bs =
     (if length d < off + length bs then Inl SliceTooShort else Inr (splice_at off bs d))"

definition write_u8_at :: "buffer \<Rightarrow> nat \<Rightarrow> byte \<Rightarrow> LayoutError + buffer" where
  "write_u8_at d off v =
     (if length d < off + 1 then Inl SliceTooShort else Inr (d[off := v]))"

definition write_u16_at :: "buffer \<Rightarrow> nat \<Rightarrow> 16 word \<Rightarrow> LayoutError + buffer" where
  "write_u16_at d off v =
     (if length d < off + 2 then Inl SliceTooShort else Inr (splice_at off (le_bytes 2 (uint v)) d))"

definition write_u32_at :: "buffer \<Rightarrow> nat \<Rightarrow> 32 word \<Rightarrow> LayoutError + buffer" where
  "write_u32_at d off v =
     (if length d < off + 4 then Inl SliceTooShort else Inr (splice_at off (le_bytes 4 (uint v)) d))"

definition write_u64_at :: "buffer \<Rightarrow> nat \<Rightarrow> 64 word \<Rightarrow> LayoutError + buffer" where
  "write_u64_at d off v =
     (if length d < off + 8 then Inl SliceTooShort else Inr (splice_at off (le_bytes 8 (uint v)) d))"

definition write_i64_at :: "buffer \<Rightarrow> nat \<Rightarrow> 64 word \<Rightarrow> LayoutError + buffer" where
  "write_i64_at d off v = write_u64_at d off v"

lemma list_update_splice: "off < length d \<Longrightarrow> d[off := v] = splice_at off [v] d"
  by (simp add: splice_at_def upd_conv_take_nth_drop)

lemma write_ok:
  "off + 1 \<le> length d \<Longrightarrow> write_u8_at d off v = Inr (splice_at off [v] d)"
  "off + 2 \<le> length d \<Longrightarrow> write_u16_at d off w16 = Inr (splice_at off (le_bytes 2 (uint w16)) d)"
  "off + 4 \<le> length d \<Longrightarrow> write_u32_at d off w32 = Inr (splice_at off (le_bytes 4 (uint w32)) d)"
  "off + 8 \<le> length d \<Longrightarrow> write_u64_at d off w64 = Inr (splice_at off (le_bytes 8 (uint w64)) d)"
  "off + 8 \<le> length d \<Longrightarrow> write_i64_at d off w64 = Inr (splice_at off (le_bytes 8 (uint w64)) d)"
  "off + length bs \<le> length d \<Longrightarrow> write_bytes_at d off bs = Inr (splice_at off bs d)"
  by (simp_all add: write_u8_at_def write_u16_at_def write_u32_at_def write_u64_at_def
      write_i64_at_def write_bytes_at_def list_update_splice)

section \<open>Reading back what was written\<close>

lemma get_uint_splice_same [wire]:
  "off + length bs \<le> length d \<Longrightarrow> length bs = n \<Longrightarrow> get_uint n (splice_at off bs d) off = Some (le_uint bs)"
  by (simp add: get_uint_def subarray_splice_same)

lemma get_uint_splice_other [wire]:
  "off + length bs \<le> length d \<Longrightarrow> i + n \<le> off \<or> off + length bs \<le> i \<Longrightarrow>
   get_uint n (splice_at off bs d) i = get_uint n d i"
  by (auto simp: get_uint_def subarray_splice_other)

lemma le_uint_le_bytes_word [wire]:
  "le_uint (le_bytes 1 (uint (v8 :: 8 word))) = uint v8"
  "le_uint (le_bytes 2 (uint (v16 :: 16 word))) = uint v16"
  "le_uint (le_bytes 4 (uint (v32 :: 32 word))) = uint v32"
  "le_uint (le_bytes 8 (uint (v64 :: 64 word))) = uint v64"
  using uint_lt2p [of v8] uint_lt2p [of v16] uint_lt2p [of v32] uint_lt2p [of v64]
  by (simp_all add: le_uint_le_bytes_mod)

lemma to_i64_uint [wire]: "to_i64 (uint (v :: 64 word)) = sint v"
proof -
  have b: "0 \<le> uint v" "uint v < 2 ^ 64" using uint_lt2p [of v] by simp_all
  have "sint v = (uint v + 2 ^ 63) mod 2 ^ 64 - 2 ^ 63"
    by (simp add: sint_uint signed_take_bit_eq_take_bit_shift take_bit_eq_mod)
  also have "\<dots> = to_i64 (uint v)"
  proof (cases "uint v < 2 ^ 63")
    case True
    with b show ?thesis by (simp add: to_i64_def)
  next
    case False
    then have "(uint v + 2 ^ 63) mod 2 ^ 64 = uint v + 2 ^ 63 - 2 ^ 64"
      using b by (subst mod_pos_geq) simp_all
    with False show ?thesis by (simp add: to_i64_def)
  qed
  finally show ?thesis by simp
qed

section \<open>A sequence of field writes\<close>

text \<open>
  A struct is written field by field at increasing offsets. \<open>writes\<close> is the resulting
  buffer, \<open>ordered\<close> says that the fields start at \<open>lo\<close>, do not overlap and end by
  \<open>hi\<close>; then a read that hits a field returns it and a read in a gap sees the old data.
\<close>

fun writes :: "(nat \<times> buffer) list \<Rightarrow> buffer \<Rightarrow> buffer" where
  "writes [] d = d"
| "writes ((off, bs) # ws) d = writes ws (splice_at off bs d)"

fun ordered :: "nat \<Rightarrow> nat \<Rightarrow> (nat \<times> buffer) list \<Rightarrow> bool" where
  "ordered lo hi [] = (lo \<le> hi)"
| "ordered lo hi ((off, bs) # ws) = (lo \<le> off \<and> ordered (off + length bs) hi ws)"

definition misses :: "nat \<Rightarrow> nat \<Rightarrow> (nat \<times> buffer) list \<Rightarrow> bool" where
  "misses a b ws \<longleftrightarrow> (\<forall>(off, bs) \<in> set ws. b \<le> off \<or> off + length bs \<le> a)"

lemma misses_simps [simp]:
  "misses a b []"
  "misses a b ((off, bs) # ws) \<longleftrightarrow> (b \<le> off \<or> off + length bs \<le> a) \<and> misses a b ws"
  by (simp_all add: misses_def)

lemma ordered_bounds: "ordered lo hi ws \<Longrightarrow> lo \<le> hi"
  by (induction lo hi ws rule: ordered.induct) auto

lemma ordered_misses: "ordered lo hi ws \<Longrightarrow> b \<le> lo \<Longrightarrow> misses a b ws"
  by (induction lo hi ws rule: ordered.induct) auto

lemma ordered_misses_after: "ordered lo hi ws \<Longrightarrow> hi \<le> a \<Longrightarrow> misses a b ws"
  by (induction lo hi ws rule: ordered.induct) (auto dest: ordered_bounds)

lemma length_writes: "ordered lo hi ws \<Longrightarrow> hi \<le> length d \<Longrightarrow> length (writes ws d) = length d"
proof (induction ws arbitrary: lo d)
  case Nil
  then show ?case by simp
next
  case (Cons w ws)
  obtain off bs where w: "w = (off, bs)" by (cases w)
  with Cons.prems have "off + length bs \<le> length d" "ordered (off + length bs) hi ws"
    by (auto dest: ordered_bounds)
  with Cons.IH [of "off + length bs" "splice_at off bs d"] Cons.prems w show ?case by simp
qed

lemma subarray_writes_miss:
  assumes "ordered lo hi ws" and "hi \<le> length d" and "misses a b ws"
    and "b \<le> length d \<or> hi \<le> a"
  shows "subarray (writes ws d) a b = subarray d a b"
  using assms
proof (induction ws arbitrary: lo d)
  case Nil
  then show ?case by simp
next
  case (Cons w ws)
  obtain off bs where w: "w = (off, bs)" by (cases w)
  with Cons.prems have o: "ordered (off + length bs) hi ws" and "off + length bs \<le> hi"
    by (auto dest: ordered_bounds)
  moreover from this Cons.prems w have "subarray (splice_at off bs d) a b = subarray d a b"
    by (auto simp: subarray_splice_other subarray_splice_after)
  ultimately show ?case using Cons w by simp
qed

lemma get_uint_writes_miss:
  assumes "ordered lo hi ws" and "hi \<le> length d" and "misses i (i + n) ws"
  shows "get_uint n (writes ws d) i = get_uint n d i"
  using assms by (auto simp: get_uint_def length_writes subarray_writes_miss)

lemma subarray_writes_hit:
  assumes "ordered lo hi ws" and "hi \<le> length d" and "(i, bs) \<in> set ws"
  shows "subarray (writes ws d) i (i + length bs) = bs"
  using assms
proof (induction ws arbitrary: lo d)
  case Nil
  then show ?case by simp
next
  case (Cons w ws)
  obtain off cs where w: "w = (off, cs)" by (cases w)
  with Cons.prems have o: "ordered (off + length cs) hi ws" and fit: "off + length cs \<le> length d"
    by (auto dest: ordered_bounds)
  show ?case
  proof (cases "(i, bs) = w")
    case True
    then have "subarray (writes ws (splice_at off cs d)) i (i + length bs) =
        subarray (splice_at off cs d) i (i + length bs)"
      using w fit Cons.prems(2) ordered_misses [OF o]
      by (intro subarray_writes_miss [OF o]) auto
    with True w fit show ?thesis by (simp add: subarray_splice_same)
  next
    case False
    with Cons.IH [OF o, of "splice_at off cs d"] Cons.prems fit w show ?thesis by auto
  qed
qed

lemma get_uint_writes_hit:
  assumes "ordered lo hi ws" and "hi \<le> length d" and "(i, bs) \<in> set ws" and "length bs = n"
  shows "get_uint n (writes ws d) i = Some (le_uint bs)"
proof -
  have "i + n \<le> hi" using assms(1,3,4)
    by (induction lo hi ws rule: ordered.induct) (auto dest: ordered_bounds)
  then show ?thesis
    using assms subarray_writes_hit [OF assms(1-3)] by (auto simp: get_uint_def length_writes)
qed

text \<open>A struct copied in one piece is the sequence of its fields.\<close>

fun fields_at :: "nat \<Rightarrow> buffer list \<Rightarrow> (nat \<times> buffer) list" where
  "fields_at off [] = []"
| "fields_at off (b # bs) = (off, b) # fields_at (off + length b) bs"

lemma fields_at_ordered: "ordered off (off + length (concat fs)) (fields_at off fs)"
proof (induction fs arbitrary: off)
  case (Cons b bs)
  from Cons [of "off + length b"] show ?case by (simp add: add.assoc)
qed simp

lemma splice_at_fields:
  "off + length (concat fs) \<le> length d \<Longrightarrow> splice_at off (concat fs) d = writes (fields_at off fs) d"
proof (induction fs arbitrary: off d)
  case Nil
  then show ?case by (simp add: splice_at_def)
next
  case (Cons b bs)
  then show ?case by (simp add: splice_at_append add.assoc)
qed

end
