(* ===== verification/Solana.thy ===== *)
theory Solana
  imports Wire
begin

text \<open>
  The Solana-facing constants and addresses of the three TypeScript programs:
  \<open>crank/src/constants.ts\<close>, \<open>src/lib/constants.ts\<close> with the address helpers of
  \<open>src/lib/program.ts\<close>, and the head of \<open>lib/api/actions-shared.ts\<close>.

  The packages \<open>@solana/web3.js\<close>, \<open>@solana/spl-token\<close> and \<open>bn.js\<close> are not part of the
  repository. What the sources call of them is the record \<open>sdk\<close>, an argument of every
  definition that needs it; the type of public keys is the type variable \<open>'pk\<close>.
\<close>

record 'pk sdk =
  newPublicKey :: "buffer \<Rightarrow> 'pk"
  toBuffer :: "'pk \<Rightarrow> buffer"
  toBase58 :: "'pk \<Rightarrow> string"
  parsePublicKey :: "string \<Rightarrow> 'pk option"
  findProgramAddress :: "buffer list \<Rightarrow> 'pk \<Rightarrow> 'pk"
  bnLe8 :: "int \<Rightarrow> buffer"
  getAssociatedTokenAddress :: "'pk \<Rightarrow> 'pk \<Rightarrow> bool \<Rightarrow> 'pk result"

definition pk_default :: "('pk, 'm) sdk_scheme \<Rightarrow> 'pk" where
  "pk_default sdk = newPublicKey sdk (replicate 32 0)"

definition buffer_from :: "string \<Rightarrow> buffer" where
  "buffer_from s = map (\<lambda>c. word_of_nat (of_char c)) s"

lemma length_buffer_from [simp]: "length (buffer_from s) = length s"
  by (simp add: buffer_from_def)

section \<open>Status codes\<close>

definition Open :: int where "Open = 0"
definition Locked :: int where "Locked = 1"
definition VrfRequested :: int where "VrfRequested = 2"
definition Settled :: int where "Settled = 3"
definition Claimed :: int where "Claimed = 4"
definition Cancelled :: int where "Cancelled = 5"

lemmas RoundStatus_defs = Open_def Locked_def VrfRequested_def Settled_def Claimed_def Cancelled_def

definition DC_VrfRequested :: int where "DC_VrfRequested = 1"
definition DC_VrfReady :: int where "DC_VrfReady = 2"
definition DC_Executing :: int where "DC_Executing = 3"
definition DC_ClaimedSwapped :: int where "DC_ClaimedSwapped = 4"
definition DC_ClaimedFallback :: int where "DC_ClaimedFallback = 5"

lemmas DegenClaimStatus_defs = DC_VrfRequested_def DC_VrfReady_def DC_Executing_def
  DC_ClaimedSwapped_def DC_ClaimedFallback_def

section \<open>Network configuration\<close>

type_synonym env = "string \<Rightarrow> string option"

record net_config =
  nc_programId :: string
  nc_usdcMint :: string
  nc_treasuryUsdcAta :: string
  nc_adminPubkey :: string

text \<open>\<open>process.env.X || "..."\<close>: an unset or empty variable takes the default.\<close>

definition env_or :: "string option \<Rightarrow> string \<Rightarrow> string" where
  "env_or v dflt = (case v of None \<Rightarrow> dflt | Some s \<Rightarrow> if s = [] then dflt else s)"

definition js_space :: "char \<Rightarrow> bool" where
  "js_space c \<longleftrightarrow> c \<in> {CHR '' '', CHR 0x09, CHR 0x0A, CHR 0x0B, CHR 0x0C, CHR 0x0D, CHR 0xA0}"

definition js_trim :: "string \<Rightarrow> string" where
  "js_trim s = rev (dropWhile js_space (rev (dropWhile js_space s)))"

definition js_lower_char :: "char \<Rightarrow> char" where
  "js_lower_char c = (let n = (of_char c :: nat) in if 65 \<le> n \<and> n \<le> 90 then char_of (n + 32) else c)"

definition js_lower :: "string \<Rightarrow> string" where
  "js_lower = map js_lower_char"

definition devnet_config :: net_config where
  "devnet_config = \<lparr>
     nc_programId = ''4PhNzNQ7XZAPrFmwcBFMe2ZY8ZaQWos8nJjcsjv1CHyh'',
     nc_usdcMint = ''GXJV8YiRpXpbUHdf3q6n4hEKNeBPXK9Kn9uGjm6gZksq'',
     nc_treasuryUsdcAta = ''HukbjaCBAJz5VmzkiDcpNjF2BUsxo8z9WwgSzHgGACMd'',
     nc_adminPubkey = ''B4RSFCHfHGspoXRu4FnfYXM6s7GEYkQfsJeDm9ABMzjJ''\<rparr>"

definition crank_config :: "env \<Rightarrow> net_config" where
  "crank_config env =
     (if env ''NETWORK'' = Some ''mainnet'' then
        \<lparr>nc_programId = env_or (env ''PROGRAM_ID'') ''3wi11KBqF3Qa7JPP6CH4AFrcXbvaYEXMsEr9cmWQy8Zj'',
         nc_usdcMint = ''EPjFWdd5AufqSSqeM2qN1xzybapC8G4wEGGkZwyTDt1v'',
         nc_treasuryUsdcAta = env_or (env ''TREASURY_ATA'') ''8dccLsxnj9jwfEeokJrQH2wioJz4sS3mEQGd3miWB5YE'',
         nc_adminPubkey = env_or (env ''ADMIN_PUBKEY'') ''D4DBCi5ASYf4EinyLJUsKbEzxYoNiAY9bY9aXeXh1ym''\<rparr>
      else devnet_config)"

record front_config = net_config +
  fc_feeBps :: int
  fc_roundDurationSec :: int
  fc_minParticipants :: int
  fc_minTotalTickets :: int

definition front_network_is_mainnet :: "env \<Rightarrow> bool" where
  "front_network_is_mainnet env \<longleftrightarrow>
     map_option (js_lower \<circ> js_trim) (env ''VITE_NETWORK'') = Some ''mainnet''"

definition front_constants :: "env \<Rightarrow> front_config" where
  "front_constants env =
     (if front_network_is_mainnet env then
        \<lparr>nc_programId = env_or (map_option js_trim (env ''VITE_PROGRAM_ID'')) ''3wi11KBqF3Qa7JPP6CH4AFrcXbvaYEXMsEr9cmWQy8Zj'',
         nc_usdcMint = ''EPjFWdd5AufqSSqeM2qN1xzybapC8G4wEGGkZwyTDt1v'',
         nc_treasuryUsdcAta = env_or (map_option js_trim (env ''VITE_TREASURY_ATA'')) ''8dccLsxnj9jwfEeokJrQH2wioJz4sS3mEQGd3miWB5YE'',
         nc_adminPubkey = env_or (map_option js_trim (env ''VITE_ADMIN_PUBKEY'')) ''D4DBCi5ASYf4EinyLJUsKbEzxYoNiAY9bY9aXeXh1ym'',
         fc_feeBps = 25, fc_roundDurationSec = 60, fc_minParticipants = 2, fc_minTotalTickets = 2\<rparr>
      else
        \<lparr>nc_programId = ''4PhNzNQ7XZAPrFmwcBFMe2ZY8ZaQWos8nJjcsjv1CHyh'',
         nc_usdcMint = ''GXJV8YiRpXpbUHdf3q6n4hEKNeBPXK9Kn9uGjm6gZksq'',
         nc_treasuryUsdcAta = ''HukbjaCBAJz5VmzkiDcpNjF2BUsxo8z9WwgSzHgGACMd'',
         nc_adminPubkey = ''B4RSFCHfHGspoXRu4FnfYXM6s7GEYkQfsJeDm9ABMzjJ'',
         fc_feeBps = 25, fc_roundDurationSec = 10, fc_minParticipants = 2, fc_minTotalTickets = 2\<rparr>)"

definition inferActionsNetwork_mainnet :: "env \<Rightarrow> string \<Rightarrow> bool" where
  "inferActionsNetwork_mainnet env rpc =
     (if env ''NETWORK'' = Some ''mainnet'' then True
      else if env ''NETWORK'' = Some ''devnet'' then False
      else \<not> js_includes (js_lower rpc) ''devnet'')"

text \<open>The Actions configuration has no admin key: programId, usdcMint, treasuryUsdcAta.\<close>

definition actions_config :: "env \<Rightarrow> string \<Rightarrow> string \<times> string \<times> string" where
  "actions_config env rpc =
     (if inferActionsNetwork_mainnet env rpc then
        (env_or (env ''PROGRAM_ID'') ''3wi11KBqF3Qa7JPP6CH4AFrcXbvaYEXMsEr9cmWQy8Zj'',
         ''EPjFWdd5AufqSSqeM2qN1xzybapC8G4wEGGkZwyTDt1v'',
         env_or (env ''TREASURY_ATA'') ''8dccLsxnj9jwfEeokJrQH2wioJz4sS3mEQGd3miWB5YE'')
      else
        (''4PhNzNQ7XZAPrFmwcBFMe2ZY8ZaQWos8nJjcsjv1CHyh'',
         ''GXJV8YiRpXpbUHdf3q6n4hEKNeBPXK9Kn9uGjm6gZksq'',
         ''HukbjaCBAJz5VmzkiDcpNjF2BUsxo8z9WwgSzHgGACMd''))"

text \<open>The keys a module builds from its configuration when it is loaded.\<close>

record 'pk net =
  PROGRAM_ID :: 'pk
  USDC_MINT :: 'pk
  TREASURY_USDC_ATA :: 'pk

definition net_of_config :: "('pk, 'm) sdk_scheme \<Rightarrow> ('n) net_config_scheme \<Rightarrow> 'pk net option" where
  "net_of_config sdk c =
     do { p \<leftarrow> parsePublicKey sdk (nc_programId c);
          u \<leftarrow> parsePublicKey sdk (nc_usdcMint c);
          t \<leftarrow> parsePublicKey sdk (nc_treasuryUsdcAta c);
          Some \<lparr>PROGRAM_ID = p, USDC_MINT = u, TREASURY_USDC_ATA = t\<rparr> }"

section \<open>Program-derived addresses\<close>

definition SEED_CFG :: buffer where "SEED_CFG = buffer_from ''cfg''"
definition SEED_ROUND :: buffer where "SEED_ROUND = buffer_from ''round''"
definition SEED_PARTICIPANT :: buffer where "SEED_PARTICIPANT = buffer_from ''p''"
definition SEED_DEGEN_CLAIM :: buffer where "SEED_DEGEN_CLAIM = buffer_from ''degen_claim''"
definition SEED_DEGEN_CFG :: buffer where "SEED_DEGEN_CFG = buffer_from ''degen_cfg''"

definition getConfigPda :: "('pk, 'm) sdk_scheme \<Rightarrow> 'pk net \<Rightarrow> 'pk" where
  "getConfigPda sdk net = findProgramAddress sdk [SEED_CFG] (PROGRAM_ID net)"

definition getRoundPda :: "('pk, 'm) sdk_scheme \<Rightarrow> 'pk net \<Rightarrow> int \<Rightarrow> 'pk" where
  "getRoundPda sdk net roundId =
     findProgramAddress sdk [SEED_ROUND, bnLe8 sdk roundId] (PROGRAM_ID net)"

definition getParticipantPda :: "('pk, 'm) sdk_scheme \<Rightarrow> 'pk net \<Rightarrow> 'pk \<Rightarrow> 'pk \<Rightarrow> 'pk" where
  "getParticipantPda sdk net round user =
     findProgramAddress sdk [SEED_PARTICIPANT, toBuffer sdk round, toBuffer sdk user] (PROGRAM_ID net)"

definition getDegenClaimPda :: "('pk, 'm) sdk_scheme \<Rightarrow> 'pk net \<Rightarrow> int \<Rightarrow> 'pk \<Rightarrow> 'pk" where
  "getDegenClaimPda sdk net roundId winner =
     findProgramAddress sdk [SEED_DEGEN_CLAIM, bnLe8 sdk roundId, toBuffer sdk winner] (PROGRAM_ID net)"

definition getDegenConfigPda :: "('pk, 'm) sdk_scheme \<Rightarrow> 'pk net \<Rightarrow> 'pk" where
  "getDegenConfigPda sdk net = findProgramAddress sdk [SEED_DEGEN_CFG] (PROGRAM_ID net)"

definition getIdentityPda :: "('pk, 'm) sdk_scheme \<Rightarrow> 'pk net \<Rightarrow> 'pk" where
  "getIdentityPda sdk net = findProgramAddress sdk [buffer_from ''identity''] (PROGRAM_ID net)"

lemmas pda_defs = getConfigPda_def getRoundPda_def getParticipantPda_def getDegenClaimPda_def
  getDegenConfigPda_def getIdentityPda_def

text \<open>
  What the packages document of themselves, as named hypotheses: a key is 32 bytes and its
  bytes determine it; \<open>BN.toArrayLike\<close> gives the eight little-endian bytes of a safe
  non-negative integer. An address is a hash of the program and the \<^emph>\<open>concatenated\<close> seeds:
  nothing separates one seed from the next.
\<close>

definition keys_are_32_bytes :: "('pk, 'm) sdk_scheme \<Rightarrow> bool" where
  "keys_are_32_bytes sdk \<longleftrightarrow> inj (toBuffer sdk) \<and> (\<forall>k. length (toBuffer sdk k) = 32)"

definition bn_le8_spec :: "('pk, 'm) sdk_scheme \<Rightarrow> bool" where
  "bn_le8_spec sdk \<longleftrightarrow> (\<forall>n. 0 \<le> n \<longrightarrow> n < 2 ^ 53 \<longrightarrow> bnLe8 sdk n = le_bytes 8 n)"

lemma le_bytes8_eq_iff:
  assumes "0 \<le> a" "a < 2 ^ 53" "0 \<le> b" "b < 2 ^ 53"
  shows "le_bytes 8 a = le_bytes 8 b \<longleftrightarrow> a = b"
proof
  have "le_uint (le_bytes 8 a) = a" by (rule le_uint_le_bytes) (use assms in simp_all)
  moreover have "le_uint (le_bytes 8 b) = b" by (rule le_uint_le_bytes) (use assms in simp_all)
  moreover assume "le_bytes 8 a = le_bytes 8 b"
  ultimately show "a = b" by metis
qed simp

datatype 'pk pda =
    ConfigPda | RoundPda int | ParticipantPda 'pk 'pk | DegenClaimPda int 'pk
  | DegenConfigPda | IdentityPda

fun pda_address :: "('pk, 'm) sdk_scheme \<Rightarrow> 'pk net \<Rightarrow> 'pk pda \<Rightarrow> 'pk" where
  "pda_address sdk net ConfigPda = getConfigPda sdk net"
| "pda_address sdk net (RoundPda r) = getRoundPda sdk net r"
| "pda_address sdk net (ParticipantPda r u) = getParticipantPda sdk net r u"
| "pda_address sdk net (DegenClaimPda r w) = getDegenClaimPda sdk net r w"
| "pda_address sdk net DegenConfigPda = getDegenConfigPda sdk net"
| "pda_address sdk net IdentityPda = getIdentityPda sdk net"

fun pda_seeds :: "('pk, 'm) sdk_scheme \<Rightarrow> 'pk pda \<Rightarrow> buffer list" where
  "pda_seeds sdk ConfigPda = [SEED_CFG]"
| "pda_seeds sdk (RoundPda r) = [SEED_ROUND, bnLe8 sdk r]"
| "pda_seeds sdk (ParticipantPda r u) = [SEED_PARTICIPANT, toBuffer sdk r, toBuffer sdk u]"
| "pda_seeds sdk (DegenClaimPda r w) = [SEED_DEGEN_CLAIM, bnLe8 sdk r, toBuffer sdk w]"
| "pda_seeds sdk DegenConfigPda = [SEED_DEGEN_CFG]"
| "pda_seeds sdk IdentityPda = [buffer_from ''identity'']"

fun pda_safe :: "'pk pda \<Rightarrow> bool" where
  "pda_safe (RoundPda r) = (0 \<le> r \<and> r < 2 ^ 53)"
| "pda_safe (DegenClaimPda r w) = (0 \<le> r \<and> r < 2 ^ 53)"
| "pda_safe _ = True"

lemma pda_address_seeds:
  "pda_address sdk net a = findProgramAddress sdk (pda_seeds sdk a) (PROGRAM_ID net)"
  by (cases a) (simp_all add: pda_defs)

lemmas SEED_defs = SEED_CFG_def SEED_ROUND_def SEED_PARTICIPANT_def SEED_DEGEN_CLAIM_def
  SEED_DEGEN_CFG_def

text \<open>The concatenated seeds of the six families have six different lengths.\<close>

fun pda_seed_length :: "'pk pda \<Rightarrow> nat" where
  "pda_seed_length ConfigPda = 3"
| "pda_seed_length (RoundPda r) = 13"
| "pda_seed_length (ParticipantPda r u) = 65"
| "pda_seed_length (DegenClaimPda r w) = 51"
| "pda_seed_length DegenConfigPda = 9"
| "pda_seed_length IdentityPda = 8"

lemma length_pda_seeds:
  assumes "keys_are_32_bytes sdk" and "bn_le8_spec sdk" and "pda_safe a"
  shows "length (concat (pda_seeds sdk a)) = pda_seed_length a"
  using assms by (cases a) (auto simp: SEED_defs keys_are_32_bytes_def bn_le8_spec_def)

lemma pda_seeds_inj:
  assumes sdk: "keys_are_32_bytes sdk" "bn_le8_spec sdk" and safe: "pda_safe a" "pda_safe b"
    and eq: "concat (pda_seeds sdk a) = concat (pda_seeds sdk b)"
  shows "a = b"
proof -
  have bn: "bnLe8 sdk n = le_bytes 8 n" if "0 \<le> n" "n < 2 ^ 53" for n
    using sdk(2) that by (simp add: bn_le8_spec_def)
  have len: "length (toBuffer sdk k) = 32" for k using sdk(1) by (simp add: keys_are_32_bytes_def)
  have inj: "toBuffer sdk k = toBuffer sdk k' \<longleftrightarrow> k = k'" for k k'
    using sdk(1) by (auto simp: keys_are_32_bytes_def inj_eq)
  have "pda_seed_length a = pda_seed_length b"
    using length_pda_seeds [OF sdk safe(1)] length_pda_seeds [OF sdk safe(2)] eq by simp
  then show ?thesis
    using eq safe by (cases a; cases b) (simp_all add: bn len inj le_bytes8_eq_iff)
qed

section \<open>Properties\<close>

text \<open>
  Domain separation of the on-chain addresses: the program-derived address hashes the
  seeds without separators, and still two different addresses the code derives (of any of the
  families configuration, round, participant, degen claim, degen configuration, identity, with
  any round numbers and keys) come from different hash inputs, so they only coincide on a
  collision of the hash itself.
\<close>

theorem pda_domain_separation:
  assumes "keys_are_32_bytes sdk" and "bn_le8_spec sdk"
    and "pda_safe a" and "pda_safe b" and "a \<noteq> b"
  shows "pda_address sdk net a = findProgramAddress sdk (pda_seeds sdk a) (PROGRAM_ID net) \<and>
    pda_address sdk net b = findProgramAddress sdk (pda_seeds sdk b) (PROGRAM_ID net) \<and>
    concat (pda_seeds sdk a) \<noteq> concat (pda_seeds sdk b)"
  using pda_seeds_inj [OF assms(1-4)] assms(5) pda_address_seeds by blast

text \<open>A concrete package interface: keys are 256-bit words, addresses and strings trivial.\<close>

definition demo_sdk :: "(256 word) sdk" where
  "demo_sdk = \<lparr>
     newPublicKey = (\<lambda>bs. word_of_int (le_uint bs)),
     toBuffer = (\<lambda>k. le_bytes 32 (uint k)),
     toBase58 = (\<lambda>k. js_string (uint k)),
     parsePublicKey = (\<lambda>s. Some (word_of_int (le_uint (buffer_from s)))),
     findProgramAddress = (\<lambda>ss p. word_of_int (le_uint (concat ss) + uint p)),
     bnLe8 = le_bytes 8,
     getAssociatedTokenAddress = (\<lambda>m own _. Inr (m + 3 * own))\<rparr>"

lemma demo_sdk_keys: "keys_are_32_bytes demo_sdk"
proof -
  have "inj (\<lambda>k :: 256 word. le_bytes 32 (uint k))"
  proof (rule injI)
    fix k k' :: "256 word"
    assume eq: "le_bytes 32 (uint k) = le_bytes 32 (uint k')"
    have "le_uint (le_bytes 32 (uint w)) = uint w" for w :: "256 word"
      using uint_lt2p [of w] by (intro le_uint_le_bytes) simp_all
    with eq show "k = k'" by (metis word_uint_eq_iff)
  qed
  then show ?thesis by (simp add: keys_are_32_bytes_def demo_sdk_def)
qed

lemma demo_sdk_bn: "bn_le8_spec demo_sdk"
  by (simp add: bn_le8_spec_def demo_sdk_def)

theorem pda_domain_separation_witness:
  "concat (pda_seeds demo_sdk (RoundPda 7)) \<noteq> concat (pda_seeds demo_sdk (DegenClaimPda 7 (5 :: 256 word)))"
proof -
  have "pda_safe (RoundPda 7 :: (256 word) pda)" "pda_safe (DegenClaimPda 7 (5 :: 256 word))"
    "RoundPda 7 \<noteq> DegenClaimPda 7 (5 :: 256 word)" by simp_all
  from pda_domain_separation [OF demo_sdk_keys demo_sdk_bn this] show ?thesis by blast
qed

end
