(* ===== verification/Layouts.thy ===== *)
theory Layouts
  imports Solana
begin

text \<open>
  The account layouts, read by the TypeScript programs and written by the on-chain program.

  Readers: \<open>parseRound\<close> and \<open>parseParticipant\<close> of \<open>crank/src/parser.ts\<close> and their
  counterparts of \<open>src/lib/program.ts\<close> (suffix \<open>_front\<close>), \<open>parseConfig\<close> of
  \<open>lib/api/actions-shared.ts\<close>, and the partial readers of \<open>crank/src/degenLogic.ts\<close>.
  \<^const>\<open>None\<close> is the \<open>RangeError\<close> a \<open>DataView\<close> getter throws. \<open>d[i]\<close> does not
  throw; where it precedes a getter that needs a longer buffer the model reads it in the
  same monad, which returns the same value on every buffer, and where it does not
  (\<open>degenModeStatus\<close>, \<open>vrfReimbursed\<close>) the field itself is optional.

  Writers: the \<open>write_to_account_data\<close> functions of
  \<open>jackpot_pinocchio_poc/src/legacy_layouts.rs\<close>.
\<close>

section \<open>Readers\<close>

record 'pk RoundData =
  rd_roundId :: int
  rd_status :: int
  rd_bump :: int
  rd_startTs :: int
  rd_endTs :: int
  rd_firstDepositTs :: int
  rd_vaultUsdcAta :: 'pk
  rd_totalUsdc :: int
  rd_totalTickets :: int
  rd_participantsCount :: int
  rd_randomness :: buffer
  rd_winningTicket :: int
  rd_winner :: 'pk
  rd_participants :: "'pk list"
  rd_vrfPayer :: 'pk

record 'pk FrontRoundData = "'pk RoundData" +
  rd_degenModeStatus :: "int option"
  rd_vrfReimbursed :: "int option"

record 'pk ParticipantData =
  pd_round :: 'pk
  pd_user :: 'pk
  pd_index :: int
  pd_bump :: int
  pd_ticketsTotal :: int
  pd_usdcTotal :: int
  pd_depositsCount :: int

abbreviation DISC :: nat where "DISC \<equiv> 8"

definition parse_participants :: "('pk, 'm) sdk_scheme \<Rightarrow> buffer \<Rightarrow> int \<Rightarrow> 'pk list" where
  "parse_participants sdk d count =
     (let pOff = DISC + 168 in
      map (\<lambda>i. let s = pOff + i * 32 in newPublicKey sdk (subarray d s (s + 32))) [0..<nat count])"

definition parseRound :: "('pk, 'm) sdk_scheme \<Rightarrow> buffer \<Rightarrow> 'pk RoundData option" where
  "parseRound sdk d =
     do { roundId \<leftarrow> getBigUint64 d (DISC + 0);
          status \<leftarrow> js_at d (DISC + 8);
          bump \<leftarrow> js_at d (DISC + 9);
          startTs \<leftarrow> getBigInt64 d (DISC + 16);
          endTs \<leftarrow> getBigInt64 d (DISC + 24);
          firstDepositTs \<leftarrow> getBigInt64 d (DISC + 32);
          let vaultUsdcAta = newPublicKey sdk (subarray d (DISC + 40) (DISC + 72));
          totalUsdc \<leftarrow> getBigUint64 d (DISC + 72);
          totalTickets \<leftarrow> getBigUint64 d (DISC + 80);
          participantsCount \<leftarrow> getUint16 d (DISC + 88);
          let randomness = subarray d (DISC + 96) (DISC + 128);
          winningTicket \<leftarrow> getBigUint64 d (DISC + 128);
          let winner = newPublicKey sdk (subarray d (DISC + 136) (DISC + 168));
          let participants = parse_participants sdk d participantsCount;
          let vrfPayer = newPublicKey sdk (subarray d (DISC + 8176) (DISC + 8208));
          Some \<lparr>rd_roundId = roundId, rd_status = status, rd_bump = bump, rd_startTs = startTs,
            rd_endTs = endTs, rd_firstDepositTs = firstDepositTs, rd_vaultUsdcAta = vaultUsdcAta,
            rd_totalUsdc = totalUsdc, rd_totalTickets = totalTickets,
            rd_participantsCount = participantsCount, rd_randomness = randomness,
            rd_winningTicket = winningTicket, rd_winner = winner,
            rd_participants = participants, rd_vrfPayer = vrfPayer\<rparr> }"

definition parseRound_front :: "('pk, 'm) sdk_scheme \<Rightarrow> buffer \<Rightarrow> 'pk FrontRoundData option" where
  "parseRound_front sdk d =
     do { roundId \<leftarrow> getBigUint64 d (DISC + 0);
          status \<leftarrow> js_at d (DISC + 8);
          let degenModeStatus = js_at d (DISC + 8209);
          bump \<leftarrow> js_at d (DISC + 9);
          startTs \<leftarrow> getBigInt64 d (DISC + 16);
          endTs \<leftarrow> getBigInt64 d (DISC + 24);
          firstDepositTs \<leftarrow> getBigInt64 d (DISC + 32);
          let vaultUsdcAta = newPublicKey sdk (subarray d (DISC + 40) (DISC + 72));
          totalUsdc \<leftarrow> getBigUint64 d (DISC + 72);
          totalTickets \<leftarrow> getBigUint64 d (DISC + 80);
          participantsCount \<leftarrow> getUint16 d (DISC + 88);
          let randomness = subarray d (DISC + 96) (DISC + 128);
          winningTicket \<leftarrow> getBigUint64 d (DISC + 128);
          let winner = newPublicKey sdk (subarray d (DISC + 136) (DISC + 168));
          let pOff = DISC + 168;
          let participants = map (\<lambda>i. let s = pOff + i * 32 in
                newPublicKey sdk (subarray d s (s + 32))) [0..<nat participantsCount];
          let vrfPayer = newPublicKey sdk (subarray d (DISC + 8176) (DISC + 8208));
          let vrfReimbursed = js_at d (DISC + 8208);
          Some \<lparr>rd_roundId = roundId, rd_status = status, rd_bump = bump, rd_startTs = startTs,
            rd_endTs = endTs, rd_firstDepositTs = firstDepositTs, rd_vaultUsdcAta = vaultUsdcAta,
            rd_totalUsdc = totalUsdc, rd_totalTickets = totalTickets,
            rd_participantsCount = participantsCount, rd_randomness = randomness,
            rd_winningTicket = winningTicket, rd_winner = winner,
            rd_participants = participants, rd_vrfPayer = vrfPayer,
            rd_degenModeStatus = degenModeStatus, rd_vrfReimbursed = vrfReimbursed\<rparr> }"

definition parseParticipant :: "('pk, 'm) sdk_scheme \<Rightarrow> buffer \<Rightarrow> 'pk ParticipantData option" where
  "parseParticipant sdk d =
     do { let round = newPublicKey sdk (subarray d (DISC + 0) (DISC + 32));
          let user = newPublicKey sdk (subarray d (DISC + 32) (DISC + 64));
          index \<leftarrow> getUint16 d (DISC + 64);
          bump \<leftarrow> js_at d (DISC + 66);
          ticketsTotal \<leftarrow> getBigUint64 d (DISC + 67);
          usdcTotal \<leftarrow> getBigUint64 d (DISC + 75);
          depositsCount \<leftarrow> getUint32 d (DISC + 83);
          Some \<lparr>pd_round = round, pd_user = user, pd_index = index, pd_bump = bump,
            pd_ticketsTotal = ticketsTotal, pd_usdcTotal = usdcTotal,
            pd_depositsCount = depositsCount\<rparr> }"

text \<open>The front end walks the same fields with a running offset.\<close>

definition parseParticipant_front :: "('pk, 'm) sdk_scheme \<Rightarrow> buffer \<Rightarrow> 'pk ParticipantData option" where
  "parseParticipant_front sdk d =
     (let off0 = DISC;
          round = newPublicKey sdk (subarray d off0 (off0 + 32)); off1 = off0 + 32;
          user = newPublicKey sdk (subarray d off1 (off1 + 32)); off2 = off1 + 32
      in do { index \<leftarrow> getUint16 d off2; let off3 = off2 + 2;
              bump \<leftarrow> js_at d off3; let off4 = off3 + 1;
              ticketsTotal \<leftarrow> getBigUint64 d off4; let off5 = off4 + 8;
              usdcTotal \<leftarrow> getBigUint64 d off5; let off6 = off5 + 8;
              depositsCount \<leftarrow> getUint32 d off6;
              Some \<lparr>pd_round = round, pd_user = user, pd_index = index, pd_bump = bump,
                pd_ticketsTotal = ticketsTotal, pd_usdcTotal = usdcTotal,
                pd_depositsCount = depositsCount\<rparr> })"

record 'pk ParsedConfig =
  cf_admin :: 'pk
  cf_usdcMint :: 'pk
  cf_treasuryUsdcAta :: 'pk
  cf_feeBps :: int
  cf_ticketUnit :: int
  cf_roundDurationSec :: int
  cf_minParticipants :: int
  cf_minTotalTickets :: int
  cf_paused :: bool
  cf_bump :: int
  cf_maxDepositPerUser :: int

definition parseConfig :: "('pk, 'm) sdk_scheme \<Rightarrow> buffer \<Rightarrow> 'pk ParsedConfig option" where
  "parseConfig sdk d =
     do { let admin = newPublicKey sdk (subarray d (DISC + 0) (DISC + 32));
          let usdcMint = newPublicKey sdk (subarray d (DISC + 32) (DISC + 64));
          let treasuryUsdcAta = newPublicKey sdk (subarray d (DISC + 64) (DISC + 96));
          feeBps \<leftarrow> getUint16 d (DISC + 96);
          ticketUnit \<leftarrow> getBigUint64 d (DISC + 98);
          roundDurationSec \<leftarrow> getUint32 d (DISC + 106);
          minParticipants \<leftarrow> getUint16 d (DISC + 110);
          minTotalTickets \<leftarrow> getBigUint64 d (DISC + 112);
          paused \<leftarrow> map_option (\<lambda>b. b \<noteq> 0) (js_at d (DISC + 120));
          bump \<leftarrow> js_at d (DISC + 121);
          maxDepositPerUser \<leftarrow> getBigUint64 d (DISC + 122);
          Some \<lparr>cf_admin = admin, cf_usdcMint = usdcMint, cf_treasuryUsdcAta = treasuryUsdcAta,
            cf_feeBps = feeBps, cf_ticketUnit = ticketUnit, cf_roundDurationSec = roundDurationSec,
            cf_minParticipants = minParticipants, cf_minTotalTickets = minTotalTickets,
            cf_paused = paused, cf_bump = bump, cf_maxDepositPerUser = maxDepositPerUser\<rparr> }"

record RoundMeta =
  rm_status :: "int option"
  rm_totalUsdc :: int
  rm_degenModeStatus :: "int option"

definition parseRoundMeta :: "buffer \<Rightarrow> RoundMeta option" where
  "parseRoundMeta d =
     do { totalUsdc \<leftarrow> getBigUint64 d (DISC + 72);
          Some \<lparr>rm_status = js_at d (DISC + 8), rm_totalUsdc = totalUsdc,
                rm_degenModeStatus = js_at d (DISC + 8209)\<rparr> }"

definition parseRoundVrfPayer :: "('pk, 'm) sdk_scheme \<Rightarrow> buffer \<Rightarrow> 'pk option" where
  "parseRoundVrfPayer sdk d =
     (let vrfPayer = newPublicKey sdk (subarray d (DISC + 8176) (DISC + 8176 + 32)) in
      if vrfPayer = pk_default sdk then None
      else let reimbursed = js_at d (DISC + 8208) in
        if reimbursed \<noteq> Some 0 then None else Some vrfPayer)"

definition parseConfigFeeBps :: "buffer \<Rightarrow> int option" where
  "parseConfigFeeBps d = getUint16 d (DISC + 96)"

section \<open>Writers of the on-chain program\<close>

record RoundLifecycleView =
  rl_round_id :: "64 word"
  rl_status :: "8 word"
  rl_bump :: "8 word"
  rl_start_ts :: "64 word"
  rl_end_ts :: "64 word"
  rl_first_deposit_ts :: "64 word"
  rl_total_usdc :: "64 word"
  rl_total_tickets :: "64 word"
  rl_participants_count :: "16 word"

abbreviation ROUND_ACCOUNT_LEN :: nat where "ROUND_ACCOUNT_LEN \<equiv> 8248"
abbreviation PARTICIPANT_ACCOUNT_LEN :: nat where "PARTICIPANT_ACCOUNT_LEN \<equiv> 111"
abbreviation CONFIG_ACCOUNT_LEN :: nat where "CONFIG_ACCOUNT_LEN \<equiv> 162"

text \<open>\<open>write_body\<close> works on the slice behind the discriminator; the model adds its length to
  the offsets of the whole account.\<close>

definition RoundLifecycle_write :: "RoundLifecycleView \<Rightarrow> buffer \<Rightarrow> LayoutError + buffer" where
  "RoundLifecycle_write v d =
     (if length d < ROUND_ACCOUNT_LEN then Inl SliceTooShort
      else and_then (write_u64_at d (DISC + 0) (rl_round_id v)) (\<lambda>d.
           and_then (write_u8_at d (DISC + 8) (rl_status v)) (\<lambda>d.
           and_then (write_u8_at d (DISC + 9) (rl_bump v)) (\<lambda>d.
           and_then (write_i64_at d (DISC + 16) (rl_start_ts v)) (\<lambda>d.
           and_then (write_i64_at d (DISC + 24) (rl_end_ts v)) (\<lambda>d.
           and_then (write_i64_at d (DISC + 32) (rl_first_deposit_ts v)) (\<lambda>d.
           and_then (write_u64_at d (DISC + 72) (rl_total_usdc v)) (\<lambda>d.
           and_then (write_u64_at d (DISC + 80) (rl_total_tickets v)) (\<lambda>d.
                     write_u16_at d (DISC + 88) (rl_participants_count v))))))))))"

record ParticipantView =
  pv_round :: buffer
  pv_user :: buffer
  pv_index :: "16 word"
  pv_bump :: "8 word"
  pv_tickets_total :: "64 word"
  pv_usdc_total :: "64 word"
  pv_deposits_count :: "32 word"
  pv_reserved :: buffer

definition ParticipantView_write :: "ParticipantView \<Rightarrow> buffer \<Rightarrow> LayoutError + buffer" where
  "ParticipantView_write v d =
     (if length d < PARTICIPANT_ACCOUNT_LEN then Inl SliceTooShort
      else Inr (splice_at DISC
        (pv_round v @ pv_user v @ le_bytes 2 (uint (pv_index v)) @ [pv_bump v] @
         le_bytes 8 (uint (pv_tickets_total v)) @ le_bytes 8 (uint (pv_usdc_total v)) @
         le_bytes 4 (uint (pv_deposits_count v)) @ pv_reserved v) d))"

record ConfigView =
  cv_admin :: buffer
  cv_usdc_mint :: buffer
  cv_treasury_usdc_ata :: buffer
  cv_fee_bps :: "16 word"
  cv_ticket_unit :: "64 word"
  cv_round_duration_sec :: "32 word"
  cv_min_participants :: "16 word"
  cv_min_total_tickets :: "64 word"
  cv_paused :: bool
  cv_bump :: "8 word"
  cv_max_deposit_per_user :: "64 word"
  cv_reserved :: buffer

definition ConfigView_write :: "ConfigView \<Rightarrow> buffer \<Rightarrow> LayoutError + buffer" where
  "ConfigView_write v d =
     (if length d < CONFIG_ACCOUNT_LEN then Inl SliceTooShort
      else Inr (splice_at DISC
        (cv_admin v @ cv_usdc_mint v @ cv_treasury_usdc_ata v @ le_bytes 2 (uint (cv_fee_bps v)) @
         le_bytes 8 (uint (cv_ticket_unit v)) @ le_bytes 4 (uint (cv_round_duration_sec v)) @
         le_bytes 2 (uint (cv_min_participants v)) @ le_bytes 8 (uint (cv_min_total_tickets v)) @
         [if cv_paused v then 1 else 0] @ [cv_bump v] @
         le_bytes 8 (uint (cv_max_deposit_per_user v)) @ cv_reserved v) d))"

text \<open>The fixed-size arrays of the Rust structs.\<close>

definition participant_view_ok :: "ParticipantView \<Rightarrow> bool" where
  "participant_view_ok v \<longleftrightarrow>
     length (pv_round v) = 32 \<and> length (pv_user v) = 32 \<and> length (pv_reserved v) = 16"

definition config_view_ok :: "ConfigView \<Rightarrow> bool" where
  "config_view_ok v \<longleftrightarrow> length (cv_admin v) = 32 \<and> length (cv_usdc_mint v) = 32 \<and>
     length (cv_treasury_usdc_ata v) = 32 \<and> length (cv_reserved v) = 24"

section \<open>Properties\<close>

definition round_writes :: "RoundLifecycleView \<Rightarrow> (nat \<times> buffer) list" where
  "round_writes v =
     [(8, le_bytes 8 (uint (rl_round_id v))), (16, [rl_status v]), (17, [rl_bump v]),
      (24, le_bytes 8 (uint (rl_start_ts v))), (32, le_bytes 8 (uint (rl_end_ts v))),
      (40, le_bytes 8 (uint (rl_first_deposit_ts v))), (80, le_bytes 8 (uint (rl_total_usdc v))),
      (88, le_bytes 8 (uint (rl_total_tickets v))), (96, le_bytes 2 (uint (rl_participants_count v)))]"

lemma RoundLifecycle_write_writes:
  "ROUND_ACCOUNT_LEN \<le> length d \<Longrightarrow> RoundLifecycle_write v d = Inr (writes (round_writes v) d)"
  by (simp add: RoundLifecycle_write_def write_ok round_writes_def)

lemma round_writes_ordered: "ordered 8 98 (round_writes v)"
  by (simp add: round_writes_def)

lemma round_writes_misses:
  "48 \<le> a \<Longrightarrow> b \<le> 80 \<Longrightarrow> misses a b (round_writes v)"
  "98 \<le> a \<Longrightarrow> misses a b (round_writes v)"
  by (simp_all add: round_writes_def)

lemmas round_hit = get_uint_writes_hit [OF round_writes_ordered]
  and round_miss = get_uint_writes_miss [OF round_writes_ordered]
    subarray_writes_miss [OF round_writes_ordered] round_writes_misses

lemma parse_participants_writes:
  "ROUND_ACCOUNT_LEN \<le> length d \<Longrightarrow>
   parse_participants sdk (writes (round_writes v) d) n = parse_participants sdk d n"
  by (simp add: parse_participants_def Let_def round_miss)

lemmas reader_defs = getter_defs js_at_subarray

text \<open>
  C6. What the on-chain program writes into a Round account with
  \<open>RoundLifecycleView::write_to_account_data\<close>, the crank reads back with \<open>parseRound\<close>:
  every lifecycle field with its width and sign, and every other field (vault, randomness,
  winning ticket, winner, participants, VRF payer) as it was in the account before.
\<close>

theorem parseRound_after_write:
  assumes "ROUND_ACCOUNT_LEN \<le> length d"
  shows "\<exists>d'. RoundLifecycle_write v d = Inr d' \<and> length d' = length d \<and>
    parseRound sdk d' = Some
      \<lparr>rd_roundId = uint (rl_round_id v), rd_status = uint (rl_status v), rd_bump = uint (rl_bump v),
       rd_startTs = sint (rl_start_ts v), rd_endTs = sint (rl_end_ts v),
       rd_firstDepositTs = sint (rl_first_deposit_ts v),
       rd_vaultUsdcAta = newPublicKey sdk (subarray d (DISC + 40) (DISC + 72)),
       rd_totalUsdc = uint (rl_total_usdc v), rd_totalTickets = uint (rl_total_tickets v),
       rd_participantsCount = uint (rl_participants_count v),
       rd_randomness = subarray d (DISC + 96) (DISC + 128),
       rd_winningTicket = le_uint (subarray d (DISC + 128) (DISC + 136)),
       rd_winner = newPublicKey sdk (subarray d (DISC + 136) (DISC + 168)),
       rd_participants = parse_participants sdk d (uint (rl_participants_count v)),
       rd_vrfPayer = newPublicKey sdk (subarray d (DISC + 8176) (DISC + 8208))\<rparr>"
proof -
  have rd: "get_uint 8 (writes (round_writes v) d) 8 = Some (uint (rl_round_id v))"
    "get_uint 1 (writes (round_writes v) d) 16 = Some (uint (rl_status v))"
    "get_uint 1 (writes (round_writes v) d) 17 = Some (uint (rl_bump v))"
    "get_uint 8 (writes (round_writes v) d) 24 = Some (uint (rl_start_ts v))"
    "get_uint 8 (writes (round_writes v) d) 32 = Some (uint (rl_end_ts v))"
    "get_uint 8 (writes (round_writes v) d) 40 = Some (uint (rl_first_deposit_ts v))"
    "get_uint 8 (writes (round_writes v) d) 80 = Some (uint (rl_total_usdc v))"
    "get_uint 8 (writes (round_writes v) d) 88 = Some (uint (rl_total_tickets v))"
    "get_uint 2 (writes (round_writes v) d) 96 = Some (uint (rl_participants_count v))"
    using assms
    by (simp_all add: round_hit [of _ _ "le_bytes n x" for n x] round_hit [of _ _ "[x]" for x] round_writes_def wire)
  have old: "get_uint 8 (writes (round_writes v) d) 136 = Some (le_uint (subarray d 136 144))"
    using assms by (simp only: get_uint_writes_miss [OF round_writes_ordered] round_writes_misses)
      (simp add: round_miss get_uint_def length_writes [OF round_writes_ordered])
  show ?thesis
    using assms
    by (simp add: RoundLifecycle_write_writes length_writes [OF round_writes_ordered] parseRound_def
        reader_defs rd old parse_participants_writes round_miss wire del: One_nat_def)
qed

theorem parseRound_after_write_witness:
  "\<exists>d'. RoundLifecycle_write
      \<lparr>rl_round_id = 7, rl_status = 1, rl_bump = 255, rl_start_ts = 100, rl_end_ts = 160,
       rl_first_deposit_ts = - 1, rl_total_usdc = 5000000, rl_total_tickets = 500,
       rl_participants_count = 2\<rparr> (replicate 8248 0) = Inr d' \<and>
    map_option rd_firstDepositTs (parseRound demo_sdk d') = Some (- 1)"
  using parseRound_after_write
    [of "replicate 8248 0" "\<lparr>rl_round_id = 7, rl_status = 1, rl_bump = 255, rl_start_ts = 100, rl_end_ts = 160,
       rl_first_deposit_ts = - 1, rl_total_usdc = 5000000, rl_total_tickets = 500,
       rl_participants_count = 2\<rparr>" demo_sdk]
  by auto

text \<open>
  The two TypeScript copies of the account parsers agree on every buffer: the front end's
  \<open>parseRound\<close> is the crank's with two more fields, failing on the same inputs, and the two
  participant parsers (fixed offsets against a running offset) are the same function.
\<close>

theorem parsers_agree:
  "parseRound sdk d = map_option RoundData.truncate (parseRound_front sdk d) \<and>
   parseParticipant_front sdk d = parseParticipant sdk d"
proof
  show "parseRound sdk d = map_option RoundData.truncate (parseRound_front sdk d)"
    by (auto simp: parseRound_def parseRound_front_def parse_participants_def Let_def
        RoundData.truncate_def split: Option.bind_split)
  show "parseParticipant_front sdk d = parseParticipant sdk d"
    by (simp add: parseParticipant_def parseParticipant_front_def Let_def)
qed

definition participant_fields :: "ParticipantView \<Rightarrow> buffer list" where
  "participant_fields v =
     [pv_round v, pv_user v, le_bytes 2 (uint (pv_index v)), [pv_bump v],
      le_bytes 8 (uint (pv_tickets_total v)), le_bytes 8 (uint (pv_usdc_total v)),
      le_bytes 4 (uint (pv_deposits_count v)), pv_reserved v]"

definition config_fields :: "ConfigView \<Rightarrow> buffer list" where
  "config_fields v =
     [cv_admin v, cv_usdc_mint v, cv_treasury_usdc_ata v, le_bytes 2 (uint (cv_fee_bps v)),
      le_bytes 8 (uint (cv_ticket_unit v)), le_bytes 4 (uint (cv_round_duration_sec v)),
      le_bytes 2 (uint (cv_min_participants v)), le_bytes 8 (uint (cv_min_total_tickets v)),
      [if cv_paused v then 1 else 0], [cv_bump v],
      le_bytes 8 (uint (cv_max_deposit_per_user v)), cv_reserved v]"

lemma fields_hit:
  assumes "8 + length (concat fs) \<le> length d" and "(i, bs) \<in> set (fields_at 8 fs)"
  shows "length bs = n \<Longrightarrow> get_uint n (splice_at 8 (concat fs) d) i = Some (le_uint bs)"
    and "j = i + length bs \<Longrightarrow> subarray (splice_at 8 (concat fs) d) i j = bs"
  using assms get_uint_writes_hit [OF fields_at_ordered] subarray_writes_hit [OF fields_at_ordered]
  by (simp_all add: splice_at_fields)

lemma ParticipantView_write_fields:
  "participant_view_ok v \<Longrightarrow> PARTICIPANT_ACCOUNT_LEN \<le> length d \<Longrightarrow>
   ParticipantView_write v d = Inr (splice_at 8 (concat (participant_fields v)) d)"
  by (simp add: ParticipantView_write_def participant_fields_def)

lemma ConfigView_write_fields:
  "CONFIG_ACCOUNT_LEN \<le> length d \<Longrightarrow>
   ConfigView_write v d = Inr (splice_at 8 (concat (config_fields v)) d)"
  by (simp add: ConfigView_write_def config_fields_def)

text \<open>
  A Participant account written by \<open>ParticipantView::write_to_account_data\<close> is read back
  by \<open>parseParticipant\<close> with every field, at any value of its width.
\<close>

theorem parseParticipant_after_write:
  assumes "participant_view_ok v" and "PARTICIPANT_ACCOUNT_LEN \<le> length d"
  shows "\<exists>d'. ParticipantView_write v d = Inr d' \<and> length d' = length d \<and>
    parseParticipant sdk d' = Some
      \<lparr>pd_round = newPublicKey sdk (pv_round v), pd_user = newPublicKey sdk (pv_user v),
       pd_index = uint (pv_index v), pd_bump = uint (pv_bump v),
       pd_ticketsTotal = uint (pv_tickets_total v), pd_usdcTotal = uint (pv_usdc_total v),
       pd_depositsCount = uint (pv_deposits_count v)\<rparr>"
proof -
  have len: "length (concat (participant_fields v)) = 103"
    using assms by (simp add: participant_fields_def participant_view_ok_def)
  then have fit: "8 + length (concat (participant_fields v)) \<le> length d" using assms by simp
  let ?d = "splice_at 8 (concat (participant_fields v)) d" and ?m = "set (fields_at 8 (participant_fields v))"
  have m: "(8, pv_round v) \<in> ?m" "(40, pv_user v) \<in> ?m" "(72, le_bytes 2 (uint (pv_index v))) \<in> ?m"
    "(74, [pv_bump v]) \<in> ?m" "(75, le_bytes 8 (uint (pv_tickets_total v))) \<in> ?m"
    "(83, le_bytes 8 (uint (pv_usdc_total v))) \<in> ?m"
    "(91, le_bytes 4 (uint (pv_deposits_count v))) \<in> ?m"
    using assms by (simp_all add: participant_fields_def participant_view_ok_def)
  have "subarray ?d 8 40 = pv_round v" "subarray ?d 40 72 = pv_user v"
    "get_uint 2 ?d 72 = Some (uint (pv_index v))" "get_uint 1 ?d 74 = Some (uint (pv_bump v))"
    "get_uint 8 ?d 75 = Some (uint (pv_tickets_total v))"
    "get_uint 8 ?d 83 = Some (uint (pv_usdc_total v))"
    "get_uint 4 ?d 91 = Some (uint (pv_deposits_count v))"
    using fields_hit [OF fit m(1)] fields_hit [OF fit m(2)] fields_hit [OF fit m(3)]
      fields_hit [OF fit m(4)] fields_hit [OF fit m(5)] fields_hit [OF fit m(6)]
      fields_hit [OF fit m(7)] assms
    by (simp_all add: participant_view_ok_def le_uint_le_bytes_word)
  then show ?thesis
    using assms len
    by (simp add: ParticipantView_write_fields parseParticipant_def reader_defs del: One_nat_def)
qed

theorem parseParticipant_after_write_witness:
  "\<exists>d'. ParticipantView_write
      \<lparr>pv_round = replicate 32 1, pv_user = replicate 32 2, pv_index = 3, pv_bump = 254,
       pv_tickets_total = 500, pv_usdc_total = 5000000, pv_deposits_count = 2,
       pv_reserved = replicate 16 0\<rparr> (replicate 111 0) = Inr d' \<and>
    map_option pd_usdcTotal (parseParticipant demo_sdk d') = Some 5000000"
  using parseParticipant_after_write
    [of "\<lparr>pv_round = replicate 32 1, pv_user = replicate 32 2, pv_index = 3, pv_bump = 254,
       pv_tickets_total = 500, pv_usdc_total = 5000000, pv_deposits_count = 2,
       pv_reserved = replicate 16 0\<rparr>" "replicate 111 0" demo_sdk]
  by (auto simp: participant_view_ok_def)

text \<open>
  A Config account written by \<open>ConfigView::write_to_account_data\<close> is read back by the
  Actions API's \<open>parseConfig\<close> with every field, and the crank's \<open>parseConfigFeeBps\<close> reads
  the same fee.
\<close>

theorem parseConfig_after_write:
  assumes "config_view_ok v" and "CONFIG_ACCOUNT_LEN \<le> length d"
  shows "\<exists>d'. ConfigView_write v d = Inr d' \<and> length d' = length d \<and>
    parseConfigFeeBps d' = Some (uint (cv_fee_bps v)) \<and>
    parseConfig sdk d' = Some
      \<lparr>cf_admin = newPublicKey sdk (cv_admin v), cf_usdcMint = newPublicKey sdk (cv_usdc_mint v),
       cf_treasuryUsdcAta = newPublicKey sdk (cv_treasury_usdc_ata v),
       cf_feeBps = uint (cv_fee_bps v), cf_ticketUnit = uint (cv_ticket_unit v),
       cf_roundDurationSec = uint (cv_round_duration_sec v),
       cf_minParticipants = uint (cv_min_participants v),
       cf_minTotalTickets = uint (cv_min_total_tickets v), cf_paused = cv_paused v,
       cf_bump = uint (cv_bump v), cf_maxDepositPerUser = uint (cv_max_deposit_per_user v)\<rparr>"
proof -
  have len: "length (concat (config_fields v)) = 154"
    using assms by (simp add: config_fields_def config_view_ok_def)
  then have fit: "8 + length (concat (config_fields v)) \<le> length d" using assms by simp
  let ?d = "splice_at 8 (concat (config_fields v)) d" and ?m = "set (fields_at 8 (config_fields v))"
  have m: "(8, cv_admin v) \<in> ?m" "(40, cv_usdc_mint v) \<in> ?m" "(72, cv_treasury_usdc_ata v) \<in> ?m"
    "(104, le_bytes 2 (uint (cv_fee_bps v))) \<in> ?m" "(106, le_bytes 8 (uint (cv_ticket_unit v))) \<in> ?m"
    "(114, le_bytes 4 (uint (cv_round_duration_sec v))) \<in> ?m"
    "(118, le_bytes 2 (uint (cv_min_participants v))) \<in> ?m"
    "(120, le_bytes 8 (uint (cv_min_total_tickets v))) \<in> ?m"
    "(128, [if cv_paused v then 1 else 0]) \<in> ?m" "(129, [cv_bump v]) \<in> ?m"
    "(130, le_bytes 8 (uint (cv_max_deposit_per_user v))) \<in> ?m"
    using assms by (simp_all add: config_fields_def config_view_ok_def)
  have "subarray ?d 8 40 = cv_admin v" "subarray ?d 40 72 = cv_usdc_mint v"
    "subarray ?d 72 104 = cv_treasury_usdc_ata v"
    "get_uint 2 ?d 104 = Some (uint (cv_fee_bps v))"
    "get_uint 8 ?d 106 = Some (uint (cv_ticket_unit v))"
    "get_uint 4 ?d 114 = Some (uint (cv_round_duration_sec v))"
    "get_uint 2 ?d 118 = Some (uint (cv_min_participants v))"
    "get_uint 8 ?d 120 = Some (uint (cv_min_total_tickets v))"
    "get_uint 1 ?d 128 = Some (if cv_paused v then 1 else 0)"
    "get_uint 1 ?d 129 = Some (uint (cv_bump v))"
    "get_uint 8 ?d 130 = Some (uint (cv_max_deposit_per_user v))"
    using fields_hit(2) [OF fit m(1)] fields_hit(2) [OF fit m(2)] fields_hit(2) [OF fit m(3)]
      fields_hit(1) [OF fit m(4)] fields_hit(1) [OF fit m(5)] fields_hit(1) [OF fit m(6)]
      fields_hit(1) [OF fit m(7)] fields_hit(1) [OF fit m(8)] fields_hit(1) [OF fit m(9)]
      fields_hit(1) [OF fit m(10)] fields_hit(1) [OF fit m(11)] assms
    by (simp_all add: config_view_ok_def le_uint_le_bytes_word)
  then show ?thesis
    using assms len
    by (simp add: ConfigView_write_fields parseConfig_def parseConfigFeeBps_def reader_defs
        del: One_nat_def)
qed

theorem parseConfig_after_write_witness:
  "\<exists>d'. ConfigView_write
      \<lparr>cv_admin = replicate 32 1, cv_usdc_mint = replicate 32 2, cv_treasury_usdc_ata = replicate 32 3,
       cv_fee_bps = 25, cv_ticket_unit = 10000, cv_round_duration_sec = 60, cv_min_participants = 2,
       cv_min_total_tickets = 2, cv_paused = True, cv_bump = 253, cv_max_deposit_per_user = 0,
       cv_reserved = replicate 24 0\<rparr> (replicate 162 0) = Inr d' \<and>
    map_option cf_paused (parseConfig demo_sdk d') = Some True \<and> parseConfigFeeBps d' = Some 25"
  using parseConfig_after_write
    [of "\<lparr>cv_admin = replicate 32 1, cv_usdc_mint = replicate 32 2, cv_treasury_usdc_ata = replicate 32 3,
       cv_fee_bps = 25, cv_ticket_unit = 10000, cv_round_duration_sec = 60, cv_min_participants = 2,
       cv_min_total_tickets = 2, cv_paused = True, cv_bump = 253, cv_max_deposit_per_user = 0,
       cv_reserved = replicate 24 0\<rparr>" "replicate 162 0" demo_sdk]
  by (auto simp: config_view_ok_def)

end
