(* ===== verification/Payout.thy ===== *)
theory Payout
  imports Layouts
begin

text \<open>
  The winner's payout, as computed by the on-chain program
  (\<open>compute_claim_amounts\<close> of \<open>handlers/degen_common.rs\<close>, on \<open>u64\<close> with checked
  arithmetic) and by the crank (\<open>computeBeginDegenPayout\<close> of \<open>degenLogic.ts\<close>, on
  \<open>BigInt\<close>). The third computation, of the front end, is in \<open>Payout_Front\<close>.
\<close>

section \<open>The computations\<close>

abbreviation VRF_REIMBURSE_AMOUNT :: int where "VRF_REIMBURSE_AMOUNT \<equiv> 200000"

definition computeBeginDegenPayout :: "int \<Rightarrow> int \<Rightarrow> bool \<Rightarrow> int" where
  "computeBeginDegenPayout totalUsdc feeBps reimburseVrf =
     (let vrfDeduct = if reimburseVrf then VRF_REIMBURSE_AMOUNT else 0;
          pool = totalUsdc - vrfDeduct;
          fee = big_div (pool * feeBps) 10000
      in pool - fee)"

record ClaimAmountsCompat =
  ca_payout :: "64 word"
  ca_fee :: "64 word"
  ca_vrf_reimburse :: "64 word"

text \<open>\<open>checked_sub\<close> on \<open>u64\<close>, \<open>checked_mul\<close> and \<open>checked_div\<close> on \<open>u128\<close>;
  \<^const>\<open>None\<close> is the overflow error.\<close>

definition checked_sub_u64 :: "64 word \<Rightarrow> 64 word \<Rightarrow> 64 word option" where
  "checked_sub_u64 a b = (if b \<le> a then Some (a - b) else None)"

definition checked_mul_u128 :: "128 word \<Rightarrow> 128 word \<Rightarrow> 128 word option" where
  "checked_mul_u128 a b = (if uint a * uint b < 2 ^ 128 then Some (a * b) else None)"

definition checked_div_u128 :: "128 word \<Rightarrow> 128 word \<Rightarrow> 128 word option" where
  "checked_div_u128 a b = (if b = 0 then None else Some (a div b))"

definition compute_claim_amounts :: "64 word \<Rightarrow> 16 word \<Rightarrow> bool \<Rightarrow> ClaimAmountsCompat option" where
  "compute_claim_amounts total_usdc fee_bps reimburse_vrf =
     do { let vrf_reimburse = (if reimburse_vrf then min 200000 total_usdc else 0);
          pot_after_reimburse \<leftarrow> checked_sub_u64 total_usdc vrf_reimburse;
          product \<leftarrow> checked_mul_u128 (ucast pot_after_reimburse) (ucast fee_bps);
          quotient \<leftarrow> checked_div_u128 product 10000;
          let fee = (ucast quotient :: 64 word);
          payout \<leftarrow> checked_sub_u64 pot_after_reimburse fee;
          Some \<lparr>ca_payout = payout, ca_fee = fee, ca_vrf_reimburse = vrf_reimburse\<rparr> }"

section \<open>Properties\<close>

lemma fee_bounds:
  fixes pot bps :: int
  assumes "0 \<le> pot" "0 \<le> bps" "bps \<le> 10000"
  shows "0 \<le> pot * bps div 10000 \<and> pot * bps div 10000 \<le> pot"
proof -
  have "pot * bps \<le> pot * 10000" using assms by (intro mult_left_mono) simp_all
  then have "pot * bps div 10000 \<le> pot * 10000 div 10000" by (rule zdiv_mono1) simp
  with assms show ?thesis by (simp add: pos_imp_zdiv_nonneg_iff)
qed

lemma div_10000_less: "a < c * 10000 \<Longrightarrow> a div 10000 < (c :: int)"
  using div_mult_mod_eq [of a 10000] pos_mod_sign [of 10000 a] by linarith

lemma uint_ucast_up:
  "uint (ucast (x :: 64 word) :: 128 word) = uint x" "uint (ucast (y :: 16 word) :: 128 word) = uint y"
  by (simp_all add: uint_up_ucast is_up)

lemma uint_checked_sub: "checked_sub_u64 a b = Some c \<Longrightarrow> uint c = uint a - uint b"
  by (auto simp: checked_sub_u64_def uint_sub_if' word_le_def split: if_splits)

lemma fee_product: "checked_mul_u128 (ucast (pot :: 64 word)) (ucast (bps :: 16 word)) =
    Some (ucast pot * ucast bps) \<and> uint (ucast pot * ucast bps :: 128 word) = uint pot * uint bps"
proof -
  have "uint pot * uint bps < 2 ^ 64 * 2 ^ 16"
    using uint_lt2p [of pot] uint_lt2p [of bps] by (intro mult_strict_mono) simp_all
  then have "uint pot * uint bps < 2 ^ 128" by simp
  moreover from this have "uint (ucast pot * ucast bps :: 128 word) = uint pot * uint bps"
    by (simp add: uint_word_ariths uint_ucast_up)
  ultimately show ?thesis by (simp add: checked_mul_u128_def uint_ucast_up)
qed

lemma fee_quotient:
  assumes "uint bps \<le> 10000"
  shows "uint (ucast ((ucast (pot :: 64 word) * ucast (bps :: 16 word) :: 128 word) div 10000) :: 64 word) =
    uint pot * uint bps div 10000"
proof -
  have q: "uint ((ucast pot * ucast bps :: 128 word) div 10000) = uint pot * uint bps div 10000"
    using fee_product [of pot bps] by (simp add: uint_div)
  have "uint pot * uint bps div 10000 \<le> uint pot" using fee_bounds [of "uint pot" "uint bps"] assms by simp
  then have "uint pot * uint bps div 10000 < 2 ^ 64" using uint_lt2p [of pot] by simp
  moreover have "0 \<le> uint pot * uint bps div 10000" by (simp add: pos_imp_zdiv_nonneg_iff)
  ultimately show ?thesis
    by (simp add: unsigned_ucast_eq take_bit_eq_mod q)
qed

text \<open>What the on-chain computation returns, over the integers.\<close>

lemma compute_claim_amounts_int:
  fixes tot :: "64 word" and bps :: "16 word" and reimb :: bool
  assumes "uint bps \<le> 10000"
  defines "r \<equiv> (if reimb then min 200000 (uint tot) else 0)"
  shows "\<exists>a. compute_claim_amounts tot bps reimb = Some a \<and> uint (ca_vrf_reimburse a) = r \<and>
    uint (ca_fee a) = (uint tot - r) * uint bps div 10000 \<and>
    uint (ca_payout a) = (uint tot - r) - (uint tot - r) * uint bps div 10000"
proof -
  define w where "w = (if reimb then min 200000 tot else 0)"
  have w: "uint w = r" "w \<le> tot" by (auto simp: w_def r_def min_def word_le_def)
  then have pot: "checked_sub_u64 tot w = Some (tot - w)" "uint (tot - w) = uint tot - r"
    using uint_checked_sub [of tot w] by (simp_all add: checked_sub_u64_def)
  have fee: "uint (ucast ((ucast (tot - w) * ucast bps :: 128 word) div 10000) :: 64 word) =
      (uint tot - r) * uint bps div 10000"
    using fee_quotient [OF assms(1), of "tot - w"] pot by simp
  have le: "(uint tot - r) * uint bps div 10000 \<le> uint tot - r"
    using fee_bounds [of "uint tot - r" "uint bps"] assms(1) w by (simp add: word_le_def)
  have "checked_sub_u64 (tot - w) (ucast ((ucast (tot - w) * ucast bps :: 128 word) div 10000)) =
      Some (tot - w - ucast ((ucast (tot - w) * ucast bps :: 128 word) div 10000))"
    using fee le pot by (simp add: checked_sub_u64_def word_le_def)
  with uint_checked_sub [OF this] fee pot w fee_product [of "tot - w" bps] show ?thesis
    by (simp add: compute_claim_amounts_def Let_def checked_div_u128_def flip: w_def)
qed

definition demo_round :: "(256 word) FrontRoundData" where
  "demo_round = \<lparr>rd_roundId = 7, rd_status = Settled, rd_bump = 255, rd_startTs = 100, rd_endTs = 160,
     rd_firstDepositTs = 101, rd_vaultUsdcAta = 9, rd_totalUsdc = 5000000, rd_totalTickets = 500,
     rd_participantsCount = 2, rd_randomness = [], rd_winningTicket = 17, rd_winner = 3,
     rd_participants = [3, 4], rd_vrfPayer = 5, rd_degenModeStatus = Some 0,
     rd_vrfReimbursed = Some 0\<rparr>"

lemma demo_pk_default: "pk_default demo_sdk = 0"
  by (simp add: pk_default_def demo_sdk_def le_uint_zeros)

text \<open>
  The crank's payout of a pot smaller than the VRF reimbursement: the on-chain program
  reimburses the whole pot and pays 0, while \<open>computeBeginDegenPayout\<close>, which does not clamp
  the deduction to the pot, returns a negative amount for every fee below 100%.
\<close>

theorem small_pot_payout_negative:
  assumes "uint tot < VRF_REIMBURSE_AMOUNT" and "uint bps < 10000"
  shows "computeBeginDegenPayout (uint tot) (uint bps) True < 0 \<and>
    map_option ca_payout (compute_claim_amounts tot bps True) = Some 0"
proof
  define q where "q = (200000 - uint tot) * uint bps div 10000"
  have pos: "0 < 200000 - uint tot" using assms(1) by simp
  have "q < 200000 - uint tot"
    unfolding q_def using pos assms(2) by (intro div_10000_less mult_strict_left_mono) simp_all
  moreover have "big_div ((uint tot - 200000) * uint bps) 10000 = - q"
  proof (cases "uint bps = 0")
    case False
    then have "(uint tot - 200000) * uint bps < 0"
      using pos uint_nonnegative [of bps] by (intro mult_neg_pos) linarith+
    moreover from this have "\<bar>(uint tot - 200000) * uint bps\<bar> = (200000 - uint tot) * uint bps"
      by (simp add: algebra_simps)
    ultimately show ?thesis by (simp add: big_div_def q_def)
  qed (simp add: big_div_def q_def)
  ultimately show "computeBeginDegenPayout (uint tot) (uint bps) True < 0"
    by (simp add: computeBeginDegenPayout_def Let_def)
  obtain a where "compute_claim_amounts tot bps True = Some a" "uint (ca_payout a) = 0"
    using compute_claim_amounts_int [where bps = bps and reimb = True and tot = tot] assms by (auto simp: min_def)
  then show "map_option ca_payout (compute_claim_amounts tot bps True) = Some 0"
    by (simp add: unsigned_eq_0_iff)
qed

theorem small_pot_payout_negative_witness:
  "computeBeginDegenPayout 150000 25 True < 0 \<and>
   map_option ca_payout (compute_claim_amounts 150000 25 True) = Some 0"
  using small_pot_payout_negative [of 150000 25] by simp

end
