(* ===== verification/JS_Number.thy ===== *)
theory JS_Number
  imports Complex_Main Solana
begin

text \<open>
  \<open>Number(string)\<close> and the arithmetic of \<open>Number\<close>s that need not be integers. A finite
  \<open>Number\<close> is the rational value of the double (\<open>0\<close> and \<open>-0\<close> are not told
  apart). Rounding to a double is the parameter \<open>ieee\<close>; what the sources rely on is that it
  is the identity on integers of at most 53 bits (\<open>exact_integers\<close>).
\<close>

datatype js_number = NaN | PosInf | NegInf | Finite rat

type_synonym ieee = "rat \<Rightarrow> js_number"

definition exact_integers :: "ieee \<Rightarrow> bool" where
  "exact_integers ieee \<longleftrightarrow> (\<forall>n :: int. js_safe n \<longrightarrow> ieee (of_int n) = Finite (of_int n))"

definition isFinite :: "js_number \<Rightarrow> bool" where
  "isFinite x = (case x of Finite _ \<Rightarrow> True | _ \<Rightarrow> False)"

section \<open>Parsing\<close>

definition digit_value :: "char \<Rightarrow> nat option" where
  "digit_value c = (let n = (of_char c :: nat) in
     if 48 \<le> n \<and> n \<le> 57 then Some (n - 48)
     else if 97 \<le> n \<and> n \<le> 122 then Some (n - 87)
     else if 65 \<le> n \<and> n \<le> 90 then Some (n - 55) else None)"

definition is_digit :: "nat \<Rightarrow> char \<Rightarrow> bool" where
  "is_digit b c = (case digit_value c of None \<Rightarrow> False | Some d \<Rightarrow> d < b)"

definition digits_value :: "nat \<Rightarrow> string \<Rightarrow> nat" where
  "digits_value b s = foldl (\<lambda>n c. n * b + the (digit_value c)) 0 s"

text \<open>A non-empty string of digits in base \<open>b\<close>.\<close>

definition radix_literal :: "nat \<Rightarrow> string \<Rightarrow> rat option" where
  "radix_literal b s = (if s \<noteq> [] \<and> list_all (is_digit b) s then Some (of_nat (digits_value b s)) else None)"

definition exponent_part :: "string \<Rightarrow> int option" where
  "exponent_part s =
     (case s of
        [] \<Rightarrow> Some 0
      | e # r \<Rightarrow>
          if e \<noteq> CHR ''e'' \<and> e \<noteq> CHR ''E'' then None
          else
            let (neg, ds) = (case r of c # r' \<Rightarrow> if c = CHR ''-'' then (True, r') else if c = CHR ''+'' then (False, r') else (False, r)
                             | [] \<Rightarrow> (False, [])) in
            if ds \<noteq> [] \<and> list_all (is_digit 10) ds
            then Some (if neg then - int (digits_value 10 ds) else int (digits_value 10 ds)) else None)"

definition power10 :: "int \<Rightarrow> rat" where
  "power10 e = (if 0 \<le> e then 10 ^ nat e else 1 / 10 ^ nat (- e))"

definition decimal_literal :: "string \<Rightarrow> rat option" where
  "decimal_literal s =
     (let ip = takeWhile (is_digit 10) s; r1 = dropWhile (is_digit 10) s;
          (fp, r2) = (case r1 of c # r \<Rightarrow> if c = CHR ''.'' then (takeWhile (is_digit 10) r, dropWhile (is_digit 10) r) else ([], r1)
                      | [] \<Rightarrow> ([], [])) in
      if ip = [] \<and> fp = [] then None
      else case exponent_part r2 of
          None \<Rightarrow> None
        | Some e \<Rightarrow> Some (of_nat (digits_value 10 (ip @ fp)) * power10 (e - int (length fp))))"

definition js_Number :: "ieee \<Rightarrow> string \<Rightarrow> js_number" where
  "js_Number ieee str =
     (let s = js_trim str in
      case s of
        [] \<Rightarrow> Finite 0
      | c # r \<Rightarrow>
          if c = CHR ''0'' \<and> r \<noteq> [] \<and> hd r \<in> {CHR ''x'', CHR ''X'', CHR ''o'', CHR ''O'', CHR ''b'', CHR ''B''} then
            (case radix_literal (if hd r \<in> {CHR ''x'', CHR ''X''} then 16
                                 else if hd r \<in> {CHR ''o'', CHR ''O''} then 8 else 2) (tl r) of
               None \<Rightarrow> NaN | Some q \<Rightarrow> ieee q)
          else
            let (neg, body) = (if c = CHR ''-'' then (True, r) else if c = CHR ''+'' then (False, r) else (False, s)) in
            if body = ''Infinity'' then (if neg then NegInf else PosInf)
            else case decimal_literal body of
                None \<Rightarrow> NaN
              | Some q \<Rightarrow> ieee (if neg then - q else q))"

section \<open>Decimal strings\<close>

text \<open>\<open>Number(String(n)) = n\<close> for the integers the sources print.\<close>

lemma digit_char:
  assumes "d < 10"
  shows "digit_value (char_of (48 + d)) = Some d" and "\<not> js_space (char_of (48 + d))"
proof -
  let ?c = "char_of (48 + d) :: char"
  have n: "(of_char ?c :: nat) = 48 + d" using assms by simp
  show "digit_value ?c = Some d" using assms by (simp add: digit_value_def n)
  have "?c \<noteq> x" if "of_char x < (48 :: nat) \<or> (57 :: nat) < of_char x" for x
    using n assms that by auto
  then show "\<not> js_space ?c" by (auto simp: js_space_def)
qed

lemma nat_digits_props:
  "nat_digits n \<noteq> [] \<and> list_all (\<lambda>c. is_digit 10 c \<and> \<not> js_space c) (nat_digits n) \<and> digits_value 10 (nat_digits n) = n"
proof (induction n rule: nat_digits.induct)
  case (1 n)
  show ?case
  proof (cases "n < 10")
    case True
    then show ?thesis by (simp add: nat_digits.simps [of n] is_digit_def digits_value_def digit_char)
  next
    case False
    have last: "n mod 10 < 10" by simp
    show ?thesis
      using 1 [OF False] False digit_char [OF last]
      by (simp add: nat_digits.simps [of n] is_digit_def digits_value_def)
  qed
qed

lemma trim_digits:
  assumes "list_all (\<lambda>c. \<not> js_space c) s"
  shows "js_trim s = s"
proof -
  have "dropWhile js_space t = t" if "\<forall>c\<in>set t. \<not> js_space c" for t
    using that by (cases t) auto
  from this [of s] this [of "rev s"] assms show ?thesis by (simp add: js_trim_def list_all_iff)
qed

lemma digit_not_letter: "is_digit 10 c \<Longrightarrow> c \<notin> {CHR ''x'', CHR ''X'', CHR ''o'', CHR ''O'', CHR ''b'', CHR ''B'', CHR ''-'', CHR ''+'', CHR ''I''}"
  by (auto simp: is_digit_def digit_value_def)

lemma decimal_digits:
  assumes "s \<noteq> []" and "list_all (is_digit 10) s"
  shows "decimal_literal s = Some (of_nat (digits_value 10 s))"
proof -
  have "takeWhile (is_digit 10) s = s" "dropWhile (is_digit 10) s = []"
    using assms(2) by (simp_all add: list_all_iff)
  with assms(1) show ?thesis by (simp only: decimal_literal_def Let_def) (simp add: exponent_part_def power10_def)
qed

lemma js_Number_string:
  assumes "exact_integers ieee" and "js_safe n" and "0 \<le> n"
  shows "js_Number ieee (js_string n) = Finite (of_int n)"
proof -
  let ?s = "nat_digits (nat n)"
  have all: "list_all (is_digit 10) ?s" and trim: "js_trim ?s = ?s" and val: "digits_value 10 ?s = nat n"
    and ne: "?s \<noteq> []"
    using nat_digits_props [of "nat n"] by (auto simp: list_all_iff intro!: trim_digits)
  obtain c r where s: "?s = c # r" using ne by (cases ?s) auto
  have c: "is_digit 10 c" and r: "list_all (is_digit 10) r" using all by (simp_all add: s)
  have pre: "\<not> (c = CHR ''0'' \<and> r \<noteq> [] \<and> hd r \<in> {CHR ''x'', CHR ''X'', CHR ''o'', CHR ''O'', CHR ''b'', CHR ''B''})"
    using r digit_not_letter [of "hd r"] by (cases r) auto
  have signs: "c \<noteq> CHR ''-''" "c \<noteq> CHR ''+''" "c # r \<noteq> ''Infinity''" using digit_not_letter [OF c] by auto
  have dec: "decimal_literal (c # r) = Some (of_nat (nat n))"
    using decimal_digits [OF ne all] val by (simp add: s)
  have "js_Number ieee ?s = ieee (of_nat (nat n))"
    unfolding s js_Number_def Let_def trim [unfolded s] list.case if_not_P [OF pre] if_not_P [OF signs(1)] if_not_P [OF signs(2)]
      prod.case if_not_P [OF signs(3)] dec option.case by simp
  also have "\<dots> = Finite (of_int n)" using assms by (simp add: exact_integers_def)
  finally show ?thesis using assms(3) by (simp add: js_string_def)
qed

end
