(* ===== verification/Payout_Front.thy ===== *)
theory Payout_Front
  imports Payout JS_Number
begin

text \<open>
  The payout as the front end computes it (\<open>computeClaimPayoutRaw\<close> of \<open>useJackpot.ts\<close>, on \<open>Number\<close>), against the on-chain
  program and the crank. Every operation on \<open>Number\<close>s is followed by \<open>fl\<close>, the rounding to a double.
\<close>

section \<open>Rounding\<close>

text \<open>
  What the standard says of the rounding to a double: integers of at most 53 bits are exact, and in the normal range the
  relative error is at most \<open>2\<^sup>-\<^sup>5\<^sup>3\<close>.
\<close>

definition double_rounding :: "(rat \<Rightarrow> rat) \<Rightarrow> bool" where
  "double_rounding fl \<longleftrightarrow> (\<forall>n :: int. \<bar>n\<bar> \<le> 2 ^ 53 \<longrightarrow> fl (of_int n) = of_int n) \<and>
     (\<forall>x. 1 / 2 ^ 1022 \<le> \<bar>x\<bar> \<and> \<bar>x\<bar> \<le> 2 ^ 1023 \<longrightarrow> \<bar>fl x - x\<bar> \<le> \<bar>x\<bar> / 2 ^ 53)"

lemma fl_int: "double_rounding fl \<Longrightarrow> \<bar>n\<bar> \<le> 2 ^ 53 \<Longrightarrow> fl (of_int n) = of_int n"
  by (simp add: double_rounding_def)

text \<open>The quotient by 10000 of a smaller product does not round up to the next integer, and not below its integer part.\<close>

lemma floor_fl_quotient:
  assumes fl: "double_rounding fl" and n: "0 \<le> n" "n < 2 ^ 53"
  shows "\<lfloor>fl (of_int n / 10000)\<rfloor> = n div 10000"
proof (cases "n = 0")
  case True
  then show ?thesis using fl_int [OF fl, of 0] by simp
next
  case False
  define x :: rat where "x = of_int n / 10000"
  define e where "e = fl x - x"
  have "1 \<le> n" using n False by simp
  then have n': "(1 :: rat) \<le> of_int n" "(of_int n :: rat) < 2 ^ 53"
    using n(2) of_int_less_iff [of n "2 ^ 53", where ?'a = rat] by (simp_all del: of_int_less_iff)
  have big: "(10000 :: rat) \<le> 2 ^ 1022" "(2 :: rat) ^ 53 \<le> 2 ^ 1023"
    using power_increasing [of 14 1022 "2 :: rat"] power_increasing [of 53 1023 "2 :: rat"] by simp_all
  have "x \<le> of_int n" "1 / 10000 \<le> x" using n' by (simp_all add: x_def)
  moreover have "1 / 2 ^ 1022 \<le> (1 / 10000 :: rat)" using big(1) by (intro divide_left_mono) simp_all
  ultimately have range: "1 / 2 ^ 1022 \<le> \<bar>x\<bar>" "\<bar>x\<bar> \<le> 2 ^ 1023" "\<bar>x\<bar> = x" using n'(2) big(2) by linarith+
  then have err: "\<bar>e\<bar> \<le> x / 2 ^ 53" using fl unfolding double_rounding_def e_def by metis
  have small: "x / 2 ^ 53 < 1 / 10000" using n' by (simp add: x_def)
  define q where "q = n div 10000"
  have qn: "n = 10000 * q + n mod 10000" "0 \<le> n mod 10000" "n mod 10000 < 10000" by (simp_all add: q_def)
  have xq: "x = of_int q + of_int (n mod 10000) / 10000"
    unfolding x_def by (subst qn(1)) (simp add: field_simps)
  show ?thesis unfolding q_def [symmetric] x_def [symmetric]
  proof (rule floor_unique)
    show "fl x < of_int q + 1"
    proof -
      have "n mod 10000 \<le> 9999" using qn(3) by simp
      then have "(of_int (n mod 10000) :: rat) \<le> 9999" by (metis of_int_le_iff of_int_numeral)
      then have "x \<le> of_int q + 9999 / 10000" unfolding xq by simp
      moreover have "fl x = x + e" by (simp add: e_def)
      ultimately show ?thesis using err small by linarith
    qed
    show "of_int q \<le> fl x"
    proof (cases "n mod 10000 = 0")
      case True
      have "0 \<le> q" "q \<le> 2 ^ 53" using n by (simp_all add: q_def pos_imp_zdiv_nonneg_iff)
      with True fl_int [OF fl, of q] show ?thesis by (simp add: xq)
    next
      case False
      then have "1 \<le> n mod 10000" using qn(2) by linarith
      then have "(1 :: rat) \<le> of_int (n mod 10000)" by (metis of_int_1 of_int_le_iff)
      then have "of_int q + 1 / 10000 \<le> x" unfolding xq by simp
      moreover have "fl x = x + e" by (simp add: e_def)
      ultimately show ?thesis using err small by linarith
    qed
  qed
qed

section \<open>The payout\<close>

definition computeClaimPayoutRaw :: "(rat \<Rightarrow> rat) \<Rightarrow> ('pk, 'm) sdk_scheme \<Rightarrow> 'pk FrontRoundData \<Rightarrow> int \<Rightarrow> rat" where
  "computeClaimPayoutRaw fl sdk round' feeBps =
     (let totalUsdcRaw = fl (of_int (rd_totalUsdc round'));
          vrfReimburseRaw =
            (if rd_vrfPayer round' \<noteq> pk_default sdk \<and> rd_vrfReimbursed round' = Some 0
             then min (of_int VRF_REIMBURSE_AMOUNT) totalUsdcRaw else 0);
          potAfterReimburse = max 0 (fl (totalUsdcRaw - vrfReimburseRaw));
          feeRaw = of_int \<lfloor>fl (fl (potAfterReimburse * of_int feeBps) / 10000)\<rfloor>
      in max 0 (fl (potAfterReimburse - feeRaw)))"

lemma computeClaimPayoutRaw_exact:
  fixes round' :: "'pk FrontRoundData" and sdk :: "('pk, 'm) sdk_scheme" and bps :: int
  assumes fl: "double_rounding fl" and bps: "0 \<le> bps" "bps \<le> 10000"
    and tot: "0 \<le> rd_totalUsdc round'" "rd_totalUsdc round' < 2 ^ 53" "rd_totalUsdc round' * bps < 2 ^ 53"
  defines "r \<equiv> (if rd_vrfPayer round' \<noteq> pk_default sdk \<and> rd_vrfReimbursed round' = Some 0 then min 200000 (rd_totalUsdc round') else 0)"
  shows "computeClaimPayoutRaw fl sdk round' bps = of_int ((rd_totalUsdc round' - r) - (rd_totalUsdc round' - r) * bps div 10000)"
proof -
  define t pot fee where "t = rd_totalUsdc round'" and "pot = t - r" and "fee = pot * bps div 10000"
  have pot: "0 \<le> pot" "pot \<le> t" using tot(1) by (auto simp: pot_def r_def t_def)
  have "pot * bps \<le> t * bps" using pot bps(1) by (intro mult_right_mono) simp_all
  then have prod: "0 \<le> pot * bps" "pot * bps < 2 ^ 53" using pot(1) bps(1) tot(3) by (simp_all add: t_def)
  have fee: "0 \<le> fee" "fee \<le> pot" using fee_bounds [OF pot(1) bps] by (simp_all add: fee_def)
  have t: "fl (of_int t) = of_int t" using fl_int [OF fl, of t] tot by (simp add: t_def)
  have r: "(if rd_vrfPayer round' \<noteq> pk_default sdk \<and> rd_vrfReimbursed round' = Some 0 then min (of_int VRF_REIMBURSE_AMOUNT) (of_int t) else 0) =
      (of_int r :: rat)" by (simp add: r_def t_def min_def)
  have "fl (of_int t - of_int r) = of_int pot" "fl (of_int pot - of_int fee) = of_int (pot - fee)"
    "fl (of_int pot * of_int bps) = of_int (pot * bps)"
    using fl_int [OF fl, of pot] fl_int [OF fl, of "pot - fee"] fl_int [OF fl, of "pot * bps"] pot prod fee tot(2)
    by (simp_all add: pot_def t_def)
  moreover have "\<lfloor>fl (of_int (pot * bps) / 10000)\<rfloor> = fee" using floor_fl_quotient [OF fl prod] by (simp add: fee_def)
  moreover have "max 0 (of_int pot) = (of_int pot :: rat)" "max 0 (of_int (pot - fee)) = (of_int (pot - fee) :: rat)"
    using pot(1) fee by (simp_all del: of_int_diff)
  ultimately show ?thesis
    unfolding computeClaimPayoutRaw_def Let_def t_def [symmetric] t r pot_def [symmetric] by (simp only: fee_def pot_def)
qed

text \<open>
  C13. The three payout computations agree. For every pot, every fee of at most 100% and whether or not the VRF payer is
  reimbursed, the on-chain computation succeeds and splits the pot exactly into payout, fee and reimbursement. The crank's
  \<open>computeBeginDegenPayout\<close> gives the same payout whenever the pot covers the reimbursement. The front end's
  \<open>computeClaimPayoutRaw\<close>, computed in doubles, gives the same payout as long as the pot and its product with the fee in basis
  points are below \<open>2\<^sup>5\<^sup>3\<close>.
\<close>

theorem payout_agrees:
  assumes "uint bps \<le> 10000"
    and "rd_totalUsdc round' = uint tot"
    and "reimb \<longleftrightarrow> rd_vrfPayer round' \<noteq> pk_default sdk \<and> rd_vrfReimbursed round' = Some 0"
    and "double_rounding fl"
  shows "\<exists>a. compute_claim_amounts tot bps reimb = Some a \<and>
    uint (ca_payout a) + uint (ca_fee a) + uint (ca_vrf_reimburse a) = uint tot \<and>
    (uint tot < 2 ^ 53 \<and> uint tot * uint bps < 2 ^ 53 \<longrightarrow>
      computeClaimPayoutRaw fl sdk round' (uint bps) = of_int (uint (ca_payout a))) \<and>
    (\<not> reimb \<or> VRF_REIMBURSE_AMOUNT \<le> uint tot \<longrightarrow>
      uint (ca_payout a) = computeBeginDegenPayout (uint tot) (uint bps) reimb)"
proof -
  define r where "r = (if reimb then min 200000 (uint tot) else 0)"
  obtain a where a: "compute_claim_amounts tot bps reimb = Some a" "uint (ca_vrf_reimburse a) = r"
    "uint (ca_fee a) = (uint tot - r) * uint bps div 10000"
    "uint (ca_payout a) = (uint tot - r) - (uint tot - r) * uint bps div 10000"
    using compute_claim_amounts_int [OF assms(1), where reimb = reimb and tot = tot] by (auto simp: r_def)
  have "computeClaimPayoutRaw fl sdk round' (uint bps) = of_int (uint (ca_payout a))" if "uint tot < 2 ^ 53" "uint tot * uint bps < 2 ^ 53"
    using computeClaimPayoutRaw_exact [OF assms(4), of "uint bps" round' sdk] that assms(1-3) by (simp add: a(4) r_def)
  moreover have "uint (ca_payout a) = computeBeginDegenPayout (uint tot) (uint bps) reimb"
    if "\<not> reimb \<or> VRF_REIMBURSE_AMOUNT \<le> uint tot"
    using that a(4) by (auto simp: computeBeginDegenPayout_def Let_def r_def)
  moreover have "uint (ca_payout a) + uint (ca_fee a) + uint (ca_vrf_reimburse a) = uint tot" unfolding a(2-4) by simp
  ultimately show ?thesis using a(1) by (intro exI [of _ a]) blast
qed

lemma id_rounding: "double_rounding id"
  by (simp add: double_rounding_def)

theorem payout_agrees_witness:
  "\<exists>a. compute_claim_amounts 5000000 25 True = Some a \<and>
     computeClaimPayoutRaw id demo_sdk demo_round 25 = of_int (uint (ca_payout a)) \<and>
     uint (ca_payout a) = computeBeginDegenPayout 5000000 25 True \<and>
     computeBeginDegenPayout 5000000 25 True = 4788000"
  using payout_agrees [of 25 demo_round 5000000 True demo_sdk id] id_rounding
  by (auto simp: demo_round_def demo_pk_default computeBeginDegenPayout_def)

end
