(* ===== verification/Degen_Candidates.thy ===== *)
theory Degen_Candidates
  imports Layouts
begin

text \<open>
  The derivation of the degen-mode token candidates from the VRF randomness, in its three
  copies: \<open>deriveCandidates\<close> of \<open>crank/src/degenLogic.ts\<close>, \<open>deriveDegenCandidates\<close> of
  \<open>src/lib/degenClaim.ts\<close> and the on-chain \<open>derive_degen_candidate_indices\<close> of
  \<open>degen_pool_compat.rs\<close>. All three draw an index per rank by hashing and draw again with
  the next nonce until the index is new.

  The SHA-256 digest of the platform and the generated token pool are parameters. The
  TypeScript loops have no bound on the nonce: they are \<open>partial_function (option)\<close>, where
  \<^const>\<open>None\<close> is a loop that never ends; a thrown \<open>RangeError\<close> is \<open>Some (Inl _)\<close>.
  The on-chain loop panics when its \<open>u32\<close> nonce overflows (\<^const>\<open>None\<close>).
\<close>

section \<open>Helpers\<close>

definition encodeU32LE :: "int \<Rightarrow> buffer" where
  "encodeU32LE v = le_bytes 4 v"

definition decodeU32LE :: "buffer \<Rightarrow> int result" where
  "decodeU32LE b = (case getUint32 b 0 of None \<Rightarrow> Inl ''RangeError'' | Some x \<Rightarrow> Inr x)"

text \<open>The parts are copied one after the other into a zeroed payload.\<close>

definition sha256 :: "(buffer \<Rightarrow> buffer) \<Rightarrow> buffer list \<Rightarrow> buffer" where
  "sha256 digest parts =
     (let total = foldl (\<lambda>n part. n + length part) 0 parts;
          payload = replicate total 0;
          (payload, offset) = foldl (\<lambda>(p, off) part. (splice_at off part p, off + length part))
             (payload, 0) parts
      in digest payload)"

lemma sha256_copy:
  "off + length (concat parts) \<le> length p \<Longrightarrow>
   fst (foldl (\<lambda>(p, off) part. (splice_at off part p, off + length part)) (p, off) parts) =
     splice_at off (concat parts) p"
proof (induction parts arbitrary: p off)
  case Nil
  then show ?case by (simp add: splice_at_def)
next
  case (Cons b bs)
  then show ?case by (simp add: splice_at_append)
qed

lemma sha256_concat [simp]: "sha256 digest parts = digest (concat parts)"
proof -
  have "foldl (\<lambda>n part. n + length part) n parts = n + length (concat parts)" for n
    by (induction parts arbitrary: n) simp_all
  then show ?thesis
    using sha256_copy [of 0 parts "replicate (length (concat parts)) 0"]
    by (simp add: sha256_def split_beta splice_at_def)
qed

section \<open>The TypeScript derivations\<close>

record candidate =
  cd_rank :: int
  cd_index :: int
  cd_mint :: string

text \<open>One draw: \<open>decodeU32LE(digest.subarray(0, 4)) % pool.length\<close>.\<close>

definition draw :: "(buffer \<Rightarrow> buffer) \<Rightarrow> buffer \<Rightarrow> int \<Rightarrow> nat \<Rightarrow> int \<Rightarrow> int \<Rightarrow> int result" where
  "draw digest randomness poolVersion poolLen rank nonce =
     and_then (decodeU32LE (subarray (sha256 digest
         [randomness, encodeU32LE poolVersion, encodeU32LE rank, encodeU32LE nonce]) 0 4))
       (\<lambda>v. Inr (v mod int poolLen))"

text \<open>The \<open>while (true)\<close> loop of one rank.\<close>

partial_function (option) pick :: "(int \<Rightarrow> int result) \<Rightarrow> int set \<Rightarrow> int \<Rightarrow> int result option" where
  "pick drw used nonce =
     (case drw nonce of
        Inl e \<Rightarrow> Some (Inl e)
      | Inr index \<Rightarrow> if index \<notin> used then Some (Inr index) else pick drw used (nonce + 1))"

fun derive_ranks :: "(buffer \<Rightarrow> buffer) \<Rightarrow> buffer \<Rightarrow> int \<Rightarrow> string list \<Rightarrow> int set \<Rightarrow>
    candidate list \<Rightarrow> nat list \<Rightarrow> candidate list result option" where
  "derive_ranks digest randomness poolVersion pool used out [] = Some (Inr out)"
| "derive_ranks digest randomness poolVersion pool used out (rank # ranks) =
     (case pick (draw digest randomness poolVersion (length pool) (int rank)) used 0 of
        None \<Rightarrow> None
      | Some (Inl e) \<Rightarrow> Some (Inl e)
      | Some (Inr index) \<Rightarrow>
          derive_ranks digest randomness poolVersion pool (insert index used)
            (out @ [\<lparr>cd_rank = int rank, cd_index = index, cd_mint = pool ! nat index\<rparr>]) ranks)"

definition deriveCandidates :: "(buffer \<Rightarrow> buffer) \<Rightarrow> string list \<Rightarrow> buffer \<Rightarrow> int \<Rightarrow> nat \<Rightarrow>
    string list option \<Rightarrow> candidate list result option" where
  "deriveCandidates digest DEGEN_POOL randomness poolVersion count pool =
     (let effectivePool = (case pool of Some p \<Rightarrow> p | None \<Rightarrow> DEGEN_POOL);
          limit = min count (length effectivePool)
      in derive_ranks digest randomness poolVersion effectivePool {} [] [0..<limit])"

definition DEVNET_DEGEN_POOL :: "string list" where
  "DEVNET_DEGEN_POOL = [''So11111111111111111111111111111111111111112'']"

definition getDegenPool :: "string list \<Rightarrow> bool \<Rightarrow> string list" where
  "getDegenPool DEGEN_POOL isMainnet = (if isMainnet then DEGEN_POOL else DEVNET_DEGEN_POOL)"

definition getDegenPoolVersion :: "int \<Rightarrow> bool \<Rightarrow> int" where
  "getDegenPoolVersion DEGEN_POOL_VERSION isMainnet = (if isMainnet then DEGEN_POOL_VERSION else 0)"

definition deriveDegenCandidates :: "(buffer \<Rightarrow> buffer) \<Rightarrow> string list \<Rightarrow> buffer \<Rightarrow> int \<Rightarrow> nat \<Rightarrow>
    bool \<Rightarrow> candidate list result option" where
  "deriveDegenCandidates digest DEGEN_POOL randomness poolVersion count isMainnet =
     (let pool = getDegenPool DEGEN_POOL isMainnet;
          limit = min count (length pool)
      in derive_ranks digest randomness poolVersion pool {} [] [0..<limit])"

section \<open>The on-chain derivation\<close>

text \<open>The \<open>loop\<close> of one rank; \<open>checked_add(1).expect(...)\<close> on the \<open>u32\<close> nonce.\<close>

function pick_onchain :: "(32 word \<Rightarrow> int) \<Rightarrow> 32 word list \<Rightarrow> 32 word \<Rightarrow> 32 word option" where
  "pick_onchain drw selected nonce =
     (let index = drw nonce in
      if \<not> list_ex (\<lambda>existing. uint existing = index) selected then Some (word_of_int index)
      else if nonce = - 1 then None
      else pick_onchain drw selected (nonce + 1))"
  by pat_completeness auto

termination
proof (relation "measure (\<lambda>(_, _, nonce). 2 ^ 32 - unat nonce)")
  fix drw :: "32 word \<Rightarrow> int" and selected :: "32 word list" and nonce :: "32 word" and index
  assume "nonce \<noteq> - 1"
  then have "unat (nonce + 1) = Suc (unat nonce)"
    by (metis add.commute eq_neg_iff_add_eq_0 unatSuc)
  then show "((drw, selected, nonce + 1), drw, selected, nonce)
      \<in> measure (\<lambda>(_, _, nonce). 2 ^ 32 - unat nonce)"
    using unsigned_less [of nonce, where 'a = nat] by simp
qed simp

declare pick_onchain.simps [simp del]

definition draw_onchain :: "(buffer \<Rightarrow> buffer) \<Rightarrow> buffer \<Rightarrow> 32 word \<Rightarrow> nat \<Rightarrow> 32 word \<Rightarrow> 32 word \<Rightarrow> int" where
  "draw_onchain digest randomness pool_version pool_len rank nonce =
     (let d = digest (randomness @ le_bytes 4 (uint pool_version) @ le_bytes 4 (uint rank) @
                le_bytes 4 (uint nonce));
          raw = le_uint [d ! 0, d ! 1, d ! 2, d ! 3]
      in raw mod int pool_len)"

fun derive_onchain_ranks :: "(buffer \<Rightarrow> buffer) \<Rightarrow> buffer \<Rightarrow> 32 word \<Rightarrow> nat \<Rightarrow> 32 word list \<Rightarrow>
    nat list \<Rightarrow> 32 word list option" where
  "derive_onchain_ranks digest randomness pool_version pool_len selected [] = Some selected"
| "derive_onchain_ranks digest randomness pool_version pool_len selected (rank # ranks) =
     (case pick_onchain (draw_onchain digest randomness pool_version pool_len (word_of_nat rank))
             selected 0 of
        None \<Rightarrow> None
      | Some index \<Rightarrow>
          derive_onchain_ranks digest randomness pool_version pool_len (selected @ [index]) ranks)"

definition derive_degen_candidate_indices :: "(buffer \<Rightarrow> buffer) \<Rightarrow> nat \<Rightarrow> buffer \<Rightarrow> 32 word \<Rightarrow>
    nat \<Rightarrow> 32 word list option" where
  "derive_degen_candidate_indices digest pool_len randomness pool_version count =
     derive_onchain_ranks digest randomness pool_version pool_len [] [0..<count]"

definition derive_degen_candidate_index_at_rank :: "(buffer \<Rightarrow> buffer) \<Rightarrow> nat \<Rightarrow> buffer \<Rightarrow> 32 word \<Rightarrow>
    nat \<Rightarrow> 32 word option" where
  "derive_degen_candidate_index_at_rank digest pool_len randomness pool_version rank =
     map_option (\<lambda>is. is ! rank)
       (derive_degen_candidate_indices digest pool_len randomness pool_version (rank + 1))"

section \<open>The loop of one rank\<close>

lemma pick_hit:
  assumes "drw (n + int k) = Inr i" and "i \<notin> used"
    and "\<And>j. j < k \<Longrightarrow> \<exists>i' \<in> used. drw (n + int j) = Inr i'"
  shows "pick drw used n = Some (Inr i)"
  using assms
proof (induction k arbitrary: n)
  case 0
  then show ?case by (subst pick.simps) simp
next
  case (Suc k)
  from Suc.prems(3) [of 0] obtain i' where "drw n = Inr i'" "i' \<in> used" by auto
  moreover have "pick drw used (n + 1) = Some (Inr i)"
  proof (rule Suc.IH)
    show "drw (n + 1 + int k) = Inr i" using Suc.prems(1) by (simp add: ac_simps)
    show "\<exists>i' \<in> used. drw (n + 1 + int j) = Inr i'" if "j < k" for j
      using Suc.prems(3) [of "Suc j"] that by (simp add: ac_simps)
  qed (rule Suc.prems(2))
  ultimately show ?case by (subst pick.simps) simp
qed

lemma pick_result:
  assumes "pick drw used n = Some r"
  shows "\<exists>m \<ge> n. drw m = r \<and> (\<forall>i \<in> used. r \<noteq> Inr i)"
proof (rule pick.raw_induct [OF _ assms])
  fix rec :: "(int \<Rightarrow> int result) \<Rightarrow> int set \<Rightarrow> int \<Rightarrow> int result option" and drw used n r
  assume IH: "\<And>drw used n r. rec drw used n = Some r \<Longrightarrow> \<exists>m \<ge> n. drw m = r \<and> (\<forall>i \<in> used. r \<noteq> Inr i)"
    and step: "(case drw n of Inl e \<Rightarrow> Some (Inl e)
      | Inr i \<Rightarrow> if i \<notin> used then Some (Inr i) else rec drw used (n + 1)) = Some r"
  show "\<exists>m \<ge> n. drw m = r \<and> (\<forall>i \<in> used. r \<noteq> Inr i)"
  proof (cases "\<exists>i \<in> used. drw n = Inr i")
    case True
    with step have "rec drw used (n + 1) = Some r" by auto
    from IH [OF this] obtain m where "n + 1 \<le> m" "drw m = r" "\<forall>i \<in> used. r \<noteq> Inr i" by blast
    then show ?thesis by (intro exI [of _ m]) simp
  next
    case False
    with step have "drw n = r" by (cases "drw n") (auto split: if_splits)
    with False show ?thesis by blast
  qed
qed

lemma pick_diverges:
  assumes "\<And>m. m \<ge> n \<Longrightarrow> \<exists>i \<in> used. drw m = Inr i"
  shows "pick drw used n = None"
proof (cases "pick drw used n")
  case (Some r)
  from pick_result [OF this] assms show ?thesis by fastforce
qed

text \<open>The on-chain loop returns what the unbounded one returns, and panics when that diverges.\<close>

lemma uint_succ:
  assumes "n \<noteq> - 1"
  shows "uint (n + 1 :: 32 word) = uint n + 1"
proof -
  have "unat (n + 1) = Suc (unat n)" using assms by (metis add.commute eq_neg_iff_add_eq_0 unatSuc)
  then show ?thesis by (simp only: uint_nat of_nat_Suc add.commute)
qed

lemma pick_onchain_unfold:
  "pick_onchain g sel n =
     (if g n \<notin> uint ` set sel then Some (word_of_int (g n))
      else if n = - 1 then None else pick_onchain g sel (n + 1))"
proof -
  have "list_ex (\<lambda>e. uint e = g n) sel \<longleftrightarrow> g n \<in> uint ` set sel" by (force simp: list_ex_iff image_iff)
  then show ?thesis by (simp add: pick_onchain.simps [of g sel n])
qed

lemma pick_onchain_Some:
  "pick_onchain g sel n = Some w \<Longrightarrow>
   \<exists>i. w = word_of_int i \<and> i \<in> range g \<and> i \<notin> uint ` set sel \<and>
     pick (\<lambda>k. Inr (g (word_of_int k))) (uint ` set sel) (uint n) = Some (Inr i)"
proof (induction g sel n rule: pick_onchain.induct)
  case (1 g sel n)
  show ?case
  proof (cases "g n \<in> uint ` set sel")
    case False
    moreover from this have "pick (\<lambda>k. Inr (g (word_of_int k))) (uint ` set sel) (uint n) = Some (Inr (g n))"
      by (subst pick.simps) simp
    ultimately show ?thesis using "1.prems" by (auto simp: pick_onchain_unfold [of g sel n])
  next
    case True
    then have ex: "list_ex (\<lambda>e. uint e = g n) sel" by (auto simp: list_ex_iff image_iff)
    from True "1.prems" have n: "n \<noteq> - 1" and "pick_onchain g sel (n + 1) = Some w"
      by (auto simp: pick_onchain_unfold [of g sel n] split: if_splits)
    with "1.IH" [OF refl] ex obtain i where "w = word_of_int i" "i \<in> range g" "i \<notin> uint ` set sel"
      "pick (\<lambda>k. Inr (g (word_of_int k))) (uint ` set sel) (uint n + 1) = Some (Inr i)"
      by (auto simp: uint_succ)
    with True show ?thesis by (subst pick.simps) auto
  qed
qed

lemma pick_onchain_None:
  "pick_onchain g sel n = None \<Longrightarrow> n \<le> m \<Longrightarrow> g m \<in> uint ` set sel"
proof (induction g sel n rule: pick_onchain.induct)
  case (1 g sel n)
  from "1.prems"(1) have hit: "g n \<in> uint ` set sel"
    and none: "n \<noteq> - 1 \<Longrightarrow> pick_onchain g sel (n + 1) = None"
    by (auto simp: pick_onchain_unfold [of g sel n] split: if_splits)
  then have ex: "list_ex (\<lambda>e. uint e = g n) sel" by (auto simp: list_ex_iff image_iff)
  show ?case
  proof (cases "m = n")
    case True
    with hit show ?thesis by simp
  next
    case False
    with "1.prems"(2) have "n < m" by simp
    then have "n \<noteq> - 1" and "n + 1 \<le> m" by (auto simp: inc_le)
    with "1.IH" [OF refl _ _ none] ex show ?thesis by blast
  qed
qed

lemma pick_onchain_agrees:
  assumes "\<And>m. 0 \<le> g m \<and> g m < 2 ^ 32"
  shows "pick (\<lambda>k. Inr (g (word_of_int k))) (uint ` set sel) 0 =
    map_option (\<lambda>w. Inr (uint w)) (pick_onchain g sel 0)"
proof (cases "pick_onchain g sel 0")
  case None
  then have "g m \<in> uint ` set sel" for m using pick_onchain_None [OF None] by simp
  then have "pick (\<lambda>k. Inr (g (word_of_int k))) (uint ` set sel) 0 = None"
    by (intro pick_diverges) auto
  with None show ?thesis by simp
next
  case (Some w)
  from pick_onchain_Some [OF this] obtain i m where "w = word_of_int i" "i = g m"
    "pick (\<lambda>k. Inr (g (word_of_int k))) (uint ` set sel) 0 = Some (Inr i)" by auto
  with assms [of m] Some show ?thesis by (simp add: uint_word_of_int_eq take_bit_int_eq_self)
qed

section \<open>One draw\<close>

text \<open>The platform's SHA-256 returns 32 bytes.\<close>

definition digest_is_32_bytes :: "(buffer \<Rightarrow> buffer) \<Rightarrow> bool" where
  "digest_is_32_bytes digest \<longleftrightarrow> (\<forall>b. length (digest b) = 32)"

lemma le_bytes_mod: "le_bytes n (x mod 256 ^ n) = le_bytes n x"
  using le_bytes_le_uint [of "le_bytes n x"] by (simp add: le_uint_le_bytes_mod)

lemma le_bytes4_word: "le_bytes 4 (uint (word_of_int x :: 32 word)) = le_bytes 4 x"
  using le_bytes_mod [of 4 x] by (simp add: uint_word_of_int)

lemma take_4: "4 \<le> length d \<Longrightarrow> take 4 d = [d ! 0, d ! 1, d ! 2, d ! 3]"
  by (rule nth_equalityI) (auto simp: less_Suc_eq numeral_eq_Suc)

lemma draw_agrees:
  assumes "digest_is_32_bytes digest"
  shows "draw digest rnd (uint ver) L (int rank) k =
    Inr (draw_onchain digest rnd ver L (word_of_nat rank) (word_of_int k))"
proof -
  let ?d = "digest (rnd @ le_bytes 4 (uint ver) @ le_bytes 4 (int rank) @ le_bytes 4 k)"
  have "length ?d = 32" using assms by (simp add: digest_is_32_bytes_def)
  then have "take 4 ?d = [?d ! 0, ?d ! 1, ?d ! 2, ?d ! 3]" and "4 \<le> length ?d"
    by (simp_all add: take_4)
  moreover have "word_of_nat rank = (word_of_int (int rank) :: 32 word)" by simp
  ultimately show ?thesis
    by (simp add: draw_def draw_onchain_def decodeU32LE_def getUint32_def get_uint_def Let_def
        encodeU32LE_def subarray_def le_bytes4_word del: of_int_of_nat_eq)
qed

lemma draw_onchain_bounds:
  assumes "0 < L" and "int L \<le> 2 ^ 32"
  shows "0 \<le> draw_onchain digest rnd ver L rank k \<and> draw_onchain digest rnd ver L rank k < int L"
  using assms by (simp add: draw_onchain_def Let_def)

lemma draw_range:
  assumes "draw digest rnd ver L rank k = Inr i" and "0 < L"
  shows "0 \<le> i \<and> i < int L"
  using assms by (auto simp: draw_def and_then_Inr_iff)

section \<open>All ranks\<close>

lemma derive_ranks_append:
  "derive_ranks digest rnd ver pool (cd_index ` set out) out (xs @ ys) =
     (case derive_ranks digest rnd ver pool (cd_index ` set out) out xs of
        None \<Rightarrow> None
      | Some (Inl e) \<Rightarrow> Some (Inl e)
      | Some (Inr out') \<Rightarrow> derive_ranks digest rnd ver pool (cd_index ` set out') out' ys)"
proof (induction xs arbitrary: out)
  case Nil
  then show ?case by simp
next
  case (Cons r xs)
  show ?case
  proof (cases "pick (draw digest rnd ver (length pool) (int r)) (cd_index ` set out) 0")
    case (Some res)
    then show ?thesis
      using Cons [of "out @ [\<lparr>cd_rank = int r, cd_index = projr res, cd_mint = pool ! nat (projr res)\<rparr>]"]
      by (cases res) simp_all
  qed simp
qed

lemma derive_ranks_appendE:
  assumes "derive_ranks digest rnd ver pool (cd_index ` set out) out (xs @ ys) = Some (Inr res)"
  obtains pre where "derive_ranks digest rnd ver pool (cd_index ` set out) out xs = Some (Inr pre)"
    and "derive_ranks digest rnd ver pool (cd_index ` set pre) pre ys = Some (Inr res)"
  using assms by (auto simp: derive_ranks_append split: option.splits sum.splits)

lemma derive_ranks_sound:
  assumes "derive_ranks digest rnd ver pool (cd_index ` set out) out ranks = Some (Inr res)"
    and "pool \<noteq> []" and "distinct (map cd_index out)"
  shows "\<exists>new. res = out @ new \<and> map cd_rank new = map int ranks \<and> distinct (map cd_index res) \<and>
    (\<forall>c \<in> set new. 0 \<le> cd_index c \<and> cd_index c < int (length pool) \<and> cd_mint c = pool ! nat (cd_index c))"
  using assms
proof (induction ranks arbitrary: out)
  case Nil
  then show ?case by simp
next
  case (Cons r ranks)
  let ?drw = "draw digest rnd ver (length pool) (int r)"
  from Cons.prems obtain i where i: "pick ?drw (cd_index ` set out) 0 = Some (Inr i)"
    by (auto split: option.splits sum.splits)
  let ?c = "\<lparr>cd_rank = int r, cd_index = i, cd_mint = pool ! nat i\<rparr>"
  from pick_result [OF i] obtain m where "?drw m = Inr i" and fresh: "i \<notin> cd_index ` set out" by auto
  with draw_range Cons.prems(2) have "0 \<le> i \<and> i < int (length pool)" by blast
  moreover from Cons.prems i
  have "derive_ranks digest rnd ver pool (cd_index ` set (out @ [?c])) (out @ [?c]) ranks = Some (Inr res)"
    by simp
  from Cons.IH [OF this Cons.prems(2)] fresh Cons.prems(3) obtain new where
    "res = (out @ [?c]) @ new" "map cd_rank new = map int ranks" "distinct (map cd_index res)"
    "\<forall>c \<in> set new. 0 \<le> cd_index c \<and> cd_index c < int (length pool) \<and> cd_mint c = pool ! nat (cd_index c)"
    by auto
  ultimately show ?case by (intro exI [of _ "?c # new"]) simp
qed

lemma derive_ranks_total:
  assumes "digest_is_32_bytes digest" and "pool \<noteq> []"
  shows "derive_ranks digest rnd (uint (ver :: 32 word)) pool used out ranks \<noteq> Some (Inl e)"
proof (induction ranks arbitrary: used out)
  case (Cons r ranks)
  have "pick (draw digest rnd (uint ver) (length pool) (int r)) used 0 \<noteq> Some (Inl e)" for e
  proof
    assume "pick (draw digest rnd (uint ver) (length pool) (int r)) used 0 = Some (Inl e)"
    from pick_result [OF this] show False by (auto simp: draw_agrees [OF assms(1)])
  qed
  with Cons show ?case by (auto split: option.splits sum.splits)
qed simp

lemma derive_ranks_agrees:
  assumes "digest_is_32_bytes digest" and "pool \<noteq> []" and "int (length pool) \<le> 2 ^ 32"
    and "map cd_index out = map uint sel"
  shows "map_option (map_sum id (map cd_index))
      (derive_ranks digest rnd (uint ver) pool (uint ` set sel) out ranks) =
    map_option (\<lambda>ws. Inr (map uint ws)) (derive_onchain_ranks digest rnd ver (length pool) sel ranks)"
  using assms(4)
proof (induction ranks arbitrary: out sel)
  case Nil
  then show ?case by simp
next
  case (Cons r ranks)
  let ?g = "draw_onchain digest rnd ver (length pool) (word_of_nat r)"
  have "0 \<le> ?g m \<and> ?g m < 2 ^ 32" for m
    using draw_onchain_bounds [of "length pool" digest rnd ver "word_of_nat r" m] assms(2,3) by simp
  moreover have "draw digest rnd (uint ver) (length pool) (int r) = (\<lambda>k. Inr (?g (word_of_int k)))"
    by (rule ext) (rule draw_agrees [OF assms(1)])
  ultimately have "pick (draw digest rnd (uint ver) (length pool) (int r)) (uint ` set sel) 0 =
      map_option (\<lambda>w. Inr (uint w)) (pick_onchain ?g sel 0)"
    using pick_onchain_agrees [of ?g sel] by simp
  then show ?case
    using Cons.IH [of "out @ [c]" "sel @ [w]" for c w] Cons.prems
    by (cases "pick_onchain ?g sel 0") simp_all
qed

lemma pick_terminates:
  assumes "\<And>k :: nat. \<exists>i. drw (int k) = Inr i" and "drw (int k0) = Inr i0" and "i0 \<notin> used"
  shows "\<exists>i. pick drw used 0 = Some (Inr i)"
proof -
  define k where "k = (LEAST k. \<exists>i. drw (int k) = Inr i \<and> i \<notin> used)"
  have "\<exists>i. drw (int k) = Inr i \<and> i \<notin> used" unfolding k_def by (rule LeastI_ex) (use assms in blast)
  then obtain i where "drw (int k) = Inr i" "i \<notin> used" by blast
  moreover have "\<exists>i' \<in> used. drw (int j) = Inr i'" if "j < k" for j
    using not_less_Least [of j "\<lambda>k. \<exists>i. drw (int k) = Inr i \<and> i \<notin> used"] that assms(1) [of j]
    unfolding k_def by blast
  ultimately show ?thesis using pick_hit [of drw 0 k i used] by auto
qed

lemma unused_index:
  assumes "finite used" and "card used < L"
  shows "\<exists>i. 0 \<le> i \<and> i < int L \<and> i \<notin> used"
proof (rule ccontr)
  assume "\<not> ?thesis"
  then have "{0..<int L} \<subseteq> used" by auto
  from card_mono [OF assms(1) this] assms(2) show False by simp
qed

text \<open>
  A rank at which the loop has nowhere to go: whatever the nonce is, the index drawn has been picked before. The nonce is hashed
  as 32 bits, so the first \<open>2\<^sup>3\<^sup>2\<close> nonces are all there are.
\<close>

definition stuck :: "(buffer \<Rightarrow> buffer) \<Rightarrow> buffer \<Rightarrow> int \<Rightarrow> nat \<Rightarrow> nat \<Rightarrow> candidate list \<Rightarrow> bool" where
  "stuck digest rnd ver L rank pre \<longleftrightarrow>
     (\<forall>nonce < 2 ^ 32. \<exists>c \<in> set pre. draw digest rnd ver L (int rank) (int nonce) = Inr (cd_index c))"

lemma pick_None_iff:
  assumes "digest_is_32_bytes digest"
  shows "pick (draw digest rnd (uint (ver :: 32 word)) L (int rank)) (cd_index ` set pre) 0 = None \<longleftrightarrow> stuck digest rnd (uint ver) L rank pre"
proof
  let ?drw = "draw digest rnd (uint ver) L (int rank)"
  assume none: "pick ?drw (cd_index ` set pre) 0 = None"
  show "stuck digest rnd (uint ver) L rank pre"
    unfolding stuck_def
  proof (intro allI impI)
    fix nonce :: nat
    obtain i where "?drw (int nonce) = Inr i" by (simp add: draw_agrees [OF assms])
    with pick_terminates [of ?drw nonce i "cd_index ` set pre"] none
    show "\<exists>c \<in> set pre. ?drw (int nonce) = Inr (cd_index c)" by (auto simp: draw_agrees [OF assms])
  qed
next
  let ?drw = "draw digest rnd (uint ver) L (int rank)"
  assume stuck: "stuck digest rnd (uint ver) L rank pre"
  have "\<exists>i \<in> cd_index ` set pre. ?drw m = Inr i" if "0 \<le> m" for m
  proof -
    define w :: "32 word" where "w = word_of_int m"
    have "unat w < 2 ^ 32" using unsigned_less [of w, where 'a = nat] by simp
    moreover have "?drw m = ?drw (int (unat w))" by (simp add: draw_agrees [OF assms] w_def)
    ultimately show ?thesis using stuck unfolding stuck_def by (metis image_eqI)
  qed
  then show "pick ?drw (cd_index ` set pre) 0 = None" by (rule pick_diverges)
qed

lemma derive_upto_None_iff:
  assumes "digest_is_32_bytes digest" and "pool \<noteq> []"
  shows "derive_ranks digest rnd (uint (ver :: 32 word)) pool {} [] [0..<n] = None \<longleftrightarrow>
    (\<exists>rank < n. \<exists>pre. derive_ranks digest rnd (uint ver) pool {} [] [0..<rank] = Some (Inr pre) \<and>
      stuck digest rnd (uint ver) (length pool) rank pre)"
proof (induction n)
  case (Suc n)
  note step = derive_ranks_append [of digest rnd "uint ver" pool "[]" "[0..<n]" "[n]"]
  show ?case
  proof (cases "derive_ranks digest rnd (uint ver) pool {} [] [0..<n]")
    case None
    with step Suc show ?thesis by (auto simp: less_Suc_eq)
  next
    case (Some res)
    with derive_ranks_total [OF assms, of rnd ver "{}" "[]" "[0..<n]"] obtain pre where pre: "res = Inr pre" by (cases res) auto
    have "derive_ranks digest rnd (uint ver) pool {} [] [0..<Suc n] = None \<longleftrightarrow> stuck digest rnd (uint ver) (length pool) n pre"
      using step Some pre pick_None_iff [OF assms(1), of rnd ver "length pool" n pre] by (auto split: option.splits sum.splits)
    with Suc Some pre show ?thesis by (auto simp: less_Suc_eq)
  qed
qed simp

definition demo_digest :: "buffer \<Rightarrow> buffer" where
  "demo_digest b = take 4 (drop (length b - 4) b @ replicate 4 0) @ replicate 28 0"

lemma demo_digest_32: "digest_is_32_bytes demo_digest"
  by (simp add: digest_is_32_bytes_def demo_digest_def)

lemma demo_draw:
  assumes "0 \<le> i" and "i < int L" and "int L \<le> 2 ^ 32"
  shows "draw demo_digest rnd ver L rank i = Inr i"
proof -
  have "le_uint (le_bytes 4 i) = i" by (rule le_uint_le_bytes) (use assms in simp_all)
  then show ?thesis
    using assms by (simp add: draw_def decodeU32LE_def getUint32_def get_uint_def encodeU32LE_def demo_digest_def subarray_def)
qed

lemma demo_not_stuck:
  assumes "length pre < L" and "int L \<le> 2 ^ 32"
  shows "\<not> stuck demo_digest rnd ver L rank pre"
proof
  assume stuck: "stuck demo_digest rnd ver L rank pre"
  have "card (cd_index ` set pre) < L" using assms(1) by (meson card_image_le card_length finite_set le_less_trans order_trans)
  then obtain i where i: "0 \<le> i" "i < int L" "i \<notin> cd_index ` set pre" using unused_index [of "cd_index ` set pre"] by auto
  then have "nat i < 2 ^ 32" using assms(2) by (simp add: nat_less_iff)
  with stuck obtain c where "c \<in> set pre" "draw demo_digest rnd ver L (int rank) (int (nat i)) = Inr (cd_index c)"
    unfolding stuck_def by blast
  with demo_draw [OF i(1,2) assms(2), of rnd ver "int rank"] i show False by auto
qed

section \<open>Properties\<close>

text \<open>
  What the crank's candidate derivation returns: when it returns, one candidate per rank
  from 0 up to the smaller of the requested count and the pool size, with pairwise different
  indices inside the pool, each with the mint of its index.
\<close>

theorem deriveCandidates_sound:
  assumes "deriveCandidates digest DEGEN_POOL rnd ver count pool = Some (Inr out)"
  defines "p \<equiv> (case pool of Some p \<Rightarrow> p | None \<Rightarrow> DEGEN_POOL)"
  shows "map cd_rank out = map int [0..<min count (length p)] \<and> distinct (map cd_index out) \<and>
    (\<forall>c \<in> set out. 0 \<le> cd_index c \<and> cd_index c < int (length p) \<and> cd_mint c = p ! nat (cd_index c))"
proof (cases "p = []")
  case True
  with assms(1) show ?thesis by (simp add: deriveCandidates_def Let_def flip: p_def)
next
  case False
  from assms(1) have "derive_ranks digest rnd ver p (cd_index ` set ([] :: candidate list)) [] [0..<min count (length p)] =
      Some (Inr out)"
    by (simp add: deriveCandidates_def Let_def flip: p_def)
  from derive_ranks_sound [OF this False] show ?thesis by auto
qed

text \<open>
  The candidate of a rank does not depend on the size of the window: whatever count the
  crank asks for, the token it picks at a rank is the one the on-chain program checks with
  \<open>derive_degen_candidate_index_at_rank\<close>.
\<close>

theorem candidate_rank_stable:
  assumes "digest_is_32_bytes digest" and "int (length pool) \<le> 2 ^ 32"
    and "rank < count" and "count \<le> length pool"
    and "deriveCandidates digest pool rnd (uint ver) count None = Some (Inr out)"
  shows "derive_degen_candidate_index_at_rank digest (length pool) rnd ver rank =
    Some (word_of_int (cd_index (out ! rank)))"
proof -
  have ne: "pool \<noteq> []" using assms(3,4) by auto
  have split: "[0..<count] = [0..<rank + 1] @ [rank + 1..<count]"
    using assms(3) by (metis Suc_eq_plus1 Suc_leI le_add_diff_inverse upt_add_eq_append zero_le)
  from assms(4,5) have all: "derive_ranks digest rnd (uint ver) pool (cd_index ` set ([] :: candidate list)) [] [0..<count] = Some (Inr out)"
    by (simp add: deriveCandidates_def)
  obtain pre where pre: "derive_ranks digest rnd (uint ver) pool (cd_index ` set ([] :: candidate list)) [] [0..<rank + 1] = Some (Inr pre)"
    and rest: "derive_ranks digest rnd (uint ver) pool (cd_index ` set pre) pre [rank + 1..<count] = Some (Inr out)"
    by (rule derive_ranks_appendE [OF all [unfolded split]]) (rule that)
  from derive_ranks_sound [OF pre ne]
  have ranks: "map cd_rank pre = map int [0..<rank + 1]" and dist: "distinct (map cd_index pre)" by auto
  from arg_cong [OF ranks, of length] have len: "length pre = rank + 1" by simp
  from derive_ranks_sound [OF rest ne dist] len have nth: "out ! rank = pre ! rank"
    by (auto simp: nth_append)
  from pre derive_ranks_agrees [OF assms(1) ne assms(2), of "[]" "[]" rnd ver "[0..<rank + 1]"]
  obtain ws where ws: "derive_degen_candidate_indices digest (length pool) rnd ver (rank + 1) = Some ws"
    and eq: "map uint ws = map cd_index pre"
    by (cases "derive_onchain_ranks digest rnd ver (length pool) [] [0..<rank + 1]")
      (auto simp: derive_degen_candidate_indices_def)
  from eq len have "length ws = rank + 1" by (metis length_map)
  with eq len have "uint (ws ! rank) = cd_index (pre ! rank)" by (metis nth_map less_add_one)
  then have "ws ! rank = word_of_int (cd_index (pre ! rank))" by (metis word_of_int_uint)
  with ws nth show ?thesis by (simp add: derive_degen_candidate_index_at_rank_def)
qed

text \<open>
  C12. The crank's derivation and the on-chain derivation are the same function of the randomness. With the same pool of at most
  \<open>2\<^sup>3\<^sup>2\<close> tokens and the same version, for every count up to the size of the pool: the crank derives the indices the program
  derives, its unbounded loop fails to end exactly when the on-chain loop would panic on the overflow of its 32-bit nonce, and
  what it derives at a rank is what the program derives for that rank alone.
\<close>

theorem candidate_derivations_agree:
  assumes "digest_is_32_bytes digest" and "count \<le> length pool" and "int (length pool) \<le> 2 ^ 32"
  shows "map_option (map_sum id (map cd_index)) (deriveCandidates digest pool rnd (uint ver) count None) =
      map_option (\<lambda>ws. Inr (map uint ws))
        (derive_degen_candidate_indices digest (length pool) rnd ver count) \<and>
    (\<forall>out rank. deriveCandidates digest pool rnd (uint ver) count None = Some (Inr out) \<and> rank < count \<longrightarrow>
      derive_degen_candidate_index_at_rank digest (length pool) rnd ver rank = Some (word_of_int (cd_index (out ! rank))))"
proof (cases "pool = []")
  case True
  with assms show ?thesis
    by (simp add: deriveCandidates_def derive_degen_candidate_indices_def)
next
  case False
  with derive_ranks_agrees [OF assms(1) False assms(3), of "[]" "[]" rnd ver "[0..<count]"] assms(2)
  have "map_option (map_sum id (map cd_index)) (deriveCandidates digest pool rnd (uint ver) count None) =
      map_option (\<lambda>ws. Inr (map uint ws)) (derive_degen_candidate_indices digest (length pool) rnd ver count)"
    by (simp add: deriveCandidates_def derive_degen_candidate_indices_def min_def)
  then show ?thesis using candidate_rank_stable [OF assms(1,3) _ assms(2)] by blast
qed

theorem candidate_derivations_agree_witness:
  "map_option (map_sum id (map cd_index))
      (deriveCandidates demo_digest [''A'', ''B'', ''C''] [] (uint (3 :: 32 word)) 3 None) =
    map_option (\<lambda>ws. Inr (map uint ws)) (derive_degen_candidate_indices demo_digest 3 [] 3 3)"
  using candidate_derivations_agree [OF demo_digest_32, of 3 "[''A'', ''B'', ''C'']" "[]" 3]
  by (simp add: eval_nat_numeral)

text \<open>
  C39. When the crank's candidate loop, which has no bound, returns. It returns with every rank filled, as many candidates as asked
  for or as the pool has, unless some rank is stuck: there every one of the \<open>2\<^sup>3\<^sup>2\<close> nonces draws an index that the ranks before it
  have picked. Nothing is assumed of the hash but that it has 32 bytes.
\<close>

theorem deriveCandidates_returns_iff:
  assumes "digest_is_32_bytes digest"
  shows "(\<exists>out. deriveCandidates digest pool rnd (uint (ver :: 32 word)) count None = Some (Inr out) \<and>
      length out = min count (length pool)) \<longleftrightarrow>
    \<not> (\<exists>rank < min count (length pool). \<exists>pre.
      deriveCandidates digest pool rnd (uint ver) rank None = Some (Inr pre) \<and> stuck digest rnd (uint ver) (length pool) rank pre)"
proof (cases "pool = []")
  case True
  then show ?thesis by (simp add: deriveCandidates_def)
next
  case False
  let ?D = "\<lambda>n. derive_ranks digest rnd (uint ver) pool {} [] [0..<n]"
  let ?n = "min count (length pool)"
  have D: "deriveCandidates digest pool rnd (uint ver) n None = ?D (min n (length pool))" for n by (simp add: deriveCandidates_def)
  have full: "length out = n" if "?D n = Some (Inr out)" for n out
    using derive_ranks_sound [of digest rnd "uint ver" pool "[]" "[0..<n]" out] that False
    by (auto dest: arg_cong [of _ _ length])
  have "(\<exists>out. ?D ?n = Some (Inr out)) \<longleftrightarrow> ?D ?n \<noteq> None"
    using derive_ranks_total [OF assms False, of rnd ver "{}" "[]" "[0..<?n]"] by (metis option.exhaust option.distinct(1) sum.exhaust)
  also have "\<dots> \<longleftrightarrow> \<not> (\<exists>rank < ?n. \<exists>pre. ?D rank = Some (Inr pre) \<and> stuck digest rnd (uint ver) (length pool) rank pre)"
    unfolding derive_upto_None_iff [OF assms False] ..
  also have "\<dots> \<longleftrightarrow> \<not> (\<exists>rank < ?n. \<exists>pre. deriveCandidates digest pool rnd (uint ver) rank None = Some (Inr pre) \<and>
      stuck digest rnd (uint ver) (length pool) rank pre)" unfolding D by (intro arg_cong [of _ _ Not] ex_cong1) (auto simp: min_def)
  finally show ?thesis using full unfolding D by metis
qed

theorem deriveCandidates_returns_iff_witness:
  "\<exists>out. deriveCandidates demo_digest [''A'', ''B'', ''C''] [1] (uint (3 :: 32 word)) 30 None = Some (Inr out) \<and> length out = 3"
proof -
  let ?pool = "[''A'', ''B'', ''C'']"
  have "\<not> stuck demo_digest [1] (uint (3 :: 32 word)) 3 rank pre"
    if rank: "rank < 3" and pre: "deriveCandidates demo_digest ?pool [1] (uint (3 :: 32 word)) rank None = Some (Inr pre)" for rank pre
  proof (rule demo_not_stuck)
    from deriveCandidates_sound [OF pre] have "length (map cd_rank pre) = min rank 3" by simp
    with rank show "length pre < 3" by simp
  qed simp
  then show ?thesis
    using deriveCandidates_returns_iff [OF demo_digest_32, of ?pool "[1]" 3 30] by (auto simp: numeral_3_eq_3)
qed

end
