(* ===== verification/Instructions.thy ===== *)
theory Instructions
  imports Layouts
begin

text \<open>
  The instruction builders of the crank (\<open>crank/src/instructions.ts\<close>) and of the front end
  (\<open>src/lib/program.ts\<close>, suffix \<open>_front\<close>), the part of the IDL
  (\<open>src/idl/jackpot.json\<close>) they go through, and the account lists the on-chain program
  accepts (\<open>runtime/degen_execution_program.rs\<close>).

  A builder hands a method name, arguments and \<^emph>\<open>named\<close> accounts to Anchor, a package outside
  the repository: the parameter \<open>anchor\<close>. What the code relies on is \<open>anchor_follows_idl\<close>:
  the keys of the instruction are the IDL's accounts of that method, in the IDL's order and
  with its flags, names the IDL does not have are dropped, and an omitted optional account is
  the program id.
\<close>

section \<open>Instructions\<close>

record 'pk account_meta =
  am_pubkey :: 'pk
  am_isSigner :: bool
  am_isWritable :: bool

datatype 'pk arg = ArgBN int | ArgNum int | ArgBytes "int list" | ArgKey 'pk | ArgStruct "(string \<times> 'pk arg) list"

record 'pk instruction =
  ix_programId :: 'pk
  ix_keys :: "'pk account_meta list"
  ix_data :: buffer

type_synonym 'pk accounts = "(string \<times> 'pk option) list"
type_synonym 'pk anchor = "string \<Rightarrow> 'pk arg list \<Rightarrow> 'pk accounts \<Rightarrow> 'pk instruction result"

text \<open>The constant programs and sysvars of the builders.\<close>

record 'pk programs =
  TOKEN_PROGRAM_ID :: 'pk
  ASSOCIATED_TOKEN_PROGRAM_ID :: 'pk
  SystemProgram_programId :: 'pk
  VRF_PROGRAM_ID :: 'pk
  DEFAULT_QUEUE :: 'pk
  SLOT_HASHES :: 'pk

record 'pk chain_env =
  ce_sdk :: "'pk sdk"
  ce_net :: "'pk net"
  ce_programs :: "'pk programs"
  ce_anchor :: "'pk anchor"

abbreviation "round_pda e r \<equiv> getRoundPda (ce_sdk e) (ce_net e) r"
abbreviation "config_pda e \<equiv> getConfigPda (ce_sdk e) (ce_net e)"
abbreviation "identity_pda e \<equiv> getIdentityPda (ce_sdk e) (ce_net e)"
abbreviation "degen_config_pda e \<equiv> getDegenConfigPda (ce_sdk e) (ce_net e)"
abbreviation "degen_claim_pda e r w \<equiv> getDegenClaimPda (ce_sdk e) (ce_net e) r w"
abbreviation "participant_pda e r u \<equiv> getParticipantPda (ce_sdk e) (ce_net e) r u"
abbreviation "ata e mint owner off \<equiv> getAssociatedTokenAddress (ce_sdk e) mint owner off"
abbreviation "usdc e \<equiv> USDC_MINT (ce_net e)"
abbreviation "treasury e \<equiv> TREASURY_USDC_ATA (ce_net e)"

text \<open>\<open>vrfPayer && !vrfPayer.equals(PublicKey.default)\<close>, then its token account.\<close>

definition real_payer :: "'pk chain_env \<Rightarrow> 'pk option \<Rightarrow> 'pk option" where
  "real_payer e vrfPayer = (case vrfPayer of None \<Rightarrow> None
     | Some p \<Rightarrow> if p \<noteq> pk_default (ce_sdk e) then Some p else None)"

definition vrf_payer_ata :: "'pk chain_env \<Rightarrow> 'pk \<Rightarrow> 'pk option \<Rightarrow> 'pk option result" where
  "vrf_payer_ata e mint vrfPayer = (case real_payer e vrfPayer of None \<Rightarrow> Inr None
     | Some p \<Rightarrow> and_then (ata e mint p False) (\<lambda>a. Inr (Some a)))"

section \<open>The builders of the crank\<close>

definition buildStartRound :: "'pk chain_env \<Rightarrow> 'pk \<Rightarrow> int \<Rightarrow> 'pk instruction result" where
  "buildStartRound e payer roundId =
     and_then (ata e (usdc e) (round_pda e roundId) True) (\<lambda>vaultAta.
     ce_anchor e ''startRound'' [ArgBN roundId]
       [(''payer'', Some payer), (''config'', Some (config_pda e)),
        (''round'', Some (round_pda e roundId)), (''vaultUsdcAta'', Some vaultAta),
        (''usdcMint'', Some (usdc e)),
        (''associatedTokenProgram'', Some (ASSOCIATED_TOKEN_PROGRAM_ID (ce_programs e))),
        (''tokenProgram'', Some (TOKEN_PROGRAM_ID (ce_programs e))),
        (''systemProgram'', Some (SystemProgram_programId (ce_programs e)))])"

definition buildLockRound :: "'pk chain_env \<Rightarrow> 'pk \<Rightarrow> int \<Rightarrow> 'pk instruction result" where
  "buildLockRound e caller roundId =
     ce_anchor e ''lockRound'' [ArgBN roundId]
       [(''caller'', Some caller), (''config'', Some (config_pda e)),
        (''round'', Some (round_pda e roundId))]"

definition buildRequestVrf :: "'pk chain_env \<Rightarrow> 'pk \<Rightarrow> int \<Rightarrow> 'pk instruction result" where
  "buildRequestVrf e payer roundId =
     ce_anchor e ''requestVrf'' [ArgBN roundId]
       [(''payer'', Some payer), (''config'', Some (config_pda e)),
        (''round'', Some (round_pda e roundId)),
        (''programIdentity'', Some (identity_pda e)),
        (''oracleQueue'', Some (DEFAULT_QUEUE (ce_programs e))),
        (''vrfProgram'', Some (VRF_PROGRAM_ID (ce_programs e))),
        (''slotHashes'', Some (SLOT_HASHES (ce_programs e))),
        (''systemProgram'', Some (SystemProgram_programId (ce_programs e)))]"

definition buildAutoClaim :: "'pk chain_env \<Rightarrow> 'pk \<Rightarrow> 'pk \<Rightarrow> int \<Rightarrow> 'pk option \<Rightarrow> 'pk instruction result" where
  "buildAutoClaim e payer winner roundId vrfPayer =
     and_then (ata e (usdc e) (round_pda e roundId) True) (\<lambda>vaultAta.
     and_then (ata e (usdc e) winner False) (\<lambda>winnerAta.
     and_then (vrf_payer_ata e (usdc e) vrfPayer) (\<lambda>vrfPayerUsdcAta.
     ce_anchor e ''autoClaim'' [ArgBN roundId]
       [(''payer'', Some payer), (''config'', Some (config_pda e)),
        (''round'', Some (round_pda e roundId)), (''vaultUsdcAta'', Some vaultAta),
        (''winnerUsdcAta'', Some winnerAta), (''treasuryUsdcAta'', Some (treasury e)),
        (''vrfPayerUsdcAta'', vrfPayerUsdcAta),
        (''tokenProgram'', Some (TOKEN_PROGRAM_ID (ce_programs e)))])))"

definition buildAutoClaimDegenFallback :: "'pk chain_env \<Rightarrow> 'pk \<Rightarrow> 'pk \<Rightarrow> int \<Rightarrow> int \<Rightarrow> 'pk instruction result" where
  "buildAutoClaimDegenFallback e payer winner roundId fallbackReason =
     and_then (ata e (usdc e) (round_pda e roundId) True) (\<lambda>vaultAta.
     and_then (ata e (usdc e) winner False) (\<lambda>winnerAta.
     ce_anchor e ''autoClaimDegenFallback'' [ArgBN roundId, ArgNum fallbackReason]
       [(''payer'', Some payer), (''config'', Some (config_pda e)),
        (''round'', Some (round_pda e roundId)),
        (''degenClaim'', Some (degen_claim_pda e roundId winner)),
        (''vaultUsdcAta'', Some vaultAta), (''winnerUsdcAta'', Some winnerAta),
        (''treasuryUsdcAta'', Some (treasury e)),
        (''tokenProgram'', Some (TOKEN_PROGRAM_ID (ce_programs e)))]))"

definition buildClaimRefund :: "'pk chain_env \<Rightarrow> 'pk \<Rightarrow> int \<Rightarrow> 'pk instruction result" where
  "buildClaimRefund e user roundId =
     and_then (ata e (usdc e) (round_pda e roundId) True) (\<lambda>vaultAta.
     and_then (ata e (usdc e) user False) (\<lambda>userUsdcAta.
     ce_anchor e ''claimRefund'' [ArgBN roundId]
       [(''config'', Some (config_pda e)), (''round'', Some (round_pda e roundId)),
        (''user'', Some user),
        (''participant'', Some (participant_pda e (round_pda e roundId) user)),
        (''vaultUsdcAta'', Some vaultAta), (''userUsdcAta'', Some userUsdcAta),
        (''tokenProgram'', Some (TOKEN_PROGRAM_ID (ce_programs e)))]))"

definition buildTransferAdmin :: "'pk chain_env \<Rightarrow> 'pk \<Rightarrow> 'pk \<Rightarrow> 'pk instruction result" where
  "buildTransferAdmin e admin newAdmin =
     ce_anchor e ''transferAdmin'' [ArgKey newAdmin]
       [(''admin'', Some admin), (''config'', Some (config_pda e))]"

definition buildSetTreasuryUsdcAta :: "'pk chain_env \<Rightarrow> 'pk \<Rightarrow> 'pk \<Rightarrow> 'pk \<Rightarrow> 'pk instruction result" where
  "buildSetTreasuryUsdcAta e admin newTreasuryUsdcAta expectedOwner =
     ce_anchor e ''setTreasuryUsdcAta'' []
       [(''admin'', Some admin), (''config'', Some (config_pda e)),
        (''newTreasuryUsdcAta'', Some newTreasuryUsdcAta),
        (''expectedOwner'', Some expectedOwner)]"

definition buildCloseRound :: "'pk chain_env \<Rightarrow> 'pk \<Rightarrow> 'pk \<Rightarrow> int \<Rightarrow> 'pk instruction result" where
  "buildCloseRound e payer recipient roundId =
     and_then (ata e (usdc e) (round_pda e roundId) True) (\<lambda>vaultAta.
     and_then (ce_anchor e ''closeRound'' [ArgBN roundId]
       [(''payer'', Some payer), (''recipient'', Some recipient),
        (''round'', Some (round_pda e roundId)), (''vaultUsdcAta'', Some vaultAta),
        (''tokenProgram'', Some (TOKEN_PROGRAM_ID (ce_programs e))),
        (''systemProgram'', Some (SystemProgram_programId (ce_programs e)))]) (\<lambda>baseIx.
     Inr (baseIx\<lparr>ix_keys := ix_keys baseIx @
       [\<lparr>am_pubkey = treasury e, am_isSigner = False, am_isWritable = True\<rparr>]\<rparr>)))"

definition buildCloseParticipant :: "'pk chain_env \<Rightarrow> 'pk \<Rightarrow> 'pk \<Rightarrow> int \<Rightarrow> 'pk instruction result" where
  "buildCloseParticipant e payer user roundId =
     ce_anchor e ''closeParticipant'' [ArgBN roundId]
       [(''payer'', Some payer), (''user'', Some user),
        (''round'', Some (round_pda e roundId)),
        (''participant'', Some (participant_pda e (round_pda e roundId) user))]"

definition buildBeginDegenExecution :: "'pk chain_env \<Rightarrow> 'pk \<Rightarrow> 'pk \<Rightarrow> int \<Rightarrow> int \<Rightarrow> int \<Rightarrow> int \<Rightarrow> int list \<Rightarrow> 'pk \<Rightarrow> 'pk \<Rightarrow> 'pk option \<Rightarrow> 'pk instruction result" where
  "buildBeginDegenExecution e executor winner roundId candidateRank tokenIndex minOutRaw routeHash selectedTokenMint receiverTokenAta vrfPayer =
     and_then (ata e (usdc e) (round_pda e roundId) True) (\<lambda>vaultAta.
     and_then (ata e (usdc e) executor False) (\<lambda>executorAta.
     and_then (ce_anchor e ''beginDegenExecution'' [ArgBN roundId, ArgNum candidateRank, ArgNum tokenIndex, ArgBN minOutRaw, ArgBytes routeHash]
       [(''executor'', Some executor), (''config'', Some (config_pda e)),
        (''degenConfig'', Some (degen_config_pda e)),
        (''round'', Some (round_pda e roundId)),
        (''degenClaim'', Some (degen_claim_pda e roundId winner)),
        (''vaultUsdcAta'', Some vaultAta), (''executorUsdcAta'', Some executorAta),
        (''treasuryUsdcAta'', Some (treasury e)),
        (''selectedTokenMint'', Some selectedTokenMint),
        (''receiverTokenAta'', Some receiverTokenAta),
        (''tokenProgram'', Some (TOKEN_PROGRAM_ID (ce_programs e)))]) (\<lambda>baseIx.
     case real_payer e vrfPayer of
       None \<Rightarrow> Inr baseIx
     | Some payer \<Rightarrow>
         and_then (ata e (usdc e) payer False) (\<lambda>vrfPayerUsdcAta.
         Inr \<lparr>ix_programId = ix_programId baseIx,
              ix_keys = take 8 (ix_keys baseIx) @
                [\<lparr>am_pubkey = payer, am_isSigner = False, am_isWritable = True\<rparr>,
                 \<lparr>am_pubkey = vrfPayerUsdcAta, am_isSigner = False, am_isWritable = True\<rparr>] @
                drop 8 (ix_keys baseIx),
              ix_data = ix_data baseIx\<rparr>))))"

definition buildFinalizeDegenSuccess :: "'pk chain_env \<Rightarrow> 'pk \<Rightarrow> 'pk \<Rightarrow> int \<Rightarrow> 'pk \<Rightarrow> 'pk instruction result" where
  "buildFinalizeDegenSuccess e executor winner roundId receiverTokenAta =
     and_then (ata e (usdc e) executor False) (\<lambda>executorAta.
     ce_anchor e ''finalizeDegenSuccess'' [ArgBN roundId]
       [(''executor'', Some executor), (''degenConfig'', Some (degen_config_pda e)),
        (''round'', Some (round_pda e roundId)),
        (''degenClaim'', Some (degen_claim_pda e roundId winner)),
        (''executorUsdcAta'', Some executorAta),
        (''receiverTokenAta'', Some receiverTokenAta),
        (''tokenProgram'', Some (TOKEN_PROGRAM_ID (ce_programs e)))])"

definition buildUpsertDegenConfig :: "'pk chain_env \<Rightarrow> 'pk \<Rightarrow> 'pk \<Rightarrow> int \<Rightarrow> 'pk instruction result" where
  "buildUpsertDegenConfig e admin executor fallbackTimeoutSec =
     ce_anchor e ''upsertDegenConfig'' [ArgStruct [(''executor'', ArgKey executor), (''fallbackTimeoutSec'', ArgNum fallbackTimeoutSec)]]
       [(''admin'', Some admin), (''config'', Some (config_pda e)),
        (''degenConfig'', Some (degen_config_pda e)),
        (''systemProgram'', Some (SystemProgram_programId (ce_programs e)))]"

section \<open>The builders of the front end\<close>

definition buildStartRound_front :: "'pk chain_env \<Rightarrow> 'pk \<Rightarrow> int \<Rightarrow> 'pk \<Rightarrow> 'pk instruction result" where
  "buildStartRound_front e payer roundId usdcMint =
     and_then (ata e usdcMint (round_pda e roundId) True) (\<lambda>vaultAta.
     ce_anchor e ''startRound'' [ArgBN roundId]
       [(''payer'', Some payer), (''config'', Some (config_pda e)),
        (''round'', Some (round_pda e roundId)), (''vaultUsdcAta'', Some vaultAta),
        (''usdcMint'', Some usdcMint),
        (''associatedTokenProgram'', Some (ASSOCIATED_TOKEN_PROGRAM_ID (ce_programs e))),
        (''tokenProgram'', Some (TOKEN_PROGRAM_ID (ce_programs e))),
        (''systemProgram'', Some (SystemProgram_programId (ce_programs e)))])"

definition buildDepositAny_front :: "'pk chain_env \<Rightarrow> 'pk \<Rightarrow> int \<Rightarrow> int \<Rightarrow> int \<Rightarrow> 'pk \<Rightarrow> 'pk instruction result" where
  "buildDepositAny_front e user roundId usdcBalanceBefore minOut usdcMint =
     and_then (ata e usdcMint user False) (\<lambda>userUsdcAta.
     and_then (ata e usdcMint (round_pda e roundId) True) (\<lambda>vaultAta.
     ce_anchor e ''depositAny'' [ArgBN roundId, ArgBN usdcBalanceBefore, ArgBN minOut]
       [(''user'', Some user), (''config'', Some (config_pda e)),
        (''round'', Some (round_pda e roundId)),
        (''participant'', Some (participant_pda e (round_pda e roundId) user)),
        (''userUsdcAta'', Some userUsdcAta), (''vaultUsdcAta'', Some vaultAta),
        (''tokenProgram'', Some (TOKEN_PROGRAM_ID (ce_programs e))),
        (''systemProgram'', Some (SystemProgram_programId (ce_programs e)))]))"

definition buildLockRound_front :: "'pk chain_env \<Rightarrow> 'pk \<Rightarrow> int \<Rightarrow> 'pk instruction result" where
  "buildLockRound_front e caller roundId =
     ce_anchor e ''lockRound'' [ArgBN roundId]
       [(''caller'', Some caller), (''config'', Some (config_pda e)),
        (''round'', Some (round_pda e roundId))]"

definition buildMockSettle_front :: "'pk chain_env \<Rightarrow> 'pk \<Rightarrow> int \<Rightarrow> int list \<Rightarrow> 'pk instruction result" where
  "buildMockSettle_front e admin roundId randomness =
     ce_anchor e ''mockSettle'' [ArgBN roundId, ArgBytes randomness]
       [(''admin'', Some admin), (''config'', Some (config_pda e)),
        (''round'', Some (round_pda e roundId))]"

definition buildRequestVrf_front :: "'pk chain_env \<Rightarrow> 'pk \<Rightarrow> int \<Rightarrow> 'pk instruction result" where
  "buildRequestVrf_front e payer roundId =
     ce_anchor e ''requestVrf'' [ArgBN roundId]
       [(''payer'', Some payer), (''config'', Some (config_pda e)),
        (''round'', Some (round_pda e roundId)),
        (''programIdentity'', Some (identity_pda e)),
        (''oracleQueue'', Some (DEFAULT_QUEUE (ce_programs e))),
        (''vrfProgram'', Some (VRF_PROGRAM_ID (ce_programs e))),
        (''slotHashes'', Some (SLOT_HASHES (ce_programs e))),
        (''systemProgram'', Some (SystemProgram_programId (ce_programs e)))]"

definition buildRequestDegenVrf_front :: "'pk chain_env \<Rightarrow> 'pk \<Rightarrow> int \<Rightarrow> 'pk instruction result" where
  "buildRequestDegenVrf_front e winner roundId =
     ce_anchor e ''requestDegenVrf'' [ArgBN roundId]
       [(''winner'', Some winner), (''config'', Some (config_pda e)),
        (''round'', Some (round_pda e roundId)),
        (''degenClaim'', Some (degen_claim_pda e roundId winner)),
        (''programIdentity'', Some (identity_pda e)),
        (''oracleQueue'', Some (DEFAULT_QUEUE (ce_programs e))),
        (''vrfProgram'', Some (VRF_PROGRAM_ID (ce_programs e))),
        (''slotHashes'', Some (SLOT_HASHES (ce_programs e))),
        (''systemProgram'', Some (SystemProgram_programId (ce_programs e)))]"

definition buildClaim_front :: "'pk chain_env \<Rightarrow> 'pk \<Rightarrow> int \<Rightarrow> 'pk \<Rightarrow> 'pk \<Rightarrow> 'pk option \<Rightarrow> 'pk instruction result" where
  "buildClaim_front e winner roundId usdcMint treasuryUsdcAta vrfPayer =
     and_then (ata e usdcMint (round_pda e roundId) True) (\<lambda>vaultAta.
     and_then (ata e usdcMint winner False) (\<lambda>winnerAta.
     and_then (vrf_payer_ata e usdcMint vrfPayer) (\<lambda>vrfPayerUsdcAta.
     ce_anchor e ''claim'' [ArgBN roundId]
       [(''winner'', Some winner), (''config'', Some (config_pda e)),
        (''round'', Some (round_pda e roundId)), (''vaultUsdcAta'', Some vaultAta),
        (''winnerUsdcAta'', Some winnerAta), (''treasuryUsdcAta'', Some treasuryUsdcAta),
        (''vrfPayerUsdcAta'', vrfPayerUsdcAta),
        (''tokenProgram'', Some (TOKEN_PROGRAM_ID (ce_programs e)))])))"

definition buildAutoClaim_front :: "'pk chain_env \<Rightarrow> 'pk \<Rightarrow> 'pk \<Rightarrow> int \<Rightarrow> 'pk \<Rightarrow> 'pk \<Rightarrow> 'pk option \<Rightarrow> 'pk instruction result" where
  "buildAutoClaim_front e payer winner roundId usdcMint treasuryUsdcAta vrfPayer =
     and_then (ata e usdcMint (round_pda e roundId) True) (\<lambda>vaultAta.
     and_then (ata e usdcMint winner False) (\<lambda>winnerAta.
     and_then (vrf_payer_ata e usdcMint vrfPayer) (\<lambda>vrfPayerUsdcAta.
     ce_anchor e ''autoClaim'' [ArgBN roundId]
       [(''payer'', Some payer), (''config'', Some (config_pda e)),
        (''round'', Some (round_pda e roundId)), (''vaultUsdcAta'', Some vaultAta),
        (''winnerUsdcAta'', Some winnerAta), (''treasuryUsdcAta'', Some treasuryUsdcAta),
        (''vrfPayerUsdcAta'', vrfPayerUsdcAta),
        (''tokenProgram'', Some (TOKEN_PROGRAM_ID (ce_programs e)))])))"

definition buildClaimDegenFallback_front :: "'pk chain_env \<Rightarrow> 'pk \<Rightarrow> int \<Rightarrow> int \<Rightarrow> 'pk \<Rightarrow> 'pk \<Rightarrow> 'pk option \<Rightarrow> 'pk instruction result" where
  "buildClaimDegenFallback_front e winner roundId fallbackReason usdcMint treasuryUsdcAta vrfPayer =
     and_then (ata e usdcMint (round_pda e roundId) True) (\<lambda>vaultAta.
     and_then (ata e usdcMint winner False) (\<lambda>winnerAta.
     and_then (vrf_payer_ata e usdcMint vrfPayer) (\<lambda>vrfPayerUsdcAta.
     ce_anchor e ''claimDegenFallback'' [ArgBN roundId, ArgNum fallbackReason]
       [(''winner'', Some winner), (''config'', Some (config_pda e)),
        (''round'', Some (round_pda e roundId)),
        (''degenClaim'', Some (degen_claim_pda e roundId winner)),
        (''vaultUsdcAta'', Some vaultAta), (''winnerUsdcAta'', Some winnerAta),
        (''treasuryUsdcAta'', Some treasuryUsdcAta),
        (''vrfPayerAuthority'', real_payer e vrfPayer),
        (''vrfPayerUsdcAta'', vrfPayerUsdcAta),
        (''tokenProgram'', Some (TOKEN_PROGRAM_ID (ce_programs e)))])))"

definition buildCancelRound_front :: "'pk chain_env \<Rightarrow> 'pk \<Rightarrow> int \<Rightarrow> 'pk \<Rightarrow> 'pk instruction result" where
  "buildCancelRound_front e user roundId usdcMint =
     and_then (ata e usdcMint (round_pda e roundId) True) (\<lambda>vaultAta.
     and_then (ata e usdcMint user False) (\<lambda>userUsdcAta.
     ce_anchor e ''cancelRound'' [ArgBN roundId]
       [(''user'', Some user), (''config'', Some (config_pda e)),
        (''round'', Some (round_pda e roundId)),
        (''participant'', Some (participant_pda e (round_pda e roundId) user)),
        (''vaultUsdcAta'', Some vaultAta), (''userUsdcAta'', Some userUsdcAta),
        (''tokenProgram'', Some (TOKEN_PROGRAM_ID (ce_programs e)))]))"

definition buildClaimRefund_front :: "'pk chain_env \<Rightarrow> 'pk \<Rightarrow> int \<Rightarrow> 'pk \<Rightarrow> 'pk instruction result" where
  "buildClaimRefund_front e user roundId usdcMint =
     and_then (ata e usdcMint (round_pda e roundId) True) (\<lambda>vaultAta.
     and_then (ata e usdcMint user False) (\<lambda>userUsdcAta.
     ce_anchor e ''claimRefund'' [ArgBN roundId]
       [(''config'', Some (config_pda e)), (''round'', Some (round_pda e roundId)),
        (''user'', Some user),
        (''participant'', Some (participant_pda e (round_pda e roundId) user)),
        (''vaultUsdcAta'', Some vaultAta), (''userUsdcAta'', Some userUsdcAta),
        (''tokenProgram'', Some (TOKEN_PROGRAM_ID (ce_programs e)))]))"

definition buildTransferAdmin_front :: "'pk chain_env \<Rightarrow> 'pk \<Rightarrow> 'pk \<Rightarrow> 'pk instruction result" where
  "buildTransferAdmin_front e admin newAdmin =
     ce_anchor e ''transferAdmin'' [ArgKey newAdmin]
       [(''admin'', Some admin), (''config'', Some (config_pda e))]"

definition buildSetTreasuryUsdcAta_front :: "'pk chain_env \<Rightarrow> 'pk \<Rightarrow> 'pk \<Rightarrow> 'pk \<Rightarrow> 'pk instruction result" where
  "buildSetTreasuryUsdcAta_front e admin newTreasuryUsdcAta expectedOwner =
     ce_anchor e ''setTreasuryUsdcAta'' []
       [(''admin'', Some admin), (''config'', Some (config_pda e)),
        (''newTreasuryUsdcAta'', Some newTreasuryUsdcAta),
        (''expectedOwner'', Some expectedOwner)]"

definition buildCloseRound_front :: "'pk chain_env \<Rightarrow> 'pk \<Rightarrow> 'pk \<Rightarrow> int \<Rightarrow> 'pk \<Rightarrow> 'pk instruction result" where
  "buildCloseRound_front e payer recipient roundId usdcMint =
     and_then (ata e usdcMint (round_pda e roundId) True) (\<lambda>vaultAta.
     ce_anchor e ''closeRound'' [ArgBN roundId]
       [(''payer'', Some payer), (''recipient'', Some recipient),
        (''round'', Some (round_pda e roundId)), (''vaultUsdcAta'', Some vaultAta),
        (''tokenProgram'', Some (TOKEN_PROGRAM_ID (ce_programs e))),
        (''systemProgram'', Some (SystemProgram_programId (ce_programs e)))])"

definition buildBeginDegenExecution_front :: "'pk chain_env \<Rightarrow> 'pk \<Rightarrow> 'pk \<Rightarrow> int \<Rightarrow> int \<Rightarrow> int \<Rightarrow> int \<Rightarrow> int list \<Rightarrow> 'pk \<Rightarrow> 'pk \<Rightarrow> 'pk \<Rightarrow> 'pk \<Rightarrow> 'pk option \<Rightarrow> 'pk instruction result" where
  "buildBeginDegenExecution_front e executor winner roundId candidateRank tokenIndex minOutRaw routeHash selectedTokenMint usdcMint treasuryUsdcAta receiverTokenAta vrfPayer =
     and_then (ata e usdcMint (round_pda e roundId) True) (\<lambda>vaultAta.
     and_then (ata e usdcMint executor False) (\<lambda>executorAta.
     and_then (vrf_payer_ata e usdcMint vrfPayer) (\<lambda>vrfPayerUsdcAta.
     ce_anchor e ''beginDegenExecution'' [ArgBN roundId, ArgNum candidateRank, ArgNum tokenIndex, ArgBN minOutRaw, ArgBytes routeHash]
       [(''executor'', Some executor), (''config'', Some (config_pda e)),
        (''degenConfig'', Some (degen_config_pda e)),
        (''round'', Some (round_pda e roundId)),
        (''degenClaim'', Some (degen_claim_pda e roundId winner)),
        (''vaultUsdcAta'', Some vaultAta), (''executorUsdcAta'', Some executorAta),
        (''treasuryUsdcAta'', Some treasuryUsdcAta),
        (''vrfPayerAuthority'', real_payer e vrfPayer),
        (''vrfPayerUsdcAta'', vrfPayerUsdcAta),
        (''selectedTokenMint'', Some selectedTokenMint),
        (''receiverTokenAta'', Some receiverTokenAta),
        (''tokenProgram'', Some (TOKEN_PROGRAM_ID (ce_programs e)))])))"

definition buildFinalizeDegenSuccess_front :: "'pk chain_env \<Rightarrow> 'pk \<Rightarrow> 'pk \<Rightarrow> int \<Rightarrow> 'pk \<Rightarrow> 'pk \<Rightarrow> 'pk instruction result" where
  "buildFinalizeDegenSuccess_front e executor winner roundId receiverTokenAta usdcMint =
     and_then (ata e usdcMint executor False) (\<lambda>executorAta.
     ce_anchor e ''finalizeDegenSuccess'' [ArgBN roundId]
       [(''executor'', Some executor), (''degenConfig'', Some (degen_config_pda e)),
        (''round'', Some (round_pda e roundId)),
        (''degenClaim'', Some (degen_claim_pda e roundId winner)),
        (''executorUsdcAta'', Some executorAta),
        (''receiverTokenAta'', Some receiverTokenAta)])"

definition buildUpsertDegenConfig_front :: "'pk chain_env \<Rightarrow> 'pk \<Rightarrow> 'pk \<Rightarrow> int \<Rightarrow> 'pk instruction result" where
  "buildUpsertDegenConfig_front e admin executor fallbackTimeoutSec =
     ce_anchor e ''upsertDegenConfig'' [ArgStruct [(''executor'', ArgKey executor), (''fallbackTimeoutSec'', ArgNum fallbackTimeoutSec)]]
       [(''admin'', Some admin), (''config'', Some (config_pda e)),
        (''degenConfig'', Some (degen_config_pda e)),
        (''systemProgram'', Some (SystemProgram_programId (ce_programs e)))]"

section \<open>The IDL and Anchor's use of it\<close>

record idl_account =
  ia_name :: string
  ia_writable :: bool
  ia_signer :: bool
  ia_optional :: bool

definition ro :: "string \<Rightarrow> idl_account" where
  "ro n = \<lparr>ia_name = n, ia_writable = False, ia_signer = False, ia_optional = False\<rparr>"
definition wr :: "string \<Rightarrow> idl_account" where
  "wr n = \<lparr>ia_name = n, ia_writable = True, ia_signer = False, ia_optional = False\<rparr>"
definition sg :: "string \<Rightarrow> idl_account" where
  "sg n = \<lparr>ia_name = n, ia_writable = False, ia_signer = True, ia_optional = False\<rparr>"
definition sw :: "string \<Rightarrow> idl_account" where
  "sw n = \<lparr>ia_name = n, ia_writable = True, ia_signer = True, ia_optional = False\<rparr>"
definition opt :: "string \<Rightarrow> idl_account" where
  "opt n = \<lparr>ia_name = n, ia_writable = True, ia_signer = False, ia_optional = True\<rparr>"

lemmas idl_flag_defs = ro_def wr_def sg_def sw_def opt_def

text \<open>The instructions of \<open>jackpot.json\<close>, names in the camel case Anchor gives them.\<close>

definition jackpot_idl :: "(string \<times> idl_account list) list" where
  "jackpot_idl = [
   (''adminForceCancel'',
     [sg ''admin'', ro ''config'', wr ''round'']),
   (''autoClaim'',
     [sw ''payer'', ro ''config'', wr ''round'', wr ''vaultUsdcAta'', wr ''winnerUsdcAta'',
      wr ''treasuryUsdcAta'', opt ''vrfPayerUsdcAta'', ro ''tokenProgram'']),
   (''beginDegenExecution'',
     [sw ''executor'', ro ''config'', ro ''degenConfig'', wr ''round'', wr ''degenClaim'',
      wr ''vaultUsdcAta'', wr ''executorUsdcAta'', wr ''treasuryUsdcAta'',
      ro ''selectedTokenMint'', wr ''receiverTokenAta'', ro ''tokenProgram'']),
   (''cancelRound'',
     [sw ''user'', ro ''config'', wr ''round'', wr ''participant'', wr ''vaultUsdcAta'',
      wr ''userUsdcAta'', ro ''tokenProgram'']),
   (''claim'',
     [sw ''winner'', ro ''config'', wr ''round'', wr ''vaultUsdcAta'', wr ''winnerUsdcAta'',
      wr ''treasuryUsdcAta'', opt ''vrfPayerUsdcAta'', ro ''tokenProgram'']),
   (''claimDegenFallback'',
     [sw ''winner'', ro ''config'', wr ''round'', wr ''degenClaim'', wr ''vaultUsdcAta'',
      wr ''winnerUsdcAta'', wr ''treasuryUsdcAta'', ro ''tokenProgram'']),
   (''autoClaimDegenFallback'',
     [sw ''payer'', ro ''config'', wr ''round'', wr ''degenClaim'', wr ''vaultUsdcAta'',
      wr ''winnerUsdcAta'', wr ''treasuryUsdcAta'', ro ''tokenProgram'']),
   (''claimRefund'',
     [sw ''user'', ro ''config'', wr ''round'', wr ''participant'', wr ''vaultUsdcAta'',
      wr ''userUsdcAta'', ro ''tokenProgram'']),
   (''closeParticipant'',
     [sw ''payer'', wr ''user'', ro ''round'', wr ''participant'']),
   (''closeRound'',
     [sw ''payer'', wr ''recipient'', wr ''round'', wr ''vaultUsdcAta'', ro ''tokenProgram'',
      ro ''systemProgram'']),
   (''degenVrfCallback'',
     [sg ''vrfProgramIdentity'', ro ''config'', wr ''round'', wr ''degenClaim'',
      ro ''degenConfig'']),
   (''depositAny'',
     [sw ''user'', ro ''config'', wr ''round'', wr ''participant'', wr ''userUsdcAta'',
      wr ''vaultUsdcAta'', ro ''tokenProgram'', ro ''systemProgram'']),
   (''finalizeDegenSuccess'',
     [sw ''executor'', ro ''degenConfig'', wr ''round'', wr ''degenClaim'',
      wr ''executorUsdcAta'', wr ''receiverTokenAta'', ro ''tokenProgram'']),
   (''initConfig'',
     [sw ''payer'', sg ''admin'', wr ''config'', ro ''systemProgram'']),
   (''lockRound'',
     [sg ''caller'', ro ''config'', wr ''round'']),
   (''requestDegenVrf'',
     [sw ''winner'', ro ''config'', wr ''round'', wr ''degenClaim'', ro ''programIdentity'',
      wr ''oracleQueue'', ro ''vrfProgram'', ro ''slotHashes'', ro ''systemProgram'']),
   (''requestVrf'',
     [sw ''payer'', ro ''config'', wr ''round'', ro ''programIdentity'', wr ''oracleQueue'',
      ro ''vrfProgram'', ro ''slotHashes'', ro ''systemProgram'']),
   (''setTreasuryUsdcAta'',
     [sw ''admin'', wr ''config'', ro ''newTreasuryUsdcAta'', ro ''expectedOwner'']),
   (''startRound'',
     [sw ''payer'', ro ''config'', wr ''round'', wr ''vaultUsdcAta'', ro ''usdcMint'',
      ro ''associatedTokenProgram'', ro ''tokenProgram'', ro ''systemProgram'']),
   (''transferAdmin'',
     [sw ''admin'', wr ''config'']),
   (''updateConfig'',
     [sg ''admin'', wr ''config'']),
   (''upsertDegenConfig'',
     [sw ''admin'', ro ''config'', wr ''degenConfig'', ro ''systemProgram'']),
   (''vrfCallback'',
     [sg ''vrfProgramIdentity'', ro ''config'', wr ''round''])]"

text \<open>What Anchor does with one account of the IDL.\<close>

definition resolves :: "'pk chain_env \<Rightarrow> 'pk accounts \<Rightarrow> idl_account \<Rightarrow> 'pk account_meta \<Rightarrow> bool" where
  "resolves e accs ia k =
     (case map_of accs (ia_name ia) of
        Some (Some p) \<Rightarrow> k = \<lparr>am_pubkey = p, am_isSigner = ia_signer ia, am_isWritable = ia_writable ia\<rparr>
      | Some None \<Rightarrow> ia_optional ia \<longrightarrow> am_pubkey k = PROGRAM_ID (ce_net e)
      | None \<Rightarrow> True)"

definition anchor_follows_idl :: "'pk chain_env \<Rightarrow> bool" where
  "anchor_follows_idl e \<longleftrightarrow>
     (\<forall>m args accs ix. ce_anchor e m args accs = Inr ix \<longrightarrow>
        (\<exists>ias. map_of jackpot_idl m = Some ias \<and> ix_programId ix = PROGRAM_ID (ce_net e) \<and>
           list_all2 (resolves e accs) ias (ix_keys ix)))"

text \<open>An Anchor that does so, for the witnesses: it needs every account by name.\<close>

definition demo_resolve :: "'pk \<Rightarrow> 'pk accounts \<Rightarrow> idl_account \<Rightarrow> 'pk account_meta" where
  "demo_resolve pid accs ia =
     (case map_of accs (ia_name ia) of
        Some (Some p) \<Rightarrow> \<lparr>am_pubkey = p, am_isSigner = ia_signer ia, am_isWritable = ia_writable ia\<rparr>
      | _ \<Rightarrow> \<lparr>am_pubkey = pid, am_isSigner = False, am_isWritable = False\<rparr>)"

definition demo_anchor :: "'pk \<Rightarrow> 'pk anchor" where
  "demo_anchor pid m args accs =
     (case map_of jackpot_idl m of
        None \<Rightarrow> Inl ''TypeError''
      | Some ias \<Rightarrow> Inr \<lparr>ix_programId = pid, ix_keys = map (demo_resolve pid accs) ias, ix_data = []\<rparr>)"

definition demo_env :: "(256 word) chain_env" where
  "demo_env = \<lparr>ce_sdk = demo_sdk,
     ce_net = \<lparr>PROGRAM_ID = 1000003, USDC_MINT = 2000003, TREASURY_USDC_ATA = 3000017\<rparr>,
     ce_programs = \<lparr>TOKEN_PROGRAM_ID = 11, ASSOCIATED_TOKEN_PROGRAM_ID = 12,
       SystemProgram_programId = 13, VRF_PROGRAM_ID = 14, DEFAULT_QUEUE = 15, SLOT_HASHES = 16\<rparr>,
     ce_anchor = demo_anchor 1000003\<rparr>"

lemma demo_env_follows_idl: "anchor_follows_idl demo_env"
proof -
  have "resolves demo_env accs ia (demo_resolve 1000003 accs ia)" for accs ia
    by (simp add: resolves_def demo_resolve_def demo_env_def split: option.splits)
  then show ?thesis
    by (auto simp: anchor_follows_idl_def demo_env_def demo_anchor_def list_all2_conv_all_nth
        split: option.splits)
qed

section \<open>The account lists of the on-chain program\<close>

text \<open>
  The slice patterns of \<open>process_begin_degen_execution\<close> and
  \<open>process_auto_claim_degen_fallback\<close>, which is that of \<open>process_claim_degen_fallback\<close>;
  \<^const>\<open>None\<close> is \<open>NotEnoughAccountKeys\<close>.
\<close>

record 'pk begin_accounts =
  ba_executor :: "'pk account_meta"
  ba_config :: "'pk account_meta"
  ba_degen_config :: "'pk account_meta"
  ba_round :: "'pk account_meta"
  ba_degen_claim :: "'pk account_meta"
  ba_vault :: "'pk account_meta"
  ba_executor_usdc_ata :: "'pk account_meta"
  ba_treasury_usdc_ata :: "'pk account_meta"
  ba_vrf_payer_authority :: "'pk account_meta option"
  ba_vrf_payer_usdc_ata :: "'pk account_meta option"
  ba_selected_token_mint :: "'pk account_meta"
  ba_receiver_token_ata :: "'pk account_meta"
  ba_token_program :: "'pk account_meta"

definition unless_sentinel :: "'pk \<Rightarrow> 'pk account_meta \<Rightarrow> 'pk account_meta option" where
  "unless_sentinel program_id a = (if am_pubkey a = program_id then None else Some a)"

definition begin_degen_accounts :: "'pk \<Rightarrow> 'pk account_meta list \<Rightarrow> 'pk begin_accounts option" where
  "begin_degen_accounts program_id ks =
     (if length ks = 11 then
        Some \<lparr>ba_executor = ks ! 0, ba_config = ks ! 1, ba_degen_config = ks ! 2, ba_round = ks ! 3,
          ba_degen_claim = ks ! 4, ba_vault = ks ! 5, ba_executor_usdc_ata = ks ! 6,
          ba_treasury_usdc_ata = ks ! 7, ba_vrf_payer_authority = None, ba_vrf_payer_usdc_ata = None,
          ba_selected_token_mint = ks ! 8, ba_receiver_token_ata = ks ! 9, ba_token_program = ks ! 10\<rparr>
      else if length ks = 13 then
        Some \<lparr>ba_executor = ks ! 0, ba_config = ks ! 1, ba_degen_config = ks ! 2, ba_round = ks ! 3,
          ba_degen_claim = ks ! 4, ba_vault = ks ! 5, ba_executor_usdc_ata = ks ! 6,
          ba_treasury_usdc_ata = ks ! 7,
          ba_vrf_payer_authority = unless_sentinel program_id (ks ! 8),
          ba_vrf_payer_usdc_ata = unless_sentinel program_id (ks ! 9),
          ba_selected_token_mint = ks ! 10, ba_receiver_token_ata = ks ! 11, ba_token_program = ks ! 12\<rparr>
      else None)"

text \<open>The \<open>require_signer\<close> and \<open>require_writable\<close> checks that follow.\<close>

definition begin_accounts_flags :: "'pk begin_accounts \<Rightarrow> bool" where
  "begin_accounts_flags a \<longleftrightarrow>
     am_isSigner (ba_executor a) \<and> am_isWritable (ba_executor a) \<and> am_isWritable (ba_round a) \<and>
     am_isWritable (ba_degen_claim a) \<and> am_isWritable (ba_vault a) \<and>
     am_isWritable (ba_executor_usdc_ata a) \<and> am_isWritable (ba_treasury_usdc_ata a) \<and>
     am_isWritable (ba_receiver_token_ata a) \<and>
     (case ba_vrf_payer_authority a of None \<Rightarrow> True | Some k \<Rightarrow> am_isWritable k) \<and>
     (case ba_vrf_payer_usdc_ata a of None \<Rightarrow> True | Some k \<Rightarrow> am_isWritable k)"

text \<open>The VRF payer's accounts of a fallback claim: of the 8 or 10 accounts, the two optional ones.\<close>

definition fallback_vrf_accounts :: "'pk \<Rightarrow> 'pk account_meta list \<Rightarrow>
    ('pk account_meta option \<times> 'pk account_meta option) option" where
  "fallback_vrf_accounts program_id ks =
     (if length ks = 8 then Some (None, None)
      else if length ks = 10 then
        Some (unless_sentinel program_id (ks ! 7), unless_sentinel program_id (ks ! 8))
      else None)"

text \<open>
  The reimbursement check of \<open>process_anchor_bytes_named\<close>: \<open>token_account\<close> reads mint and
  owner of the payer's token account.
\<close>

definition fallback_vrf_check :: "('pk \<Rightarrow> ('pk \<times> 'pk) option) \<Rightarrow> bool \<Rightarrow> 'pk \<Rightarrow> 'pk \<Rightarrow>
    'pk account_meta option \<times> 'pk account_meta option \<Rightarrow> string + unit" where
  "fallback_vrf_check token_account reimburse_vrf vrf_payer_key usdc_mint accs =
     (if \<not> reimburse_vrf then Inr ()
      else if map_option am_pubkey (fst accs) \<noteq> Some vrf_payer_key then Inl ''InvalidVrfPayerAta''
      else case snd accs of
          None \<Rightarrow> Inl ''InvalidVrfPayerAta''
        | Some k \<Rightarrow> (case token_account (am_pubkey k) of
            None \<Rightarrow> Inl ''InvalidAccountData''
          | Some (mint, owner) \<Rightarrow>
              if mint \<noteq> usdc_mint \<or> owner \<noteq> vrf_payer_key then Inl ''InvalidVrfPayerAta'' else Inr ()))"

section \<open>Properties\<close>

lemma anchor_keys:
  assumes "anchor_follows_idl e" and "ce_anchor e m args accs = Inr ix"
  shows "\<exists>ias. map_of jackpot_idl m = Some ias \<and> list_all2 (resolves e accs) ias (ix_keys ix)"
  using assms unfolding anchor_follows_idl_def by blast

lemma list_all2_ConsE:
  assumes "list_all2 P (x # xs) ys"
  obtains y zs where "ys = y # zs" "P x y" "list_all2 P xs zs"
  using assms by (auto simp: list_all2_Cons1)

text \<open>The named accounts both begin builders pass, with the front end's two extra names.\<close>

lemma begin_keys:
  assumes "anchor_follows_idl e"
    and "ce_anchor e ''beginDegenExecution'' args accs = Inr ix"
    and "map_of accs ''executor'' = Some (Some executor)" and "map_of accs ''round'' = Some (Some round)"
    and "map_of accs ''degenClaim'' = Some (Some degenClaim)" and "map_of accs ''vaultUsdcAta'' = Some (Some vault)"
    and "map_of accs ''executorUsdcAta'' = Some (Some executorAta)"
    and "map_of accs ''treasuryUsdcAta'' = Some (Some treasuryAta)"
    and "map_of accs ''selectedTokenMint'' = Some (Some mint)"
    and "map_of accs ''receiverTokenAta'' = Some (Some receiver)"
    and "map_of accs ''config'' = Some (Some config)"
    and "map_of accs ''degenConfig'' = Some (Some degenConfig)"
    and "map_of accs ''tokenProgram'' = Some (Some tokenProgram)"
  shows "ix_keys ix =
    [\<lparr>am_pubkey = executor, am_isSigner = True, am_isWritable = True\<rparr>,
     \<lparr>am_pubkey = config, am_isSigner = False, am_isWritable = False\<rparr>,
     \<lparr>am_pubkey = degenConfig, am_isSigner = False, am_isWritable = False\<rparr>,
     \<lparr>am_pubkey = round, am_isSigner = False, am_isWritable = True\<rparr>,
     \<lparr>am_pubkey = degenClaim, am_isSigner = False, am_isWritable = True\<rparr>,
     \<lparr>am_pubkey = vault, am_isSigner = False, am_isWritable = True\<rparr>,
     \<lparr>am_pubkey = executorAta, am_isSigner = False, am_isWritable = True\<rparr>,
     \<lparr>am_pubkey = treasuryAta, am_isSigner = False, am_isWritable = True\<rparr>,
     \<lparr>am_pubkey = mint, am_isSigner = False, am_isWritable = False\<rparr>,
     \<lparr>am_pubkey = receiver, am_isSigner = False, am_isWritable = True\<rparr>,
     \<lparr>am_pubkey = tokenProgram, am_isSigner = False, am_isWritable = False\<rparr>]"
proof -
  from anchor_keys [OF assms(1,2)] have "list_all2 (resolves e accs)
      [sw ''executor'', ro ''config'', ro ''degenConfig'', wr ''round'', wr ''degenClaim'',
       wr ''vaultUsdcAta'', wr ''executorUsdcAta'', wr ''treasuryUsdcAta'',
       ro ''selectedTokenMint'', wr ''receiverTokenAta'', ro ''tokenProgram''] (ix_keys ix)"
    by (simp add: jackpot_idl_def)
  then show ?thesis using assms(3-)
    by (auto elim!: list_all2_ConsE simp: resolves_def idl_flag_defs)
qed

text \<open>
  The front end and the crank build the same instructions: with the configured USDC mint
  and treasury account, \<open>start_round\<close>, \<open>lock_round\<close>, \<open>request_vrf\<close>, \<open>auto_claim\<close>,
  \<open>claim_refund\<close>, \<open>transfer_admin\<close>, \<open>set_treasury_usdc_ata\<close> and
  \<open>upsert_degen_config\<close> agree on every input, errors included, and the crank's
  \<open>close_round\<close> is the front end's with the treasury account appended as a writable key.
\<close>

theorem builders_agree:
  "buildStartRound_front e k r (usdc e) = buildStartRound e k r \<and>
   buildLockRound_front e k r = buildLockRound e k r \<and>
   buildRequestVrf_front e k r = buildRequestVrf e k r \<and>
   buildAutoClaim_front e k w r (usdc e) (treasury e) v = buildAutoClaim e k w r v \<and>
   buildClaimRefund_front e k r (usdc e) = buildClaimRefund e k r \<and>
   buildTransferAdmin_front e k w = buildTransferAdmin e k w \<and>
   buildSetTreasuryUsdcAta_front e k t w = buildSetTreasuryUsdcAta e k t w \<and>
   buildUpsertDegenConfig_front e k w n = buildUpsertDegenConfig e k w n \<and>
   buildCloseRound e k w r = and_then (buildCloseRound_front e k w r (usdc e)) (\<lambda>ix.
     Inr (ix\<lparr>ix_keys := ix_keys ix @
       [\<lparr>am_pubkey = treasury e, am_isSigner = False, am_isWritable = True\<rparr>]\<rparr>))"
proof -
  have "buildCloseRound e k w r = and_then (buildCloseRound_front e k w r (usdc e)) (\<lambda>ix.
     Inr (ix\<lparr>ix_keys := ix_keys ix @
       [\<lparr>am_pubkey = treasury e, am_isSigner = False, am_isWritable = True\<rparr>]\<rparr>))"
    unfolding buildCloseRound_def buildCloseRound_front_def
    by (cases "ata e (usdc e) (round_pda e r) True") simp_all
  moreover have "buildAutoClaim_front e k w r (usdc e) (treasury e) v = buildAutoClaim e k w r v"
    unfolding buildAutoClaim_front_def buildAutoClaim_def by simp
  ultimately show ?thesis
    by (simp only: buildStartRound_front_def buildStartRound_def buildLockRound_front_def
        buildLockRound_def buildRequestVrf_front_def buildRequestVrf_def buildClaimRefund_front_def
        buildClaimRefund_def buildTransferAdmin_front_def buildTransferAdmin_def
        buildSetTreasuryUsdcAta_front_def buildSetTreasuryUsdcAta_def
        buildUpsertDegenConfig_front_def buildUpsertDegenConfig_def)
qed

text \<open>
  C33. The crank's \<open>begin_degen_execution\<close> instruction has the account list the on-chain
  program expects, in both variants: 11 accounts without a VRF payer and 13 with one. Each of them,
  as the program takes it from its position, is the one the program means: the configurations, the round and
  the claim at their derived addresses, the USDC accounts of the round, the executor and the treasury,
  the VRF payer and its token account where there is one, mint, receiver and token program. All signer and
  writable requirements are met.
\<close>

theorem begin_degen_accounts_ok:
  assumes "anchor_follows_idl e"
    and "buildBeginDegenExecution e executor winner r rank idx minOut hash mint receiver vrfPayer = Inr ix"
    and "\<forall>p. vrfPayer = Some p \<longrightarrow> p \<noteq> PROGRAM_ID (ce_net e) \<and>
      ata e (usdc e) p False \<noteq> Inr (PROGRAM_ID (ce_net e))"
  shows "\<exists>a. begin_degen_accounts (PROGRAM_ID (ce_net e)) (ix_keys ix) = Some a \<and>
    begin_accounts_flags a \<and> am_pubkey (ba_executor a) = executor \<and>
    am_pubkey (ba_config a) = config_pda e \<and> am_pubkey (ba_degen_config a) = degen_config_pda e \<and>
    am_pubkey (ba_round a) = round_pda e r \<and>
    am_pubkey (ba_degen_claim a) = degen_claim_pda e r winner \<and>
    ata e (usdc e) (round_pda e r) True = Inr (am_pubkey (ba_vault a)) \<and>
    ata e (usdc e) executor False = Inr (am_pubkey (ba_executor_usdc_ata a)) \<and>
    am_pubkey (ba_token_program a) = TOKEN_PROGRAM_ID (ce_programs e) \<and>
    am_pubkey (ba_treasury_usdc_ata a) = treasury e \<and> am_pubkey (ba_selected_token_mint a) = mint \<and>
    am_pubkey (ba_receiver_token_ata a) = receiver \<and>
    map_option am_pubkey (ba_vrf_payer_authority a) = real_payer e vrfPayer \<and>
    Inr (map_option am_pubkey (ba_vrf_payer_usdc_ata a)) = vrf_payer_ata e (usdc e) vrfPayer"
proof -
  from assms(2) obtain vault executorAta base where
    atas: "ata e (usdc e) (round_pda e r) True = Inr vault" "ata e (usdc e) executor False = Inr executorAta" and
    base: "ce_anchor e ''beginDegenExecution''
      [ArgBN r, ArgNum rank, ArgNum idx, ArgBN minOut, ArgBytes hash]
      [(''executor'', Some executor), (''config'', Some (config_pda e)),
       (''degenConfig'', Some (degen_config_pda e)), (''round'', Some (round_pda e r)),
       (''degenClaim'', Some (degen_claim_pda e r winner)), (''vaultUsdcAta'', Some vault),
       (''executorUsdcAta'', Some executorAta), (''treasuryUsdcAta'', Some (treasury e)),
       (''selectedTokenMint'', Some mint), (''receiverTokenAta'', Some receiver),
       (''tokenProgram'', Some (TOKEN_PROGRAM_ID (ce_programs e)))] = Inr base"
    and splice: "(case real_payer e vrfPayer of None \<Rightarrow> Inr base
     | Some payer \<Rightarrow> and_then (ata e (usdc e) payer False) (\<lambda>payerAta.
         Inr \<lparr>ix_programId = ix_programId base,
              ix_keys = take 8 (ix_keys base) @
                [\<lparr>am_pubkey = payer, am_isSigner = False, am_isWritable = True\<rparr>,
                 \<lparr>am_pubkey = payerAta, am_isSigner = False, am_isWritable = True\<rparr>] @
                drop 8 (ix_keys base),
              ix_data = ix_data base\<rparr>)) = Inr ix"
    unfolding buildBeginDegenExecution_def by (auto simp: and_then_Inr_iff)
  note keys = begin_keys [OF assms(1) base, simplified, OF refl refl refl refl refl refl refl refl refl refl refl]
  show ?thesis
  proof (cases "real_payer e vrfPayer")
    case None
    with splice keys atas show ?thesis
      by (simp add: begin_degen_accounts_def begin_accounts_flags_def vrf_payer_ata_def)
  next
    case (Some payer)
    with splice obtain payerAta where pa: "ata e (usdc e) payer False = Inr payerAta"
      by (auto simp: and_then_Inr_iff)
    from Some assms(3) pa have "payer \<noteq> PROGRAM_ID (ce_net e)" "payerAta \<noteq> PROGRAM_ID (ce_net e)"
      by (auto simp: real_payer_def split: option.splits if_splits)
    with Some pa splice keys atas show ?thesis
      by (auto simp: begin_degen_accounts_def begin_accounts_flags_def vrf_payer_ata_def unless_sentinel_def)
  qed
qed

lemma demo_pk_default_env: "pk_default (ce_sdk demo_env) = 0"
proof -
  have "le_uint (replicate n 0) = 0" for n by (induction n) simp_all
  then show ?thesis by (simp add: demo_env_def pk_default_def demo_sdk_def)
qed

lemmas demo_build = demo_anchor_def jackpot_idl_def real_payer_def demo_pk_default_env

lemma demo_begin:
  "\<exists>ix. buildBeginDegenExecution demo_env 21 22 7 0 5 1000 [] 31 32 (Some 33) = Inr ix"
proof -
  have ata: "ata demo_env m k off = Inr (m + 3 * k)" for m k off
    by (simp add: demo_env_def demo_sdk_def)
  have anchor: "ce_anchor demo_env = demo_anchor 1000003" by (simp add: demo_env_def)
  show ?thesis
    by (simp add: buildBeginDegenExecution_def ata anchor demo_build)
qed

theorem begin_degen_accounts_ok_witness:
  "\<exists>ix a. buildBeginDegenExecution demo_env 21 22 7 0 5 1000 [] 31 32 (Some 33) = Inr ix \<and>
     begin_degen_accounts 1000003 (ix_keys ix) = Some a \<and> begin_accounts_flags a \<and>
     ata demo_env (usdc demo_env) (round_pda demo_env 7) True = Inr (am_pubkey (ba_vault a)) \<and>
     map_option am_pubkey (ba_vrf_payer_authority a) = Some 33"
proof -
  obtain ix where ix: "buildBeginDegenExecution demo_env 21 22 7 0 5 1000 [] 31 32 (Some 33) = Inr ix"
    using demo_begin by blast
  have "real_payer demo_env (Some 33) = Some 33" by (simp add: real_payer_def demo_pk_default_env)
  moreover have "PROGRAM_ID (ce_net demo_env) = 1000003" by (simp add: demo_env_def)
  moreover have "\<forall>p. Some 33 = Some p \<longrightarrow> p \<noteq> PROGRAM_ID (ce_net demo_env) \<and>
      ata demo_env (usdc demo_env) p False \<noteq> Inr (PROGRAM_ID (ce_net demo_env))"
    by (simp add: demo_env_def demo_sdk_def)
  ultimately show ?thesis
    using begin_degen_accounts_ok [OF demo_env_follows_idl ix] ix by auto
qed

text \<open>
  C40. A degen fallback claim cannot reimburse the VRF payer: whatever arguments the crank's
  \<open>buildAutoClaimDegenFallback\<close> or the front end's \<open>buildClaimDegenFallback\<close> (which is
  given the payer and passes it under names the IDL does not have) is called with, the
  instruction has the 8 accounts of the IDL, and the on-chain check of a round whose VRF payer
  is still to be reimbursed rejects it.
\<close>

theorem fallback_claim_lacks_vrf_payer:
  assumes "anchor_follows_idl e"
    and "buildAutoClaimDegenFallback e payer winner r reason = Inr ix \<or>
      buildClaimDegenFallback_front e winner r reason mint treasuryAta vrfPayer = Inr ix"
  shows "\<exists>accs. fallback_vrf_accounts (PROGRAM_ID (ce_net e)) (ix_keys ix) = Some accs \<and>
    fallback_vrf_check token_account True vrf_key usdc_mint accs = Inl ''InvalidVrfPayerAta''"
proof -
  obtain m args accs where "ce_anchor e m args accs = Inr ix"
    and m: "m = ''autoClaimDegenFallback'' \<or> m = ''claimDegenFallback''"
    using assms(2)
    by (auto simp: buildAutoClaimDegenFallback_def buildClaimDegenFallback_front_def and_then_Inr_iff)
  from anchor_keys [OF assms(1) this(1)] obtain ias where
    ias: "map_of jackpot_idl m = Some ias" "length (ix_keys ix) = length ias"
    by (auto dest: list_all2_lengthD)
  with m have "length (ix_keys ix) = 8" by (auto simp: jackpot_idl_def)
  then show ?thesis by (simp add: fallback_vrf_accounts_def fallback_vrf_check_def)
qed

theorem fallback_claim_lacks_vrf_payer_witness:
  "\<exists>ix accs. buildAutoClaimDegenFallback demo_env 21 22 7 3 = Inr ix \<and>
     fallback_vrf_accounts 1000003 (ix_keys ix) = Some accs \<and>
     fallback_vrf_check (\<lambda>_. Some (2000003, 33)) True 33 2000003 accs = Inl ''InvalidVrfPayerAta''"
proof -
  have ata: "ata demo_env m k off = Inr (m + 3 * k)" for m k off
    by (simp add: demo_env_def demo_sdk_def)
  have env: "ce_anchor demo_env = demo_anchor 1000003" "PROGRAM_ID (ce_net demo_env) = 1000003"
    by (simp_all add: demo_env_def)
  obtain ix where ix: "buildAutoClaimDegenFallback demo_env 21 22 7 3 = Inr ix"
    by (simp add: buildAutoClaimDegenFallback_def ata env demo_build)
  from fallback_claim_lacks_vrf_payer [OF demo_env_follows_idl disjI1 [OF ix]] show ?thesis
    using ix env by metis
qed

end
