(* ===== verification/Effects.thy ===== *)
theory Effects
  imports Prelude
begin

text \<open>
  Asynchronous functions that may throw: computations of the state monad whose value is an
  error or a result (\<open>'a result\<close> where the error is a message). \<open>bindE\<close> is \<open>await\<close> followed by the rest of the function, \<open>tryE\<close> a
  \<open>try/catch\<close>, \<open>for_eachE\<close> a loop whose body may throw. A call to the outside is
  \<open>ask\<close>: it passes the outside world along.

  The second half lifts the Hoare rules of the prelude to these operations.
\<close>

definition returnE :: "'a \<Rightarrow> ('s, 'e + 'a) state" where
  "returnE x = State_Monad.return (Inr x)"

definition throwE :: "'e \<Rightarrow> ('s, 'e + 'a) state" where
  "throwE e = State_Monad.return (Inl e)"

definition liftE :: "'e + 'a \<Rightarrow> ('s, 'e + 'a) state" where
  "liftE r = State_Monad.return r"

definition bindE :: "('s, 'e + 'a) state \<Rightarrow> ('a \<Rightarrow> ('s, 'e + 'b) state) \<Rightarrow> ('s, 'e + 'b) state" where
  "bindE m f = do { r \<leftarrow> m; case r of Inl e \<Rightarrow> State_Monad.return (Inl e) | Inr x \<Rightarrow> f x }"

definition tryE :: "('s, 'e + 'a) state \<Rightarrow> ('e \<Rightarrow> ('s, 'f + 'a) state) \<Rightarrow> ('s, 'f + 'a) state" where
  "tryE m h = do { r \<leftarrow> m; case r of Inl e \<Rightarrow> h e | Inr x \<Rightarrow> State_Monad.return (Inr x) }"

text \<open>A synchronous step that cannot throw, followed by the rest.\<close>

definition doE :: "('s, 'a) state \<Rightarrow> ('a \<Rightarrow> ('s, 'e + 'b) state) \<Rightarrow> ('s, 'e + 'b) state" where
  "doE m f = State_Monad.bind m f"

fun for_eachE :: "'x list \<Rightarrow> ('x \<Rightarrow> ('s, 'e + unit) state) \<Rightarrow> ('s, 'e + unit) state" where
  "for_eachE [] body = returnE ()"
| "for_eachE (x # xs) body = bindE (body x) (\<lambda>_. for_eachE xs body)"

text \<open>A loop that threads an accumulator, the local variables of the source.\<close>

fun foldE :: "('x \<Rightarrow> 'a \<Rightarrow> ('s, 'e + 'a) state) \<Rightarrow> 'x list \<Rightarrow> 'a \<Rightarrow> ('s, 'e + 'a) state" where
  "foldE body [] acc = returnE acc"
| "foldE body (x # xs) acc = bindE (body x acc) (foldE body xs)"

text \<open>\<open>xs.map(f)\<close> for a function that may throw.\<close>

fun mapE :: "('x \<Rightarrow> ('s, 'e + 'a) state) \<Rightarrow> 'x list \<Rightarrow> ('s, 'e + 'a list) state" where
  "mapE f [] = returnE []"
| "mapE f (x # xs) = bindE (f x) (\<lambda>y. bindE (mapE f xs) (\<lambda>ys. returnE (y # ys)))"

text \<open>\<open>for (i = 0; i < xs.length; i += n) xs.slice(i, i + n)\<close>.\<close>

function chunks :: "nat \<Rightarrow> 'a list \<Rightarrow> 'a list list" where
  "chunks n xs = (if xs = [] \<or> n = 0 then [] else take n xs # chunks n (drop n xs))"
  by pat_completeness auto

termination by (relation "measure (\<lambda>(n, xs). length xs)") auto

declare chunks.simps [simp del]

lemma concat_chunks: "0 < n \<Longrightarrow> concat (chunks n xs) = xs"
proof (induction n xs rule: chunks.induct)
  case (1 n xs)
  then show ?case by (subst chunks.simps) auto
qed

lemma chunk_length: "c \<in> set (chunks n xs) \<Longrightarrow> length c \<le> n \<and> c \<noteq> []"
proof (induction n xs rule: chunks.induct)
  case (1 n xs)
  then show ?case by (subst (asm) chunks.simps) (auto split: if_splits)
qed

section \<open>Running\<close>

lemma run_effects [simp]:
  "run_state (returnE x) s = (Inr x, s)"
  "run_state (throwE e) s = (Inl e, s)"
  "run_state (liftE r) s = (r, s)"
  "run_state (bindE m f) s =
     (case run_state m s of (Inl e, t) \<Rightarrow> (Inl e, t) | (Inr x, t) \<Rightarrow> run_state (f x) t)"
  "run_state (tryE m h) s =
     (case run_state m s of (Inl e, t) \<Rightarrow> run_state (h e) t | (Inr x, t) \<Rightarrow> (Inr x, t))"
  "run_state (doE n g) s = (case run_state n s of (y, t) \<Rightarrow> run_state (g y) t)"
  by (simp_all add: returnE_def throwE_def liftE_def bindE_def tryE_def doE_def split: prod.splits sum.splits)

lemma bindE_simps [simp]:
  "bindE (returnE x) f = f x" "bindE (throwE e) f = throwE e"
  "bindE (liftE (Inr x)) f = f x" "bindE (liftE (Inl e)) f = throwE e"
  by (simp_all add: bindE_def returnE_def throwE_def liftE_def State_Monad.bind_left_identity)

section \<open>Hoare rules\<close>

lemma valid_returnE [hoare]: "(\<And>s. P s \<Longrightarrow> Q (Inr x) s) \<Longrightarrow> valid P (returnE x) Q"
  by (rule validI) auto

lemma valid_throwE [hoare]: "(\<And>s. P s \<Longrightarrow> Q (Inl e) s) \<Longrightarrow> valid P (throwE e) Q"
  by (rule validI) auto

lemma valid_liftE [hoare]: "(\<And>s. P s \<Longrightarrow> Q r s) \<Longrightarrow> valid P (liftE r) Q"
  by (rule validI) auto

lemma valid_bindE:
  assumes "valid P m (\<lambda>r s. case r of Inl e \<Rightarrow> Q (Inl e) s | Inr x \<Rightarrow> R x s)" and "\<And>x. valid (R x) (f x) Q"
  shows "valid P (bindE m f) Q"
  unfolding bindE_def
  by (rule valid_bind [OF assms(1)])
    (rule validI, auto split: sum.splits dest: validD [OF assms(2)])

lemma valid_doE:
  assumes "valid P m R" and "\<And>x. valid (R x) (f x) Q"
  shows "valid P (doE m f) Q"
  unfolding doE_def by (rule valid_bind [OF assms])

lemma valid_tryE:
  assumes "valid P m (\<lambda>r s. case r of Inl e \<Rightarrow> R e s | Inr x \<Rightarrow> Q (Inr x) s)" and "\<And>e. valid (R e) (h e) Q"
  shows "valid P (tryE m h) Q"
  unfolding tryE_def
  by (rule valid_bind [OF assms(1)])
    (rule validI, auto split: sum.splits dest: validD [OF assms(2)])

lemma valid_tryE_const:
  assumes "valid P m (\<lambda>_. Q)" and "\<And>e. keeps Q (h e)"
  shows "valid P (tryE m h) (\<lambda>_. Q)"
  by (rule valid_tryE [where R = "\<lambda>_. Q"])
    (auto intro: assms valid_weaken [OF assms(1)] split: sum.splits)

text \<open>The rules for invariants.\<close>

lemma keeps_bindE [hoare]: "keeps P m \<Longrightarrow> (\<And>x. keeps P (f x)) \<Longrightarrow> keeps P (bindE m f)"
  by (rule valid_bindE [where R = "\<lambda>_. P"]) (auto simp: valid_def split: sum.splits)

lemma keeps_doE [hoare]: "keeps P m \<Longrightarrow> (\<And>x. keeps P (f x)) \<Longrightarrow> keeps P (doE m f)"
  by (rule valid_doE)

lemma keeps_tryE [hoare]: "keeps P m \<Longrightarrow> (\<And>e. keeps P (h e)) \<Longrightarrow> keeps P (tryE m h)"
  by (rule valid_tryE [where R = "\<lambda>_. P"]) (auto simp: valid_def split: sum.splits)

lemma keeps_for_eachE [hoare]:
  "(\<And>x. x \<in> set xs \<Longrightarrow> keeps P (body x)) \<Longrightarrow> keeps P (for_eachE xs body)"
  by (induction xs) (auto intro!: hoare)

lemma keeps_mapE [hoare]: "(\<And>x. x \<in> set xs \<Longrightarrow> keeps P (f x)) \<Longrightarrow> keeps P (mapE f xs)"
  by (induction xs) (auto intro!: hoare)

lemma keeps_foldE [hoare]:
  "(\<And>x a. x \<in> set xs \<Longrightarrow> keeps P (body x a)) \<Longrightarrow> keeps P (foldE body xs a)"
  by (induction xs arbitrary: a) (auto intro!: hoare)

text \<open>A loop with an invariant that mentions the accumulator.\<close>

lemma valid_foldE:
  assumes "\<And>x a. x \<in> set xs \<Longrightarrow>
      valid (P a) (body x a) (\<lambda>r s. case r of Inl e \<Rightarrow> Q (Inl e) s | Inr b \<Rightarrow> P b s)"
    and "\<And>b s. P b s \<Longrightarrow> Q (Inr b) s"
  shows "valid (P a) (foldE body xs a) Q"
  using assms(1)
proof (induction xs arbitrary: a)
  case Nil
  then show ?case by (auto intro!: hoare assms(2))
next
  case (Cons x xs)
  then show ?case by (auto intro!: valid_bindE [where R = P])
qed

section \<open>What a computation returns\<close>

text \<open>The postcondition that constrains the result only, with rules that hand the facts about earlier results to the rest.\<close>

definition returns :: "('a \<Rightarrow> bool) \<Rightarrow> 'e + 'a \<Rightarrow> 's \<Rightarrow> bool" where
  "returns G r s \<longleftrightarrow> (case r of Inl _ \<Rightarrow> True | Inr x \<Rightarrow> G x)"

lemma returns_bind:
  assumes "valid (\<lambda>_. True) m (returns H)" and "\<And>x. H x \<Longrightarrow> valid (\<lambda>_. True) (f x) (returns G)"
  shows "valid (\<lambda>_. True) (bindE m f) (returns G)"
  by (rule valid_bindE [where R = "\<lambda>x _. H x"])
    (use assms in \<open>auto simp: valid_def returns_def split: sum.splits prod.splits\<close>)

lemma returns_weaken: "valid (\<lambda>_. True) m (returns H) \<Longrightarrow> (\<And>x. H x \<Longrightarrow> G x) \<Longrightarrow> valid (\<lambda>_. True) m (returns G)"
  by (erule valid_weaken) (auto simp: returns_def split: sum.splits)

lemma returns_any: "valid (\<lambda>_. True) m (returns (\<lambda>_. True))"
  by (auto simp: valid_def returns_def split: sum.splits)

lemma returnsD: "valid (\<lambda>_. True) m (returns G) \<Longrightarrow> fst (run_state m s) = Inr x \<Longrightarrow> G x"
  by (drule valid_run [of _ _ _ s]) (simp_all add: returns_def)

lemma returns_answer: "valid (\<lambda>_. True) m (returns (\<lambda>y. \<exists>s. fst (run_state m s) = Inr y))"
  by (auto simp: valid_def returns_def split: sum.splits) (metis fst_conv)

lemma returns_ret: "G x \<Longrightarrow> valid (\<lambda>_. True) (returnE x) (returns G)"
  by (rule valid_returnE) (simp add: returns_def)

lemma returns_throw: "valid (\<lambda>_. True) (throwE e) (returns G)"
  by (rule valid_throwE) (simp add: returns_def)

lemma returns_lift: "valid (\<lambda>_. True) (liftE r) (returns (\<lambda>x. r = Inr x))"
  by (rule valid_liftE) (simp add: returns_def split: sum.splits)

lemma returns_if:
  assumes "\<not> b \<Longrightarrow> valid (\<lambda>_. True) n (returns G)" "b \<Longrightarrow> valid (\<lambda>_. True) m (returns G)"
  shows "valid (\<lambda>_. True) (if b then m else n) (returns G)"
  using assms by simp

lemma returns_option:
  assumes "x = None \<Longrightarrow> valid (\<lambda>_. True) m (returns G)" "\<And>y. x = Some y \<Longrightarrow> valid (\<lambda>_. True) (f y) (returns G)"
  shows "valid (\<lambda>_. True) (case x of None \<Rightarrow> m | Some y \<Rightarrow> f y) (returns G)"
  using assms by (cases x) simp_all

lemma returns_prod:
  assumes "\<And>a b. x = (a, b) \<Longrightarrow> valid (\<lambda>_. True) (f a b) (returns G)"
  shows "valid (\<lambda>_. True) (case x of (a, b) \<Rightarrow> f a b) (returns G)"
  using assms by (cases x) simp

lemma returns_mapE:
  assumes "\<And>x. valid (\<lambda>_. True) (f x) (returns (R x))"
  shows "valid (\<lambda>_. True) (mapE f xs) (returns (list_all2 R xs))"
proof (induction xs)
  case (Cons x xs)
  show ?case unfolding mapE.simps
    by (rule returns_bind [OF assms], rule returns_bind [OF Cons.IH], rule returns_ret) simp
qed (simp add: returns_ret)

end
