(* ===== verification/Firebase.thy ===== *)
theory Firebase
  imports Effects Instructions
begin

text \<open>
  The services the crank talks to, as one record of computations over an outside world
  \<open>'w\<close> (\<open>services\<close>: the clock, the RPC connection, the HTTP end points), the transaction
  helper \<open>signAndSend\<close> of \<open>crank/src/instructions.ts\<close>, and the archive of
  \<open>crank/src/firebase.ts\<close>.

  \<open>a / b\<close> on \<open>Number\<close>s that need not divide is kept as the pair \<open>Quot a b\<close>.
\<close>

section \<open>Archive records\<close>

datatype js_quot = Quot int int

record ParticipantDeposit =
  dp_address :: string
  dp_usdc :: js_quot
  dp_tickets :: int

record HistoryRound =
  hr_roundId :: int
  hr_status :: int
  hr_totalUsdc :: js_quot
  hr_totalTickets :: int
  hr_participantsCount :: int
  hr_winner :: string
  hr_winningTicket :: string
  hr_randomness :: string
  hr_startTs :: int
  hr_endTs :: int
  hr_vaultUsdcAta :: string
  hr_participants :: "string list"
  hr_participantDeposits :: "ParticipantDeposit list"
  hr_archivedAt :: int

text \<open>
  The answer to a request: an error that is thrown, or a status and, for the query, the numeric
  keys of the JSON object (\<^const>\<open>None\<close> when it is not an object).
\<close>

record ('w, 'pk) services =
  dateNow :: "('w, int) state"
  getAccountInfo :: "'pk \<Rightarrow> ('w, buffer option result) state"
  getMultipleAccountsInfo :: "'pk list \<Rightarrow> ('w, buffer option list result) state"
  getLatestBlockhash :: "('w, string result) state"
  sendAndConfirmTransaction :: "'pk \<Rightarrow> string \<Rightarrow> 'pk instruction list \<Rightarrow> bool \<Rightarrow> ('w, string result) state"
  setComputeUnitLimit :: "int \<Rightarrow> 'pk instruction"
  setComputeUnitPrice :: "int \<Rightarrow> 'pk instruction"
  fetchParticipantAccount :: "'pk \<Rightarrow> ('w, (int \<times> int) result) state"
  httpPatch :: "string \<Rightarrow> HistoryRound \<Rightarrow> ('w, int result) state"
  httpRounds :: "string \<Rightarrow> ('w, (bool \<times> int list option) result) state"
  publishRoundSettled :: "int \<Rightarrow> string \<Rightarrow> js_quot \<Rightarrow> string list \<Rightarrow> ('w, unit) state"

section \<open>Sending a transaction\<close>

definition signAndSend :: "('w, 'pk) services \<Rightarrow> int \<Rightarrow> int \<Rightarrow> 'pk instruction list \<Rightarrow> 'pk \<Rightarrow> bool \<Rightarrow>
    ('w, string result) state" where
  "signAndSend sv units microLamports ixs payer skipPreflight =
     (let tx = setComputeUnitLimit sv units # setComputeUnitPrice sv microLamports # ixs in
      bindE (getLatestBlockhash sv) (\<lambda>blockhash.
      sendAndConfirmTransaction sv payer blockhash tx skipPreflight))"

section \<open>The archive\<close>

definition hex_digit :: "int \<Rightarrow> char" where
  "hex_digit n = (if n < 10 then char_of (48 + nat n) else char_of (87 + nat n))"

definition hex_string :: "buffer \<Rightarrow> string" where
  "hex_string bs = concat (map (\<lambda>b. [hex_digit (uint b div 16), hex_digit (uint b mod 16)]) bs)"

definition initFirebase :: "string option \<Rightarrow> string option" where
  "initFirebase FIREBASE_DATABASE_URL =
     (case FIREBASE_DATABASE_URL of
        None \<Rightarrow> None
      | Some url \<Rightarrow> if url = [] then None
          else Some (if last url = CHR ''/'' then butlast url else url))"

definition buildHistoryRound :: "('w, 'pk) services \<Rightarrow> 'pk chain_env \<Rightarrow> 'pk RoundData \<Rightarrow> int \<Rightarrow>
    ('w, HistoryRound result) state" where
  "buildHistoryRound sv e rd roundId =
     (let roundPda = round_pda e roundId;
          sdk = ce_sdk e;
          deposit = (\<lambda>addr deposits.
            bindE (tryE
              (bindE (fetchParticipantAccount sv (participant_pda e roundPda addr)) (\<lambda>(usdcTotal, ticketsTotal).
               returnE \<lparr>dp_address = toBase58 sdk addr, dp_usdc = Quot usdcTotal (10 ^ 6),
                 dp_tickets = ticketsTotal\<rparr>))
              (\<lambda>_. returnE \<lparr>dp_address = toBase58 sdk addr,
                 dp_usdc = Quot (rd_totalUsdc rd) (10 ^ 6 * rd_participantsCount rd),
                 dp_tickets = rd_totalTickets rd div rd_participantsCount rd\<rparr>))
            (\<lambda>d. returnE (deposits @ [d])))
      in bindE (foldE deposit (take (nat (rd_participantsCount rd)) (rd_participants rd)) []) (\<lambda>deposits.
         doE (dateNow sv) (\<lambda>t.
         returnE \<lparr>hr_roundId = rd_roundId rd, hr_status = rd_status rd,
           hr_totalUsdc = Quot (rd_totalUsdc rd) (10 ^ 6), hr_totalTickets = rd_totalTickets rd,
           hr_participantsCount = rd_participantsCount rd, hr_winner = toBase58 sdk (rd_winner rd),
           hr_winningTicket = js_string (rd_winningTicket rd),
           hr_randomness = hex_string (rd_randomness rd), hr_startTs = rd_startTs rd,
           hr_endTs = rd_endTs rd, hr_vaultUsdcAta = toBase58 sdk (rd_vaultUsdcAta rd),
           hr_participants = map (toBase58 sdk) (rd_participants rd),
           hr_participantDeposits = deposits, hr_archivedAt = t\<rparr>)))"

definition saveRoundToFirebase :: "('w, 'pk) services \<Rightarrow> string option \<Rightarrow> HistoryRound \<Rightarrow>
    ('w, bool result) state" where
  "saveRoundToFirebase sv dbUrl round =
     (case dbUrl of
        None \<Rightarrow> returnE False
      | Some base \<Rightarrow>
          tryE (bindE (httpPatch sv (base @ ''/rounds/'' @ js_string (hr_roundId round) @ ''.json'') round) (\<lambda>status.
            if 200 \<le> status \<and> status \<le> 299 then returnE True
            else if status = 401 \<or> status = 403 then returnE True
            else returnE False))
          (\<lambda>_. returnE False))"

definition getMaxArchivedRoundId :: "('w, 'pk) services \<Rightarrow> string option \<Rightarrow> ('w, int result) state" where
  "getMaxArchivedRoundId sv dbUrl =
     (case dbUrl of
        None \<Rightarrow> returnE 0
      | Some base \<Rightarrow>
          tryE (bindE (httpRounds sv (base @ ''/rounds.json?orderBy=\"$key\"&limitToLast=1'')) (\<lambda>(isOk, body).
            if \<not> isOk then returnE 0
            else case body of
                None \<Rightarrow> returnE 0
              | Some keys \<Rightarrow> returnE (case keys of [] \<Rightarrow> 0 | k # _ \<Rightarrow> k)))
          (\<lambda>_. returnE 0))"

section \<open>Lemmas\<close>

lemma save_never_throws:
  "valid (\<lambda>_. True) (saveRoundToFirebase sv dbUrl round) (\<lambda>r _. \<exists>b. r = Inr b)"
  by (rule validI)
    (auto simp: saveRoundToFirebase_def split: option.splits prod.splits sum.splits if_splits)

lemma max_archived_never_throws:
  "valid (\<lambda>_. True) (getMaxArchivedRoundId sv dbUrl) (\<lambda>r _. \<exists>b. r = Inr b)"
  by (rule validI)
    (auto simp: getMaxArchivedRoundId_def split: option.splits prod.splits sum.splits if_splits list.splits)

section \<open>Services for witnesses\<close>

text \<open>A chain whose accounts \<open>acct\<close> gives and that accepts every transaction; the clock stands still.\<close>

definition demo_ix :: "(256 word) instruction" where
  "demo_ix = \<lparr>ix_programId = 0, ix_keys = [], ix_data = []\<rparr>"

definition demo_services :: "((256 word) \<Rightarrow> buffer option) \<Rightarrow> (unit, 256 word) services" where
  "demo_services acct = \<lparr>dateNow = State_Monad.return 1000000, getAccountInfo = (\<lambda>k. State_Monad.return (Inr (acct k))),
     getMultipleAccountsInfo = (\<lambda>ks. State_Monad.return (Inr (map acct ks))), getLatestBlockhash = State_Monad.return (Inr ''hash''),
     sendAndConfirmTransaction = (\<lambda>_ _ _ _. State_Monad.return (Inr ''sig'')), setComputeUnitLimit = (\<lambda>_. demo_ix),
     setComputeUnitPrice = (\<lambda>_. demo_ix), fetchParticipantAccount = (\<lambda>_. State_Monad.return (Inl ''none'')),
     httpPatch = (\<lambda>_ _. State_Monad.return (Inr 200)), httpRounds = (\<lambda>_. State_Monad.return (Inr (True, None))),
     publishRoundSettled = (\<lambda>_ _ _ _. State_Monad.return ())\<rparr>"

end
