(* ===== verification/Runtime_Logic.thy ===== *)
theory Runtime_Logic
  imports Solana
begin

text \<open>
  The pure decisions of the crank, \<open>crank/src/runtimeLogic.ts\<close>: classification of an error
  message, thresholds and throttling of the warnings about stuck rounds, and the back-off
  schedule of the cleanup of finished rounds. Times are in seconds.
\<close>

section \<open>Error messages\<close>

text \<open>\<open>/\bN\b/.test(s)\<close>: an occurrence of \<open>N\<close> with no word character on either side.\<close>

definition word_char :: "char \<Rightarrow> bool" where
  "word_char c = (let n = (of_char c :: nat) in
     48 \<le> n \<and> n \<le> 57 \<or> 65 \<le> n \<and> n \<le> 90 \<or> n = 95 \<or> 97 \<le> n \<and> n \<le> 122)"

definition boundary_after :: "string \<Rightarrow> bool" where
  "boundary_after s = (case s of [] \<Rightarrow> True | c # _ \<Rightarrow> \<not> word_char c)"

fun test_word :: "bool \<Rightarrow> string \<Rightarrow> string \<Rightarrow> bool" where
  "test_word at_boundary [] w = (at_boundary \<and> w = [])"
| "test_word at_boundary (c # s) w =
     (at_boundary \<and> js_starts (c # s) w \<and> boundary_after (drop (length w) (c # s)) \<or>
      test_word (\<not> word_char c) s w)"

definition isMinRequirementsErrorMessage :: "string \<Rightarrow> bool" where
  "isMinRequirementsErrorMessage message \<longleftrightarrow>
     js_includes message ''NotEnoughTickets'' \<or> js_includes message ''NotEnoughParticipants'' \<or>
     test_word True message ''6010'' \<or> test_word True message ''6009''"

section \<open>Stuck rounds\<close>

record StuckThresholds =
  lockedSec :: int
  vrfRequestedSec :: int
  settledSec :: int
  cancelledSec :: int

definition getStuckThresholdSec :: "int \<Rightarrow> StuckThresholds \<Rightarrow> int option" where
  "getStuckThresholdSec status thresholds =
     (if status = Locked then Some (lockedSec thresholds)
      else if status = VrfRequested then Some (vrfRequestedSec thresholds)
      else if status = Settled then Some (settledSec thresholds)
      else if status = Cancelled then Some (cancelledSec thresholds)
      else None)"

definition shouldEmitStuckWarning :: "int \<Rightarrow> int \<Rightarrow> int \<Rightarrow> int \<Rightarrow> int option \<Rightarrow> int option \<Rightarrow> int \<Rightarrow> bool" where
  "shouldEmitStuckWarning nowSec observedStatus targetStatus observedSinceSec thresholdSec
       lastWarnSec repeatSec =
     (case thresholdSec of
        None \<Rightarrow> False
      | Some threshold \<Rightarrow>
          if threshold \<le> 0 then False
          else if observedStatus \<noteq> targetStatus then False
          else let ageSec = nowSec - observedSinceSec in
            if ageSec < threshold then False
            else let last = (case lastWarnSec of None \<Rightarrow> 0 | Some t \<Rightarrow> t) in
              repeatSec \<le> nowSec - last)"

section \<open>Cleanup retries\<close>

record ParticipantCleanupRetryInput =
  rs_existing :: int
  rs_closed :: int
  rs_blockedByRefund :: int

record CleanupRetryScheduleUpdate =
  nextDelaySec :: int
  nextAttemptAtSec :: int
  nextRetryCount :: int
  lastReason :: string

datatype CleanupRetryOutcome =
    participants_pending ParticipantCleanupRetryInput
  | left_terminal_state int
  | close_round_failed string
  | background_error string

definition computeCleanupRetryDelay :: "int option \<Rightarrow> int \<Rightarrow> int \<Rightarrow> bool \<Rightarrow> int" where
  "computeCleanupRetryDelay current minDelaySec maxDelaySec fast =
     (let currentDelaySec = (case current of None \<Rightarrow> minDelaySec | Some c \<Rightarrow> c) in
      if fast then min minDelaySec 2
      else min maxDelaySec (max minDelaySec (currentDelaySec * 2)))"

definition describeParticipantCleanupRetry :: "ParticipantCleanupRetryInput \<Rightarrow> (string \<times> bool) option" where
  "describeParticipantCleanupRetry stats =
     (let remainingParticipants = rs_existing stats - rs_closed stats in
      if remainingParticipants \<le> 0 then None
      else let reason =
        (if 0 < rs_blockedByRefund stats then
           ''waiting user refunds ('' @ js_string (rs_blockedByRefund stats) @ '' participant PDAs still funded)''
         else if 0 < rs_closed stats then
           ''participant cleanup in progress ('' @ js_string remainingParticipants @ '' remaining)''
         else ''participant cleanup pending ('' @ js_string remainingParticipants @ '' remaining)'')
        in Some (reason, 0 < rs_closed stats))"

definition buildCleanupRetryScheduleUpdate ::
    "int \<Rightarrow> string \<Rightarrow> int \<Rightarrow> int \<Rightarrow> int option \<Rightarrow> int option \<Rightarrow> bool \<Rightarrow> CleanupRetryScheduleUpdate" where
  "buildCleanupRetryScheduleUpdate nowSec reason minDelaySec maxDelaySec currentDelaySec retryCount fast =
     (let nextDelay = computeCleanupRetryDelay
            (Some (case currentDelaySec of None \<Rightarrow> minDelaySec | Some c \<Rightarrow> c)) minDelaySec maxDelaySec fast
      in \<lparr>nextDelaySec = nextDelay, nextAttemptAtSec = nowSec + nextDelay,
          nextRetryCount = (case retryCount of None \<Rightarrow> 0 | Some n \<Rightarrow> n) + 1, lastReason = reason\<rparr>)"

definition planParticipantCleanupRetrySchedule ::
    "int \<Rightarrow> ParticipantCleanupRetryInput \<Rightarrow> int \<Rightarrow> int \<Rightarrow> int option \<Rightarrow> int option \<Rightarrow>
     CleanupRetryScheduleUpdate option" where
  "planParticipantCleanupRetrySchedule nowSec stats minDelaySec maxDelaySec currentDelaySec retryCount =
     (case describeParticipantCleanupRetry stats of
        None \<Rightarrow> None
      | Some (reason, fast) \<Rightarrow>
          Some (buildCleanupRetryScheduleUpdate nowSec reason minDelaySec maxDelaySec currentDelaySec
                  retryCount fast))"

definition describeCleanupRetryOutcome :: "CleanupRetryOutcome \<Rightarrow> (string \<times> bool) option" where
  "describeCleanupRetryOutcome outcome =
     (case outcome of
        participants_pending stats \<Rightarrow> describeParticipantCleanupRetry stats
      | left_terminal_state status \<Rightarrow> Some (''round left terminal state ('' @ js_string status @ '')'', False)
      | close_round_failed message \<Rightarrow> Some (''close_round failed: '' @ message, False)
      | background_error message \<Rightarrow> Some (''background error: '' @ message, False))"

definition planCleanupRetryScheduleForOutcome ::
    "int \<Rightarrow> CleanupRetryOutcome \<Rightarrow> int \<Rightarrow> int \<Rightarrow> int option \<Rightarrow> int option \<Rightarrow>
     CleanupRetryScheduleUpdate option" where
  "planCleanupRetryScheduleForOutcome nowSec outcome minDelaySec maxDelaySec currentDelaySec retryCount =
     (case describeCleanupRetryOutcome outcome of
        None \<Rightarrow> None
      | Some (reason, fast) \<Rightarrow>
          Some (buildCleanupRetryScheduleUpdate nowSec reason minDelaySec maxDelaySec currentDelaySec
                  retryCount fast))"

section \<open>Lemmas\<close>

lemma js_starts_split: "js_starts s w \<and> P (drop (length w) s) \<longleftrightarrow> (\<exists>post. s = w @ post \<and> P post)"
  by (auto simp: js_starts_iff)

lemma test_word_iff:
  assumes "w \<noteq> []"
  shows "test_word b s w \<longleftrightarrow>
    (\<exists>pre post. s = pre @ w @ post \<and> (if pre = [] then b else \<not> word_char (last pre)) \<and> boundary_after post)"
proof (induction s arbitrary: b)
  case Nil
  then show ?case using assms by simp
next
  case (Cons c s)
  have "(\<exists>pre post. c # s = pre @ w @ post \<and> (if pre = [] then b else \<not> word_char (last pre)) \<and>
        boundary_after post) \<longleftrightarrow>
      (\<exists>post. c # s = w @ post \<and> b \<and> boundary_after post) \<or>
      (\<exists>pre post. s = pre @ w @ post \<and> (if pre = [] then \<not> word_char c else \<not> word_char (last pre)) \<and>
        boundary_after post)" (is "?l \<longleftrightarrow> ?r1 \<or> ?r2")
  proof
    assume ?l
    then obtain pre post where "c # s = pre @ w @ post" "if pre = [] then b else \<not> word_char (last pre)"
      "boundary_after post" by blast
    then show "?r1 \<or> ?r2" by (cases pre) (auto split: if_splits)
  next
    assume "?r1 \<or> ?r2"
    then show ?l
    proof
      assume ?r1
      then obtain post where "c # s = w @ post" "b" "boundary_after post" by blast
      then show ?l 
        by - (rule exI [of _ "[]"], rule exI [of _ post], simp)
    next
      assume ?r2
      then obtain pre post where "s = pre @ w @ post" "boundary_after post"
        "if pre = [] then \<not> word_char c else \<not> word_char (last pre)" by blast
      then show ?l 
        by - (rule exI [of _ "c # pre"], rule exI [of _ post], simp)
    qed
  qed
  with Cons js_starts_split [of "c # s" w boundary_after] show ?case
    unfolding test_word.simps(2) by blast
qed

lemma delay_bounds:
  "mn \<le> mx \<Longrightarrow> min mn 2 \<le> computeCleanupRetryDelay d mn mx fast \<and> computeCleanupRetryDelay d mn mx fast \<le> mx"
  by (auto simp: computeCleanupRetryDelay_def Let_def)

section \<open>Properties\<close>

text \<open>
  The messages that make the crank skip a round are exactly those that contain one of the
  two error names or, as a whole word, one of the two error codes: a longer number or an
  identifier that merely contains the digits does not count.
\<close>

theorem isMinRequirementsErrorMessage_iff:
  "isMinRequirementsErrorMessage m \<longleftrightarrow>
     (\<exists>pre post. m = pre @ ''NotEnoughTickets'' @ post \<or> m = pre @ ''NotEnoughParticipants'' @ post) \<or>
     (\<exists>pre post code. code \<in> {''6009'', ''6010''} \<and> m = pre @ code @ post \<and>
        (pre = [] \<or> \<not> word_char (last pre)) \<and> (post = [] \<or> \<not> word_char (hd post)))"
proof -
  have after: "boundary_after s \<longleftrightarrow> s = [] \<or> \<not> word_char (hd s)" for s
    by (cases s) (simp_all add: boundary_after_def)
  have word: "test_word True m w \<longleftrightarrow> (\<exists>pre post. m = pre @ w @ post \<and>
      (pre = [] \<or> \<not> word_char (last pre)) \<and> (post = [] \<or> \<not> word_char (hd post)))" if "w \<noteq> []" for w
    using test_word_iff [OF that, of True m] unfolding after by (auto split: if_splits)
  have "test_word True m ''6010'' \<or> test_word True m ''6009'' \<longleftrightarrow>
      (\<exists>pre post code. code \<in> {''6009'', ''6010''} \<and> m = pre @ code @ post \<and>
        (pre = [] \<or> \<not> word_char (last pre)) \<and> (post = [] \<or> \<not> word_char (hd post)))"
    unfolding word [OF list.simps(3)] by blast
  then show ?thesis unfolding isMinRequirementsErrorMessage_def js_includes_iff by blast
qed

theorem isMinRequirementsErrorMessage_iff_witness:
  "isMinRequirementsErrorMessage ''custom program error: 6010.''"
proof -
  have "''custom program error: 6010.'' = ''custom program error: '' @ ''6010'' @ ''.''" by simp
  moreover have "\<not> word_char (last ''custom program error: '')" "\<not> word_char (hd ''.'')"
    by (simp_all add: word_char_def)
  ultimately show ?thesis unfolding isMinRequirementsErrorMessage_iff by blast
qed

text \<open>
  Exponential back-off of the cleanup: after \<open>n\<close> failed attempts in a row without
  progress the delay is the minimum doubled \<open>n\<close> times, capped at the maximum.
\<close>

theorem cleanup_backoff:
  assumes "0 < mn" and "mn \<le> mx"
  shows "((\<lambda>d. computeCleanupRetryDelay (Some d) mn mx False) ^^ n) mn = min mx (mn * 2 ^ n)"
proof (induction n)
  case 0
  with assms show ?case by simp
next
  case (Suc n)
  have step: "computeCleanupRetryDelay (Some d) mn mx False = min mx (max mn (d * 2))" for d
    by (simp add: computeCleanupRetryDelay_def)
  have "mn * 1 \<le> mn * 2 ^ n" using assms by (intro mult_left_mono) simp_all
  moreover have "min mx (max mn (min mx p * 2)) = min mx (p * 2)" if "mn * 1 \<le> p" for p
    using assms that by (auto simp: min_def max_def)
  ultimately have "min mx (max mn (min mx (mn * 2 ^ n) * 2)) = min mx (mn * 2 ^ n * 2)" by blast
  with Suc show ?case by (simp add: step ac_simps)
qed

theorem cleanup_backoff_witness:
  "((\<lambda>d. computeCleanupRetryDelay (Some d) 5 60 False) ^^ 3) 5 = 40"
  using cleanup_backoff [of 5 60 3] by simp

text \<open>
  When a cleanup is retried: after a pass over the participants exactly if some of the
  existing participant accounts were not closed, and after every other outcome always. The
  next attempt is between one of the two minimal delays and the maximal delay away, the retry
  count goes up by one, and a pass that closed something is followed up at the short delay.
\<close>

theorem cleanup_retry_planned:
  assumes "mn \<le> mx"
  shows "(planCleanupRetryScheduleForOutcome t outcome mn mx d n = None \<longleftrightarrow>
      (\<exists>st. outcome = participants_pending st \<and> rs_existing st \<le> rs_closed st)) \<and>
    (\<forall>u. planCleanupRetryScheduleForOutcome t outcome mn mx d n = Some u \<longrightarrow>
      nextAttemptAtSec u = t + nextDelaySec u \<and>
      min mn 2 \<le> nextDelaySec u \<and> nextDelaySec u \<le> mx \<and>
      nextRetryCount u = (case n of None \<Rightarrow> 0 | Some k \<Rightarrow> k) + 1 \<and>
      (\<forall>st. outcome = participants_pending st \<and> 0 < rs_closed st \<longrightarrow> nextDelaySec u = min mn 2))"
proof (cases "describeCleanupRetryOutcome outcome")
  case None
  then show ?thesis
    by (auto simp: planCleanupRetryScheduleForOutcome_def describeCleanupRetryOutcome_def
        describeParticipantCleanupRetry_def Let_def split: CleanupRetryOutcome.splits if_splits)
next
  case (Some p)
  obtain reason fast where p: "p = (reason, fast)" by (cases p)
  have fast: "fast" if "outcome = participants_pending st" "0 < rs_closed st" for st
    using Some p that by (auto simp: describeCleanupRetryOutcome_def
        describeParticipantCleanupRetry_def Let_def split: if_splits)
  have "\<not> (\<exists>st. outcome = participants_pending st \<and> rs_existing st \<le> rs_closed st)"
    using Some by (auto simp: describeCleanupRetryOutcome_def describeParticipantCleanupRetry_def)
  moreover have "computeCleanupRetryDelay c mn mx True = min mn 2" for c
    by (simp add: computeCleanupRetryDelay_def)
  ultimately show ?thesis
    using Some p delay_bounds [OF assms] fast
    by (auto simp: planCleanupRetryScheduleForOutcome_def buildCleanupRetryScheduleUpdate_def Let_def)
qed

theorem cleanup_retry_planned_witness:
  "planCleanupRetryScheduleForOutcome 100
     (participants_pending \<lparr>rs_existing = 3, rs_closed = 3, rs_blockedByRefund = 0\<rparr>) 5 60 None None = None"
  using cleanup_retry_planned [of 5 60 100
      "participants_pending \<lparr>rs_existing = 3, rs_closed = 3, rs_blockedByRefund = 0\<rparr>" None None] by simp

end
