(* ===== verification/Round_Scan.thy ===== *)
theory Round_Scan
  imports Solana
begin

text \<open>
  The start-up scan of the crank, \<open>crank/src/activeRoundScan.ts\<close>: batches of round ids are
  fetched until a streak of missing accounts after an existing round, and the scan returns the
  last active round, or the id after everything it has seen.

  \<open>fetchBatch\<close> is the caller's: a computation that may throw and may change the caller's
  state. The \<open>for\<close> loop runs on fuel: its result is \<^const>\<open>None\<close> when the fuel
  \<open>maxScan + 1\<close> does not suffice, which for a positive batch size it always does
  (\<open>scan_terminates\<close>); with a batch size of zero the loop of the source does not end.
\<close>

section \<open>The scan\<close>

datatype ScanEntry = Missing | Invalid | Round_at int

definition isActiveRoundStatus :: "int \<Rightarrow> bool" where
  "isActiveRoundStatus status \<longleftrightarrow>
     status = Open \<or> status = Locked \<or> status = VrfRequested \<or> status = Settled"

record scan_vars =
  maxExisting :: int
  activeRound :: int
  nullStreak :: int

definition scan_done :: "int \<Rightarrow> scan_vars \<Rightarrow> bool" where
  "scan_done limit v \<longleftrightarrow> 0 < maxExisting v \<and> limit \<le> nullStreak v"

text \<open>The inner loop; an entry that is \<open>undefined\<close> counts as missing.\<close>

fun scan_entries :: "int \<Rightarrow> (int \<times> ScanEntry option) list \<Rightarrow> scan_vars \<Rightarrow> scan_vars" where
  "scan_entries limit [] v = v"
| "scan_entries limit ((rid, entry) # rest) v =
     (if entry = None \<or> entry = Some Missing then
        let v1 = v\<lparr>nullStreak := nullStreak v + 1\<rparr> in
        if scan_done limit v1 then v1 else scan_entries limit rest v1
      else
        let v1 = v\<lparr>nullStreak := 0\<rparr> in
        case entry of
          Some (Round_at status) \<Rightarrow>
            let v2 = v1\<lparr>maxExisting := rid\<rparr> in
            scan_entries limit rest (if isActiveRoundStatus status then v2\<lparr>activeRound := rid\<rparr> else v2)
        | _ \<Rightarrow> scan_entries limit rest v1)"

definition batch_ids :: "int \<Rightarrow> int \<Rightarrow> int list" where
  "batch_ids base batchSize = map (\<lambda>i. base + int i) [0..<nat batchSize]"

fun scan_loop :: "(int list \<Rightarrow> ('s, ScanEntry option list result) state) \<Rightarrow> int \<Rightarrow> int \<Rightarrow> int \<Rightarrow> nat \<Rightarrow>
    int \<Rightarrow> scan_vars \<Rightarrow> ('s, scan_vars result option) state" where
  "scan_loop fetchBatch upper batchSize limit 0 base v =
     State_Monad.return (if upper < base then Some (Inr v) else None)"
| "scan_loop fetchBatch upper batchSize limit (Suc fuel) base v =
     (if upper < base then State_Monad.return (Some (Inr v))
      else do {
        let ids = batch_ids base batchSize;
        r \<leftarrow> fetchBatch ids;
        case r of
          Inl e \<Rightarrow> State_Monad.return (Some (Inl e))
        | Inr entries \<Rightarrow>
            let v1 = scan_entries limit (zip ids entries) v in
            if scan_done limit v1 then State_Monad.return (Some (Inr v1))
            else scan_loop fetchBatch upper batchSize limit fuel (base + batchSize) v1 })"

definition scanForActiveRound :: "int \<Rightarrow> int \<Rightarrow> int \<Rightarrow> int \<Rightarrow> int \<Rightarrow>
    (int list \<Rightarrow> ('s, ScanEntry option list result) state) \<Rightarrow> ('s, int result option) state" where
  "scanForActiveRound scanStart archivedMax maxScan batchSize nullStreakLimit fetchBatch =
     do { r \<leftarrow> scan_loop fetchBatch (scanStart + maxScan) batchSize nullStreakLimit
            (nat maxScan + 1) scanStart \<lparr>maxExisting = 0, activeRound = 0, nullStreak = 0\<rparr>;
          State_Monad.return (map_option (map_sum id (\<lambda>v.
            let highWaterMark = max (maxExisting v) archivedMax in
            if 0 < activeRound v then activeRound v else highWaterMark + 1)) r) }"

section \<open>Termination\<close>

lemma scan_loop_terminates:
  assumes "1 \<le> batchSize" and "upper < base + int fuel"
  shows "fst (run_state (scan_loop fetchBatch upper batchSize limit fuel base v) s) \<noteq> None"
  using assms(2)
proof (induction fuel arbitrary: base v s)
  case 0
  then show ?case by simp
next
  case (Suc fuel)
  then have "upper < base + batchSize + int fuel" using assms(1) by simp
  from Suc.IH [OF this] show ?case
    by (auto simp: Let_def split: prod.splits sum.splits)
qed

lemma scan_terminates:
  assumes "1 \<le> batchSize"
  shows "fst (run_state (scanForActiveRound scanStart archivedMax maxScan batchSize limit fetchBatch) s) \<noteq> None"
proof -
  have "scanStart + maxScan < scanStart + int (nat maxScan + 1)" by simp
  from scan_loop_terminates [OF assms this] show ?thesis
    by (simp add: scanForActiveRound_def split_beta del: scan_loop.simps)
qed

section \<open>Batches do not matter\<close>

text \<open>One entry, and the loop as a fold over it that stops at the streak.\<close>

definition scan_step :: "int \<Rightarrow> ScanEntry option \<Rightarrow> scan_vars \<Rightarrow> scan_vars" where
  "scan_step rid entry v =
     (case entry of
        Some (Round_at st) \<Rightarrow>
          \<lparr>maxExisting = rid, activeRound = if isActiveRoundStatus st then rid else activeRound v,
           nullStreak = 0\<rparr>
      | Some Invalid \<Rightarrow> v\<lparr>nullStreak := 0\<rparr>
      | _ \<Rightarrow> v\<lparr>nullStreak := nullStreak v + 1\<rparr>)"

lemma scan_entries_Cons:
  assumes "1 \<le> limit"
  shows "scan_entries limit ((rid, entry) # rest) v =
    (let v1 = scan_step rid entry v in if scan_done limit v1 then v1 else scan_entries limit rest v1)"
  using assms
  by (cases v) (auto simp: scan_step_def scan_done_def Let_def split: option.splits ScanEntry.splits)

declare scan_entries.simps(2) [simp del]

lemma scan_entries_append:
  assumes "1 \<le> limit" and "\<not> scan_done limit v"
  shows "scan_entries limit (xs @ ys) v =
    (let v1 = scan_entries limit xs v in if scan_done limit v1 then v1 else scan_entries limit ys v1)"
  using assms(2)
proof (induction xs arbitrary: v)
  case (Cons x xs)
  then show ?case by (cases x) (simp add: scan_entries_Cons [OF assms(1)] Let_def)
qed simp

text \<open>A snapshot of the chain, and the scan over it as one pass over the whole range.\<close>

definition snapshot_fetch :: "(int \<Rightarrow> ScanEntry) \<Rightarrow> int list \<Rightarrow> ('s, ScanEntry option list result) state" where
  "snapshot_fetch chain ids = State_Monad.return (Inr (map (\<lambda>i. Some (chain i)) ids))"

definition flat_scan :: "int \<Rightarrow> (int \<Rightarrow> ScanEntry) \<Rightarrow> int list \<Rightarrow> scan_vars \<Rightarrow> scan_vars" where
  "flat_scan limit chain ids v = scan_entries limit (map (\<lambda>i. (i, Some (chain i))) ids) v"

definition scan_range :: "int \<Rightarrow> int \<Rightarrow> int \<Rightarrow> int list" where
  "scan_range scanStart maxScan batchSize =
     (if maxScan < 0 then [] else [scanStart..scanStart + (maxScan div batchSize + 1) * batchSize - 1])"

lemma batch_ids_upto: "batch_ids base n = [base..base + n - 1]"
proof (rule nth_equalityI)
  show "length (batch_ids base n) = length [base..base + n - 1]" by (simp add: batch_ids_def)
  show "batch_ids base n ! i = [base..base + n - 1] ! i" if "i < length (batch_ids base n)" for i
    using that by (simp add: batch_ids_def nth_upto)
qed

lemma zip_snapshot: "zip ids (map (\<lambda>i. Some (chain i)) ids) = map (\<lambda>i. (i, Some (chain i))) ids"
  by (simp add: zip_map2 zip_same_conv_map)

lemma scan_range_batch:
  assumes "1 \<le> n" and "base \<le> upper"
  shows "scan_range base (upper - base) n =
    [base..base + n - 1] @ scan_range (base + n) (upper - (base + n)) n"
proof (cases "upper - base < n")
  case True
  then have "(upper - base) div n = 0" using assms by (simp add: div_pos_pos_trivial)
  with True assms show ?thesis by (simp add: scan_range_def)
next
  case False
  define q where "q = (upper - (base + n)) div n"
  have "upper - base = (upper - (base + n)) + n" by simp
  then have "(upper - base) div n = q + 1"
    using assms unfolding q_def by (metis div_add_self2 not_one_le_zero)
  moreover have "0 \<le> q" using False assms by (simp add: q_def pos_imp_zdiv_nonneg_iff)
  then have "n \<le> (q + 1) * n" using assms by (simp add: algebra_simps)
  then have "[base..base + (q + 1 + 1) * n - 1] =
      [base..base + n - 1] @ [base + n..base + n + (q + 1) * n - 1]"
    using upto_split1 [of base "base + n" "base + (q + 1 + 1) * n - 1"] assms by (simp add: algebra_simps)
  ultimately show ?thesis using False assms by (simp add: scan_range_def q_def)
qed

lemma scan_loop_flat:
  assumes "1 \<le> limit" and "1 \<le> n"
  shows "upper < base + int fuel * n \<Longrightarrow> \<not> scan_done limit v \<Longrightarrow>
    fst (run_state (scan_loop (snapshot_fetch chain) upper n limit fuel base v) s) =
    Some (Inr (flat_scan limit chain (scan_range base (upper - base) n) v))"
proof (induction fuel arbitrary: base v)
  case 0
  then show ?case by (simp add: scan_range_def flat_scan_def)
next
  case (Suc fuel)
  show ?case
  proof (cases "upper < base")
    case True
    then show ?thesis by (simp add: scan_range_def flat_scan_def)
  next
    case False
    let ?v1 = "flat_scan limit chain [base..base + n - 1] v"
    have range: "scan_range base (upper - base) n =
        [base..base + n - 1] @ scan_range (base + n) (upper - (base + n)) n"
      using False by (intro scan_range_batch [OF assms(2)]) simp
    have "flat_scan limit chain (scan_range base (upper - base) n) v =
        (if scan_done limit ?v1 then ?v1
         else flat_scan limit chain (scan_range (base + n) (upper - (base + n)) n) ?v1)"
      unfolding range flat_scan_def map_append scan_entries_append [OF assms(1) Suc.prems(2)]
      by (simp add: Let_def)
    moreover have "upper < base + n + int fuel * n" using Suc.prems(1) by (simp add: algebra_simps)
    ultimately show ?thesis
      using False Suc.IH [of "base + n" ?v1]
      by (simp add: snapshot_fetch_def zip_snapshot batch_ids_upto Let_def flat_scan_def)
  qed
qed

section \<open>What the scan finds\<close>

definition active_at :: "(int \<Rightarrow> ScanEntry) \<Rightarrow> int \<Rightarrow> bool" where
  "active_at chain i = (case chain i of Round_at st \<Rightarrow> isActiveRoundStatus st | _ \<Rightarrow> False)"

definition round_at :: "(int \<Rightarrow> ScanEntry) \<Rightarrow> int \<Rightarrow> bool" where
  "round_at chain i = (case chain i of Round_at st \<Rightarrow> True | _ \<Rightarrow> False)"

text \<open>No \<open>limit\<close> consecutive ids between \<open>lo\<close> and \<open>a\<close> are all missing.\<close>

definition no_gap :: "(int \<Rightarrow> ScanEntry) \<Rightarrow> int \<Rightarrow> int \<Rightarrow> int \<Rightarrow> bool" where
  "no_gap chain limit lo a \<longleftrightarrow>
     (\<forall>j. lo \<le> j \<longrightarrow> j + limit - 1 \<le> a \<longrightarrow> (\<exists>m \<in> {j..j + limit - 1}. chain m \<noteq> Missing))"

lemma flat_scan_Cons:
  assumes "1 \<le> limit"
  shows "flat_scan limit chain (i # ids) v =
    (let v1 = scan_step i (Some (chain i)) v in if scan_done limit v1 then v1 else flat_scan limit chain ids v1)"
  by (simp add: flat_scan_def scan_entries_Cons [OF assms] Let_def)

lemma scan_step_keeps:
  "\<not> active_at chain i \<Longrightarrow> activeRound (scan_step i (Some (chain i)) v) = activeRound v"
  "\<not> round_at chain i \<Longrightarrow> maxExisting (scan_step i (Some (chain i)) v) = maxExisting v"
  by (simp_all add: active_at_def round_at_def scan_step_def split: ScanEntry.splits)

lemma flat_scan_keeps:
  assumes "1 \<le> limit"
  shows "\<forall>i \<in> set ids. \<not> active_at chain i \<Longrightarrow>
      activeRound (flat_scan limit chain ids v) = activeRound v"
    and "\<forall>i \<in> set ids. \<not> round_at chain i \<Longrightarrow>
      maxExisting (flat_scan limit chain ids v) = maxExisting v"
  by (induction ids arbitrary: v)
    (simp_all add: flat_scan_Cons [OF assms] flat_scan_def [of _ _ "[]"] Let_def scan_step_keeps)

text \<open>The streak so far: its length, and that the ids it counts are missing.\<close>

definition streak_ok :: "(int \<Rightarrow> ScanEntry) \<Rightarrow> int \<Rightarrow> int \<Rightarrow> int \<Rightarrow> scan_vars \<Rightarrow> bool" where
  "streak_ok chain limit start lo v \<longleftrightarrow>
     0 \<le> nullStreak v \<and> nullStreak v < limit \<and> start \<le> lo - nullStreak v \<and>
     (\<forall>m \<in> {lo - nullStreak v..lo - 1}. chain m = Missing)"

lemma streak_step:
  assumes "1 \<le> limit" and "no_gap chain limit start a" and "streak_ok chain limit start lo v" and "lo \<le> a"
  shows "streak_ok chain limit start (lo + 1) (scan_step lo (Some (chain lo)) v)"
proof (cases "chain lo = Missing")
  case True
  let ?n = "nullStreak v"
  have "\<forall>m \<in> {lo - ?n..lo}. chain m = Missing"
    using assms(3) True by (auto simp: streak_ok_def)
  moreover have "?n + 1 \<noteq> limit"
  proof
    assume "?n + 1 = limit"
    then have "start \<le> lo - ?n" and "lo - ?n + limit - 1 = lo" using assms(3) by (auto simp: streak_ok_def)
    with assms(2,4) obtain m where "m \<in> {lo - ?n..lo}" "chain m \<noteq> Missing"
      unfolding no_gap_def by (metis)
    with \<open>\<forall>m \<in> {lo - ?n..lo}. chain m = Missing\<close> show False by blast
  qed
  ultimately show ?thesis
    using True assms(3) by (auto simp: streak_ok_def scan_step_def)
next
  case False
  then have "nullStreak (scan_step lo (Some (chain lo)) v) = 0"
    by (simp add: scan_step_def split: ScanEntry.splits)
  with assms(1,3) show ?thesis by (auto simp: streak_ok_def)
qed

lemma streak_not_done: "streak_ok chain limit start lo v \<Longrightarrow> \<not> scan_done limit v"
  by (simp add: streak_ok_def scan_done_def)

lemma scan_reaches:
  assumes lim: "1 \<le> limit" and gap: "no_gap chain limit start a" and a: "round_at chain a" "a \<le> hi"
  shows "lo \<le> a \<Longrightarrow> streak_ok chain limit start lo v \<Longrightarrow>
    \<exists>w. flat_scan limit chain [lo..hi] v = flat_scan limit chain [a + 1..hi] w \<and>
      maxExisting w = a \<and> (active_at chain a \<longrightarrow> activeRound w = a) \<and>
      ((\<forall>i \<in> {lo..a}. \<not> active_at chain i) \<longrightarrow> activeRound w = activeRound v)"
proof (induction "nat (a - lo)" arbitrary: lo v)
  case 0
  then have lo: "lo = a" by simp
  let ?w = "scan_step a (Some (chain a)) v"
  have "\<not> scan_done limit ?w"
    using streak_not_done [OF streak_step [OF lim gap "0.prems"(2,1)]] lo by simp
  moreover have "[lo..hi] = a # [a + 1..hi]" using a(2) lo by (simp add: upto_rec1)
  ultimately have "flat_scan limit chain [lo..hi] v = flat_scan limit chain [a + 1..hi] ?w"
    by (simp add: flat_scan_Cons [OF lim] Let_def)
  moreover have "maxExisting ?w = a" "active_at chain a \<longrightarrow> activeRound ?w = a"
    "\<not> active_at chain a \<longrightarrow> activeRound ?w = activeRound v"
    using a(1) by (auto simp: round_at_def active_at_def scan_step_def split: ScanEntry.splits)
  ultimately show ?case using lo by (intro exI [of _ ?w]) auto
next
  case (Suc k)
  let ?v1 = "scan_step lo (Some (chain lo)) v"
  from Suc.hyps(2) have lt: "lo < a" and k: "k = nat (a - (lo + 1))" by auto
  have ok: "streak_ok chain limit start (lo + 1) ?v1"
    by (rule streak_step [OF lim gap Suc.prems(2,1)])
  moreover have "[lo..hi] = lo # [lo + 1..hi]" using lt a(2) by (simp add: upto_rec1)
  ultimately have "flat_scan limit chain [lo..hi] v = flat_scan limit chain [lo + 1..hi] ?v1"
    using streak_not_done [OF ok] by (simp add: flat_scan_Cons [OF lim] Let_def)
  moreover have "\<not> active_at chain lo \<Longrightarrow> activeRound ?v1 = activeRound v"
    by (rule scan_step_keeps)
  moreover have "lo + 1 \<le> a" using lt by simp
  ultimately show ?case using Suc.hyps(1) [OF k _ ok] lt by fastforce
qed

lemma scan_result:
  fixes chain :: "int \<Rightarrow> ScanEntry" and start :: int
  assumes "1 \<le> limit" and "1 \<le> batch" and "0 \<le> maxScan"
  defines "v \<equiv> flat_scan limit chain (scan_range start maxScan batch)
      \<lparr>maxExisting = 0, activeRound = 0, nullStreak = 0\<rparr>"
  shows "fst (run_state (scanForActiveRound start archived maxScan batch limit (snapshot_fetch chain)) s) =
    Some (Inr (if 0 < activeRound v then activeRound v else max (maxExisting v) archived + 1))"
proof -
  have "(maxScan + 1) * 1 \<le> (maxScan + 1) * batch" using assms by (intro mult_left_mono) simp_all
  moreover have "int (nat maxScan + 1) = maxScan + 1" using assms(3) by simp
  ultimately have "start + maxScan < start + int (nat maxScan + 1) * batch"
    by (metis add_less_cancel_left less_le_trans mult.right_neutral zless_add1_eq)
  from scan_loop_flat [OF assms(1,2) this, of "\<lparr>maxExisting = 0, activeRound = 0, nullStreak = 0\<rparr>" chain s]
  show ?thesis
    by (simp add: scanForActiveRound_def split_beta Let_def v_def scan_done_def del: scan_loop.simps)
qed

text \<open>The round the whole pass ends on: no round, or no active round, follows it.\<close>

lemma flat_scan_last:
  fixes start :: int
  assumes "1 \<le> limit" and "no_gap chain limit start a" and "round_at chain a" and "a \<in> {start..hi}"
  defines "v \<equiv> flat_scan limit chain [start..hi] \<lparr>maxExisting = 0, activeRound = 0, nullStreak = 0\<rparr>"
  shows "(active_at chain a \<longrightarrow> (\<forall>i \<in> {start..hi}. a < i \<longrightarrow> \<not> active_at chain i) \<longrightarrow> activeRound v = a) \<and>
    ((\<forall>i \<in> {start..hi}. a < i \<longrightarrow> \<not> round_at chain i) \<longrightarrow> maxExisting v = a)"
proof -
  have "streak_ok chain limit start start \<lparr>maxExisting = 0, activeRound = 0, nullStreak = 0\<rparr>"
    using assms(1) by (simp add: streak_ok_def)
  with assms(4) scan_reaches [OF assms(1-3), of hi start] obtain w where
    w: "v = flat_scan limit chain [a + 1..hi] w" "maxExisting w = a" "active_at chain a \<longrightarrow> activeRound w = a"
    unfolding v_def by fastforce
  have "set [a + 1..hi] \<subseteq> {i \<in> {start..hi}. a < i}" using assms(4) by auto
  with w flat_scan_keeps [OF assms(1), of "[a + 1..hi]" chain w] show ?thesis by fastforce
qed

lemma active_round: "active_at chain i \<Longrightarrow> round_at chain i"
  by (auto simp: active_at_def round_at_def split: ScanEntry.splits)

section \<open>Properties\<close>

text \<open>
  C34. What the start-up scan finds, on a snapshot of the chain and in any batch size. If no
  \<open>limit\<close> consecutive ids are missing on the way, it returns the highest active round of the
  range; without an active round it returns the id after the highest existing or archived
  round, and on an empty range the id after the archive. It always ends.
\<close>

theorem scan_finds_round:
  fixes chain :: "int \<Rightarrow> ScanEntry" and archived :: int and s :: 's
  assumes "1 \<le> limit" and "1 \<le> batch" and "1 \<le> start" and "0 \<le> maxScan"
  defines "ids \<equiv> set (scan_range start maxScan batch)"
  defines "res \<equiv> fst (run_state
      (scanForActiveRound start archived maxScan batch limit (snapshot_fetch chain)) s)"
  shows "(\<forall>a \<in> ids. active_at chain a \<and> (\<forall>i \<in> ids. a < i \<longrightarrow> \<not> active_at chain i) \<and>
        no_gap chain limit start a \<longrightarrow> res = Some (Inr a)) \<and>
    (\<forall>t \<in> ids. (\<forall>i \<in> ids. \<not> active_at chain i) \<and> round_at chain t \<and>
        (\<forall>i \<in> ids. t < i \<longrightarrow> \<not> round_at chain i) \<and> no_gap chain limit start t \<longrightarrow>
        res = Some (Inr (max t archived + 1))) \<and>
    ((\<forall>i \<in> ids. \<not> round_at chain i) \<longrightarrow> res = Some (Inr (max 0 archived + 1)))"
proof -
  let ?v0 = "\<lparr>maxExisting = 0, activeRound = 0, nullStreak = 0\<rparr>"
  define hi where "hi = start + (maxScan div batch + 1) * batch - 1"
  have ids: "scan_range start maxScan batch = [start..hi]" "ids = {start..hi}"
    using assms(4) by (simp_all add: scan_range_def hi_def ids_def)
  define v where "v = flat_scan limit chain [start..hi] ?v0"
  have res: "res = Some (Inr (if 0 < activeRound v then activeRound v else max (maxExisting v) archived + 1))"
    unfolding res_def v_def ids(1) [symmetric] by (rule scan_result [OF assms(1,2,4)])
  have active: "activeRound v = a" if "a \<in> ids" "active_at chain a"
    "\<forall>i \<in> ids. a < i \<longrightarrow> \<not> active_at chain i" "no_gap chain limit start a" for a
    using flat_scan_last [OF assms(1) that(4) active_round, of hi] that ids(2) by (simp add: v_def)
  have highest: "maxExisting v = t" if "t \<in> ids" "round_at chain t"
    "\<forall>i \<in> ids. t < i \<longrightarrow> \<not> round_at chain i" "no_gap chain limit start t" for t
    using flat_scan_last [OF assms(1) that(4,2), of hi] that ids(2) by (simp add: v_def)
  have none: "activeRound v = 0" if "\<forall>i \<in> ids. \<not> active_at chain i"
    using flat_scan_keeps(1) [OF assms(1), of "[start..hi]" chain ?v0] that ids(2) by (simp add: v_def)
  have empty: "activeRound v = 0 \<and> maxExisting v = 0" if "\<forall>i \<in> ids. \<not> round_at chain i"
    using flat_scan_keeps(2) [OF assms(1), of "[start..hi]" chain ?v0] none that ids(2) active_round
    by (auto simp: v_def)
  show ?thesis
  proof (intro conjI ballI impI)
    fix a assume a: "a \<in> ids" "active_at chain a \<and> (\<forall>i \<in> ids. a < i \<longrightarrow> \<not> active_at chain i) \<and>
        no_gap chain limit start a"
    with active assms(3) ids(2) show "res = Some (Inr a)" by (simp add: res)
  next
    fix t assume "t \<in> ids" "(\<forall>i \<in> ids. \<not> active_at chain i) \<and> round_at chain t \<and>
        (\<forall>i \<in> ids. t < i \<longrightarrow> \<not> round_at chain i) \<and> no_gap chain limit start t"
    with highest none show "res = Some (Inr (max t archived + 1))" by (simp add: res)
  next
    assume "\<forall>i \<in> ids. \<not> round_at chain i"
    with empty show "res = Some (Inr (max 0 archived + 1))" by (simp add: res)
  qed
qed

theorem scan_finds_round_witness:
  "fst (run_state (scanForActiveRound 1 0 200 20 20
     (snapshot_fetch (\<lambda>i. if i = 3 then Round_at 3 else if i = 4 then Round_at 0 else Missing))) ()) = Some (Inr 4)"
proof -
  let ?c = "\<lambda>i :: int. if i = 3 then Round_at 3 else if i = 4 then Round_at 0 else Missing"
  have "4 \<in> set (scan_range 1 200 20)" by (simp add: scan_range_def)
  moreover have "active_at ?c 4 \<and> (\<forall>i \<in> set (scan_range 1 200 20). 4 < i \<longrightarrow> \<not> active_at ?c i) \<and>
      no_gap ?c 20 1 4"
    by (auto simp: active_at_def isActiveRoundStatus_def RoundStatus_defs no_gap_def)
  ultimately show ?thesis
    by (intro conjunct1 [OF scan_finds_round [of 20 20 1 200 ?c 0 "()"], THEN bspec, THEN mp]) simp_all
qed

end
