(* ===== verification/Crank.thy ===== *)
theory Crank
  imports Firebase Runtime_Logic Round_Scan
begin

text \<open>
  The crank service, \<open>crank/src/index.ts\<close>: its module variables as the record \<open>crank\<close>
  and every helper, handler and the poll step \<open>tick\<close> as a computation on it.

  A \<open>Set\<close> is the list of its elements in insertion order. Log output is not modelled. What is
  not in the source is the field \<open>events\<close>: the crank's interaction with the chain so far,
  newest first. The properties speak about it: which observation justifies a transaction.
\<close>

section \<open>State\<close>

record cleanup_stats =
  cs_existing :: int
  cs_closable :: int
  cs_closed :: int
  cs_blockedByRefund :: int
  cs_errors :: int

record observed =
  ob_status :: int
  ob_sinceTs :: int
  ob_lastSeenTs :: int

datatype 'pk tx = StartRound int | LockAndVrf int | RequestVrf int | CloseParticipant int 'pk | CloseRound int

datatype 'pk event =
    Observed int "(int \<times> int \<times> int) option"
  | SawParticipant int int 'pk int int
  | Cleaned int cleanup_stats
  | Archived int bool
  | Sent "'pk tx" bool

record ('w, 'pk) crank =
  currentRoundId :: int
  lastLockedRound :: int
  lastCreatedRound :: int
  backgroundRounds :: "int list"
  archivedRounds :: "int list"
  cleanupNextAttemptAt :: "int \<Rightarrow> int option"
  cleanupBackoffSec :: "int \<Rightarrow> int option"
  cleanupRetryCount :: "int \<Rightarrow> int option"
  cleanupLastReason :: "int \<Rightarrow> string option"
  cleanupLastStats :: "int \<Rightarrow> (cleanup_stats \<times> int) option"
  roundObservedState :: "int \<Rightarrow> observed option"
  stuckWarnedAt :: "string \<Rightarrow> int option"
  lastHealthLogAt :: int
  lastVrfSentAt :: int
  events :: "'pk event list"
  world :: 'w

text \<open>The environment variables and the constants of the module.\<close>

record ('w, 'pk) crank_env =
  cr_sv :: "('w, 'pk) services"
  cr_chain :: "'pk chain_env"
  cr_payer :: 'pk
  cr_dbUrl :: "string option"
  isTapestryEnabled :: bool
  LOCK_BUFFER_SEC :: int
  CLOSE_DELAY_SEC :: int
  CLEANUP_BACKOFF_MIN_SEC :: int
  CLEANUP_BACKOFF_MAX_SEC :: int
  PARTICIPANT_CLEANUP_BATCH :: nat
  HEALTH_LOG_INTERVAL_SEC :: int
  STARTUP_BACKFILL_SCAN_ROUNDS :: int
  stuckThresholds :: StuckThresholds
  STUCK_WARN_REPEAT_SEC :: int
  VRF_COOLDOWN_SEC :: int
  CRANK_COMPUTE_UNIT_LIMIT :: int
  CRANK_PRIORITY_FEE_MICROLAMPORTS :: int

abbreviation get_state :: "('s, 's) state" where "get_state \<equiv> State_Monad.get"
abbreviation modify :: "('s \<Rightarrow> 's) \<Rightarrow> ('s, unit) state" where "modify \<equiv> State_Monad.update"

text \<open>A call to a service, and the record of an event.\<close>

definition serve :: "('w, 'a) state \<Rightarrow> (('w, 'pk) crank, 'a) state" where
  "serve m = State (\<lambda>s. case run_state m (world s) of (x, w) \<Rightarrow> (x, s\<lparr>world := w\<rparr>))"

definition emit :: "'pk event \<Rightarrow> (('w, 'pk) crank, unit) state" where
  "emit ev = modify (\<lambda>s. s\<lparr>events := ev # events s\<rparr>)"

definition set_add :: "'a \<Rightarrow> 'a list \<Rightarrow> 'a list" where
  "set_add x xs = (if x \<in> set xs then xs else xs @ [x])"

section \<open>Helpers\<close>

definition now :: "('w, 'pk) crank_env \<Rightarrow> (('w, 'pk) crank, int) state" where
  "now c = do { ms \<leftarrow> serve (dateNow (cr_sv c)); State_Monad.return (ms div 1000) }"

definition round_view :: "'pk RoundData \<Rightarrow> int \<times> int \<times> int" where
  "round_view rd = (rd_status rd, rd_participantsCount rd, rd_totalTickets rd)"

definition fetchRound :: "('w, 'pk) crank_env \<Rightarrow> int \<Rightarrow> (('w, 'pk) crank, 'pk RoundData option result) state" where
  "fetchRound c roundId =
     bindE (serve (getAccountInfo (cr_sv c) (round_pda (cr_chain c) roundId))) (\<lambda>info.
     case info of
       None \<Rightarrow> doE (emit (Observed roundId None)) (\<lambda>_. returnE None)
     | Some data \<Rightarrow> (case parseRound (ce_sdk (cr_chain c)) data of
         None \<Rightarrow> throwE ''RangeError''
       | Some rd \<Rightarrow> doE (emit (Observed roundId (Some (round_view rd)))) (\<lambda>_. returnE (Some rd))))"

definition warn_key :: "int \<Rightarrow> int \<Rightarrow> string" where
  "warn_key roundId status = js_string roundId @ '':'' @ js_string status"

definition observeRoundState :: "('w, 'pk) crank_env \<Rightarrow> int \<Rightarrow> int \<Rightarrow> (('w, 'pk) crank, unit) state" where
  "observeRoundState c roundId status =
     do { t \<leftarrow> now c;
          modify (\<lambda>s. case roundObservedState s roundId of
            None \<Rightarrow> s\<lparr>roundObservedState := (roundObservedState s)(roundId \<mapsto>
                \<lparr>ob_status = status, ob_sinceTs = t, ob_lastSeenTs = t\<rparr>)\<rparr>
          | Some prev \<Rightarrow>
              if ob_status prev \<noteq> status then
                s\<lparr>roundObservedState := (roundObservedState s)(roundId \<mapsto>
                    \<lparr>ob_status = status, ob_sinceTs = t, ob_lastSeenTs = t\<rparr>),
                  stuckWarnedAt := (stuckWarnedAt s)(warn_key roundId (ob_status prev) := None)\<rparr>
              else s\<lparr>roundObservedState := (roundObservedState s)(roundId \<mapsto> prev\<lparr>ob_lastSeenTs := t\<rparr>)\<rparr>) }"

definition forgetRoundState :: "int \<Rightarrow> ('w, 'pk) crank \<Rightarrow> ('w, 'pk) crank" where
  "forgetRoundState roundId s =
     (let s1 = (case roundObservedState s roundId of
            None \<Rightarrow> s
          | Some prev \<Rightarrow> s\<lparr>stuckWarnedAt := (stuckWarnedAt s)(warn_key roundId (ob_status prev) := None)\<rparr>)
      in s1\<lparr>roundObservedState := (roundObservedState s1)(roundId := None),
            cleanupLastStats := (cleanupLastStats s1)(roundId := None),
            cleanupRetryCount := (cleanupRetryCount s1)(roundId := None),
            cleanupLastReason := (cleanupLastReason s1)(roundId := None)\<rparr>)"

definition stuckThresholdSec :: "('w, 'pk) crank_env \<Rightarrow> int \<Rightarrow> int option" where
  "stuckThresholdSec c status = getStuckThresholdSec status (stuckThresholds c)"

definition maybeWarnStuckRound :: "('w, 'pk) crank_env \<Rightarrow> int \<Rightarrow> int \<Rightarrow> (('w, 'pk) crank, unit) state" where
  "maybeWarnStuckRound c roundId status =
     (case stuckThresholdSec c status of
        None \<Rightarrow> State_Monad.return ()
      | Some threshold \<Rightarrow>
          if threshold \<le> 0 then State_Monad.return ()
          else do { s \<leftarrow> get_state;
            case roundObservedState s roundId of
              None \<Rightarrow> State_Monad.return ()
            | Some obs \<Rightarrow>
                if ob_status obs \<noteq> status then State_Monad.return ()
                else do { nowSec \<leftarrow> now c;
                  if shouldEmitStuckWarning nowSec (ob_status obs) status (ob_sinceTs obs) (Some threshold)
                       (stuckWarnedAt s (warn_key roundId status)) (STUCK_WARN_REPEAT_SEC c)
                  then modify (\<lambda>s. s\<lparr>stuckWarnedAt := (stuckWarnedAt s)(warn_key roundId status \<mapsto> nowSec)\<rparr>)
                  else State_Monad.return () } })"

definition allowCleanupNow :: "('w, 'pk) crank_env \<Rightarrow> int \<Rightarrow> (('w, 'pk) crank, bool) state" where
  "allowCleanupNow c roundId =
     do { s \<leftarrow> get_state;
          case cleanupNextAttemptAt s roundId of
            None \<Rightarrow> State_Monad.return True
          | Some due \<Rightarrow> do { t \<leftarrow> now c; State_Monad.return (due \<le> t) } }"

text \<open>The health snapshot counts and logs; what it changes is the time of the last one.\<close>

definition maybeLogHealthSnapshot :: "('w, 'pk) crank_env \<Rightarrow> (('w, 'pk) crank, unit) state" where
  "maybeLogHealthSnapshot c =
     (if HEALTH_LOG_INTERVAL_SEC c \<le> 0 then State_Monad.return ()
      else do { t \<leftarrow> now c;
                s \<leftarrow> get_state;
                if t - lastHealthLogAt s < HEALTH_LOG_INTERVAL_SEC c then State_Monad.return ()
                else do { modify (\<lambda>s. s\<lparr>lastHealthLogAt := t\<rparr>);
                          for_each (backgroundRounds s) (\<lambda>roundId.
                            do { due \<leftarrow> allowCleanupNow c roundId; State_Monad.return () }) } })"

definition trackBackgroundRound :: "('w, 'pk) crank_env \<Rightarrow> int \<Rightarrow> (('w, 'pk) crank, unit) state" where
  "trackBackgroundRound c roundId =
     do { modify (\<lambda>s. s\<lparr>backgroundRounds := set_add roundId (backgroundRounds s)\<rparr>);
          s \<leftarrow> get_state;
          (if cleanupNextAttemptAt s roundId = None
           then do { t \<leftarrow> now c;
                     modify (\<lambda>s. s\<lparr>cleanupNextAttemptAt :=
                       (cleanupNextAttemptAt s)(roundId \<mapsto> t + CLOSE_DELAY_SEC c)\<rparr>) }
           else State_Monad.return ());
          modify (\<lambda>s. if cleanupBackoffSec s roundId = None
             then s\<lparr>cleanupBackoffSec := (cleanupBackoffSec s)(roundId \<mapsto> CLEANUP_BACKOFF_MIN_SEC c)\<rparr> else s);
          modify (\<lambda>s. if cleanupRetryCount s roundId = None
             then s\<lparr>cleanupRetryCount := (cleanupRetryCount s)(roundId \<mapsto> 0)\<rparr> else s) }"

definition clearBackgroundRound :: "int \<Rightarrow> (('w, 'pk) crank, unit) state" where
  "clearBackgroundRound roundId =
     modify (\<lambda>s. forgetRoundState roundId
       (s\<lparr>backgroundRounds := removeAll roundId (backgroundRounds s),
          archivedRounds := removeAll roundId (archivedRounds s),
          cleanupNextAttemptAt := (cleanupNextAttemptAt s)(roundId := None),
          cleanupBackoffSec := (cleanupBackoffSec s)(roundId := None)\<rparr>))"

definition scheduleCleanupRetryOutcome :: "('w, 'pk) crank_env \<Rightarrow> int \<Rightarrow> CleanupRetryOutcome \<Rightarrow>
    (('w, 'pk) crank, bool) state" where
  "scheduleCleanupRetryOutcome c roundId outcome =
     do { t \<leftarrow> now c;
          s \<leftarrow> get_state;
          case planCleanupRetryScheduleForOutcome t outcome (CLEANUP_BACKOFF_MIN_SEC c)
              (CLEANUP_BACKOFF_MAX_SEC c)
              (Some (case cleanupBackoffSec s roundId of None \<Rightarrow> CLEANUP_BACKOFF_MIN_SEC c | Some d \<Rightarrow> d))
              (Some (case cleanupRetryCount s roundId of None \<Rightarrow> 0 | Some n \<Rightarrow> n)) of
            None \<Rightarrow> State_Monad.return False
          | Some update \<Rightarrow> do {
              modify (\<lambda>s. s\<lparr>cleanupBackoffSec := (cleanupBackoffSec s)(roundId \<mapsto> nextDelaySec update),
                cleanupNextAttemptAt := (cleanupNextAttemptAt s)(roundId \<mapsto> nextAttemptAtSec update),
                cleanupRetryCount := (cleanupRetryCount s)(roundId \<mapsto> nextRetryCount update),
                cleanupLastReason := (cleanupLastReason s)(roundId \<mapsto> lastReason update)\<rparr>);
              State_Monad.return True } }"

section \<open>Start-up\<close>

definition scan_entry :: "('w, 'pk) crank_env \<Rightarrow> buffer option \<Rightarrow> ScanEntry" where
  "scan_entry c info =
     (case info of
        None \<Rightarrow> Missing
      | Some data \<Rightarrow> (case parseRound (ce_sdk (cr_chain c)) data of
          None \<Rightarrow> Invalid
        | Some parsed \<Rightarrow> Round_at (rd_status parsed)))"

definition fetchBatch :: "('w, 'pk) crank_env \<Rightarrow> int list \<Rightarrow> (('w, 'pk) crank, ScanEntry option list result) state" where
  "fetchBatch c ids =
     bindE (serve (getMultipleAccountsInfo (cr_sv c) (map (round_pda (cr_chain c)) ids))) (\<lambda>infos.
     returnE (map (\<lambda>info. Some (scan_entry c info)) infos))"

text \<open>The scan of \<open>findActiveRound\<close> has batches of 20, so it ends (\<open>scan_terminates\<close>).\<close>

definition findActiveRound :: "('w, 'pk) crank_env \<Rightarrow> (('w, 'pk) crank, int result) state" where
  "findActiveRound c =
     doE (serve (getMaxArchivedRoundId (cr_sv c) (cr_dbUrl c))) (\<lambda>r.
     let archivedMax = (case r of Inl _ \<Rightarrow> 0 | Inr n \<Rightarrow> n);
         scanStart = (if 0 < archivedMax then max 1 (archivedMax - 2) else 1)
     in doE (scanForActiveRound scanStart archivedMax 200 20 20 (fetchBatch c)) (\<lambda>res.
        case res of None \<Rightarrow> throwE ''scan did not end'' | Some r \<Rightarrow> liftE r))"

definition recoverRound :: "('w, 'pk) crank_env \<Rightarrow> int \<times> buffer option \<Rightarrow> (('w, 'pk) crank, unit result) state" where
  "recoverRound c entry =
     (case entry of (rid, info) \<Rightarrow>
        case info of
          None \<Rightarrow> returnE ()
        | Some data \<Rightarrow> (case parseRound (ce_sdk (cr_chain c)) data of
            None \<Rightarrow> returnE ()
          | Some rd \<Rightarrow>
              doE (observeRoundState c rid (rd_status rd)) (\<lambda>_.
              if rd_status rd = Settled \<or> rd_status rd = Claimed \<or> rd_status rd = Cancelled
              then doE (trackBackgroundRound c rid) (\<lambda>_. returnE ())
              else returnE ())))"

definition recoverBackgroundRoundsOnStartup :: "('w, 'pk) crank_env \<Rightarrow> int \<Rightarrow> (('w, 'pk) crank, unit result) state" where
  "recoverBackgroundRoundsOnStartup c current =
     (if current \<le> 1 then returnE ()
      else for_eachE (chunks 25 [max 1 (current - STARTUP_BACKFILL_SCAN_ROUNDS c)..current]) (\<lambda>ids.
        bindE (serve (getMultipleAccountsInfo (cr_sv c) (map (round_pda (cr_chain c)) ids))) (\<lambda>infos.
        for_eachE (zip ids infos) (recoverRound c))))"

section \<open>Round handlers\<close>

definition send :: "('w, 'pk) crank_env \<Rightarrow> 'pk tx \<Rightarrow> 'pk instruction list \<Rightarrow> bool \<Rightarrow>
    (('w, 'pk) crank, string result) state" where
  "send c tx ixs skipPreflight =
     doE (serve (signAndSend (cr_sv c) (CRANK_COMPUTE_UNIT_LIMIT c) (CRANK_PRIORITY_FEE_MICROLAMPORTS c)
            ixs (cr_payer c) skipPreflight)) (\<lambda>r.
     doE (emit (Sent tx (case r of Inl _ \<Rightarrow> False | Inr _ \<Rightarrow> True))) (\<lambda>_. liftE r))"

text \<open>The \<open>try\<close> block of \<open>handleStartRound\<close>.\<close>

definition createRound :: "('w, 'pk) crank_env \<Rightarrow> int \<Rightarrow> (('w, 'pk) crank, bool result) state" where
  "createRound c roundId =
     tryE
       (bindE (liftE (buildStartRound (cr_chain c) (cr_payer c) roundId)) (\<lambda>ix.
        bindE (send c (StartRound roundId) [ix] False) (\<lambda>sig.
        doE (modify (\<lambda>s. s\<lparr>lastCreatedRound := roundId\<rparr>)) (\<lambda>_. returnE True))))
       (\<lambda>e. bindE (fetchRound c roundId) (\<lambda>check.
          case check of
            Some _ \<Rightarrow> doE (modify (\<lambda>s. s\<lparr>lastCreatedRound := roundId\<rparr>)) (\<lambda>_. returnE False)
          | None \<Rightarrow> returnE False))"

definition handleStartRound :: "('w, 'pk) crank_env \<Rightarrow> int \<Rightarrow> (('w, 'pk) crank, bool result) state" where
  "handleStartRound c roundId =
     doE get_state (\<lambda>s.
     if roundId \<le> lastCreatedRound s then returnE False
     else bindE (serve (getAccountInfo (cr_sv c) (round_pda (cr_chain c) roundId))) (\<lambda>info.
       case info of
         Some _ \<Rightarrow> doE (modify (\<lambda>s. s\<lparr>lastCreatedRound := roundId\<rparr>)) (\<lambda>_. returnE False)
       | None \<Rightarrow> doE (emit (Observed roundId None)) (\<lambda>_. createRound c roundId)))"

text \<open>The block both skipping branches of \<open>handleLockAndVrf\<close> run.\<close>

definition skipRound :: "('w, 'pk) crank_env \<Rightarrow> int \<Rightarrow> (('w, 'pk) crank, unit) state" where
  "skipRound c roundId =
     do { modify (\<lambda>s. s\<lparr>lastLockedRound := roundId\<rparr>);
          trackBackgroundRound c roundId;
          modify (\<lambda>s. s\<lparr>currentRoundId := currentRoundId s + 1, lastLockedRound := 0\<rparr>) }"

text \<open>The \<open>try\<close> block of \<open>handleLockAndVrf\<close>: lock and request the randomness in one transaction.\<close>

definition lockAndRequest :: "('w, 'pk) crank_env \<Rightarrow> int \<Rightarrow> (('w, 'pk) crank, bool result) state" where
  "lockAndRequest c roundId =
     tryE
       (bindE (liftE (buildLockRound (cr_chain c) (cr_payer c) roundId)) (\<lambda>lockIx.
        bindE (liftE (buildRequestVrf (cr_chain c) (cr_payer c) roundId)) (\<lambda>vrfIx.
        bindE (send c (LockAndVrf roundId) [lockIx, vrfIx] False) (\<lambda>sig.
        doE (modify (\<lambda>s. s\<lparr>lastLockedRound := roundId\<rparr>)) (\<lambda>_.
        doE (now c) (\<lambda>t. doE (modify (\<lambda>s. s\<lparr>lastVrfSentAt := t\<rparr>)) (\<lambda>_. returnE True)))))))
       (\<lambda>errMsg.
        if isMinRequirementsErrorMessage errMsg then doE (skipRound c roundId) (\<lambda>_. returnE True)
        else
          tryE (bindE (fetchRound c roundId) (\<lambda>retry.
            case retry of
              None \<Rightarrow> returnE False
            | Some r \<Rightarrow>
                if rd_status r \<noteq> Open
                then doE (modify (\<lambda>s. s\<lparr>lastLockedRound := roundId\<rparr>)) (\<lambda>_. returnE False)
                else returnE False))
          (\<lambda>_. returnE False))"

definition handleLockAndVrf :: "('w, 'pk) crank_env \<Rightarrow> int \<Rightarrow> 'pk RoundData \<Rightarrow> (('w, 'pk) crank, bool result) state" where
  "handleLockAndVrf c roundId rd =
     doE get_state (\<lambda>s.
     if lastLockedRound s = roundId then returnE False
     else if rd_endTs rd = 0 then returnE False
     else doE (now c) (\<lambda>t.
     if t < rd_endTs rd + LOCK_BUFFER_SEC c then returnE False
     else bindE (fetchRound c roundId) (\<lambda>res.
       case res of
         None \<Rightarrow> returnE False
       | Some fresh \<Rightarrow>
           if rd_status fresh \<noteq> Open then returnE False
           else if rd_participantsCount fresh < 1 \<or> rd_totalTickets fresh = 0 then
             doE (skipRound c roundId) (\<lambda>_. returnE True)
           else lockAndRequest c roundId)))"

text \<open>The \<open>try\<close> block of \<open>handleRequestVrf\<close>.\<close>

definition requestVrf :: "('w, 'pk) crank_env \<Rightarrow> int \<Rightarrow> (('w, 'pk) crank, bool result) state" where
  "requestVrf c roundId =
     tryE
       (bindE (liftE (buildRequestVrf (cr_chain c) (cr_payer c) roundId)) (\<lambda>ix.
        bindE (send c (RequestVrf roundId) [ix] False) (\<lambda>sig.
        doE (now c) (\<lambda>t. doE (modify (\<lambda>s. s\<lparr>lastVrfSentAt := t\<rparr>)) (\<lambda>_. returnE True)))))
       (\<lambda>_. returnE False)"

definition handleRequestVrf :: "('w, 'pk) crank_env \<Rightarrow> int \<Rightarrow> (('w, 'pk) crank, bool result) state" where
  "handleRequestVrf c roundId =
     bindE (fetchRound c roundId) (\<lambda>res.
     case res of
       None \<Rightarrow> returnE False
     | Some fresh \<Rightarrow>
         if rd_status fresh \<noteq> Locked then returnE False
         else doE (now c) (\<lambda>t. doE get_state (\<lambda>s.
           if t - lastVrfSentAt s < VRF_COOLDOWN_SEC c then returnE False
           else requestVrf c roundId)))"

section \<open>Cleanup of finished rounds\<close>

definition no_stats :: cleanup_stats where
  "no_stats = \<lparr>cs_existing = 0, cs_closable = 0, cs_closed = 0, cs_blockedByRefund = 0, cs_errors = 0\<rparr>"

text \<open>One entry of a chunk: the body of the inner loop over \<open>infos\<close>.\<close>

definition inspectParticipant :: "('w, 'pk) crank_env \<Rightarrow> int \<Rightarrow> 'pk RoundData \<Rightarrow> 'pk \<times> buffer option \<Rightarrow>
    cleanup_stats \<times> 'pk list \<Rightarrow> (('w, 'pk) crank, (cleanup_stats \<times> 'pk list) result) state" where
  "inspectParticipant c roundId rd entry acc =
     (case (entry, acc) of ((user, info), (stats, closableUsers)) \<Rightarrow>
        case info of
          None \<Rightarrow> returnE (stats, closableUsers)
        | Some data \<Rightarrow>
            let stats = stats\<lparr>cs_existing := cs_existing stats + 1\<rparr> in
            case parseParticipant (ce_sdk (cr_chain c)) data of
              None \<Rightarrow> returnE (stats\<lparr>cs_errors := cs_errors stats + 1\<rparr>, closableUsers)
            | Some p \<Rightarrow>
                if rd_status rd = Cancelled \<and> (0 < pd_usdcTotal p \<or> 0 < pd_ticketsTotal p)
                then returnE (stats\<lparr>cs_blockedByRefund := cs_blockedByRefund stats + 1\<rparr>, closableUsers)
                else doE (emit (SawParticipant roundId (rd_status rd) user (pd_usdcTotal p) (pd_ticketsTotal p))) (\<lambda>_.
                  returnE (stats\<lparr>cs_closable := cs_closable stats + 1\<rparr>, closableUsers @ [user])))"

definition closeOne :: "('w, 'pk) crank_env \<Rightarrow> int \<Rightarrow> 'pk \<Rightarrow> cleanup_stats \<Rightarrow>
    (('w, 'pk) crank, cleanup_stats result) state" where
  "closeOne c roundId user stats =
     tryE
       (bindE (liftE (buildCloseParticipant (cr_chain c) (cr_payer c) user roundId)) (\<lambda>ix.
        bindE (send c (CloseParticipant roundId user) [ix] True) (\<lambda>sig.
        returnE (stats\<lparr>cs_closed := cs_closed stats + 1\<rparr>))))
       (\<lambda>_. returnE (stats\<lparr>cs_errors := cs_errors stats + 1\<rparr>))"

definition cleanupParticipantPdas :: "('w, 'pk) crank_env \<Rightarrow> int \<Rightarrow> 'pk RoundData \<Rightarrow>
    (('w, 'pk) crank, cleanup_stats result) state" where
  "cleanupParticipantPdas c roundId rd =
     (let roundPda = round_pda (cr_chain c) roundId; users = rd_participants rd in
      if users = [] then doE (emit (Cleaned roundId no_stats)) (\<lambda>_. returnE no_stats)
      else
        bindE (foldE (\<lambda>chunk acc.
            bindE (serve (getMultipleAccountsInfo (cr_sv c)
                     (map (participant_pda (cr_chain c) roundPda) chunk))) (\<lambda>infos.
            foldE (inspectParticipant c roundId rd) (zip chunk infos) acc))
          (chunks 50 users) (no_stats, [])) (\<lambda>(stats, closableUsers).
        bindE (foldE (closeOne c roundId) (take (PARTICIPANT_CLEANUP_BATCH c) closableUsers) stats) (\<lambda>stats.
        doE (now c) (\<lambda>t.
        doE (modify (\<lambda>s. s\<lparr>cleanupLastStats := (cleanupLastStats s)(roundId \<mapsto> (stats, t))\<rparr>)) (\<lambda>_.
        doE (emit (Cleaned roundId stats)) (\<lambda>_. returnE stats))))))"

definition archiveRound :: "('w, 'pk) crank_env \<Rightarrow> int \<Rightarrow> 'pk RoundData \<Rightarrow> (('w, 'pk) crank, unit result) state" where
  "archiveRound c roundId rd =
     doE get_state (\<lambda>s.
     if roundId \<in> set (archivedRounds s) then returnE ()
     else tryE
       (bindE (serve (buildHistoryRound (cr_sv c) (cr_chain c) rd roundId)) (\<lambda>histRound.
        bindE (serve (saveRoundToFirebase (cr_sv c) (cr_dbUrl c) histRound)) (\<lambda>archived.
        doE (emit (Archived roundId archived)) (\<lambda>_.
        if archived then doE (modify (\<lambda>s. s\<lparr>archivedRounds := set_add roundId (archivedRounds s)\<rparr>)) (\<lambda>_. returnE ())
        else returnE ()))))
       (\<lambda>_. returnE ()))"

text \<open>The \<open>try\<close> block at the end of \<open>handleTerminalRoundCleanup\<close>.\<close>

definition closeRoundAccount :: "('w, 'pk) crank_env \<Rightarrow> int \<Rightarrow> (('w, 'pk) crank, bool result) state" where
  "closeRoundAccount c roundId =
     tryE
       (bindE (liftE (buildCloseRound (cr_chain c) (cr_payer c) (cr_payer c) roundId)) (\<lambda>ix.
        bindE (send c (CloseRound roundId) [ix] True) (\<lambda>sig.
        doE (clearBackgroundRound roundId) (\<lambda>_. returnE True))))
       (\<lambda>msg. doE (scheduleCleanupRetryOutcome c roundId (close_round_failed msg)) (\<lambda>_. returnE False))"

text \<open>The part after the participants are gone: read the round once more and close it.\<close>

definition closeTerminalRound :: "('w, 'pk) crank_env \<Rightarrow> int \<Rightarrow> (('w, 'pk) crank, bool result) state" where
  "closeTerminalRound c roundId =
     bindE (fetchRound c roundId) (\<lambda>res.
     case res of
       None \<Rightarrow> doE (clearBackgroundRound roundId) (\<lambda>_. returnE True)
     | Some fresh \<Rightarrow>
         if rd_status fresh \<noteq> Claimed \<and> rd_status fresh \<noteq> Cancelled then
           doE (scheduleCleanupRetryOutcome c roundId (left_terminal_state (rd_status fresh))) (\<lambda>_. returnE False)
         else closeRoundAccount c roundId)"

definition pending_outcome :: "cleanup_stats \<Rightarrow> CleanupRetryOutcome" where
  "pending_outcome stats = participants_pending
     \<lparr>rs_existing = cs_existing stats, rs_closed = cs_closed stats, rs_blockedByRefund = cs_blockedByRefund stats\<rparr>"

definition handleTerminalRoundCleanup :: "('w, 'pk) crank_env \<Rightarrow> int \<Rightarrow> 'pk RoundData \<Rightarrow>
    (('w, 'pk) crank, bool result) state" where
  "handleTerminalRoundCleanup c roundId rd =
     doE (allowCleanupNow c roundId) (\<lambda>allowed.
     if \<not> allowed then returnE False
     else bindE (archiveRound c roundId rd) (\<lambda>_.
     bindE (cleanupParticipantPdas c roundId rd) (\<lambda>stats.
     doE (scheduleCleanupRetryOutcome c roundId (pending_outcome stats)) (\<lambda>pending.
     if pending then returnE False else closeTerminalRound c roundId))))"

definition processBackgroundRound :: "('w, 'pk) crank_env \<Rightarrow> int \<Rightarrow> (('w, 'pk) crank, unit result) state" where
  "processBackgroundRound c roundId =
     tryE
       (bindE (fetchRound c roundId) (\<lambda>res.
        case res of
          None \<Rightarrow> doE (clearBackgroundRound roundId) (\<lambda>_. returnE ())
        | Some rd \<Rightarrow>
            doE (observeRoundState c roundId (rd_status rd)) (\<lambda>_.
            doE (maybeWarnStuckRound c roundId (rd_status rd)) (\<lambda>_.
            if rd_status rd = Claimed \<or> rd_status rd = Cancelled
            then bindE (handleTerminalRoundCleanup c roundId rd) (\<lambda>_. returnE ())
            else returnE ()))))
       (\<lambda>msg. doE (scheduleCleanupRetryOutcome c roundId (background_error msg)) (\<lambda>_. returnE ()))"

definition processBackgroundRounds :: "('w, 'pk) crank_env \<Rightarrow> (('w, 'pk) crank, unit result) state" where
  "processBackgroundRounds c =
     doE get_state (\<lambda>s. for_eachE (backgroundRounds s) (processBackgroundRound c))"

section \<open>The poll step\<close>

definition advance :: "('w, 'pk) crank_env \<Rightarrow> (('w, 'pk) crank, unit) state" where
  "advance c =
     do { s \<leftarrow> get_state;
          trackBackgroundRound c (currentRoundId s);
          modify (\<lambda>s. s\<lparr>currentRoundId := currentRoundId s + 1, lastLockedRound := 0, lastVrfSentAt := 0\<rparr>) }"

text \<open>The second half of the \<open>try\<close> block of \<open>tick\<close>, for the current round.\<close>

definition pollCurrent :: "('w, 'pk) crank_env \<Rightarrow> int \<Rightarrow> (('w, 'pk) crank, unit result) state" where
  "pollCurrent c cur =
     bindE (fetchRound c cur) (\<lambda>res.
     case res of
       None \<Rightarrow>
         doE (maybeLogHealthSnapshot c) (\<lambda>_.
         bindE (handleStartRound c cur) (\<lambda>_. returnE ()))
     | Some rd \<Rightarrow>
         doE (observeRoundState c cur (rd_status rd)) (\<lambda>_.
         doE (maybeWarnStuckRound c cur (rd_status rd)) (\<lambda>_.
         if rd_status rd = Open then
           doE (maybeLogHealthSnapshot c) (\<lambda>_.
           bindE (handleLockAndVrf c cur rd) (\<lambda>_. returnE ()))
         else if rd_status rd = Locked then
           doE (maybeLogHealthSnapshot c) (\<lambda>_.
           bindE (handleRequestVrf c cur) (\<lambda>_. returnE ()))
         else if rd_status rd = VrfRequested then
           doE (maybeLogHealthSnapshot c) (\<lambda>_. returnE ())
         else if rd_status rd = Settled then
           doE (if isTapestryEnabled c then
                  serve (publishRoundSettled (cr_sv c) cur (toBase58 (ce_sdk (cr_chain c)) (rd_winner rd))
                    (Quot (rd_totalUsdc rd) (10 ^ 6)) (map (toBase58 (ce_sdk (cr_chain c))) (rd_participants rd)))
                else State_Monad.return ()) (\<lambda>_.
           doE (advance c) (\<lambda>_.
           doE (maybeLogHealthSnapshot c) (\<lambda>_. returnE ())))
         else if rd_status rd = Claimed \<or> rd_status rd = Cancelled then
           doE (advance c) (\<lambda>_.
           doE (maybeLogHealthSnapshot c) (\<lambda>_. returnE ()))
         else doE (maybeLogHealthSnapshot c) (\<lambda>_. returnE ()))))"

definition tickBody :: "('w, 'pk) crank_env \<Rightarrow> (('w, 'pk) crank, unit result) state" where
  "tickBody c =
     doE get_state (\<lambda>s.
     bindE (if backgroundRounds s \<noteq> [] then processBackgroundRounds c else returnE ()) (\<lambda>_.
     doE get_state (\<lambda>s. pollCurrent c (currentRoundId s))))"

definition tick :: "('w, 'pk) crank_env \<Rightarrow> (('w, 'pk) crank, unit result) state" where
  "tick c = tryE (tickBody c) (\<lambda>_. doE (maybeLogHealthSnapshot c) (\<lambda>_. returnE ()))"

text \<open>The start of \<open>main\<close> once the packages are set up, and the poll loop as a number of ticks.\<close>

definition startup :: "('w, 'pk) crank_env \<Rightarrow> (('w, 'pk) crank, unit result) state" where
  "startup c =
     bindE (findActiveRound c) (\<lambda>r.
     doE (modify (\<lambda>s. s\<lparr>currentRoundId := r\<rparr>)) (\<lambda>_.
     recoverBackgroundRoundsOnStartup c r))"

fun ticks :: "('w, 'pk) crank_env \<Rightarrow> nat \<Rightarrow> (('w, 'pk) crank, unit result) state" where
  "ticks c 0 = returnE ()"
| "ticks c (Suc n) = bindE (tick c) (\<lambda>_. ticks c n)"

definition initial :: "'w \<Rightarrow> ('w, 'pk) crank" where
  "initial w = \<lparr>currentRoundId = 0, lastLockedRound = 0, lastCreatedRound = 0, backgroundRounds = [],
     archivedRounds = [], cleanupNextAttemptAt = Map.empty, cleanupBackoffSec = Map.empty,
     cleanupRetryCount = Map.empty, cleanupLastReason = Map.empty, cleanupLastStats = Map.empty,
     roundObservedState = Map.empty, stuckWarnedAt = Map.empty, lastHealthLogAt = 0, lastVrfSentAt = 0,
     events = [], world = w\<rparr>"

end
