(* ===== verification/Crank_Trace.thy ===== *)
theory Crank_Trace
  imports Crank
begin

text \<open>
  Every transaction of the crank is justified by what it has just seen on the chain: an
  invariant of the event trace, proved operation by operation with the Hoare rules and
  combined for the whole service.
\<close>

section \<open>Justified transactions\<close>

definition saw_closable :: "int \<Rightarrow> 'pk \<Rightarrow> 'pk event list \<Rightarrow> bool" where
  "saw_closable r u es \<longleftrightarrow> list_ex (\<lambda>ev. case ev of
     SawParticipant r' st u' usdcAmt tickets \<Rightarrow>
       r' = r \<and> u' = u \<and> \<not> (st = Cancelled \<and> (0 < usdcAmt \<or> 0 < tickets))
   | _ \<Rightarrow> False) es"

fun justified :: "'pk event \<Rightarrow> 'pk event list \<Rightarrow> bool" where
  "justified (Sent (StartRound r) _) es = (case es of Observed r' None # _ \<Rightarrow> r' = r | _ \<Rightarrow> False)"
| "justified (Sent (LockAndVrf r) _) es =
     (case es of Observed r' (Some (st, n, t)) # _ \<Rightarrow> r' = r \<and> st = Open \<and> 1 \<le> n \<and> t \<noteq> 0 | _ \<Rightarrow> False)"
| "justified (Sent (RequestVrf r) _) es =
     (case es of Observed r' (Some (st, n, t)) # _ \<Rightarrow> r' = r \<and> st = Locked | _ \<Rightarrow> False)"
| "justified (Sent (CloseParticipant r u) _) es = saw_closable r u es"
| "justified (Sent (CloseRound r) _) es =
     (case es of Observed r' (Some (st, n, t)) # Cleaned r'' stats # _ \<Rightarrow>
        r' = r \<and> r'' = r \<and> (st = Claimed \<or> st = Cancelled) \<and> cs_existing stats \<le> cs_closed stats
      | _ \<Rightarrow> False)"
| "justified _ es = True"

fun trace_ok :: "'pk event list \<Rightarrow> bool" where
  "trace_ok [] = True"
| "trace_ok (ev # es) = (justified ev es \<and> trace_ok es)"

abbreviation tok :: "('w, 'pk) crank \<Rightarrow> bool" where "tok s \<equiv> trace_ok (events s)"

lemma justified_ok: "justified (Sent tx b) es = justified (Sent tx True) es"
  by (cases tx) simp_all

section \<open>Operations that do not touch the trace\<close>

lemma run_serve [simp]:
  "run_state (serve m) s = (case run_state m (world s) of (x, w) \<Rightarrow> (x, s\<lparr>world := w\<rparr>))"
  by (simp add: serve_def)

lemma valid_serve [hoare]: "(\<And>s w x. P s \<Longrightarrow> Q x (s\<lparr>world := w\<rparr>)) \<Longrightarrow> valid P (serve m) Q"
  by (rule validI) (auto split: prod.splits)

text \<open>
  What the invariants read: the trace, the round counters and the background rounds. An
  operation that leaves all of them alone keeps every predicate over them.
\<close>

definition core :: "('w, 'pk) crank \<Rightarrow> 'pk event list \<times> int \<times> int \<times> int \<times> int list" where
  "core s = (events s, currentRoundId s, lastLockedRound s, lastCreatedRound s, backgroundRounds s)"

definition on_core :: "(('w, 'pk) crank \<Rightarrow> bool) \<Rightarrow> bool" where
  "on_core P \<longleftrightarrow> (\<forall>s t. core s = core t \<longrightarrow> P s \<longrightarrow> P t)"

lemma on_coreI: "(\<And>s t. core s = core t \<Longrightarrow> P s \<Longrightarrow> P t) \<Longrightarrow> on_core P"
  unfolding on_core_def by blast

lemma on_coreD: "on_core P \<Longrightarrow> P s \<Longrightarrow> core t = core s \<Longrightarrow> P t"
  unfolding on_core_def by metis

lemma core_updates [simp]:
  "core (s\<lparr>world := w\<rparr>) = core s"
  "core (s\<lparr>roundObservedState := a\<rparr>) = core s"
  "core (s\<lparr>stuckWarnedAt := b\<rparr>) = core s"
  "core (s\<lparr>lastHealthLogAt := t\<rparr>) = core s"
  "core (s\<lparr>lastVrfSentAt := t\<rparr>) = core s"
  "core (s\<lparr>cleanupNextAttemptAt := m\<rparr>) = core s"
  "core (s\<lparr>cleanupBackoffSec := m\<rparr>) = core s"
  "core (s\<lparr>cleanupRetryCount := m\<rparr>) = core s"
  "core (s\<lparr>cleanupLastReason := u\<rparr>) = core s"
  "core (s\<lparr>cleanupLastStats := v\<rparr>) = core s"
  "core (s\<lparr>archivedRounds := x\<rparr>) = core s"
  by (simp_all add: core_def)

lemma serve_core [hoare]: "on_core P \<Longrightarrow> keeps P (serve m)"
  by (rule valid_serve) (erule on_coreD, assumption, simp)

lemma now_core [hoare]: "on_core P \<Longrightarrow> keeps P (now c)"
  unfolding now_def by (intro hoare)

lemma observe_core [hoare]:
  assumes "on_core P"
  shows "keeps P (observeRoundState c r st)"
  unfolding observeRoundState_def
  by (intro hoare assms) (erule on_coreD [OF assms], simp split: option.splits)

lemma warn_core [hoare]:
  assumes "on_core P"
  shows "keeps P (maybeWarnStuckRound c r st)"
  unfolding maybeWarnStuckRound_def
  by (intro hoare assms; (assumption | erule on_coreD [OF assms]; simp)?)

lemma allow_core [hoare]:
  assumes "on_core P"
  shows "keeps P (allowCleanupNow c r)"
  unfolding allowCleanupNow_def by (intro hoare assms; assumption?)

lemma health_core [hoare]:
  assumes "on_core P"
  shows "keeps P (maybeLogHealthSnapshot c)"
  unfolding maybeLogHealthSnapshot_def
  by (intro hoare assms; (assumption | erule on_coreD [OF assms]; simp)?)

lemma schedule_core [hoare]:
  assumes "on_core P"
  shows "keeps P (scheduleCleanupRetryOutcome c r out)"
  unfolding scheduleCleanupRetryOutcome_def
  by (intro hoare assms; (assumption | erule on_coreD [OF assms]; simp)?)

text \<open>The same for predicates over the trace alone, which the round counters do not change.\<close>

definition on_events :: "(('w, 'pk) crank \<Rightarrow> bool) \<Rightarrow> bool" where
  "on_events P \<longleftrightarrow> (\<forall>s t. events s = events t \<longrightarrow> P s \<longrightarrow> P t)"

lemma on_eventsI: "(\<And>s t. events s = events t \<Longrightarrow> P s \<Longrightarrow> P t) \<Longrightarrow> on_events P"
  unfolding on_events_def by blast

lemma on_eventsD: "on_events P \<Longrightarrow> P s \<Longrightarrow> events t = events s \<Longrightarrow> P t"
  unfolding on_events_def by metis

lemma on_events_core [intro]: "on_events P \<Longrightarrow> on_core P"
  by (rule on_coreI) (erule on_eventsD, assumption, simp add: core_def)

lemma on_events_trace [simp, intro]: "on_events (\<lambda>s. Q (events s))"
  by (rule on_eventsI) simp

lemma track_events [hoare]:
  assumes "on_events P"
  shows "keeps P (trackBackgroundRound c r)"
  unfolding trackBackgroundRound_def
  by (intro hoare on_events_core assms; (assumption | erule on_eventsD [OF assms]; simp)?)

lemma clear_events [hoare]:
  assumes "on_events P"
  shows "keeps P (clearBackgroundRound r)"
  unfolding clearBackgroundRound_def
  by (intro hoare; erule on_eventsD [OF assms]; simp add: forgetRoundState_def Let_def split: option.splits)

lemma skip_events [hoare]:
  assumes "on_events P"
  shows "keeps P (skipRound c r)"
  unfolding skipRound_def
  by (intro hoare assms; (assumption | erule on_eventsD [OF assms]; simp)?)

lemma advance_events [hoare]:
  assumes "on_events P"
  shows "keeps P (advance c)"
  unfolding advance_def
  by (intro hoare assms; (assumption | erule on_eventsD [OF assms]; simp)?)

section \<open>Observations and transactions\<close>

lemma fetchRound_trace:
  "valid (\<lambda>s. tok s \<and> events s = es) (fetchRound c r)
     (\<lambda>res s. tok s \<and> (\<forall>rd. res = Inr (Some rd) \<longrightarrow> events s = Observed r (Some (round_view rd)) # es))"
  by (rule validI) (auto simp: fetchRound_def emit_def split: prod.splits sum.splits option.splits)

lemma fetchRound_tok [hoare]: "keeps tok (fetchRound c r)"
  using fetchRound_trace [of _ c r] by (fastforce simp: valid_def)

lemma send_trace:
  "valid (\<lambda>s. tok s \<and> justified (Sent tx True) (events s)) (send c tx ixs b) (\<lambda>_. tok)"
  by (rule validI)
    (auto simp: send_def emit_def justified_ok [of tx False] split: prod.splits sum.splits)

abbreviation may_send :: "'pk tx \<Rightarrow> ('w, 'pk) crank \<Rightarrow> bool" where
  "may_send tx s \<equiv> tok s \<and> justified (Sent tx True) (events s)"

text \<open>Build an instruction, send it, go on; and the same under a handler.\<close>

lemma build_bind:
  assumes "\<And>x. valid P (f x) (\<lambda>_. Q)" and "\<And>s. P s \<Longrightarrow> Q s"
  shows "valid P (bindE (liftE b) f) (\<lambda>_. Q)"
  using assms by (auto simp: valid_def split: sum.splits prod.splits)

lemma send_bind:
  assumes "\<And>x. keeps tok (g x)"
  shows "valid (may_send tx) (bindE (send c tx ixs b) g) (\<lambda>_. tok)"
  by (rule valid_bindE [where R = "\<lambda>_. tok"])
    (auto intro: assms valid_weaken [OF send_trace] split: sum.splits)

text \<open>Observe, decide, send: the state in which a transaction may go out.\<close>

lemma absent_then:
  assumes "valid (may_send (StartRound r)) m Q"
  shows "valid tok (doE (emit (Observed r None)) (\<lambda>_. m)) Q"
  by (rule valid_doE [OF _ assms]) (simp add: emit_def valid_update)

abbreviation seen :: "int \<Rightarrow> 'pk RoundData \<Rightarrow> ('w, 'pk) crank \<Rightarrow> bool" where
  "seen r rd s \<equiv> tok s \<and> (\<exists>es. events s = Observed r (Some (round_view rd)) # es)"

lemma fetched_then:
  assumes "keeps tok (f None)" and "\<And>rd. valid (seen r rd) (f (Some rd)) (\<lambda>_. tok)"
  shows "keeps tok (bindE (fetchRound c r) f)"
proof (rule valid_bindE [where R = "\<lambda>res s. tok s \<and> (\<forall>rd. res = Some rd \<longrightarrow> seen r rd s)"])
  show "valid tok (fetchRound c r) (\<lambda>res s. case res of Inl e \<Rightarrow> tok s
      | Inr x \<Rightarrow> tok s \<and> (\<forall>rd. x = Some rd \<longrightarrow> seen r rd s))"
    using fetchRound_trace [of _ c r] by (fastforce simp: valid_def split: sum.splits)
  show "valid (\<lambda>s. tok s \<and> (\<forall>rd. x = Some rd \<longrightarrow> seen r rd s)) (f x) (\<lambda>_. tok)" for x
    using assms by (cases x) (simp_all add: valid_def)
qed

lemma seen_tok: "keeps tok m \<Longrightarrow> valid (seen r rd) m (\<lambda>_. tok)"
  by (simp add: valid_def)

lemma modify_tok [hoare]:
  "(\<And>s. events (f s) = events s) \<Longrightarrow> keeps tok (modify f)"
  by (intro valid_update) simp

section \<open>The handlers\<close>

lemma createRound_tok: "valid (may_send (StartRound r)) (createRound c r) (\<lambda>_. tok)"
  unfolding createRound_def by (intro valid_tryE_const build_bind send_bind hoare) auto

lemma handleStartRound_tok [hoare]: "keeps tok (handleStartRound c r)"
  unfolding handleStartRound_def by (intro absent_then createRound_tok hoare) auto

lemma lockAndRequest_tok: "valid (may_send (LockAndVrf r)) (lockAndRequest c r) (\<lambda>_. tok)"
  unfolding lockAndRequest_def by (intro valid_tryE_const build_bind send_bind hoare) auto

lemma seen_lock:
  assumes "\<not> (rd_participantsCount rd < 1 \<or> rd_totalTickets rd = 0)" and "\<not> rd_status rd \<noteq> Open"
  shows "valid (seen r rd) (lockAndRequest c r) (\<lambda>_. tok)"
  by (rule valid_weaken [OF lockAndRequest_tok]) (use assms in \<open>auto simp: round_view_def\<close>)

lemma seen_skip: "valid (seen r rd) (doE (skipRound c r) (\<lambda>_. returnE x)) (\<lambda>_. tok)"
  by (rule seen_tok, intro hoare) auto

lemma handleLockAndVrf_tok [hoare]: "keeps tok (handleLockAndVrf c r rd)"
  unfolding handleLockAndVrf_def
  by (intro fetched_then seen_skip seen_lock hoare) auto

lemma requestVrf_tok: "valid (may_send (RequestVrf r)) (requestVrf c r) (\<lambda>_. tok)"
  unfolding requestVrf_def by (intro valid_tryE_const build_bind send_bind hoare) auto

text \<open>Reading the clock and the state keeps the observation at the head of the trace.\<close>

lemma seen_do:
  assumes "keeps (seen r rd) m" and "\<And>x. valid (seen r rd) (f x) (\<lambda>_. tok)"
  shows "valid (seen r rd) (doE m f) (\<lambda>_. tok)"
  by (rule valid_doE [OF assms])

lemma seen_events: "on_core (seen r rd)"
  by (rule on_coreI) (simp add: core_def)

lemma seen_request:
  assumes "\<not> rd_status rd \<noteq> Locked"
  shows "valid (seen r rd) (requestVrf c r) (\<lambda>_. tok)"
  by (rule valid_weaken [OF requestVrf_tok]) (use assms in \<open>auto simp: round_view_def\<close>)

lemma handleRequestVrf_tok [hoare]: "keeps tok (handleRequestVrf c r)"
  unfolding handleRequestVrf_def
  by (intro fetched_then seen_do seen_request seen_events hoare) auto

section \<open>Cleanup\<close>

lemma saw_closable_Cons: "saw_closable r u es \<Longrightarrow> saw_closable r u (ev # es)"
  by (simp add: saw_closable_def)

abbreviation closable :: "int \<Rightarrow> 'pk list \<Rightarrow> ('w, 'pk) crank \<Rightarrow> bool" where
  "closable r us s \<equiv> tok s \<and> (\<forall>u\<in>set us. saw_closable r u (events s))"

lemma inspect_closable:
  "valid (closable r (snd acc)) (inspectParticipant c r rd entry acc)
     (\<lambda>res s. case res of Inl e \<Rightarrow> tok s | Inr acc' \<Rightarrow> closable r (snd acc') s)"
  by (rule validI)
    (auto simp: inspectParticipant_def emit_def Let_def saw_closable_def split: prod.splits option.splits if_splits)

lemma closeOne_closable:
  assumes "u \<in> set us"
  shows "keeps (closable r us) (closeOne c r u stats)"
  by (rule validI) (use assms in \<open>auto simp: closeOne_def send_def emit_def saw_closable_Cons
      split: prod.splits sum.splits\<close>)

abbreviation cleaned :: "int \<Rightarrow> cleanup_stats \<Rightarrow> ('w, 'pk) crank \<Rightarrow> bool" where
  "cleaned r stats s \<equiv> tok s \<and> (\<exists>es. events s = Cleaned r stats # es)"

lemma finish_cleanup:
  "valid tok (doE (now c) (\<lambda>t.
       doE (modify (\<lambda>s. s\<lparr>cleanupLastStats := (cleanupLastStats s)(r \<mapsto> (stats, t))\<rparr>)) (\<lambda>_.
       doE (emit (Cleaned r stats)) (\<lambda>_. returnE stats))))
     (\<lambda>res s. case res of Inl e \<Rightarrow> tok s | Inr st \<Rightarrow> cleaned r st s)"
  by (rule validI) (auto simp: now_def emit_def split: prod.splits)

lemma collect_closable:
  "valid tok (foldE (\<lambda>chunk acc. bindE (serve (q chunk)) (\<lambda>infos.
       foldE (inspectParticipant c r rd) (zip chunk infos) acc)) xs (no_stats, []))
     (\<lambda>res s. case res of Inl e \<Rightarrow> tok s | Inr acc \<Rightarrow> closable r (snd acc) s)"
proof -
  have core: "on_core (closable r us)" for us :: "'b list" by (rule on_coreI) (simp add: core_def)
  have "valid (closable r (snd (no_stats, []))) (foldE (\<lambda>chunk acc. bindE (serve (q chunk)) (\<lambda>infos.
       foldE (inspectParticipant c r rd) (zip chunk infos) acc)) xs (no_stats, []))
     (\<lambda>res s. case res of Inl e \<Rightarrow> tok s | Inr acc \<Rightarrow> closable r (snd acc) s)"
    apply (rule valid_foldE [where P = "\<lambda>acc. closable r (snd acc)"])
     apply (rule valid_bindE [where R = "\<lambda>_. closable r (snd _)"])
      apply (rule valid_weaken [OF serve_core [OF core]], assumption, auto split: sum.splits)[1]
     apply (rule valid_foldE [where P = "\<lambda>acc. closable r (snd acc)"])
      apply (rule valid_weaken [OF inspect_closable], assumption, auto split: sum.splits)
    done
  then show ?thesis by simp
qed

lemma cleanup_cleaned:
  "valid tok (cleanupParticipantPdas c r rd) (\<lambda>res s. case res of Inl e \<Rightarrow> tok s | Inr st \<Rightarrow> cleaned r st s)"
proof -
  have close: "valid (closable r us) (foldE (closeOne c r) (take n us) stats)
      (\<lambda>res s. case res of Inl e \<Rightarrow> (case Inl e of Inl e \<Rightarrow> tok s | Inr st \<Rightarrow> cleaned r st s) | Inr st \<Rightarrow> tok s)"
    for us n and stats :: cleanup_stats
    by (rule valid_weaken [OF keeps_foldE [OF closeOne_closable [of _ us]]])
      (auto dest: in_set_takeD split: sum.splits)
  have rest: "valid (closable r (snd acc)) (case acc of (stats, us) \<Rightarrow>
      bindE (foldE (closeOne c r) (take n us) stats) (\<lambda>stats. doE (now c) (\<lambda>t.
       doE (modify (\<lambda>s. s\<lparr>cleanupLastStats := (cleanupLastStats s)(r \<mapsto> (stats, t))\<rparr>)) (\<lambda>_.
       doE (emit (Cleaned r stats)) (\<lambda>_. returnE stats)))))
     (\<lambda>res s. case res of Inl e \<Rightarrow> tok s | Inr st \<Rightarrow> cleaned r st s)" for acc n
    by (cases acc) (simp only: prod.case snd_conv, rule valid_bindE [OF close finish_cleanup])
  show ?thesis
    unfolding cleanupParticipantPdas_def Let_def
  proof (rule valid_if)
    show "valid tok (doE (emit (Cleaned r no_stats)) (\<lambda>_. returnE no_stats))
      (\<lambda>res s. case res of Inl e \<Rightarrow> tok s | Inr st \<Rightarrow> cleaned r st s)"
      by (rule validI) (auto simp: emit_def)
  qed (rule valid_bindE [OF _ rest], rule valid_weaken [OF collect_closable], auto split: sum.splits)
qed

lemma schedule_pending:
  "valid (cleaned r st) (scheduleCleanupRetryOutcome c r (pending_outcome st))
     (\<lambda>pending s. cleaned r st s \<and> (\<not> pending \<longrightarrow> cs_existing st \<le> cs_closed st))"
  by (rule validI) (auto simp: scheduleCleanupRetryOutcome_def now_def planCleanupRetryScheduleForOutcome_def
      pending_outcome_def describeCleanupRetryOutcome_def describeParticipantCleanupRetry_def Let_def
      split: prod.splits option.splits if_splits)

lemma closeRoundAccount_tok: "valid (may_send (CloseRound r)) (closeRoundAccount c r) (\<lambda>_. tok)"
  unfolding closeRoundAccount_def by (intro valid_tryE_const build_bind send_bind hoare) auto

lemma fetched_terminal:
  assumes "cs_existing st \<le> cs_closed st"
  shows "valid (cleaned r st) (fetchRound c r) (\<lambda>res s. tok s \<and> (\<forall>rd. res = Inr (Some rd) \<and>
    (rd_status rd = Claimed \<or> rd_status rd = Cancelled) \<longrightarrow> may_send (CloseRound r) s))"
  by (rule validI) (use assms in \<open>auto simp: fetchRound_def emit_def round_view_def
      split: prod.splits sum.splits option.splits\<close>)

lemma closeTerminalRound_tok:
  assumes "cs_existing st \<le> cs_closed st"
  shows "valid (cleaned r st) (closeTerminalRound c r) (\<lambda>_. tok)"
  unfolding closeTerminalRound_def
proof (rule valid_bindE)
  show "valid (cleaned r st) (fetchRound c r) (\<lambda>res s. case res of Inl e \<Rightarrow> tok s | Inr x \<Rightarrow> tok s \<and>
      (\<forall>rd. x = Some rd \<and> (rd_status rd = Claimed \<or> rd_status rd = Cancelled) \<longrightarrow> may_send (CloseRound r) s))"
    by (rule valid_weaken [OF fetched_terminal [OF assms]]) (auto split: sum.splits)
  show "valid (\<lambda>s. tok s \<and> (\<forall>rd. x = Some rd \<and> (rd_status rd = Claimed \<or> rd_status rd = Cancelled) \<longrightarrow>
      may_send (CloseRound r) s)) (case x of
         None \<Rightarrow> doE (clearBackgroundRound r) (\<lambda>_. returnE True)
       | Some fresh \<Rightarrow>
           if rd_status fresh \<noteq> Claimed \<and> rd_status fresh \<noteq> Cancelled then
             doE (scheduleCleanupRetryOutcome c r (left_terminal_state (rd_status fresh))) (\<lambda>_. returnE False)
           else closeRoundAccount c r) (\<lambda>_. tok)" for x
  proof (cases "\<exists>rd. x = Some rd \<and> (rd_status rd = Claimed \<or> rd_status rd = Cancelled)")
    case True
    then show ?thesis using closeRoundAccount_tok [of r c] by (auto simp: valid_def)
  next
    case False
    have "keeps tok (case x of
         None \<Rightarrow> doE (clearBackgroundRound r) (\<lambda>_. returnE True)
       | Some fresh \<Rightarrow> doE (scheduleCleanupRetryOutcome c r (left_terminal_state (rd_status fresh))) (\<lambda>_. returnE False))"
      by (intro hoare) auto
    with False show ?thesis by (cases x) (auto simp: valid_def)
  qed
qed

lemma archiveRound_tok [hoare]: "keeps tok (archiveRound c r rd)"
  unfolding archiveRound_def emit_def by (intro hoare) auto

lemma cleanup_then:
  assumes "\<And>st. valid (cleaned r st) (f st) (\<lambda>_. tok)"
  shows "keeps tok (bindE (cleanupParticipantPdas c r rd) f)"
  by (rule valid_bindE [OF _ assms]) (rule valid_weaken [OF cleanup_cleaned], auto split: sum.splits)

lemma pending_then:
  "valid (cleaned r st) (doE (scheduleCleanupRetryOutcome c r (pending_outcome st)) (\<lambda>pending.
     if pending then returnE False else closeTerminalRound c r)) (\<lambda>_. tok)"
  by (rule valid_doE [OF schedule_pending]) (auto simp: valid_def dest: validD [OF closeTerminalRound_tok])

lemma handleTerminalRoundCleanup_tok [hoare]: "keeps tok (handleTerminalRoundCleanup c r rd)"
  unfolding handleTerminalRoundCleanup_def by (intro cleanup_then pending_then hoare) auto

section \<open>The service\<close>

lemma process_tok [hoare]: "keeps tok (processBackgroundRounds c)"
  unfolding processBackgroundRounds_def processBackgroundRound_def by (intro hoare) auto

lemma tick_tok [hoare]: "keeps tok (tick c)"
  unfolding tick_def tickBody_def pollCurrent_def by (intro hoare) auto

lemma ticks_tok [hoare]: "keeps tok (ticks c n)"
  by (induction n) (auto intro!: hoare)

lemma scan_loop_keeps [hoare]:
  "(\<And>ids. keeps P (f ids)) \<Longrightarrow> keeps P (scan_loop f upper sz limit fuel base v)"
  by (induction fuel arbitrary: base v) (auto intro!: hoare simp: Let_def)

lemma scan_keeps [hoare]:
  "(\<And>ids. keeps P (f ids)) \<Longrightarrow> keeps P (scanForActiveRound start archived maxScan sz limit f)"
  unfolding scanForActiveRound_def by (intro hoare) auto

lemma findActiveRound_core [hoare]:
  assumes "on_core P"
  shows "keeps P (findActiveRound c)"
  unfolding findActiveRound_def fetchBatch_def Let_def by (intro hoare assms; assumption?)

lemma recover_events [hoare]:
  assumes "on_events P"
  shows "keeps P (recoverBackgroundRoundsOnStartup c r)"
  unfolding recoverBackgroundRoundsOnStartup_def recoverRound_def
  by (intro hoare on_events_core assms; assumption?)

lemma startup_tok [hoare]: "keeps tok (startup c)"
  unfolding startup_def by (intro hoare) auto

text \<open>
  C7. In every run of the crank, whatever the chain, the clock and the network answer, every
  transaction it sends, successful or not, is justified by what it read immediately before: it
  creates a round only when the account of that round was missing, locks a round only when the
  account said Open with at least one participant and a non-zero ticket count, asks for
  randomness only when it said Locked, closes a participant account only after reading it and,
  in a cancelled round, finding nothing left to refund, and closes a round only when the round
  was Claimed or Cancelled and the cleanup just before left no participant account behind.
\<close>

theorem transactions_justified:
  "trace_ok (events (snd (run_state (bindE (startup c) (\<lambda>_. ticks c n)) (initial w))))"
  by (rule valid_run [where P = tok and Q = "\<lambda>_. tok"]) (intro hoare, simp add: initial_def)

end
