(* ===== verification/Crank_Inv.thy ===== *)
theory Crank_Inv
  imports Crank_Trace
begin

text \<open>
  What the crank remembers about rounds is consistent with what it did: no round is created or
  locked twice, and a round it has left stays among the background rounds until its account is
  gone.
\<close>

section \<open>The invariant\<close>

definition started :: "'pk event list \<Rightarrow> int list" where
  "started es = concat (map (\<lambda>ev. case ev of Sent (StartRound r) True \<Rightarrow> [r] | _ \<Rightarrow> []) es)"

definition locked :: "'pk event list \<Rightarrow> int list" where
  "locked es = concat (map (\<lambda>ev. case ev of Sent (LockAndVrf r) True \<Rightarrow> [r] | _ \<Rightarrow> []) es)"

text \<open>The newest event that tells whether the account of a round exists says that it does not.\<close>

fun gone :: "int \<Rightarrow> 'pk event list \<Rightarrow> bool" where
  "gone r [] = False"
| "gone r (Observed r' v # es) = (if r' = r then v = None else gone r es)"
| "gone r (Sent (CloseRound r') True # es) = (r' = r \<or> gone r es)"
| "gone r (Sent (StartRound r') True # es) = (r' \<noteq> r \<and> gone r es)"
| "gone r (_ # es) = gone r es"

definition consistent :: "int \<Rightarrow> int \<Rightarrow> 'pk event list \<Rightarrow> int \<Rightarrow> int \<Rightarrow> int list \<Rightarrow> bool" where
  "consistent r0 k es ll lc bg \<longleftrightarrow>
     distinct bg \<and> distinct (started es) \<and> (\<forall>r\<in>set (started es). r \<le> lc) \<and>
     distinct (locked es) \<and> (\<forall>r\<in>set (locked es). r < k \<or> r = k \<and> ll = k) \<and>
     {r0..<k} - {r. gone r es} \<subseteq> set bg"

definition rinv :: "int \<Rightarrow> int \<Rightarrow> int set \<Rightarrow> ('w, 'pk) crank \<Rightarrow> bool" where
  "rinv r0 k X s \<longleftrightarrow> currentRoundId s = k \<and> X \<subseteq> set (backgroundRounds s) \<and>
     consistent r0 k (events s) (lastLockedRound s) (lastCreatedRound s) (backgroundRounds s)"

lemma rinv_core [simp, intro]: "on_core (rinv r0 k X)"
  by (rule on_coreI) (simp add: core_def rinv_def)

lemma started_simps [simp]:
  "started [] = []"
  "started (ev # es) = (case ev of Sent (StartRound r) True \<Rightarrow> [r] | _ \<Rightarrow> []) @ started es"
  by (simp_all add: started_def)

lemma locked_simps [simp]:
  "locked [] = []"
  "locked (ev # es) = (case ev of Sent (LockAndVrf r) True \<Rightarrow> [r] | _ \<Rightarrow> []) @ locked es"
  by (simp_all add: locked_def)

section \<open>Events\<close>

fun quiet_event :: "int set \<Rightarrow> 'pk event \<Rightarrow> bool" where
  "quiet_event X (Observed r v) = (r \<in> X)"
| "quiet_event X (Sent (StartRound r) ok) = (\<not> ok)"
| "quiet_event X (Sent (LockAndVrf r) ok) = (\<not> ok)"
| "quiet_event X _ = True"

lemma gone_quiet: "quiet_event X ev \<Longrightarrow> r \<notin> X \<Longrightarrow> gone r es \<Longrightarrow> gone r (ev # es)"
  by (cases "(r, ev # es)" rule: gone.cases) (auto split: if_splits)

lemma consistent_quiet:
  assumes "quiet_event X ev" and "X \<subseteq> insert k (set bg)" and "consistent r0 k es ll lc bg"
  shows "consistent r0 k (ev # es) ll lc bg"
proof -
  have "started (ev # es) = started es" "locked (ev # es) = locked es"
    using assms(1) by (auto split: event.splits tx.splits bool.splits)
  moreover have "{r0..<k} - {r. gone r (ev # es)} \<subseteq> set bg"
    using assms gone_quiet [OF assms(1), of _ es] by (fastforce simp: consistent_def)
  ultimately show ?thesis using assms(3) by (simp add: consistent_def)
qed

lemma emit_inv [hoare]: "quiet_event (insert k X) ev \<Longrightarrow> keeps (rinv r0 k X) (emit ev)"
  unfolding emit_def
  by (rule valid_update) (auto simp: rinv_def intro!: consistent_quiet [of "insert k X"])

lemma fetchRound_inv [hoare]: "r \<in> insert k X \<Longrightarrow> keeps (rinv r0 k X) (fetchRound c r)"
  unfolding fetchRound_def by (intro hoare) auto

lemma rinv_world [simp]: "rinv r0 k X (s\<lparr>world := w\<rparr>) = rinv r0 k X s"
  by (simp add: rinv_def)

lemma send_inv [hoare]:
  assumes "quiet_event {} (Sent tx True)"
  shows "keeps (rinv r0 k X) (send c tx ixs b)"
proof -
  have "quiet_event (insert k X) (Sent tx ok)" for ok using assms by (cases tx) auto
  then show ?thesis unfolding send_def by (intro hoare) auto
qed

section \<open>Background rounds\<close>

lemma track_inv:
  "valid (rinv r0 k X) (trackBackgroundRound c r) (\<lambda>_. rinv r0 k (insert r X))"
  by (rule validI) (auto simp: trackBackgroundRound_def now_def rinv_def consistent_def set_add_def
      split: prod.splits if_splits)

lemma clear_inv:
  assumes "r \<notin> X"
  shows "valid (\<lambda>s. rinv r0 k (insert r X) s \<and> gone r (events s)) (clearBackgroundRound r) (\<lambda>_. rinv r0 k X)"
  by (rule validI) (use assms in \<open>auto simp: clearBackgroundRound_def forgetRoundState_def Let_def rinv_def
      consistent_def distinct_removeAll split: option.splits\<close>)

lemma modify_inv [hoare]: "(\<And>s. core (f s) = core s) \<Longrightarrow> keeps (rinv r0 k X) (modify f)"
  by (rule valid_update) (erule on_coreD [OF rinv_core], simp)

lemma inspect_inv [hoare]: "keeps (rinv r0 k X) (inspectParticipant c r rd entry acc)"
  unfolding inspectParticipant_def Let_def by (intro hoare) auto

lemma closeOne_inv [hoare]: "keeps (rinv r0 k X) (closeOne c r u stats)"
  unfolding closeOne_def by (intro hoare) auto

lemma cleanup_inv [hoare]: "keeps (rinv r0 k X) (cleanupParticipantPdas c r rd)"
  unfolding cleanupParticipantPdas_def Let_def by (intro hoare rinv_core) auto

lemma archive_inv [hoare]: "keeps (rinv r0 k X) (archiveRound c r rd)"
  unfolding archiveRound_def by (intro hoare rinv_core) auto

text \<open>
  The steps after which a round may leave the background set: their precondition has the round
  in focus, their postcondition only the other rounds \<open>X\<close>.
\<close>

lemma unfocus: "keeps (rinv r0 k (insert r X)) m \<Longrightarrow> valid (rinv r0 k (insert r X)) m (\<lambda>_. rinv r0 k X)"
  by (erule valid_weaken) (auto simp: rinv_def)

lemma rinv_unfocus: "rinv r0 k (insert r X) s \<Longrightarrow> rinv r0 k X s"
  by (simp add: rinv_def)

lemma clear_then:
  assumes "r \<notin> X"
  shows "valid (\<lambda>s. rinv r0 k (insert r X) s \<and> gone r (events s))
    (doE (clearBackgroundRound r) (\<lambda>_. returnE x)) (\<lambda>_. rinv r0 k X)"
  by (rule valid_doE [OF clear_inv [OF assms]]) (rule valid_returnE)

lemma fetched_gone:
  assumes "r \<in> insert k X"
  shows "valid (rinv r0 k X) (fetchRound c r) (\<lambda>res s. rinv r0 k X s \<and> (res = Inr None \<longrightarrow> gone r (events s)))"
proof -
  have "valid (\<lambda>_. True) (fetchRound c r) (\<lambda>res s. res = Inr None \<longrightarrow> gone r (events s))"
    by (rule validI) (auto simp: fetchRound_def emit_def split: prod.splits sum.splits option.splits)
  from valid_conj [OF fetchRound_inv [OF assms] this] show ?thesis by (rule valid_weaken) auto
qed

lemma sent_close:
  "valid (rinv r0 k X) (send c (CloseRound r) ixs b)
     (\<lambda>res s. rinv r0 k X s \<and> (\<forall>x. res = Inr x \<longrightarrow> gone r (events s)))"
proof -
  have "valid (\<lambda>_. True) (send c (CloseRound r) ixs b) (\<lambda>res s. \<forall>x. res = Inr x \<longrightarrow> gone r (events s))"
    by (rule validI) (auto simp: send_def emit_def split: prod.splits sum.splits)
  from valid_conj [OF send_inv this] show ?thesis by (rule valid_weaken) auto
qed

lemma fetch_focus:
  assumes "r \<notin> X" and "\<And>rd. valid (rinv r0 k (insert r X)) (f (Some rd)) (\<lambda>_. rinv r0 k X)"
    and "f None = doE (clearBackgroundRound r) (\<lambda>_. returnE x)"
  shows "valid (rinv r0 k (insert r X)) (bindE (fetchRound c r) f) (\<lambda>_. rinv r0 k X)"
proof (rule valid_bindE)
  show "valid (rinv r0 k (insert r X)) (fetchRound c r) (\<lambda>res s. case res of Inl e \<Rightarrow> rinv r0 k X s
      | Inr x \<Rightarrow> rinv r0 k (insert r X) s \<and> (x = None \<longrightarrow> gone r (events s)))"
    by (rule valid_weaken [OF fetched_gone]) (auto split: sum.splits intro: rinv_unfocus)
  show "valid (\<lambda>s. rinv r0 k (insert r X) s \<and> (y = None \<longrightarrow> gone r (events s))) (f y) (\<lambda>_. rinv r0 k X)" for y
    using clear_then [OF assms(1)] assms(2,3) by (cases y) simp_all
qed

lemma closeRoundAccount_inv:
  assumes "r \<notin> X"
  shows "valid (rinv r0 k (insert r X)) (closeRoundAccount c r) (\<lambda>_. rinv r0 k X)"
proof -
  let ?I = "rinv r0 k (insert r X)"
  have handler: "valid ?I (doE (scheduleCleanupRetryOutcome c r out) (\<lambda>_. returnE b)) (\<lambda>_. rinv r0 k X)" for out and b :: bool
    by (rule unfocus, intro hoare) auto
  have body: "valid ?I (bindE (liftE ix) (\<lambda>ix. bindE (send c (CloseRound r) [ix] True) (\<lambda>sig.
      doE (clearBackgroundRound r) (\<lambda>_. returnE True))))
      (\<lambda>res s. case res of Inl e \<Rightarrow> ?I s | Inr x \<Rightarrow> rinv r0 k X s)" for ix
    apply (rule valid_bindE [where R = "\<lambda>_. ?I"])
     apply (rule valid_liftE, simp split: sum.splits)
    apply (rule valid_bindE [where R = "\<lambda>_ s. ?I s \<and> gone r (events s)"])
     apply (rule valid_weaken [OF sent_close], assumption, simp split: sum.splits)
    apply (rule valid_doE [OF clear_inv [OF assms]])
    by (rule valid_returnE) simp
  show ?thesis unfolding closeRoundAccount_def by (rule valid_tryE [OF body handler])
qed

lemma closeTerminalRound_inv:
  assumes "r \<notin> X"
  shows "valid (rinv r0 k (insert r X)) (closeTerminalRound c r) (\<lambda>_. rinv r0 k X)"
  unfolding closeTerminalRound_def
  by (rule fetch_focus [OF assms])
    (auto intro!: closeRoundAccount_inv [OF assms] unfocus hoare)

text \<open>Leading steps that keep the round in focus.\<close>

lemma focus_bind:
  assumes "keeps (rinv r0 k (insert r X)) m"
    and "\<And>x. valid (rinv r0 k (insert r X)) (f x) (\<lambda>_. rinv r0 k X)"
  shows "valid (rinv r0 k (insert r X)) (bindE m f) (\<lambda>_. rinv r0 k X)"
  by (rule valid_bindE [OF _ assms(2)])
    (rule valid_weaken [OF assms(1)], auto split: sum.splits intro: rinv_unfocus)

lemma focus_return: "valid (rinv r0 k (insert r X)) (returnE x) (\<lambda>_. rinv r0 k X)"
  by (rule valid_returnE) (rule rinv_unfocus)

lemma handleTerminal_inv:
  assumes "r \<notin> X"
  shows "valid (rinv r0 k (insert r X)) (handleTerminalRoundCleanup c r rd) (\<lambda>_. rinv r0 k X)"
  unfolding handleTerminalRoundCleanup_def
  by (intro focus_bind focus_return valid_doE [where R = "\<lambda>_. rinv r0 k (insert r X)"] valid_if
      closeTerminalRound_inv [OF assms] allow_core schedule_core archive_inv cleanup_inv rinv_core)

lemma processBackgroundRound_inv:
  assumes "r \<notin> X"
  shows "valid (rinv r0 k (insert r X)) (processBackgroundRound c r) (\<lambda>_. rinv r0 k X)"
proof -
  have "valid (rinv r0 k X) (doE (scheduleCleanupRetryOutcome c r out) (\<lambda>_. returnE ())) (\<lambda>_. rinv r0 k X)" for out
    by (intro hoare) auto
  moreover have "valid (rinv r0 k (insert r X)) (bindE (fetchRound c r) (\<lambda>res.
        case res of
          None \<Rightarrow> doE (clearBackgroundRound r) (\<lambda>_. returnE ())
        | Some rd \<Rightarrow>
            doE (observeRoundState c r (rd_status rd)) (\<lambda>_.
            doE (maybeWarnStuckRound c r (rd_status rd)) (\<lambda>_.
            if rd_status rd = Claimed \<or> rd_status rd = Cancelled
            then bindE (handleTerminalRoundCleanup c r rd) (\<lambda>_. returnE ())
            else returnE ())))) (\<lambda>_. rinv r0 k X)"
    by (rule fetch_focus [OF assms, where x = "()"], unfold option.case)
      ((intro focus_return valid_doE [where R = "\<lambda>_. rinv r0 k (insert r X)"] valid_if
        valid_bindE [where R = "\<lambda>_. rinv r0 k X"] valid_returnE
        valid_weaken [OF handleTerminal_inv [OF assms]] observe_core warn_core rinv_core;
       (assumption | simp split: sum.splits)), rule refl)
  ultimately show ?thesis
    unfolding processBackgroundRound_def by (intro valid_tryE_const)
qed

lemma process_each_inv:
  assumes "distinct rs"
  shows "valid (rinv r0 k (set rs)) (for_eachE rs (processBackgroundRound c)) (\<lambda>_. rinv r0 k {})"
  using assms
proof (induction rs)
  case Nil
  then show ?case by (auto intro!: hoare)
next
  case (Cons r rs)
  then have r: "r \<notin> set rs" and IH: "valid (rinv r0 k (set rs)) (for_eachE rs (processBackgroundRound c)) (\<lambda>_. rinv r0 k {})"
    by simp_all
  have "rinv r0 k Y s \<Longrightarrow> rinv r0 k {} s" for Y and s :: "('a, 'b) crank" by (simp add: rinv_def)
  then show ?case
    by (auto intro!: valid_bindE [OF _ IH] valid_weaken [OF processBackgroundRound_inv [OF r]] split: sum.splits)
qed

lemma process_inv [hoare]: "keeps (rinv r0 k {}) (processBackgroundRounds c)"
proof (rule validI)
  fix s x t
  assume "rinv r0 k {} s" "run_state (processBackgroundRounds c) s = (x, t)"
  then have "rinv r0 k (set (backgroundRounds s)) s" "distinct (backgroundRounds s)"
    "run_state (for_eachE (backgroundRounds s) (processBackgroundRound c)) s = (x, t)"
    by (auto simp: rinv_def consistent_def processBackgroundRounds_def)
  then show "rinv r0 k {} t" using validD [OF process_each_inv] by blast
qed

section \<open>The current round\<close>

abbreviation advanced :: "int \<Rightarrow> int \<Rightarrow> ('w, 'pk) crank \<Rightarrow> bool" where
  "advanced r0 k s \<equiv> rinv r0 k {} s \<or> rinv r0 (k + 1) {} s"

lemma leave_current:
  assumes "rinv r0 k (insert k X) s"
  shows "rinv r0 (k + 1) X (s\<lparr>currentRoundId := currentRoundId s + 1, lastLockedRound := ll\<rparr>)"
proof -
  have "{r0..<k + 1} \<subseteq> insert k {r0..<k}" by auto
  then have "{r0..<k + 1} - {r. gone r (events s)} \<subseteq> set (backgroundRounds s)"
    using assms by (auto simp: rinv_def consistent_def)
  with assms show ?thesis by (auto simp: rinv_def consistent_def)
qed

lemma lock_current: "rinv r0 k X s \<Longrightarrow> rinv r0 k X (s\<lparr>lastLockedRound := k\<rparr>)"
  by (auto simp: rinv_def consistent_def)

lemma skip_inv: "valid (rinv r0 k X) (skipRound c k) (\<lambda>_. rinv r0 (k + 1) X)"
  unfolding skipRound_def
  by (rule valid_bind [where R = "\<lambda>_. rinv r0 k X"], rule valid_update, erule lock_current,
      rule valid_bind [OF track_inv], rule valid_update, erule leave_current)

lemma advance_inv: "valid (rinv r0 k X) (advance c) (\<lambda>_. rinv r0 (k + 1) X)"
  unfolding advance_def
proof (rule valid_bind [where R = "\<lambda>s t. rinv r0 k X t \<and> currentRoundId s = k"])
  show "valid (rinv r0 k X) get_state (\<lambda>s t. rinv r0 k X t \<and> currentRoundId s = k)"
    by (rule valid_get) (simp add: rinv_def)
  have upd: "rinv r0 (k + 1) X (s\<lparr>currentRoundId := currentRoundId s + 1, lastLockedRound := 0, lastVrfSentAt := 0\<rparr>)"
    if "rinv r0 k (insert k X) s" for s :: "('a, 'b) crank"
    using leave_current [OF that, of 0] by (simp add: rinv_def)
  show "valid (\<lambda>t. rinv r0 k X t \<and> currentRoundId s = k) (do {
      trackBackgroundRound c (currentRoundId s);
      modify (\<lambda>s. s\<lparr>currentRoundId := currentRoundId s + 1, lastLockedRound := 0, lastVrfSentAt := 0\<rparr>)})
    (\<lambda>_. rinv r0 (k + 1) X)" for s :: "('a, 'b) crank"
    by (rule valid_bind [where R = "\<lambda>_. rinv r0 k (insert k X)"])
      (auto simp: valid_def dest: validD [OF track_inv] upd)
qed

abbreviation unlocked :: "int \<Rightarrow> int \<Rightarrow> ('w, 'pk) crank \<Rightarrow> bool" where
  "unlocked r0 k s \<equiv> rinv r0 k {} s \<and> lastLockedRound s \<noteq> k"

abbreviation uncreated :: "int \<Rightarrow> int \<Rightarrow> ('w, 'pk) crank \<Rightarrow> bool" where
  "uncreated r0 k s \<equiv> rinv r0 k {} s \<and> lastCreatedRound s < k"

lemma fetchRound_keeps:
  assumes "\<And>s ev w. P s \<Longrightarrow> P (s\<lparr>world := w\<rparr>)" and "\<And>s ev. P s \<Longrightarrow> P (s\<lparr>events := ev # events s\<rparr>)"
  shows "keeps P (fetchRound c r)"
  unfolding fetchRound_def emit_def by (intro hoare valid_serve assms; assumption?)

lemma unlocked_fetch [hoare]: "keeps (unlocked r0 k) (fetchRound c k)"
  by (rule valid_conj [OF fetchRound_inv fetchRound_keeps]) auto

lemma uncreated_fetch [hoare]: "keeps (uncreated r0 k) (fetchRound c k)"
  by (rule valid_conj [OF fetchRound_inv fetchRound_keeps]) auto

lemma sent_lock:
  "valid (unlocked r0 k) (send c (LockAndVrf k) ixs b) (\<lambda>res s. case res of
      Inl e \<Rightarrow> unlocked r0 k s | Inr _ \<Rightarrow> rinv r0 k {} (s\<lparr>lastLockedRound := k\<rparr>))"
  by (rule validI) (auto simp: send_def emit_def rinv_def consistent_def split: prod.splits sum.splits)

lemma sent_start:
  "valid (uncreated r0 k) (send c (StartRound k) ixs b) (\<lambda>res s. case res of
      Inl e \<Rightarrow> uncreated r0 k s | Inr _ \<Rightarrow> rinv r0 k {} (s\<lparr>lastCreatedRound := k\<rparr>))"
  by (rule validI) (auto simp: send_def emit_def rinv_def consistent_def split: prod.splits sum.splits, force+)

lemma try_send:
  assumes "\<And>x. valid P (m x) (\<lambda>r s. case r of Inl e \<Rightarrow> P s | Inr _ \<Rightarrow> Q s)" and "\<And>e. valid P (h e) (\<lambda>_. Q)"
  shows "valid P (tryE (bindE (liftE b) m) h) (\<lambda>_. Q)"
proof (rule valid_tryE [OF _ assms(2)])
  show "valid P (bindE (liftE b) m) (\<lambda>r s. case r of Inl e \<Rightarrow> P s | Inr _ \<Rightarrow> Q s)"
    by (rule valid_bindE [OF _ assms(1)]) (rule valid_liftE, simp split: sum.splits)
qed

lemma guard_state:
  assumes "\<And>s. P s \<Longrightarrow> b s \<Longrightarrow> Q (Inr x) s" and "valid (\<lambda>s. P s \<and> \<not> b s) m Q"
  shows "valid P (doE get_state (\<lambda>s. if b s then returnE x else m)) Q"
  using assms by (auto simp: valid_def)

lemma created_current: "uncreated r0 k s \<Longrightarrow> rinv r0 k {} (s\<lparr>lastCreatedRound := k\<rparr>)"
  by (fastforce simp: rinv_def consistent_def)

lemma set_created:
  "valid (uncreated r0 k) (doE (modify (\<lambda>s. s\<lparr>lastCreatedRound := k\<rparr>)) (\<lambda>_. returnE b)) (\<lambda>_. rinv r0 k {})"
  by (auto simp: valid_def created_current)

lemma createRound_inv: "valid (uncreated r0 k) (createRound c k) (\<lambda>_. rinv r0 k {})"
proof -
  have body: "valid (uncreated r0 k) (bindE (send c (StartRound k) ixs b) (\<lambda>sig.
      doE (modify (\<lambda>s. s\<lparr>lastCreatedRound := k\<rparr>)) (\<lambda>_. returnE True)))
      (\<lambda>r s. case r of Inl e \<Rightarrow> uncreated r0 k s | Inr _ \<Rightarrow> rinv r0 k {} s)" for ixs b
    by (rule valid_bindE [where R = "\<lambda>_ s. rinv r0 k {} (s\<lparr>lastCreatedRound := k\<rparr>)"])
      (rule valid_weaken [OF sent_start], assumption, simp split: sum.splits, simp add: valid_def)
  have handler: "valid (uncreated r0 k) (bindE (fetchRound c k) (\<lambda>check. case check of
      Some _ \<Rightarrow> doE (modify (\<lambda>s. s\<lparr>lastCreatedRound := k\<rparr>)) (\<lambda>_. returnE False) | None \<Rightarrow> returnE False))
      (\<lambda>_. rinv r0 k {})"
    by (rule valid_bindE [where R = "\<lambda>_. uncreated r0 k"])
      (rule valid_weaken [OF uncreated_fetch], assumption, simp split: sum.splits,
       intro valid_case_option set_created valid_returnE, simp)
  show ?thesis unfolding createRound_def by (rule try_send [OF body handler])
qed

lemma handleStartRound_inv [hoare]: "keeps (rinv r0 k {}) (handleStartRound c k)"
proof -
  have rest: "valid (uncreated r0 k) (bindE (serve m) (\<lambda>info. case info of
         Some _ \<Rightarrow> doE (modify (\<lambda>s. s\<lparr>lastCreatedRound := k\<rparr>)) (\<lambda>_. returnE False)
       | None \<Rightarrow> doE (emit (Observed k None)) (\<lambda>_. createRound c k))) (\<lambda>_. rinv r0 k {})"
    for m :: "('a, buffer option result) state"
    by (rule valid_bindE [where R = "\<lambda>_. uncreated r0 k"], rule valid_serve, simp split: sum.splits,
        rule valid_case_option, rule valid_doE [OF _ createRound_inv],
        simp add: emit_def valid_def rinv_def, intro conjI impI allI consistent_quiet [where X = "{k}"], simp_all,
        rule set_created)
  show ?thesis
    unfolding handleStartRound_def
    by (rule guard_state, assumption, rule valid_weaken [OF rest]) auto
qed

lemma fetched_unlocked:
  assumes "\<And>x. valid (unlocked r0 k) (f x) (\<lambda>_. advanced r0 k)"
  shows "valid (unlocked r0 k) (bindE (fetchRound c k) f) (\<lambda>_. advanced r0 k)"
  by (rule valid_bindE [OF _ assms]) (rule valid_weaken [OF unlocked_fetch], assumption, simp split: sum.splits)

lemma unlocked_skip:
  "valid (unlocked r0 k) (doE (skipRound c k) (\<lambda>_. returnE b)) (\<lambda>_. advanced r0 k)"
  by (rule valid_doE [where R = "\<lambda>_. rinv r0 (k + 1) {}"], rule valid_weaken [OF skip_inv])
    (auto simp: valid_def)

lemma lockAndRequest_inv: "valid (unlocked r0 k) (lockAndRequest c k) (\<lambda>_. advanced r0 k)"
proof -
  have body: "valid (unlocked r0 k) (bindE (liftE vr) (\<lambda>vrfIx. bindE (send c (LockAndVrf k) [lk, vrfIx] False) (\<lambda>sig.
      doE (modify (\<lambda>s. s\<lparr>lastLockedRound := k\<rparr>)) (\<lambda>_.
      doE (now c) (\<lambda>t. doE (modify (\<lambda>s. s\<lparr>lastVrfSentAt := t\<rparr>)) (\<lambda>_. returnE True))))))
      (\<lambda>r s. case r of Inl e \<Rightarrow> unlocked r0 k s | Inr _ \<Rightarrow> advanced r0 k s)" for lk vr
    apply (rule valid_bindE [where R = "\<lambda>_. unlocked r0 k"])
     apply (rule valid_liftE, simp split: sum.splits)
    apply (rule valid_bindE [where R = "\<lambda>_ s. rinv r0 k {} (s\<lparr>lastLockedRound := k\<rparr>)"])
     apply (rule valid_weaken [OF sent_lock], assumption, simp split: sum.splits)
    apply (rule validI)
    by (auto simp: now_def rinv_def split: prod.splits)
  have set_k: "valid (unlocked r0 k) (doE (modify (\<lambda>s. s\<lparr>lastLockedRound := k\<rparr>)) (\<lambda>_. returnE b)) (\<lambda>_. advanced r0 k)"
    for b :: bool
    by (auto simp: valid_def lock_current)
  show ?thesis
    unfolding lockAndRequest_def
    apply (rule try_send [OF body])
    apply (rule valid_if, rule unlocked_skip)
    by (intro valid_tryE_const fetched_unlocked valid_case_option valid_if set_k valid_returnE) auto
qed

lemma handleLockAndVrf_inv: "valid (rinv r0 k {}) (handleLockAndVrf c k rd) (\<lambda>_. advanced r0 k)"
proof -
  have core: "on_core (unlocked r0 k)" by (rule on_coreI) (simp add: core_def rinv_def)
  have quiet: "valid (unlocked r0 k) (returnE b) (\<lambda>_. advanced r0 k)" for b :: bool by (rule valid_returnE) simp
  show ?thesis
    unfolding handleLockAndVrf_def
    by (rule guard_state, simp)
      (intro valid_if quiet valid_doE [OF now_core [OF core]] fetched_unlocked valid_case_option
        unlocked_skip lockAndRequest_inv)
qed

lemma handleRequestVrf_inv [hoare]: "keeps (rinv r0 k {}) (handleRequestVrf c k)"
  unfolding handleRequestVrf_def requestVrf_def by (intro hoare rinv_core) auto

section \<open>The poll step\<close>

lemma current_is:
  "valid (rinv r0 k X) (f k) Q \<Longrightarrow> valid (rinv r0 k X) (doE get_state (\<lambda>s. f (currentRoundId s))) Q"
  by (simp add: valid_def rinv_def)

lemma adv_bind:
  assumes "keeps (rinv r0 k {}) m" and "\<And>x. valid (rinv r0 k {}) (f x) (\<lambda>_. advanced r0 k)"
  shows "valid (rinv r0 k {}) (bindE m f) (\<lambda>_. advanced r0 k)"
  by (rule valid_bindE [OF _ assms(2)]) (rule valid_weaken [OF assms(1)], auto split: sum.splits)

lemma adv_end:
  assumes "valid (rinv r0 k {}) m (\<lambda>_. advanced r0 k)"
  shows "valid (rinv r0 k {}) (bindE m (\<lambda>_. returnE x)) (\<lambda>_. advanced r0 k)"
  by (rule valid_bindE [where R = "\<lambda>_. advanced r0 k"])
    (rule valid_weaken [OF assms], auto split: sum.splits intro!: hoare)

lemma adv_advance:
  "valid (rinv r0 k {}) (doE (advance c) (\<lambda>_. doE (maybeLogHealthSnapshot c) (\<lambda>_. returnE x))) (\<lambda>_. advanced r0 k)"
  by (rule valid_doE [OF advance_inv], rule valid_doE [OF health_core [OF rinv_core]], rule valid_returnE) simp

lemma pollCurrent_inv: "valid (rinv r0 k {}) (pollCurrent c k) (\<lambda>_. advanced r0 k)"
  unfolding pollCurrent_def
  by (intro adv_end [OF handleLockAndVrf_inv] adv_bind adv_advance handleStartRound_inv handleRequestVrf_inv
      valid_case_option valid_if valid_doE [where R = "\<lambda>_. rinv r0 k {}"] fetchRound_inv
      observe_core warn_core health_core serve_core rinv_core valid_returnE valid_return)
    auto

lemma tick_inv: "valid (rinv r0 k {}) (tick c) (\<lambda>_. advanced r0 k)"
proof -
  have bg: "keeps (rinv r0 k {}) (if bs \<noteq> [] then processBackgroundRounds c else returnE ())" for bs :: "int list"
    by (intro hoare) auto
  have poll: "valid (rinv r0 k {}) (doE get_state (\<lambda>s. pollCurrent c (currentRoundId s))) (\<lambda>_. advanced r0 k)"
    by (rule current_is [of _ _ _ "pollCurrent c"]) (rule pollCurrent_inv)
  have body: "valid (rinv r0 k {}) (tickBody c) (\<lambda>_. advanced r0 k)"
    unfolding tickBody_def
    by (rule valid_doE [where R = "\<lambda>_. rinv r0 k {}"], rule valid_get, assumption, rule adv_bind [OF bg poll])
  have "on_core (advanced r0 k)" by (rule on_coreI) (auto simp: core_def rinv_def)
  then show ?thesis
    unfolding tick_def by (intro valid_tryE_const [OF body] keeps_doE health_core valid_returnE)
qed

text \<open>A number of ticks: the current round only grows.\<close>

lemma ticks_inv:
  "valid (rinv r0 k {}) (ticks c n) (\<lambda>_ s. \<exists>k'\<in>{k..k + int n}. rinv r0 k' {} s)"
proof (induction n arbitrary: k)
  case 0
  then show ?case by (auto intro!: hoare)
next
  case (Suc n)
  have step: "valid (advanced r0 k) (ticks c n) (\<lambda>_ s. \<exists>k'\<in>{k..k + int (Suc n)}. rinv r0 k' {} s)"
  proof (rule validI, elim disjE)
    fix s x and t :: "('a, 'b) crank"
    assume t: "run_state (ticks c n) s = (x, t)"
    show "\<exists>k'\<in>{k..k + int (Suc n)}. rinv r0 k' {} t" if "rinv r0 k {} s"
      using validD [OF Suc.IH that t] by force
    show "\<exists>k'\<in>{k..k + int (Suc n)}. rinv r0 k' {} t" if "rinv r0 (k + 1) {} s"
      using validD [OF Suc.IH that t] by force
  qed
  have bounds: "\<exists>k'\<in>{k..k + int (Suc n)}. rinv r0 k' {} s" if "advanced r0 k s" for s :: "('a, 'b) crank"
    using that by (elim disjE) (rule bexI [of _ k] bexI [of _ "k + 1"], simp_all)+
  show ?case
    unfolding ticks.simps
    by (rule valid_bindE [OF _ step], rule valid_weaken [OF tick_inv])
      (assumption, simp only: bounds split: sum.splits, blast)
qed

text \<open>Start-up leaves an empty trace and pairwise different background rounds.\<close>

abbreviation booted :: "('w, 'pk) crank \<Rightarrow> bool" where
  "booted s \<equiv> events s = [] \<and> distinct (backgroundRounds s)"

lemma track_booted [hoare]: "keeps booted (trackBackgroundRound c r)"
  by (rule validI) (auto simp: trackBackgroundRound_def now_def set_add_def split: prod.splits if_splits)

lemma startup_booted: "keeps booted (startup c)"
proof -
  have core: "on_core booted" by (rule on_coreI) (simp add: core_def)
  show ?thesis
    unfolding startup_def recoverBackgroundRoundsOnStartup_def recoverRound_def
    by (intro findActiveRound_core observe_core serve_core core hoare) auto
qed

text \<open>The state when polling begins, and after a number of polls.\<close>

definition polling :: "('w, 'pk) crank_env \<Rightarrow> 'w \<Rightarrow> nat \<Rightarrow> ('w, 'pk) crank" where
  "polling c w n = snd (run_state (ticks c n) (snd (run_state (startup c) (initial w))))"

lemma run_consistent:
  "\<exists>k\<in>{currentRoundId (polling c w 0)..currentRoundId (polling c w 0) + int n}.
     rinv (currentRoundId (polling c w 0)) k {} (polling c w n)"
proof -
  define s0 where "s0 = snd (run_state (startup c) (initial w))"
  have "booted s0"
    unfolding s0_def by (rule valid_run [OF startup_booted]) (simp add: initial_def)
  then have "rinv (currentRoundId s0) (currentRoundId s0) {} s0" by (simp add: rinv_def consistent_def)
  from valid_run [OF ticks_inv [of _ _ c n] this] show ?thesis by (simp add: polling_def s0_def)
qed

section \<open>Properties\<close>

text \<open>
  C10. No round is ever created twice and none is ever locked twice: in a run of any number of
  polls, the rounds of the successful create transactions are pairwise different, and so are
  those of the successful lock transactions.
\<close>

theorem rounds_handled_once:
  "distinct (started (events (polling c w n))) \<and> distinct (locked (events (polling c w n)))"
  using run_consistent [of c w n] by (auto simp: rinv_def consistent_def)

text \<open>
  C8. No round is forgotten: the current round grows by at most one per poll, and every round
  between the first and the current one is still queued for background cleanup or its account
  is gone, that is, the newest thing the crank saw or did about it is a missing account or its
  own successful close.
\<close>

theorem no_round_forgotten:
  "currentRoundId (polling c w n) \<in> {currentRoundId (polling c w 0)..currentRoundId (polling c w 0) + int n} \<and>
   {currentRoundId (polling c w 0)..<currentRoundId (polling c w n)} - {r. gone r (events (polling c w n))}
     \<subseteq> set (backgroundRounds (polling c w n))"
  using run_consistent [of c w n] by (auto simp: rinv_def consistent_def)

end
