(* ===== verification/Degen_Executor.thy ===== *)
theory Degen_Executor
  imports Firebase Degen_Candidates Payout
begin

text \<open>
  The degen executor, \<open>crank/src/degenExecutor.ts\<close>: it turns the prize of a settled round
  into a randomly drawn token, trying the candidates in rank order, several slippage levels and
  several route sizes each, and falls back to paying out USDC when none works.

  The RPC connection, the Jupiter API and the token packages are operations of the record
  \<open>exec_env\<close>. An error is a message, a confirm timeout that carries the signature
  (\<open>TxTimeoutError\<close>), or \<open>Diverges\<close> for the candidate derivation that does not
  return; no handler of the source can see the last one. The ghost field \<open>ex_events\<close> is the
  trace of transactions, newest first.
\<close>

section \<open>Data\<close>

datatype exec_error = Error string | TxTimeoutError string | Diverges

fun message :: "exec_error \<Rightarrow> string" where
  "message (Error msg) = msg"
| "message (TxTimeoutError signature) = ''tx timeout (may have landed): '' @ signature"
| "message Diverges = []"

record 'pk DegenClaimAccount =
  dc_round :: 'pk
  dc_winner :: 'pk
  dc_roundId :: int
  dc_status :: int
  dc_poolVersion :: int
  dc_candidateWindow :: nat
  dc_randomness :: buffer
  dc_fallbackAfterTs :: int

record JupiterQuote =
  jq_otherAmountThreshold :: int
  jq_routePlan_json :: string

record SerializedInstruction =
  si_programId :: string
  si_accounts :: "(string \<times> bool \<times> bool) list"
  si_data :: string

record JupiterSwapInstructions =
  sw_computeBudgetInstructions :: "SerializedInstruction list"
  sw_setupInstructions :: "SerializedInstruction list"
  sw_swapInstruction :: SerializedInstruction
  sw_cleanupInstruction :: "SerializedInstruction option"
  sw_addressLookupTableAddresses :: "string list"

record 'a http_response =
  rs_ok :: bool
  rs_status :: int
  rs_text :: string
  rs_json :: "'a result"

record ('pk, 'alt) vtx =
  vt_payer :: 'pk
  vt_blockhash :: string
  vt_ixs :: "'pk instruction list"
  vt_alts :: "'alt list"

text \<open>The answer of \<open>getSignatureStatuses\<close>: the confirmation status and the error.\<close>

type_synonym signature_status = "string \<times> string option"

record ('w, 'pk, 'alt) exec_env =
  ex_sv :: "('w, 'pk) services"
  ex_chain :: "'pk chain_env"
  ex_executor :: 'pk
  TOKEN_2022_PROGRAM_ID :: 'pk
  COMPUTE_BUDGET_PROGRAM :: 'pk
  SLIPPAGE_SEQUENCE :: "int list"
  QUOTE_MAX_ACCOUNTS_SEQUENCE :: "int list"
  JUPITER_API_KEY :: string
  FALLBACK_CU_LIMIT :: int
  FALLBACK_PRIORITY_FEE :: int
  DEGEN_PRIORITY_FEE :: int
  dynamicPool :: "string list option"
  ex_DEGEN_POOL :: "string list"
  ex_digest :: "buffer \<Rightarrow> buffer"
  jackpotAlt :: "'alt option"
  getAccountOwner :: "'pk \<Rightarrow> ('w, 'pk option result) state"
  getTokenAccountBalance :: "'pk \<Rightarrow> ('w, int result) state"
  getLatestBlockhashCtx :: "('w, (string \<times> int) result) state"
  simulateTransaction :: "('pk, 'alt) vtx \<Rightarrow> ('w, string option result) state"
  sendTransaction :: "('pk, 'alt) vtx \<Rightarrow> bool \<Rightarrow> ('w, string result) state"
  confirmTransaction :: "string \<Rightarrow> (string \<times> int) option \<Rightarrow> ('w, unit result) state"
  getSignatureStatus :: "string \<Rightarrow> ('w, signature_status option result) state"
  quoteRequest :: "(string \<times> string) list \<Rightarrow> ('w, JupiterQuote http_response result) state"
  swapRequest :: "string \<Rightarrow> JupiterQuote \<Rightarrow> string \<Rightarrow> ('w, JupiterSwapInstructions http_response result) state"
  degenClaimAll :: "('w, 'pk DegenClaimAccount list result) state"
  ataOfProgram :: "'pk \<Rightarrow> 'pk \<Rightarrow> bool \<Rightarrow> 'pk \<Rightarrow> 'pk result"
  createAtaIdempotent :: "'pk \<Rightarrow> 'pk \<Rightarrow> 'pk \<Rightarrow> 'pk \<Rightarrow> 'pk \<Rightarrow> 'pk instruction"
  createTransfer :: "'pk \<Rightarrow> 'pk \<Rightarrow> 'pk \<Rightarrow> int \<Rightarrow> 'pk \<Rightarrow> 'pk instruction"
  decodeBase64 :: "string \<Rightarrow> buffer"
  newLookupTable :: "'pk \<Rightarrow> buffer \<Rightarrow> 'alt result"
  compileToV0Message :: "('pk, 'alt) vtx \<Rightarrow> unit result"
  serializedLength :: "('pk, 'alt) vtx \<Rightarrow> int result"

text \<open>
  What the trace records: an attempt with its transaction; that the transaction was sent; that the
  executor saw it confirmed; that it was still unknown when the polls for its signature ended; and
  what the check after a timeout read as the status byte of the claim (\<open>Inl\<close> when it failed).
\<close>

datatype attempt = Execution candidate | Fallback int

datatype ('pk, 'alt) exec_event =
    Attempting attempt "('pk, 'alt) vtx"
  | Submitted "('pk, 'alt) vtx"
  | Confirmed "('pk, 'alt) vtx"
  | Unconfirmed "('pk, 'alt) vtx" string
  | Rechecked "int option result"

record ('w, 'pk, 'alt) executor =
  mintOwnerCache :: "string \<Rightarrow> 'pk option option"
  ex_events :: "('pk, 'alt) exec_event list"
  ex_world :: 'w

type_synonym ('w, 'pk, 'alt, 'a) exec = "(('w, 'pk, 'alt) executor, exec_error + 'a) state"

text \<open>A call to the outside, and the values of pure package functions; a failure is an \<open>Error\<close>.\<close>

definition call :: "('w, 'a result) state \<Rightarrow> ('w, 'pk, 'alt, 'a) exec" where
  "call m = State (\<lambda>s. case run_state m (ex_world s) of (x, w) \<Rightarrow> (map_sum Error id x, s\<lparr>ex_world := w\<rparr>))"

definition pureE :: "'a result \<Rightarrow> ('w, 'pk, 'alt, 'a) exec" where
  "pureE r = liftE (map_sum Error id r)"

definition throwError :: "string \<Rightarrow> ('w, 'pk, 'alt, 'a) exec" where
  "throwError msg = throwE (Error msg)"

definition note_event :: "('pk, 'alt) exec_event \<Rightarrow> (('w, 'pk, 'alt) executor, unit) state" where
  "note_event ev = State_Monad.update (\<lambda>s. s\<lparr>ex_events := ev # ex_events s\<rparr>)"

definition bn_toNumber :: "int \<Rightarrow> int result" where
  "bn_toNumber n = (if n < 2 ^ 53 then Inr n else Inl ''Number can only safely store up to 53 bits'')"

definition parse_key :: "('w, 'pk, 'alt) exec_env \<Rightarrow> string \<Rightarrow> ('w, 'pk, 'alt, 'pk) exec" where
  "parse_key c s = (case parsePublicKey (ce_sdk (ex_chain c)) s of
     None \<Rightarrow> throwError ''Invalid public key input'' | Some k \<Rightarrow> returnE k)"

section \<open>Error classification\<close>

definition isTxTooLargeError :: "string \<Rightarrow> bool" where
  "isTxTooLargeError msg \<longleftrightarrow>
     js_includes msg ''encoding overruns Uint8Array'' \<or> js_includes msg ''Transaction too large'' \<or>
     js_includes msg ''VersionedTransaction too large'' \<or> js_includes msg ''too large:''"

definition isSlippageError :: "string \<Rightarrow> bool" where
  "isSlippageError msg \<longleftrightarrow>
     js_includes msg ''6046'' \<or> js_includes msg ''DegenOutputNotReceived'' \<or>
     js_includes msg ''SlippageToleranceExceeded''"

definition isConfirmTimeoutError :: "string \<Rightarrow> bool" where
  "isConfirmTimeoutError msg \<longleftrightarrow>
     js_includes msg ''was not confirmed in'' \<or> js_includes msg ''TransactionExpiredTimeoutError'' \<or>
     js_includes msg ''TransactionExpiredBlockheightExceededError''"

section \<open>Jupiter and the mint owners\<close>

definition jupiterFetch :: "('w, 'pk, 'alt) exec_env \<Rightarrow> ('w, 'a http_response result) state \<Rightarrow> ('w, 'pk, 'alt, 'a) exec" where
  "jupiterFetch c request =
     (if JUPITER_API_KEY c = [] then throwError ''Missing JUPITER_API_KEY''
      else bindE (call request) (\<lambda>response.
        if \<not> rs_ok response
        then throwError (''Jupiter '' @ js_string (rs_status response) @ '': '' @ rs_text response)
        else pureE (rs_json response)))"

definition quote_params :: "('w, 'pk, 'alt) exec_env \<Rightarrow> string \<Rightarrow> string \<Rightarrow> int option \<Rightarrow> bool \<Rightarrow> int option \<Rightarrow>
    (string \<times> string) list" where
  "quote_params c outputMint amount maxAccounts onlyDirectRoutes slippageBps =
     [(''inputMint'', toBase58 (ce_sdk (ex_chain c)) (usdc (ex_chain c))), (''outputMint'', outputMint),
      (''amount'', amount),
      (''slippageBps'', js_string (case slippageBps of Some b \<Rightarrow> b
         | None \<Rightarrow> (case SLIPPAGE_SEQUENCE c of b # _ \<Rightarrow> b | [] \<Rightarrow> 300))),
      (''swapMode'', ''ExactIn''), (''restrictIntermediateTokens'', ''true'')] @
     (case maxAccounts of Some n \<Rightarrow> if n \<noteq> 0 then [(''maxAccounts'', js_string n)] else [] | None \<Rightarrow> []) @
     (if onlyDirectRoutes then [(''onlyDirectRoutes'', ''true'')] else [])"

definition getQuoteWithMaxAccounts :: "('w, 'pk, 'alt) exec_env \<Rightarrow> string \<Rightarrow> string \<Rightarrow> int option \<Rightarrow> bool \<Rightarrow>
    int option \<Rightarrow> ('w, 'pk, 'alt, JupiterQuote) exec" where
  "getQuoteWithMaxAccounts c outputMint amount maxAccounts onlyDirectRoutes slippageBps =
     jupiterFetch c (quoteRequest c
       (quote_params c outputMint amount maxAccounts onlyDirectRoutes slippageBps))"

definition getSwapInstructions :: "('w, 'pk, 'alt) exec_env \<Rightarrow> string \<Rightarrow> JupiterQuote \<Rightarrow> string \<Rightarrow>
    ('w, 'pk, 'alt, JupiterSwapInstructions) exec" where
  "getSwapInstructions c userPublicKey quote destinationTokenAccount =
     jupiterFetch c (swapRequest c userPublicKey quote destinationTokenAccount)"

definition getMintOwner :: "('w, 'pk, 'alt) exec_env \<Rightarrow> 'pk \<Rightarrow> ('w, 'pk, 'alt, 'pk option) exec" where
  "getMintOwner c mint =
     (let key = toBase58 (ce_sdk (ex_chain c)) mint in
      doE State_Monad.get (\<lambda>s.
      case mintOwnerCache s key of
        Some owner \<Rightarrow> returnE owner
      | None \<Rightarrow>
          bindE (call (getAccountOwner c mint)) (\<lambda>owner.
          doE (State_Monad.update (\<lambda>s. s\<lparr>mintOwnerCache := (mintOwnerCache s)(key \<mapsto> owner)\<rparr>)) (\<lambda>_.
          returnE owner))))"

definition supported_owner :: "('w, 'pk, 'alt) exec_env \<Rightarrow> 'pk \<Rightarrow> bool" where
  "supported_owner c owner \<longleftrightarrow>
     owner = TOKEN_PROGRAM_ID (ce_programs (ex_chain c)) \<or> owner = TOKEN_2022_PROGRAM_ID c"

definition deserializeInstruction :: "('w, 'pk, 'alt) exec_env \<Rightarrow> SerializedInstruction \<Rightarrow>
    ('w, 'pk, 'alt, 'pk instruction) exec" where
  "deserializeInstruction c ix =
     bindE (parse_key c (si_programId ix)) (\<lambda>programId.
     bindE (mapE (\<lambda>(pubkey, isSigner, isWritable). bindE (parse_key c pubkey) (\<lambda>k.
        returnE \<lparr>am_pubkey = k, am_isSigner = isSigner, am_isWritable = isWritable\<rparr>)) (si_accounts ix)) (\<lambda>keys.
     returnE \<lparr>ix_programId = programId, ix_keys = keys, ix_data = decodeBase64 c (si_data ix)\<rparr>))"

definition resolveLookupTables :: "('w, 'pk, 'alt) exec_env \<Rightarrow> string list \<Rightarrow> ('w, 'pk, 'alt, 'alt list) exec" where
  "resolveLookupTables c addresses =
     (if addresses = [] then returnE []
      else bindE (mapE (parse_key c) addresses) (\<lambda>keys.
        bindE (call (getMultipleAccountsInfo (ex_sv c) keys)) (\<lambda>accounts.
        bindE (mapE (\<lambda>(key, account). case account of
            None \<Rightarrow> returnE []
          | Some data \<Rightarrow> bindE (pureE (newLookupTable c key data)) (\<lambda>t. returnE [t])) (zip keys accounts)) (\<lambda>ts.
        returnE (concat ts)))))"

definition routeHashFromQuote :: "('w, 'pk, 'alt) exec_env \<Rightarrow> JupiterQuote \<Rightarrow> int list" where
  "routeHashFromQuote c quote = map uint (ex_digest c (buffer_from (jq_routePlan_json quote)))"

section \<open>Building an execution\<close>

text \<open>The executor's account is emptied first when it still holds USDC; no balance, no transfer.\<close>

definition drainExecutor :: "('w, 'pk, 'alt) exec_env \<Rightarrow> 'pk \<Rightarrow> ('w, 'pk, 'alt, 'pk instruction list) exec" where
  "drainExecutor c executorUsdcAta =
     tryE (bindE (call (getTokenAccountBalance c executorUsdcAta)) (\<lambda>staleAmount.
        returnE (if 0 < staleAmount
          then [createTransfer c executorUsdcAta (treasury (ex_chain c)) (ex_executor c) staleAmount
                  (TOKEN_PROGRAM_ID (ce_programs (ex_chain c)))]
          else [])))
      (\<lambda>_. returnE [])"

text \<open>The swap instructions of Jupiter: compute limit, begin with the quoted minimum, swap, tables.\<close>

definition swapInstructionsFor :: "('w, 'pk, 'alt) exec_env \<Rightarrow> 'pk DegenClaimAccount \<Rightarrow> candidate \<Rightarrow> int \<Rightarrow>
    int option \<Rightarrow> bool \<Rightarrow> int option \<Rightarrow> 'pk option \<Rightarrow> 'pk \<Rightarrow> 'pk \<Rightarrow>
    ('w, 'pk, 'alt, 'pk instruction list \<times> 'alt list) exec" where
  "swapInstructionsFor c claim cand payoutRaw maxAccounts onlyDirectRoutes slippageBps vrfPayer selectedMint receiverAta =
     bindE (getQuoteWithMaxAccounts c (cd_mint cand) (js_string payoutRaw) maxAccounts onlyDirectRoutes slippageBps) (\<lambda>quote.
     bindE (getSwapInstructions c (toBase58 (ce_sdk (ex_chain c)) (ex_executor c)) quote
              (toBase58 (ce_sdk (ex_chain c)) receiverAta)) (\<lambda>swapIxs.
     bindE (mapE (deserializeInstruction c) (sw_computeBudgetInstructions swapIxs)) (\<lambda>budgetIxs.
     let cuLimitIxs = filter (\<lambda>ix. ix_programId ix = COMPUTE_BUDGET_PROGRAM c \<and>
           (case ix_data ix of b # _ \<Rightarrow> b = 2 | [] \<Rightarrow> False)) budgetIxs in
     bindE (mapE (deserializeInstruction c) (sw_setupInstructions swapIxs)) (\<lambda>setup.
     bindE (deserializeInstruction c (sw_swapInstruction swapIxs)) (\<lambda>swap.
     bindE (mapE (deserializeInstruction c)
              (case sw_cleanupInstruction swapIxs of None \<Rightarrow> [] | Some ix \<Rightarrow> [ix])) (\<lambda>cleanup.
     bindE (pureE (bn_toNumber (dc_roundId claim))) (\<lambda>roundId.
     bindE (pureE (buildBeginDegenExecution (ex_chain c) (ex_executor c) (dc_winner claim) roundId
              (cd_rank cand) (cd_index cand) (jq_otherAmountThreshold quote)
              (routeHashFromQuote c quote) selectedMint receiverAta vrfPayer)) (\<lambda>beginIx.
     bindE (resolveLookupTables c (sw_addressLookupTableAddresses swapIxs)) (\<lambda>alts.
     returnE (cuLimitIxs @ [setComputeUnitPrice (ex_sv c) (DEGEN_PRIORITY_FEE c)] @ [beginIx] @ setup @ [swap] @ cleanup,
       alts))))))))))"

definition is_direct_usdc :: "('w, 'pk, 'alt) exec_env \<Rightarrow> candidate \<Rightarrow> bool" where
  "is_direct_usdc c cand \<longleftrightarrow> cd_mint cand = toBase58 (ce_sdk (ex_chain c)) (usdc (ex_chain c))"

definition DEGEN_DIRECT_USDC_CU_LIMIT :: int where "DEGEN_DIRECT_USDC_CU_LIMIT = 300000"

text \<open>What the body of the transaction is, with the lookup tables of the route.\<close>

definition executionInstructions :: "('w, 'pk, 'alt) exec_env \<Rightarrow> 'pk DegenClaimAccount \<Rightarrow> candidate \<Rightarrow> int \<Rightarrow>
    int option \<Rightarrow> bool \<Rightarrow> int option \<Rightarrow> 'pk option \<Rightarrow> 'pk \<Rightarrow> 'pk \<Rightarrow> 'pk instruction list \<Rightarrow> 'pk instruction \<Rightarrow>
    ('w, 'pk, 'alt, 'pk instruction list \<times> 'alt list) exec" where
  "executionInstructions c claim cand payoutRaw maxAccounts onlyDirectRoutes slippageBps vrfPayer
       selectedMint receiverAta prefixIxs beginIx =
     (if is_direct_usdc c cand then
        bindE (pureE (ata (ex_chain c) (usdc (ex_chain c)) (ex_executor c) False)) (\<lambda>executorUsdcAta.
        returnE
          ([setComputeUnitLimit (ex_sv c) DEGEN_DIRECT_USDC_CU_LIMIT] @ prefixIxs @
           [setComputeUnitPrice (ex_sv c) (DEGEN_PRIORITY_FEE c), beginIx] @
           [createTransfer c executorUsdcAta receiverAta (ex_executor c) payoutRaw
              (TOKEN_PROGRAM_ID (ce_programs (ex_chain c)))],
           []))
      else
        bindE (swapInstructionsFor c claim cand payoutRaw maxAccounts onlyDirectRoutes slippageBps vrfPayer
                 selectedMint receiverAta) (\<lambda>(ixs, alts).
        returnE (prefixIxs @ ixs, alts)))"

definition buildExecutionTx :: "('w, 'pk, 'alt) exec_env \<Rightarrow> 'pk DegenClaimAccount \<Rightarrow> candidate \<Rightarrow> int \<Rightarrow>
    int option \<Rightarrow> bool \<Rightarrow> int option \<Rightarrow> 'pk option \<Rightarrow> ('w, 'pk, 'alt, ('pk, 'alt) vtx \<times> string \<times> int) exec" where
  "buildExecutionTx c claim cand payoutRaw maxAccounts onlyDirectRoutes slippageBps vrfPayer =
     (let sdk = ce_sdk (ex_chain c); winner = dc_winner claim in
      bindE (parse_key c (cd_mint cand)) (\<lambda>selectedMint.
      bindE (getMintOwner c selectedMint) (\<lambda>owner.
      case owner of
        None \<Rightarrow> throwError (''selected mint account not found: '' @ toBase58 sdk selectedMint)
      | Some selectedMintOwner \<Rightarrow>
          if \<not> supported_owner c selectedMintOwner then
            throwError (''unsupported selected mint program for v3 degen execution: '' @
              toBase58 sdk selectedMint @ '' owner='' @ toBase58 sdk selectedMintOwner)
          else
            bindE (pureE (ataOfProgram c selectedMint winner True selectedMintOwner)) (\<lambda>receiverAta.
            bindE (pureE (ata (ex_chain c) (usdc (ex_chain c)) (ex_executor c) False)) (\<lambda>executorUsdcAta.
            bindE (drainExecutor c executorUsdcAta) (\<lambda>drainIxs.
            let prefixIxs = drainIxs @
                  [createAtaIdempotent c (ex_executor c) receiverAta winner selectedMint selectedMintOwner];
                routeHash = (if is_direct_usdc c cand
                  then map uint (ex_digest c (buffer_from ''direct-usdc'')) else replicate 32 0) in
            bindE (pureE (bn_toNumber (dc_roundId claim))) (\<lambda>roundId.
            bindE (pureE (buildBeginDegenExecution (ex_chain c) (ex_executor c) winner roundId
                     (cd_rank cand) (cd_index cand) payoutRaw routeHash selectedMint receiverAta vrfPayer)) (\<lambda>beginIx.
            bindE (pureE (buildFinalizeDegenSuccess (ex_chain c) (ex_executor c) winner roundId receiverAta)) (\<lambda>finalizeIx.
            bindE (executionInstructions c claim cand payoutRaw maxAccounts onlyDirectRoutes slippageBps vrfPayer
                     selectedMint receiverAta prefixIxs beginIx) (\<lambda>(ixs, alts).
            let mergedAlts = (case jackpotAlt c of Some t \<Rightarrow> t # alts | None \<Rightarrow> alts) in
            bindE (call (getLatestBlockhashCtx c)) (\<lambda>(blockhash, lastValidBlockHeight).
            let tx = \<lparr>vt_payer = ex_executor c, vt_blockhash = blockhash, vt_ixs = ixs @ [finalizeIx],
                      vt_alts = mergedAlts\<rparr> in
            bindE (pureE (compileToV0Message c tx)) (\<lambda>_.
            returnE (tx, blockhash, lastValidBlockHeight)))))))))))))"

section \<open>Sending\<close>

definition MAX_TX_RAW_BYTES :: int where "MAX_TX_RAW_BYTES = 1232"

text \<open>The polls for the signature status after a confirm timeout.\<close>

fun pollSignature :: "('w, 'pk, 'alt) exec_env \<Rightarrow> nat \<Rightarrow> string \<Rightarrow> ('w, 'pk, 'alt, string) exec" where
  "pollSignature c 0 sig = throwE (TxTimeoutError sig)"
| "pollSignature c (Suc attempts) sig =
     bindE (call (getSignatureStatus c sig)) (\<lambda>status.
     case status of
       Some (confirmationStatus, err) \<Rightarrow>
         if confirmationStatus = ''confirmed'' \<or> confirmationStatus = ''finalized'' then
           (case err of
              None \<Rightarrow> returnE sig
            | Some e \<Rightarrow> throwError (''tx landed with error: '' @ e))
         else pollSignature c attempts sig
     | None \<Rightarrow> pollSignature c attempts sig)"

text \<open>
  \<open>confirmTransaction\<close> resolves also for a transaction that failed on chain: the executor takes
  it for done. The trace keeps apart what it saw confirmed and what it gave up on.
\<close>

definition note_outcome :: "('pk, 'alt) vtx \<Rightarrow> exec_error + string \<Rightarrow> (('w, 'pk, 'alt) executor, unit) state" where
  "note_outcome tx outcome = (case outcome of
     Inr sig \<Rightarrow> note_event (Confirmed tx)
   | Inl (TxTimeoutError sig) \<Rightarrow> note_event (Unconfirmed tx sig)
   | Inl e \<Rightarrow> State_Monad.return ())"

definition simulateAndSend :: "('w, 'pk, 'alt) exec_env \<Rightarrow> ('pk, 'alt) vtx \<Rightarrow> (string \<times> int) option \<Rightarrow>
    ('w, 'pk, 'alt, string) exec" where
  "simulateAndSend c tx blockhashCtx =
     bindE (pureE (serializedLength c tx)) (\<lambda>len.
     if MAX_TX_RAW_BYTES < len then
       throwError (''transaction too large: '' @ js_string len @ '' bytes (max '' @ js_string MAX_TX_RAW_BYTES @ '')'')
     else bindE (call (simulateTransaction c tx)) (\<lambda>err.
     case err of
       Some e \<Rightarrow> throwError (''simulation failed: '' @ e)
     | None \<Rightarrow>
         bindE (call (sendTransaction c tx True)) (\<lambda>sig.
         doE (note_event (Submitted tx)) (\<lambda>_.
         doE (tryE (bindE (call (confirmTransaction c sig blockhashCtx)) (\<lambda>_. returnE sig))
           (\<lambda>confirmErr. if isConfirmTimeoutError (message confirmErr) then pollSignature c 3 sig
                         else throwE confirmErr)) (\<lambda>outcome.
         doE (note_outcome tx outcome) (\<lambda>_. liftE outcome))))))"

section \<open>Trying a candidate\<close>

text \<open>
  One execution: build, simulate, send. The loops keep the last two kinds of error they recover
  from; their result says whether the prize was executed, the \<open>return\<close> of the source.
\<close>

record trial =
  tr_executed :: bool
  tr_lastSizedError :: "exec_error option"
  tr_lastSlippageError :: "exec_error option"

definition executeOnce :: "('w, 'pk, 'alt) exec_env \<Rightarrow> 'pk DegenClaimAccount \<Rightarrow> candidate \<Rightarrow> int \<Rightarrow>
    int option \<Rightarrow> bool \<Rightarrow> int option \<Rightarrow> 'pk option \<Rightarrow> ('w, 'pk, 'alt, string) exec" where
  "executeOnce c claim cand payoutRaw maxAccounts onlyDirectRoutes slipBps vrfPayer =
     bindE (buildExecutionTx c claim cand payoutRaw maxAccounts onlyDirectRoutes slipBps vrfPayer)
       (\<lambda>(tx, blockhash, lastValidBlockHeight).
     doE (note_event (Attempting (Execution cand) tx)) (\<lambda>_.
     simulateAndSend c tx (Some (blockhash, lastValidBlockHeight))))"

definition sizedError :: "exec_error \<Rightarrow> int option \<Rightarrow> exec_error" where
  "sizedError e maxAccounts = Error (message e @
     (case maxAccounts of Some n \<Rightarrow> if n \<noteq> 0 then '' (maxAccounts='' @ js_string n @ '')'' else [] | None \<Rightarrow> []))"

text \<open>The inner loop: shrinking \<open>maxAccounts\<close>; it stops at the first error that is not about the size.\<close>

fun tryMaxAccounts :: "('w, 'pk, 'alt) exec_env \<Rightarrow> 'pk DegenClaimAccount \<Rightarrow> candidate \<Rightarrow> int \<Rightarrow> int option \<Rightarrow>
    'pk option \<Rightarrow> int option list \<Rightarrow> trial \<Rightarrow> ('w, 'pk, 'alt, trial) exec" where
  "tryMaxAccounts c claim cand payoutRaw slipBps vrfPayer [] tr = returnE tr"
| "tryMaxAccounts c claim cand payoutRaw slipBps vrfPayer (maxAccounts # rest) tr =
     doE (executeOnce c claim cand payoutRaw maxAccounts False slipBps vrfPayer) (\<lambda>r.
     case r of
       Inr sig \<Rightarrow> returnE (tr\<lparr>tr_executed := True\<rparr>)
     | Inl e \<Rightarrow>
         if isTxTooLargeError (message e) \<and> \<not> is_direct_usdc c cand then
           tryMaxAccounts c claim cand payoutRaw slipBps vrfPayer rest
             (tr\<lparr>tr_lastSizedError := Some (sizedError e maxAccounts)\<rparr>)
         else if isSlippageError (message e) then returnE (tr\<lparr>tr_lastSlippageError := Some e\<rparr>)
         else throwE e)"

text \<open>The last resort of a slippage level: a single-hop route.\<close>

definition tryDirectRoute :: "('w, 'pk, 'alt) exec_env \<Rightarrow> 'pk DegenClaimAccount \<Rightarrow> candidate \<Rightarrow> int \<Rightarrow> int option \<Rightarrow>
    'pk option \<Rightarrow> trial \<Rightarrow> ('w, 'pk, 'alt, trial) exec" where
  "tryDirectRoute c claim cand payoutRaw slipBps vrfPayer tr =
     (if tr_executed tr \<or> tr_lastSizedError tr = None \<or> is_direct_usdc c cand then returnE tr
      else doE (executeOnce c claim cand payoutRaw (Some 20) True slipBps vrfPayer) (\<lambda>r.
        case r of
          Inr sig \<Rightarrow> returnE (tr\<lparr>tr_executed := True\<rparr>)
        | Inl e \<Rightarrow>
            if isTxTooLargeError (message e) then
              returnE (tr\<lparr>tr_lastSizedError := Some (Error (message e @ '' (directRoute maxAccounts=20)''))\<rparr>)
            else if isSlippageError (message e) then returnE (tr\<lparr>tr_lastSlippageError := Some e\<rparr>)
            else throwE e))"

text \<open>The outer loop: escalating slippage.\<close>

fun trySlippage :: "('w, 'pk, 'alt) exec_env \<Rightarrow> 'pk DegenClaimAccount \<Rightarrow> candidate \<Rightarrow> int \<Rightarrow> 'pk option \<Rightarrow>
    int option list \<Rightarrow> int option list \<Rightarrow> trial \<Rightarrow> ('w, 'pk, 'alt, trial) exec" where
  "trySlippage c claim cand payoutRaw vrfPayer maxAccountsAttempts [] tr = returnE tr"
| "trySlippage c claim cand payoutRaw vrfPayer maxAccountsAttempts (slipBps # rest) tr =
     bindE (tryMaxAccounts c claim cand payoutRaw slipBps vrfPayer maxAccountsAttempts
              (tr\<lparr>tr_lastSizedError := None\<rparr>)) (\<lambda>tr.
     bindE (tryDirectRoute c claim cand payoutRaw slipBps vrfPayer tr) (\<lambda>tr.
     if tr_executed tr then returnE tr
     else trySlippage c claim cand payoutRaw vrfPayer maxAccountsAttempts rest tr))"

text \<open>
  The body of the candidate loop up to its \<open>catch\<close>: whether the claim is done. A mint of an
  unknown token program throws; no route at all means the next candidate.
\<close>

definition attemptCandidate :: "('w, 'pk, 'alt) exec_env \<Rightarrow> 'pk DegenClaimAccount \<Rightarrow> int \<Rightarrow> 'pk option \<Rightarrow> candidate \<Rightarrow>
    ('w, 'pk, 'alt, bool) exec" where
  "attemptCandidate c claim payoutRaw vrfPayer cand =
     (let directUsdc = is_direct_usdc c cand;
          maxAccountsAttempts = (if directUsdc then [None] else map Some (QUOTE_MAX_ACCOUNTS_SEQUENCE c));
          slippageSteps = (if directUsdc then [None] else map Some (SLIPPAGE_SEQUENCE c)) in
      bindE (if directUsdc then returnE True
        else bindE (parse_key c (cd_mint cand)) (\<lambda>selectedMint.
          bindE (getMintOwner c selectedMint) (\<lambda>mintOwner.
          if \<not> (case mintOwner of None \<Rightarrow> False | Some o' \<Rightarrow> supported_owner c o') then
            throwError (''unsupported mint program: '' @
              (case mintOwner of None \<Rightarrow> ''unknown'' | Some o' \<Rightarrow> toBase58 (ce_sdk (ex_chain c)) o'))
          else tryE (bindE (getQuoteWithMaxAccounts c (cd_mint cand) (js_string payoutRaw) None False None)
                       (\<lambda>_. returnE True))
                 (\<lambda>_. returnE False)))) (\<lambda>viable.
      if \<not> viable then returnE False
      else bindE (trySlippage c claim cand payoutRaw vrfPayer maxAccountsAttempts slippageSteps
                    \<lparr>tr_executed = False, tr_lastSizedError = None, tr_lastSlippageError = None\<rparr>) (\<lambda>tr.
        if tr_executed tr then returnE True
        else case tr_lastSizedError tr of
            Some e \<Rightarrow> throwE e
          | None \<Rightarrow> (case tr_lastSlippageError tr of Some e \<Rightarrow> throwE e | None \<Rightarrow> returnE False))))"

text \<open>The check after a confirm timeout: has the claim moved past \<open>VrfReady\<close>?\<close>

definition is_timeout :: "exec_error \<Rightarrow> bool" where
  "is_timeout e \<longleftrightarrow> (case e of TxTimeoutError _ \<Rightarrow> True | _ \<Rightarrow> isConfirmTimeoutError (message e))"

definition claimMovedOn :: "('w, 'pk, 'alt) exec_env \<Rightarrow> 'pk DegenClaimAccount \<Rightarrow> ('w, 'pk, 'alt, bool) exec" where
  "claimMovedOn c claim =
     tryE (bindE (pureE (bn_toNumber (dc_roundId claim))) (\<lambda>roundId.
        bindE (call (getAccountInfo (ex_sv c) (degen_claim_pda (ex_chain c) roundId (dc_winner claim)))) (\<lambda>dcInfo.
        let onChainStatus = (case dcInfo of None \<Rightarrow> None | Some data \<Rightarrow> js_at data (DISC + 72)) in
        doE (note_event (Rechecked (Inr onChainStatus))) (\<lambda>_.
        returnE (case onChainStatus of None \<Rightarrow> False | Some st \<Rightarrow> DC_Executing \<le> st)))))
      (\<lambda>checkErr. doE (note_event (Rechecked (Inl (message checkErr)))) (\<lambda>_. returnE False))"

fun tryCandidates :: "('w, 'pk, 'alt) exec_env \<Rightarrow> 'pk DegenClaimAccount \<Rightarrow> int \<Rightarrow> 'pk option \<Rightarrow> candidate list \<Rightarrow>
    ('w, 'pk, 'alt, bool) exec" where
  "tryCandidates c claim payoutRaw vrfPayer [] = returnE False"
| "tryCandidates c claim payoutRaw vrfPayer (cand # rest) =
     bindE (tryE (attemptCandidate c claim payoutRaw vrfPayer cand)
              (\<lambda>e. if is_timeout e then claimMovedOn c claim else returnE False)) (\<lambda>finished.
     if finished then returnE True else tryCandidates c claim payoutRaw vrfPayer rest)"

section \<open>A claim\<close>

definition fallbackReason :: int where "fallbackReason = 3"

definition claimFallback :: "('w, 'pk, 'alt) exec_env \<Rightarrow> 'pk DegenClaimAccount \<Rightarrow> int \<Rightarrow> ('w, 'pk, 'alt, unit) exec" where
  "claimFallback c claim nowSec =
     (let e = ex_chain c; winner = dc_winner claim in
      tryE
        (bindE (pureE (ata e (usdc e) winner False)) (\<lambda>winnerAta.
         let prefixIxs =
               [setComputeUnitLimit (ex_sv c) (FALLBACK_CU_LIMIT c),
                setComputeUnitPrice (ex_sv c) (FALLBACK_PRIORITY_FEE c),
                createAtaIdempotent c (ex_executor c) winnerAta winner (usdc e) (TOKEN_PROGRAM_ID (ce_programs e))] in
         bindE (pureE (bn_toNumber (dc_roundId claim))) (\<lambda>roundId.
         bindE (pureE (buildAutoClaimDegenFallback e (ex_executor c) winner roundId fallbackReason)) (\<lambda>fallbackIx.
         bindE (call (getLatestBlockhashCtx c)) (\<lambda>(blockhash, lastValidBlockHeight).
         let tx = \<lparr>vt_payer = ex_executor c, vt_blockhash = blockhash, vt_ixs = prefixIxs @ [fallbackIx], vt_alts = []\<rparr> in
         bindE (pureE (compileToV0Message c tx)) (\<lambda>_.
         doE (note_event (Attempting (Fallback nowSec) tx)) (\<lambda>_.
         bindE (simulateAndSend c tx (Some (blockhash, lastValidBlockHeight))) (\<lambda>sig. returnE ()))))))))
        (\<lambda>_. returnE ()))"

text \<open>The guards of \<open>processReadyClaim\<close>: the payout and the VRF payer, or nothing to do.\<close>

definition readyPayout :: "('w, 'pk, 'alt) exec_env \<Rightarrow> 'pk DegenClaimAccount \<Rightarrow>
    ('w, 'pk, 'alt, (int \<times> 'pk option) option) exec" where
  "readyPayout c claim =
     bindE (call (getAccountInfo (ex_sv c) (dc_round claim))) (\<lambda>roundInfo.
     case roundInfo of
       None \<Rightarrow> returnE None
     | Some roundData \<Rightarrow> (case parseRoundMeta roundData of
         None \<Rightarrow> throwError ''RangeError''
       | Some meta \<Rightarrow>
           if rm_status meta \<noteq> Some Settled \<or> rm_degenModeStatus meta \<noteq> Some 2 then returnE None
           else if dc_status claim \<noteq> DC_VrfReady then returnE None
           else
             let vrfPayer = parseRoundVrfPayer (ce_sdk (ex_chain c)) roundData in
             bindE (call (getAccountInfo (ex_sv c) (config_pda (ex_chain c)))) (\<lambda>configInfo.
             case configInfo of
               None \<Rightarrow> returnE None
             | Some configData \<Rightarrow> (case parseConfigFeeBps configData of
                 None \<Rightarrow> throwError ''ERR_OUT_OF_RANGE''
               | Some feeBps \<Rightarrow>
                   let actualPayoutRaw = computeBeginDegenPayout (rm_totalUsdc meta) feeBps (vrfPayer \<noteq> None) in
                   if actualPayoutRaw \<le> 0 then returnE None
                   else returnE (Some (actualPayoutRaw, vrfPayer))))))"

definition deriveClaimCandidates :: "('w, 'pk, 'alt) exec_env \<Rightarrow> 'pk DegenClaimAccount \<Rightarrow>
    ('w, 'pk, 'alt, candidate list) exec" where
  "deriveClaimCandidates c claim =
     (case deriveCandidates (ex_digest c) (ex_DEGEN_POOL c) (dc_randomness claim) (dc_poolVersion claim)
         (if dc_candidateWindow claim = 0 then 30 else dc_candidateWindow claim) (dynamicPool c) of
        None \<Rightarrow> throwE Diverges
      | Some r \<Rightarrow> pureE r)"

definition nowSeconds :: "('w, 'pk, 'alt) exec_env \<Rightarrow> ('w, 'pk, 'alt, int) exec" where
  "nowSeconds c = bindE (call (do { ms \<leftarrow> dateNow (ex_sv c); State_Monad.return (Inr ms) })) (\<lambda>ms. returnE (ms div 1000))"

definition processReadyClaim :: "('w, 'pk, 'alt) exec_env \<Rightarrow> 'pk DegenClaimAccount \<Rightarrow> ('w, 'pk, 'alt, unit) exec" where
  "processReadyClaim c claim =
     bindE (readyPayout c claim) (\<lambda>ready.
     case ready of
       None \<Rightarrow> returnE ()
     | Some (actualPayoutRaw, vrfPayer) \<Rightarrow>
         bindE (deriveClaimCandidates c claim) (\<lambda>candidates.
         bindE (tryCandidates c claim actualPayoutRaw vrfPayer candidates) (\<lambda>finished.
         if finished then returnE ()
         else bindE (nowSeconds c) (\<lambda>nowSec.
           if dc_fallbackAfterTs claim \<le> nowSec then claimFallback c claim nowSec else returnE ()))))"

section \<open>The service loop\<close>

definition fetchReadyClaims :: "('w, 'pk, 'alt) exec_env \<Rightarrow> ('w, 'pk, 'alt, 'pk DegenClaimAccount list) exec" where
  "fetchReadyClaims c =
     bindE (call (degenClaimAll c)) (\<lambda>accounts.
     returnE (filter (\<lambda>claim. dc_status claim = DC_VrfReady) accounts))"

definition ensureExecutorAta :: "('w, 'pk, 'alt) exec_env \<Rightarrow> ('w, 'pk, 'alt, unit) exec" where
  "ensureExecutorAta c =
     (let e = ex_chain c in
      bindE (pureE (ata e (usdc e) (ex_executor c) False)) (\<lambda>executorUsdcAta.
      bindE (call (getAccountInfo (ex_sv c) executorUsdcAta)) (\<lambda>info.
      case info of
        Some _ \<Rightarrow> returnE ()
      | None \<Rightarrow>
          let ix = createAtaIdempotent c (ex_executor c) executorUsdcAta (ex_executor c) (usdc e)
                     (TOKEN_PROGRAM_ID (ce_programs e)) in
          bindE (call (getLatestBlockhashCtx c)) (\<lambda>(blockhash, _).
          let tx = \<lparr>vt_payer = ex_executor c, vt_blockhash = blockhash, vt_ixs = [ix], vt_alts = []\<rparr> in
          bindE (pureE (compileToV0Message c tx)) (\<lambda>_.
          bindE (call (sendTransaction c tx False)) (\<lambda>sig.
          bindE (call (confirmTransaction c sig None)) (\<lambda>_. returnE ())))))))"

text \<open>One pass of the \<open>do\<close> loop of \<open>main\<close>; its \<open>catch\<close> never sees a run that does not return.\<close>

definition executorPass :: "('w, 'pk, 'alt) exec_env \<Rightarrow> ('w, 'pk, 'alt, unit) exec" where
  "executorPass c =
     tryE (bindE (fetchReadyClaims c) (\<lambda>claims. for_eachE claims (processReadyClaim c)))
       (\<lambda>e. if e = Diverges then throwE Diverges else returnE ())"

end
