(* ===== verification/Degen_Trace.thy ===== *)
theory Degen_Trace
  imports Degen_Executor
begin

text \<open>
  What the degen executor does with one claim: the order of its transactions, their shape, and
  which failures it contains.
\<close>

section \<open>The trace of a claim\<close>

definition fits :: "('w, 'pk, 'alt) exec_env \<Rightarrow> ('pk, 'alt) vtx \<Rightarrow> bool" where
  "fits c tx \<longleftrightarrow> (case serializedLength c tx of Inl _ \<Rightarrow> False | Inr n \<Rightarrow> n \<le> MAX_TX_RAW_BYTES)"

text \<open>Nothing was confirmed, no fallback was tried, and no candidate after rank \<open>k\<close>.\<close>

definition pending :: "int \<Rightarrow> ('pk, 'alt) exec_event list \<Rightarrow> bool" where
  "pending k es \<longleftrightarrow> list_all (\<lambda>ev. case ev of
     Attempting (Execution cand) _ \<Rightarrow> cd_rank cand \<le> k
   | Attempting (Fallback _) _ \<Rightarrow> False
   | Confirmed _ \<Rightarrow> False
   | _ \<Rightarrow> True) es"

text \<open>
  Signatures are written in base 58. A transaction whose signature is still unknown bars the next
  attempt, until the claim is read again; the reading clears it if it fails, or if the status is
  still before \<open>Executing\<close>.
\<close>

definition base58_alphabet :: string where
  "base58_alphabet = ''123456789ABCDEFGHJKLMNPQRSTUVWXYZabcdefghijkmnopqrstuvwxyz''"

definition base58 :: "string \<Rightarrow> bool" where
  "base58 sig \<longleftrightarrow> list_all (\<lambda>x. x \<in> set base58_alphabet) sig"

definition cleared :: "('pk, 'alt) exec_event list \<Rightarrow> bool" where
  "cleared es \<longleftrightarrow> (case es of
     Unconfirmed _ sig # _ \<Rightarrow> \<not> base58 sig
   | Rechecked (Inr (Some status)) # _ \<Rightarrow> status < DC_Executing
   | _ \<Rightarrow> True)"

lemma cleared_simps [simp]:
  "cleared []" "cleared (Attempting a tx # es)" "cleared (Submitted tx # es)"
  "cleared (Unconfirmed tx sig # es) \<longleftrightarrow> \<not> base58 sig"
  "cleared (Rechecked status # es) \<longleftrightarrow> (\<forall>st. status = Inr (Some st) \<longrightarrow> st < DC_Executing)"
  by (auto simp: cleared_def split: sum.splits option.splits)

fun exec_justified :: "('w, 'pk, 'alt) exec_env \<Rightarrow> 'pk DegenClaimAccount \<Rightarrow> ('pk, 'alt) exec_event \<Rightarrow>
    ('pk, 'alt) exec_event list \<Rightarrow> bool" where
  "exec_justified c claim (Attempting (Execution cand) tx) es = (pending (cd_rank cand) es \<and> cleared es)"
| "exec_justified c claim (Attempting (Fallback nowSec) tx) es =
     (dc_fallbackAfterTs claim \<le> nowSec \<and> cleared es \<and> list_all (\<lambda>ev. case ev of
        Attempting (Fallback _) _ \<Rightarrow> False | Confirmed _ \<Rightarrow> False | _ \<Rightarrow> True) es)"
| "exec_justified c claim (Submitted tx) es =
     (case es of Attempting _ tx' # _ \<Rightarrow> tx' = tx \<and> fits c tx | _ \<Rightarrow> False)"
| "exec_justified c claim (Confirmed tx) es = (case es of Submitted tx' # _ \<Rightarrow> tx' = tx | _ \<Rightarrow> False)"
| "exec_justified c claim (Unconfirmed tx sig) es = (case es of Submitted tx' # _ \<Rightarrow> tx' = tx | _ \<Rightarrow> False)"
| "exec_justified c claim (Rechecked status) es = (\<exists>k. pending k es)"

fun exec_ok :: "('w, 'pk, 'alt) exec_env \<Rightarrow> 'pk DegenClaimAccount \<Rightarrow> ('pk, 'alt) exec_event list \<Rightarrow> bool" where
  "exec_ok c claim [] = True"
| "exec_ok c claim (ev # es) = (exec_justified c claim ev es \<and> exec_ok c claim es)"

definition quiet :: "('w, 'pk, 'alt) exec_env \<Rightarrow> 'pk DegenClaimAccount \<Rightarrow> int \<Rightarrow> ('pk, 'alt) exec_event list \<Rightarrow> bool" where
  "quiet c claim k es \<longleftrightarrow> exec_ok c claim es \<and> pending k es \<and> cleared es"

lemma pending_mono: "pending k es \<Longrightarrow> k \<le> k' \<Longrightarrow> pending k' es"
  by (induction es) (auto simp: pending_def split: exec_event.splits attempt.splits)

lemma quiet_mono: "quiet c claim k es \<Longrightarrow> k \<le> k' \<Longrightarrow> quiet c claim k' es"
  by (auto simp: quiet_def intro: pending_mono)

lemma quiet_ok: "quiet c claim k es \<Longrightarrow> exec_ok c claim es"
  by (simp add: quiet_def)

section \<open>Steps that send nothing\<close>

lemma run_call [simp]:
  "run_state (call m) s = (case run_state m (ex_world s) of (x, w) \<Rightarrow> (map_sum Error id x, s\<lparr>ex_world := w\<rparr>))"
  by (simp add: call_def)

lemma call_trace [hoare]: "keeps (\<lambda>s. P (ex_events s)) (call m)"
  by (rule validI) (auto split: prod.splits)

lemma bindE_pure:
  "bindE (pureE (Inr x)) f = f x" "bindE (pureE (Inl e)) f = throwE (Error e)"
  by (simp_all add: pureE_def)

lemma pureE_keeps [hoare]: "keeps P (pureE r)"
  unfolding pureE_def by (intro hoare)

lemma throwError_keeps [hoare]: "keeps P (throwError msg)"
  unfolding throwError_def by (intro hoare)

lemma parse_key_keeps [hoare]: "keeps P (parse_key c s)"
  unfolding parse_key_def by (intro hoare)

lemma jupiter_trace [hoare]: "keeps (\<lambda>s. P (ex_events s)) (jupiterFetch c request)"
  unfolding jupiterFetch_def by (intro hoare)

lemma mint_owner_trace [hoare]: "keeps (\<lambda>s. P (ex_events s)) (getMintOwner c mint)"
  unfolding getMintOwner_def Let_def by (intro hoare) auto

lemma deserialize_keeps [hoare]: "keeps P (deserializeInstruction c ix)"
  unfolding deserializeInstruction_def by (intro hoare)

lemma tables_trace [hoare]: "keeps (\<lambda>s. P (ex_events s)) (resolveLookupTables c xs)"
  unfolding resolveLookupTables_def by (intro hoare)

lemma build_trace [hoare]:
  "keeps (\<lambda>s. P (ex_events s)) (buildExecutionTx c claim cand payout maxAccounts direct slip vrf)"
  unfolding buildExecutionTx_def executionInstructions_def swapInstructionsFor_def drainExecutor_def
    getQuoteWithMaxAccounts_def getSwapInstructions_def Let_def
  by (intro hoare)

lemma poll_trace [hoare]: "keeps (\<lambda>s. P (ex_events s)) (pollSignature c n sig)"
proof (induction n)
  case (Suc n)
  then show ?case by (auto intro!: hoare)
qed (auto intro!: hoare)

section \<open>The text of a timeout\<close>

text \<open>
  The errors are told apart by their texts, and the text of a timeout ends with the signature. No
  base 58 signature makes a timeout look like an error of size or slippage: each of the searched
  texts has a letter that the fixed part of the message lacks, and after it one that base 58 lacks.
\<close>

lemma includes_beyond:
  assumes "js_includes (pre @ sig) (a @ [x] @ b @ [y] @ d)" and "x \<notin> set pre"
  shows "y \<in> set sig"
proof -
  from assms(1) obtain us vs where "(us @ a) @ x # b @ y # d @ vs = pre @ sig"
    by (auto simp: js_includes_iff)
  then obtain zs where "us @ a = pre @ zs \<and> zs @ x # b @ y # d @ vs = sig \<or>
      (us @ a) @ zs = pre \<and> x # b @ y # d @ vs = zs @ sig"
    unfolding append_eq_append_conv2 by blast
  with assms(2) show ?thesis by (cases zs) auto
qed

lemma timeout_text:
  assumes "base58 sig"
  shows "\<not> isTxTooLargeError (message (TxTimeoutError sig))" "\<not> isSlippageError (message (TxTimeoutError sig))"
proof -
  define pre where "pre = ''tx timeout (may have landed): ''"
  have msg: "message (TxTimeoutError sig) = pre @ sig" by (simp add: pre_def)
  have "list_all (\<lambda>y. y \<notin> set base58_alphabet) ''0Ol: ''" by (simp add: base58_alphabet_def)
  then have alien: "y \<notin> set sig" if "y \<in> set ''0Ol: ''" for y
    using assms that unfolding base58_def list_all_iff by blast
  have no: "\<not> js_includes (pre @ sig) (a @ [x] @ b @ [y] @ d)" if "x \<notin> set pre" "y \<in> set ''0Ol: ''" for a x b y d
    using includes_beyond [OF _ that(1)] alien [OF that(2)] by blast
  have "\<not> js_includes (pre @ sig) (''en'' @ [CHR ''c''] @ ''oding'' @ [CHR '' ''] @ ''overruns Uint8Array'')"
    by (rule no) (simp_all add: pre_def)
  then have a1: "\<not> js_includes (pre @ sig) ''encoding overruns Uint8Array''" by simp
  have "\<not> js_includes (pre @ sig) ('''' @ [CHR ''T''] @ ''ransaction'' @ [CHR '' ''] @ ''too large'')"
    by (rule no) (simp_all add: pre_def)
  then have a2: "\<not> js_includes (pre @ sig) ''Transaction too large''" by simp
  have "\<not> js_includes (pre @ sig) ('''' @ [CHR ''V''] @ ''ersionedTransaction'' @ [CHR '' ''] @ ''too large'')"
    by (rule no) (simp_all add: pre_def)
  then have a3: "\<not> js_includes (pre @ sig) ''VersionedTransaction too large''" by simp
  have "\<not> js_includes (pre @ sig) (''too la'' @ [CHR ''r''] @ ''ge'' @ [CHR '':''] @ '''')"
    by (rule no) (simp_all add: pre_def)
  then have a4: "\<not> js_includes (pre @ sig) ''too large:''" by simp
  have "\<not> js_includes (pre @ sig) ('''' @ [CHR ''6''] @ '''' @ [CHR ''0''] @ ''46'')"
    by (rule no) (simp_all add: pre_def)
  then have b1: "\<not> js_includes (pre @ sig) ''6046''" by simp
  have "\<not> js_includes (pre @ sig) ('''' @ [CHR ''D''] @ ''egen'' @ [CHR ''O''] @ ''utputNotReceived'')"
    by (rule no) (simp_all add: pre_def)
  then have b2: "\<not> js_includes (pre @ sig) ''DegenOutputNotReceived''" by simp
  have "\<not> js_includes (pre @ sig) ('''' @ [CHR ''S''] @ '''' @ [CHR ''l''] @ ''ippageToleranceExceeded'')"
    by (rule no) (simp_all add: pre_def)
  then have b3: "\<not> js_includes (pre @ sig) ''SlippageToleranceExceeded''" by simp
  show "\<not> isTxTooLargeError (message (TxTimeoutError sig))" unfolding msg isTxTooLargeError_def using a1 a2 a3 a4 by blast
  show "\<not> isSlippageError (message (TxTimeoutError sig))" unfolding msg isSlippageError_def using b1 b2 b3 by blast
qed

definition timed_out :: "exec_error \<Rightarrow> bool" where
  "timed_out e \<longleftrightarrow> (\<exists>sig. e = TxTimeoutError sig \<and> base58 sig)"

section \<open>Sending\<close>

text \<open>
  A transaction that was announced may be submitted, and its outcome is noted only once it was.
  When sending fails, the trace bars the next attempt only if the error is a timeout.
\<close>

definition unsent :: "attempt \<Rightarrow> ('pk, 'alt) vtx \<Rightarrow> ('pk, 'alt) exec_event list \<Rightarrow> exec_error \<Rightarrow>
    ('w, 'pk, 'alt) executor \<Rightarrow> bool" where
  "unsent a tx es e s \<longleftrightarrow> ex_events s = Attempting a tx # es \<or> ex_events s = Submitted tx # Attempting a tx # es \<or>
     (\<exists>sig. e = TxTimeoutError sig \<and> ex_events s = Unconfirmed tx sig # Submitted tx # Attempting a tx # es)"

lemma confirm_trace:
  "keeps (\<lambda>s. P (ex_events s)) (tryE (bindE (call (confirmTransaction c sig ctx)) (\<lambda>_. returnE sig))
     (\<lambda>e. if isConfirmTimeoutError (message e) then pollSignature c 3 sig else throwE e))"
  by (intro hoare)

lemma outcome_trace:
  assumes "exec_ok c claim (Submitted tx # Attempting a tx # es)"
  shows "valid (\<lambda>s. ex_events s = Submitted tx # Attempting a tx # es)
    (doE (note_outcome tx outcome) (\<lambda>_. liftE outcome))
    (\<lambda>r s. exec_ok c claim (ex_events s) \<and> (\<forall>e. r = Inl e \<longrightarrow> unsent a tx es e s))"
  using assms by (auto simp: valid_def note_outcome_def note_event_def unsent_def split: sum.splits exec_error.splits)

lemma simulateAndSend_trace:
  assumes "exec_ok c claim (Attempting a tx # es)"
  shows "valid (\<lambda>s. ex_events s = Attempting a tx # es) (simulateAndSend c tx ctx)
    (\<lambda>r s. exec_ok c claim (ex_events s) \<and> (\<forall>e. r = Inl e \<longrightarrow> unsent a tx es e s))"
proof -
  let ?A = "\<lambda>s. ex_events s = Attempting a tx # es" and ?B = "\<lambda>s. ex_events s = Submitted tx # Attempting a tx # es"
  let ?Q = "\<lambda>r s. exec_ok c claim (ex_events s) \<and> (\<forall>e. r = Inl e \<longrightarrow> unsent a tx es e s)"
  have A: "keeps ?A (call m)" for m by (rule call_trace)
  have step: "valid ?A (bindE (call m) f) ?Q" if "\<And>x. valid ?A (f x) ?Q" for m f
    by (rule valid_bindE [OF _ that]) (rule valid_weaken [OF A], assumption, use assms in \<open>auto simp: unsent_def split: sum.splits\<close>)
  have confirmed: "valid ?B (doE (tryE (bindE (call (confirmTransaction c sig ctx)) (\<lambda>_. returnE sig))
     (\<lambda>e. if isConfirmTimeoutError (message e) then pollSignature c 3 sig else throwE e))
     (\<lambda>outcome. doE (note_outcome tx outcome) (\<lambda>_. liftE outcome))) ?Q" if "fits c tx" for sig
    by (rule valid_doE [OF confirm_trace], rule outcome_trace) (use assms that in auto)
  have "valid ?A (doE (note_event (Submitted tx)) (\<lambda>_. m)) ?Q" if "valid ?B m ?Q" for m
    by (rule valid_doE [OF _ that]) (simp add: note_event_def valid_def)
  note submitted = this [OF confirmed]
  have bad: "valid ?A (throwE e) ?Q" for e by (rule valid_throwE) (use assms in \<open>auto simp: unsent_def\<close>)
  show ?thesis
    unfolding simulateAndSend_def throwError_def
  proof (cases "serializedLength c tx")
    case (Inr n)
    then show "valid ?A (bindE (pureE (serializedLength c tx)) (\<lambda>len.
        if MAX_TX_RAW_BYTES < len then throwE (Error (''transaction too large: '' @ js_string len @
            '' bytes (max '' @ js_string MAX_TX_RAW_BYTES @ '')''))
        else bindE (call (simulateTransaction c tx)) (\<lambda>err. case err of
          None \<Rightarrow> bindE (call (sendTransaction c tx True)) (\<lambda>sig. doE (note_event (Submitted tx)) (\<lambda>_.
            doE (tryE (bindE (call (confirmTransaction c sig ctx)) (\<lambda>_. returnE sig))
              (\<lambda>e. if isConfirmTimeoutError (message e) then pollSignature c 3 sig else throwE e))
            (\<lambda>outcome. doE (note_outcome tx outcome) (\<lambda>_. liftE outcome))))
        | Some e \<Rightarrow> throwE (Error (''simulation failed: '' @ e))))) ?Q"
      by (simp only: bindE_pure) (intro valid_if bad step valid_case_option submitted, simp add: fits_def)
  qed (simp only: bindE_pure, rule bad)
qed

text \<open>
  One execution, seen from the loops: it is confirmed, or it leaves the claim pending, and then
  either the next attempt is not barred or the error is a timeout.
\<close>

definition open_after :: "int \<Rightarrow> exec_error \<Rightarrow> ('pk, 'alt) exec_event list \<Rightarrow> bool" where
  "open_after k e es \<longleftrightarrow> pending k es \<and> (cleared es \<or> timed_out e)"

lemma unsent_open:
  assumes "unsent a tx es e s" and "pending k (Attempting a tx # es)"
  shows "open_after k e (ex_events s)"
  using assms by (auto simp: unsent_def open_after_def pending_def timed_out_def)

lemma executeOnce_trace:
  assumes "k \<le> cd_rank cand"
  shows "valid (\<lambda>s. quiet c claim k (ex_events s)) (executeOnce c claim cand payout m d slip vrf)
    (\<lambda>r s. exec_ok c claim (ex_events s) \<and> (\<forall>e. r = Inl e \<longrightarrow> open_after (cd_rank cand) e (ex_events s)))"
proof -
  let ?Q = "\<lambda>r s. exec_ok c claim (ex_events s) \<and> (\<forall>e. r = Inl e \<longrightarrow> open_after (cd_rank cand) e (ex_events s))"
  have quiet: "quiet c claim (cd_rank cand) es" if "quiet c claim k es" for es :: "('b, 'c) exec_event list"
    using that assms by (rule quiet_mono)
  have "valid (\<lambda>s. quiet c claim k (ex_events s)) (doE (note_event (Attempting (Execution cand) tx)) (\<lambda>_.
      simulateAndSend c tx ctx)) ?Q" for tx ctx
  proof (rule validI)
    fix s t :: "('a, 'b, 'c) executor" and r
    let ?es = "Attempting (Execution cand) tx # ex_events s"
    assume "quiet c claim k (ex_events s)"
      and run: "run_state (doE (note_event (Attempting (Execution cand) tx)) (\<lambda>_. simulateAndSend c tx ctx)) s = (r, t)"
    then have ok: "exec_ok c claim ?es" and pen: "pending (cd_rank cand) ?es"
      using quiet by (auto simp: quiet_def pending_def)
    from run have "run_state (simulateAndSend c tx ctx) (s\<lparr>ex_events := ?es\<rparr>) = (r, t)"
      by (simp add: note_event_def)
    from validD [OF simulateAndSend_trace [OF ok] _ this] show "?Q r t" by (auto intro: unsent_open [OF _ pen])
  qed
  then show ?thesis
    unfolding executeOnce_def
    by (intro valid_bindE [where R = "\<lambda>_ s. quiet c claim k (ex_events s)"] valid_case_prod)
      (rule valid_weaken [OF build_trace], assumption,
       auto split: sum.splits intro: pending_mono [OF _ assms] simp: quiet_def open_after_def)
qed

section \<open>The loops\<close>

text \<open>
  After a loop the claim was confirmed, as the result says, or it is still pending; when the loop
  throws, the next attempt may be barred by the timeout it throws.
\<close>

definition settles :: "('w, 'pk, 'alt) exec_env \<Rightarrow> 'pk DegenClaimAccount \<Rightarrow> int \<Rightarrow> ('a \<Rightarrow> bool) \<Rightarrow>
    exec_error + 'a \<Rightarrow> ('w, 'pk, 'alt) executor \<Rightarrow> bool" where
  "settles c claim k landed r s \<longleftrightarrow> exec_ok c claim (ex_events s) \<and> (case r of
     Inr x \<Rightarrow> landed x \<or> quiet c claim k (ex_events s)
   | Inl e \<Rightarrow> open_after k e (ex_events s))"

abbreviation quiet_at :: "('w, 'pk, 'alt) exec_env \<Rightarrow> 'pk DegenClaimAccount \<Rightarrow> int \<Rightarrow> ('w, 'pk, 'alt) executor \<Rightarrow> bool" where
  "quiet_at c claim k s \<equiv> quiet c claim k (ex_events s)"

lemma execute_then:
  assumes "\<And>sig. landed (a sig)" and "\<And>e. timed_out e \<Longrightarrow> g e = throwE e"
    and "\<And>e. valid (quiet_at c claim (cd_rank cand)) (g e) (settles c claim (cd_rank cand) landed)"
  shows "valid (quiet_at c claim (cd_rank cand))
    (doE (executeOnce c claim cand payout m d slip vrf) (\<lambda>r. case r of Inr sig \<Rightarrow> returnE (a sig) | Inl e \<Rightarrow> g e))
    (settles c claim (cd_rank cand) landed)"
proof (rule valid_doE [OF executeOnce_trace [OF order_refl]])
  fix r :: "exec_error + string"
  let ?P = "\<lambda>s. exec_ok c claim (ex_events s) \<and> (\<forall>e. r = Inl e \<longrightarrow> open_after (cd_rank cand) e (ex_events s))"
  show "valid ?P (case r of Inl e \<Rightarrow> g e | Inr sig \<Rightarrow> returnE (a sig)) (settles c claim (cd_rank cand) landed)"
  proof (cases r)
    case (Inl e)
    show ?thesis
    proof (cases "timed_out e")
      case True
      then show ?thesis using Inl assms(2) by (auto simp: settles_def valid_def)
    next
      case False
      then show ?thesis using Inl by (auto intro!: valid_weaken [OF assms(3)] simp: quiet_def open_after_def)
    qed
  qed (use assms(1) in \<open>auto simp: settles_def valid_def\<close>)
qed

lemma settles_return [intro]: "landed x \<or> quiet_at c claim k s \<Longrightarrow> exec_ok c claim (ex_events s) \<Longrightarrow> settles c claim k landed (Inr x) s"
  by (auto simp: settles_def)

lemma settles_throw [intro]: "quiet_at c claim k s \<Longrightarrow> settles c claim k landed (Inl e) s"
  by (auto simp: settles_def quiet_def open_after_def)

lemma tryMaxAccounts_trace:
  "valid (quiet_at c claim (cd_rank cand)) (tryMaxAccounts c claim cand payout slip vrf ms tr)
     (settles c claim (cd_rank cand) tr_executed)"
proof (induction ms arbitrary: tr)
  case Nil
  then show ?case by (auto intro!: valid_returnE intro: quiet_ok)
next
  case (Cons m ms)
  then show ?case
    unfolding tryMaxAccounts.simps
    by (intro execute_then valid_if valid_returnE valid_throwE)
      (auto intro: quiet_ok simp: timed_out_def timeout_text simp del: message.simps)
qed

lemma tryDirectRoute_trace:
  "valid (quiet_at c claim (cd_rank cand)) (tryDirectRoute c claim cand payout slip vrf tr)
     (settles c claim (cd_rank cand) tr_executed)"
  unfolding tryDirectRoute_def
  by (intro execute_then valid_if valid_returnE valid_throwE)
    (auto intro: quiet_ok simp: timed_out_def timeout_text simp del: message.simps)

abbreviation ok_at :: "('w, 'pk, 'alt) exec_env \<Rightarrow> 'pk DegenClaimAccount \<Rightarrow> ('w, 'pk, 'alt) executor \<Rightarrow> bool" where
  "ok_at c claim s \<equiv> exec_ok c claim (ex_events s)"

lemma settle_bind:
  assumes "valid P m (settles c claim k l)"
    and "\<And>x. l x \<Longrightarrow> valid (ok_at c claim) (f x) (settles c claim k l')"
    and "\<And>x. \<not> l x \<Longrightarrow> valid (quiet_at c claim k) (f x) (settles c claim k l')"
  shows "valid P (bindE m f) (settles c claim k l')"
proof (rule valid_bindE [where R = "\<lambda>x. settles c claim k l (Inr x)"])
  show "valid P m (\<lambda>r s. case r of Inl e \<Rightarrow> settles c claim k l' (Inl e) s | Inr x \<Rightarrow> settles c claim k l (Inr x) s)"
    by (rule valid_weaken [OF assms(1)]) (auto simp: settles_def split: sum.splits)
  show "valid (settles c claim k l (Inr x)) (f x) (settles c claim k l')" for x
    using assms(2,3) [of x] by (cases "l x") (auto simp: settles_def quiet_def valid_def)
qed

lemma quiet_bind:
  assumes "keeps (quiet_at c claim k) m" and "\<And>x. valid (quiet_at c claim k) (f x) (settles c claim k l)"
  shows "valid (quiet_at c claim k) (bindE m f) (settles c claim k l)"
  by (rule valid_bindE [OF _ assms(2)]) (rule valid_weaken [OF assms(1)], auto split: sum.splits)

lemma quiet_return: "valid (quiet_at c claim k) (returnE x) (settles c claim k l)"
  by (rule valid_returnE) (auto intro: quiet_ok)

lemma quiet_throw: "valid (quiet_at c claim k) (throwE e) (settles c claim k l)"
  by (rule valid_throwE) auto

lemma landed_return: "l x \<Longrightarrow> valid (ok_at c claim) (returnE x) (settles c claim k l)"
  by (rule valid_returnE) auto

lemma trySlippage_trace:
  "valid (quiet_at c claim (cd_rank cand)) (trySlippage c claim cand payout vrf ms slips tr)
     (settles c claim (cd_rank cand) tr_executed)"
proof (induction slips arbitrary: tr)
  case Nil
  then show ?case unfolding trySlippage.simps by (rule quiet_return)
next
  case (Cons slip slips)
  have "tryDirectRoute c claim cand payout slip vrf tr' = returnE tr'" if "tr_executed tr'" for tr'
    using that by (simp add: tryDirectRoute_def)
  then have executed: "valid (ok_at c claim) (bindE (tryDirectRoute c claim cand payout slip vrf tr') (\<lambda>tr.
      if tr_executed tr then returnE tr else trySlippage c claim cand payout vrf ms slips tr))
      (settles c claim (cd_rank cand) tr_executed)" if "tr_executed tr'" for tr'
    using that by (auto simp: valid_def settles_def)
  show ?case
    unfolding trySlippage.simps
    by (intro settle_bind [OF tryMaxAccounts_trace] executed settle_bind [OF tryDirectRoute_trace])
      (auto intro!: landed_return Cons.IH)
qed

lemma attemptCandidate_trace:
  "valid (quiet_at c claim (cd_rank cand)) (attemptCandidate c claim payout vrf cand)
     (settles c claim (cd_rank cand) (\<lambda>b. b))"
  unfolding attemptCandidate_def Let_def getQuoteWithMaxAccounts_def
  by (intro quiet_bind settle_bind [OF trySlippage_trace] valid_if valid_case_option quiet_return quiet_throw
      landed_return hoare) simp_all

text \<open>The check after a timeout: unless it says that the claim has moved on, it clears the next attempt.\<close>

lemma recheck_trace:
  assumes "exec_ok c claim es" and "pending k es"
  shows "exec_ok c claim (Rechecked status # es)" "pending k (Rechecked status # es)"
  using assms by (auto simp: pending_def)

lemma claimMovedOn_trace:
  "valid (\<lambda>s. ok_at c claim s \<and> pending k (ex_events s)) (claimMovedOn c claim)
     (\<lambda>r s. \<exists>b. r = Inr b \<and> ok_at c claim s \<and> (b \<or> quiet_at c claim k s))"
    (is "valid ?P _ ?Q")
proof -
  have P: "keeps ?P (call m)" "keeps ?P (pureE r)" for m r
    by (rule call_trace, rule pureE_keeps)
  have noted: "valid ?P (doE (note_event (Rechecked status)) (\<lambda>_. returnE b)) ?Q"
    if "b \<or> (\<forall>st. status = Inr (Some st) \<longrightarrow> st < DC_Executing)" for status b
    using that recheck_trace by (fastforce simp: valid_def note_event_def quiet_def)
  have step: "valid ?P (bindE m f) (\<lambda>r s. case r of Inl e \<Rightarrow> ?P s | Inr x \<Rightarrow> ?Q (Inr x) s)"
    if "keeps ?P m" "\<And>x. valid ?P (f x) (\<lambda>r s. case r of Inl e \<Rightarrow> ?P s | Inr x \<Rightarrow> ?Q (Inr x) s)" for m f
    by (rule valid_bindE [OF _ that(2)]) (rule valid_weaken [OF that(1)], auto split: sum.splits)
  show ?thesis
    unfolding claimMovedOn_def Let_def
    by (rule valid_tryE [where R = "\<lambda>_. ?P"], intro step P valid_weaken [OF noted])
      ((force split: option.splits sum.splits)+, rule noted, simp)
qed

lemma claimMovedOn_total: "valid (\<lambda>_. True) (claimMovedOn c claim) (\<lambda>r _. \<exists>b. r = Inr b)"
  by (rule validI) (auto simp: claimMovedOn_def pureE_def Let_def split: prod.splits sum.splits)

lemma candidate_step:
  "valid (quiet_at c claim (cd_rank cand))
     (tryE (attemptCandidate c claim payout vrf cand) (\<lambda>e. if is_timeout e then claimMovedOn c claim else returnE False))
     (\<lambda>r s. \<exists>b. r = Inr b \<and> ok_at c claim s \<and> (b \<or> quiet_at c claim (cd_rank cand) s))"
proof (rule valid_tryE [where R = "\<lambda>e s. settles c claim (cd_rank cand) (\<lambda>b. b) (Inl e) s"])
  let ?Q = "\<lambda>r s. \<exists>b. r = Inr b \<and> ok_at c claim s \<and> (b \<or> quiet_at c claim (cd_rank cand) s)"
  show "valid (quiet_at c claim (cd_rank cand)) (attemptCandidate c claim payout vrf cand)
    (\<lambda>r s. case r of Inl e \<Rightarrow> settles c claim (cd_rank cand) (\<lambda>b. b) (Inl e) s | Inr x \<Rightarrow> ?Q (Inr x) s)"
    by (rule valid_weaken [OF attemptCandidate_trace]) (auto simp: settles_def split: sum.splits)
  show "valid (settles c claim (cd_rank cand) (\<lambda>b. b) (Inl e))
    (if is_timeout e then claimMovedOn c claim else returnE False) ?Q" for e
  proof (cases "is_timeout e")
    case True
    then show ?thesis by (auto intro!: valid_weaken [OF claimMovedOn_trace] simp: settles_def open_after_def)
  next
    case False
    then have "\<not> timed_out e" by (auto simp: is_timeout_def timed_out_def)
    with False show ?thesis
      by (auto intro!: valid_returnE exI [of _ False] simp: settles_def open_after_def quiet_def simp del: ex_simps)
  qed
qed

lemma tryCandidates_trace:
  assumes "sorted (map cd_rank cands)" and "\<forall>cand\<in>set cands. k \<le> cd_rank cand"
  shows "valid (quiet_at c claim k) (tryCandidates c claim payout vrf cands)
    (\<lambda>r s. \<exists>b. r = Inr b \<and> ok_at c claim s \<and> (b \<or> (\<exists>k. quiet_at c claim k s)))"
  using assms
proof (induction cands arbitrary: k)
  case Nil
  then show ?case by (auto intro!: hoare intro: quiet_ok)
next
  case (Cons cand cands)
  then have IH: "valid (quiet_at c claim (cd_rank cand)) (tryCandidates c claim payout vrf cands)
    (\<lambda>r s. \<exists>b. r = Inr b \<and> ok_at c claim s \<and> (b \<or> (\<exists>k. quiet_at c claim k s)))"
    by (intro Cons.IH) auto
  have pre: "quiet_at c claim (cd_rank cand) s" if "quiet_at c claim k s" for s :: "('a, 'b, 'c) executor"
    using quiet_mono [OF that] Cons.prems(2) by simp
  show ?case
    unfolding tryCandidates.simps
  proof (rule valid_bindE [where R = "\<lambda>b s. ok_at c claim s \<and> (b \<or> quiet_at c claim (cd_rank cand) s)"])
    show "valid (quiet_at c claim k) (tryE (attemptCandidate c claim payout vrf cand)
        (\<lambda>e. if is_timeout e then claimMovedOn c claim else returnE False))
      (\<lambda>r s. case r of
        Inl e \<Rightarrow> \<exists>b. Inl e = Inr b \<and> ok_at c claim s \<and> (b \<or> (\<exists>k. quiet_at c claim k s))
      | Inr b \<Rightarrow> ok_at c claim s \<and> (b \<or> quiet_at c claim (cd_rank cand) s))"
      by (rule valid_weaken [OF candidate_step]) (auto dest: pre)
    show "valid (\<lambda>s. ok_at c claim s \<and> (b \<or> quiet_at c claim (cd_rank cand) s))
        (if b then returnE True else tryCandidates c claim payout vrf cands)
      (\<lambda>r s. \<exists>b. r = Inr b \<and> ok_at c claim s \<and> (b \<or> (\<exists>k. quiet_at c claim k s)))" for b
      using IH by (cases b) (auto simp: valid_def)
  qed
qed

text \<open>The candidates come in rank order.\<close>

lemma candidates_sorted:
  assumes "deriveCandidates digest POOL rnd ver n pool = Some (Inr cands)"
  shows "sorted (map cd_rank cands) \<and> (\<forall>cand\<in>set cands. 0 \<le> cd_rank cand)"
proof -
  define p where "p = (case pool of None \<Rightarrow> POOL | Some p \<Rightarrow> p)"
  have der: "derive_ranks digest rnd ver p (cd_index ` set ([] :: candidate list)) [] [0..<min n (length p)] = Some (Inr cands)"
    using assms by (simp add: deriveCandidates_def p_def Let_def)
  show ?thesis
  proof (cases "p = []")
    case False
    from derive_ranks_sound [OF der False]
    have ranks: "map cd_rank cands = map int [0..<min n (length p)]" by auto
    have "cd_rank ` set cands = int ` {0..<min n (length p)}" using arg_cong [OF ranks, of set] by simp
    then have "\<forall>cand\<in>set cands. 0 \<le> cd_rank cand" by (metis imageE image_eqI of_nat_0_le_iff)
    moreover have "sorted (map cd_rank cands)" unfolding ranks by (simp add: sorted_iff_nth_mono)
    ultimately show ?thesis by simp
  qed (use der in simp)
qed

lemma announced_send:
  "valid (\<lambda>s. \<exists>es. ex_events s = Attempting a tx # es \<and> ok_at c claim s) (simulateAndSend c tx ctx) (\<lambda>_. ok_at c claim)"
proof (rule validI, elim exE conjE)
  fix s t :: "('a, 'b, 'c) executor" and r es
  assume s: "ex_events s = Attempting a tx # es" and ok: "ok_at c claim s"
    and run: "run_state (simulateAndSend c tx ctx) s = (r, t)"
  from ok have "exec_ok c claim (Attempting a tx # es)" by (simp only: s)
  from validD [OF simulateAndSend_trace [OF this] s run] show "ok_at c claim t" ..
qed

lemma fallback_step:
  assumes "keeps (quiet_at c claim k) m" and "\<And>x. valid (quiet_at c claim k) (f x) (\<lambda>_. ok_at c claim)"
  shows "valid (quiet_at c claim k) (bindE m f) (\<lambda>_. ok_at c claim)"
  by (rule valid_bindE [OF _ assms(2)]) (rule valid_weaken [OF assms(1)], auto split: sum.splits intro: quiet_ok)

lemma fallback_trace:
  assumes "dc_fallbackAfterTs claim \<le> nowSec"
  shows "valid (quiet_at c claim k) (claimFallback c claim nowSec) (\<lambda>_. ok_at c claim)"
proof -
  have attempt: "valid (quiet_at c claim k) (doE (note_event (Attempting (Fallback nowSec) tx)) (\<lambda>_.
      bindE (simulateAndSend c tx ctx) (\<lambda>sig. returnE ()))) (\<lambda>_. ok_at c claim)" for tx ctx
  proof (rule valid_doE)
    show "valid (quiet_at c claim k) (note_event (Attempting (Fallback nowSec) tx))
      (\<lambda>_ s. \<exists>es. ex_events s = Attempting (Fallback nowSec) tx # es \<and> exec_ok c claim (ex_events s))"
      using assms by (auto simp: note_event_def quiet_def pending_def list_all_iff valid_def
          split: exec_event.splits attempt.splits)
    show "valid (\<lambda>s. \<exists>es. ex_events s = Attempting (Fallback nowSec) tx # es \<and> exec_ok c claim (ex_events s))
        (bindE (simulateAndSend c tx ctx) (\<lambda>sig. returnE ())) (\<lambda>_. ok_at c claim)"
      by (rule valid_bindE [where R = "\<lambda>_. ok_at c claim"], rule valid_weaken [OF announced_send])
        (auto split: sum.splits intro!: hoare)
  qed
  show ?thesis
    unfolding claimFallback_def Let_def
    by (intro valid_tryE_const fallback_step attempt valid_case_prod hoare)
qed

lemma late_fallback:
  "valid (\<lambda>s. \<exists>k. quiet_at c claim k s) (bindE (nowSeconds c) (\<lambda>nowSec.
     if dc_fallbackAfterTs claim \<le> nowSec then claimFallback c claim nowSec else returnE ())) (\<lambda>_. ok_at c claim)"
  unfolding nowSeconds_def by (intro valid_ex fallback_step valid_if fallback_trace hoare) (auto intro: quiet_ok)

lemma processReadyClaim_trace: "valid (\<lambda>s. ex_events s = []) (processReadyClaim c claim) (\<lambda>_. ok_at c claim)"
proof -
  have ready: "keeps (\<lambda>s. ex_events s = []) (readyPayout c claim)"
    unfolding readyPayout_def Let_def by (intro hoare)
  have late: "valid (\<lambda>s. ok_at c claim s \<and> (b \<or> (\<exists>k. quiet_at c claim k s))) (if b then returnE ()
     else bindE (nowSeconds c) (\<lambda>nowSec.
       if dc_fallbackAfterTs claim \<le> nowSec then claimFallback c claim nowSec else returnE ())) (\<lambda>_. ok_at c claim)" for b
    by (intro valid_if valid_returnE valid_weaken [OF late_fallback]) auto
  have candidates: "valid (\<lambda>s. ex_events s = []) (bindE (pureE (Inr cands)) (\<lambda>candidates.
      bindE (tryCandidates c claim payout vrf candidates) (\<lambda>finished. if finished then returnE ()
         else bindE (nowSeconds c) (\<lambda>nowSec.
           if dc_fallbackAfterTs claim \<le> nowSec then claimFallback c claim nowSec else returnE ())))) (\<lambda>_. ok_at c claim)"
    if "sorted (map cd_rank cands)" "\<forall>cand\<in>set cands. 0 \<le> cd_rank cand" for cands payout vrf
    unfolding bindE_pure
    by (rule valid_bindE [OF _ late], rule valid_weaken [OF tryCandidates_trace [OF that]]) (auto simp: quiet_def pending_def)
  show ?thesis
    unfolding processReadyClaim_def deriveClaimCandidates_def
    apply (rule valid_bindE [where R = "\<lambda>_ s. ex_events s = []"])
     apply (rule valid_weaken [OF ready], assumption, simp split: sum.splits)
    apply (intro valid_case_option valid_case_prod valid_returnE)
     apply simp
    subgoal for ready payout_vrf payout vrf
      by (cases "deriveCandidates (ex_digest c) (ex_DEGEN_POOL c) (dc_randomness claim) (dc_poolVersion claim)
         (if dc_candidateWindow claim = 0 then 30 else dc_candidateWindow claim) (dynamicPool c)";
          cases "the (deriveCandidates (ex_digest c) (ex_DEGEN_POOL c) (dc_randomness claim) (dc_poolVersion claim)
         (if dc_candidateWindow claim = 0 then 30 else dc_candidateWindow claim) (dynamicPool c))")
        (auto intro!: valid_throwE candidates dest: candidates_sorted simp del: bindE_simps simp: bindE_pure(2) bindE_simps(2))
    done
qed

section \<open>Shape of an execution\<close>

text \<open>What Jupiter has answered to a request, and an instruction of its answer after decoding.\<close>

definition answered :: "('w, 'a http_response result) state \<Rightarrow> 'a \<Rightarrow> bool" where
  "answered request x \<longleftrightarrow> (\<exists>w response. fst (run_state request w) = Inr response \<and> rs_ok response \<and> rs_json response = Inr x)"

definition decoded :: "('w, 'pk, 'alt) exec_env \<Rightarrow> SerializedInstruction \<Rightarrow> 'pk instruction \<Rightarrow> bool" where
  "decoded c six ix \<longleftrightarrow>
     parsePublicKey (ce_sdk (ex_chain c)) (si_programId six) = Some (ix_programId ix) \<and>
     list_all2 (\<lambda>(pubkey, isSigner, isWritable) m. parsePublicKey (ce_sdk (ex_chain c)) pubkey = Some (am_pubkey m) \<and>
       am_isSigner m = isSigner \<and> am_isWritable m = isWritable) (si_accounts six) (ix_keys ix) \<and>
     ix_data ix = decodeBase64 c (si_data six)"

text \<open>
  The heart of an execution: \<open>begin_degen_execution\<close> for the claim's round and the candidate, and
  what turns the payout into the token. For USDC itself that is one transfer of the payout from the
  executor's account to the receiver, and the promised minimum is the payout; for any other token it
  is the swap that Jupiter returned for a quote of exactly the payout, with the receiver as the
  destination, and the promised minimum is that of the quote.
\<close>

definition execution_body :: "('w, 'pk, 'alt) exec_env \<Rightarrow> 'pk DegenClaimAccount \<Rightarrow> candidate \<Rightarrow> int \<Rightarrow> int option \<Rightarrow> bool \<Rightarrow>
    int option \<Rightarrow> 'pk option \<Rightarrow> 'pk \<Rightarrow> 'pk \<Rightarrow> int \<Rightarrow> 'pk instruction \<Rightarrow> 'pk instruction list \<Rightarrow> bool" where
  "execution_body c claim cand payoutRaw maxAccounts onlyDirect slip vrfPayer mint receiver roundId beginIx body \<longleftrightarrow>
     (\<exists>minOut routeHash.
       buildBeginDegenExecution (ex_chain c) (ex_executor c) (dc_winner claim) roundId (cd_rank cand)
         (cd_index cand) minOut routeHash mint receiver vrfPayer = Inr beginIx \<and>
       (if is_direct_usdc c cand then minOut = payoutRaw \<and>
          (\<exists>src. ata (ex_chain c) (usdc (ex_chain c)) (ex_executor c) False = Inr src \<and>
            body = [createTransfer c src receiver (ex_executor c) payoutRaw (TOKEN_PROGRAM_ID (ce_programs (ex_chain c)))])
        else \<exists>quote swapIxs.
          answered (quoteRequest c (quote_params c (cd_mint cand) (js_string payoutRaw) maxAccounts onlyDirect slip)) quote \<and>
          minOut = jq_otherAmountThreshold quote \<and> routeHash = routeHashFromQuote c quote \<and>
          answered (swapRequest c (toBase58 (ce_sdk (ex_chain c)) (ex_executor c)) quote
            (toBase58 (ce_sdk (ex_chain c)) receiver)) swapIxs \<and>
          list_all2 (decoded c) (sw_setupInstructions swapIxs @ [sw_swapInstruction swapIxs] @
            (case sw_cleanupInstruction swapIxs of None \<Rightarrow> [] | Some ix \<Rightarrow> [ix])) body))"

text \<open>
  The whole transaction: a prefix that creates the receiver, which is the winner's associated account
  for the mint under its token program, the heart, and \<open>finalize\<close> at the end.
\<close>

definition execution_tx :: "('w, 'pk, 'alt) exec_env \<Rightarrow> 'pk DegenClaimAccount \<Rightarrow> candidate \<Rightarrow> int \<Rightarrow> int option \<Rightarrow> bool \<Rightarrow>
    int option \<Rightarrow> 'pk option \<Rightarrow> ('pk, 'alt) vtx \<Rightarrow> bool" where
  "execution_tx c claim cand payoutRaw maxAccounts onlyDirect slip vrfPayer tx \<longleftrightarrow>
     vt_payer tx = ex_executor c \<and>
     (\<exists>pre beginIx body finalizeIx mint owner receiver roundId.
       vt_ixs tx = pre @ [beginIx] @ body @ [finalizeIx] \<and>
       parsePublicKey (ce_sdk (ex_chain c)) (cd_mint cand) = Some mint \<and>
       supported_owner c owner \<and> ataOfProgram c mint (dc_winner claim) True owner = Inr receiver \<and>
       createAtaIdempotent c (ex_executor c) receiver (dc_winner claim) mint owner \<in> set pre \<and>
       bn_toNumber (dc_roundId claim) = Inr roundId \<and>
       execution_body c claim cand payoutRaw maxAccounts onlyDirect slip vrfPayer mint receiver roundId beginIx body \<and>
       buildFinalizeDegenSuccess (ex_chain c) (ex_executor c) (dc_winner claim) roundId receiver = Inr finalizeIx)"

lemma returns_pure: "valid (\<lambda>_. True) (pureE r) (returns (\<lambda>x. r = Inr x))"
  by (cases r) (auto simp: valid_def returns_def pureE_def)

lemma returns_key: "valid (\<lambda>_. True) (parse_key c s) (returns (\<lambda>k. parsePublicKey (ce_sdk (ex_chain c)) s = Some k))"
  by (auto simp: valid_def returns_def parse_key_def throwError_def split: option.splits)

lemma returns_error: "valid (\<lambda>_. True) (throwError e) (returns G)"
  unfolding throwError_def by (rule valid_throwE) (simp add: returns_def)

lemma returns_jupiter: "valid (\<lambda>_. True) (jupiterFetch c request) (returns (answered request))"
proof (rule validI)
  fix s t :: "('a, 'b, 'c) executor" and r
  have Inr: "map_sum Error id x = Inr y \<longleftrightarrow> x = Inr y" for x :: "'y result" and y by (cases x) simp_all
  assume "run_state (jupiterFetch c request) s = (r, t)"
  then show "returns (answered request) r t"
    unfolding answered_def returns_def
    by (auto simp: jupiterFetch_def throwError_def pureE_def Inr split: if_splits prod.splits sum.splits)
      (metis fst_conv)
qed

lemma returns_decoded: "valid (\<lambda>_. True) (deserializeInstruction c six) (returns (decoded c six))"
proof -
  have account: "valid (\<lambda>_. True) (case a of (pubkey, isSigner, isWritable) \<Rightarrow> bindE (parse_key c pubkey) (\<lambda>k.
      returnE \<lparr>am_pubkey = k, am_isSigner = isSigner, am_isWritable = isWritable\<rparr>))
    (returns ((\<lambda>(pubkey, isSigner, isWritable) m. parsePublicKey (ce_sdk (ex_chain c)) pubkey = Some (am_pubkey m) \<and>
       am_isSigner m = isSigner \<and> am_isWritable m = isWritable) a))" for a
    by (cases a) (auto intro!: returns_bind [OF returns_key] returns_ret)
  show ?thesis unfolding deserializeInstruction_def
    by (rule returns_bind [OF returns_key], rule returns_bind [OF returns_mapE [OF account]], rule returns_ret)
      (simp add: decoded_def)
qed

text \<open>The instructions of a swap are a heart after the compute budget.\<close>

lemma swap_shape:
  assumes "\<not> is_direct_usdc c cand"
  shows "valid (\<lambda>_. True) (swapInstructionsFor c claim cand payout m d slip vrf mint receiver)
     (returns (\<lambda>(ixs, alts). \<exists>roundId pre b body. bn_toNumber (dc_roundId claim) = Inr roundId \<and> ixs = pre @ [b] @ body \<and>
        execution_body c claim cand payout m d slip vrf mint receiver roundId b body))"
proof -
  have heart: "case (pre @ [price] @ [b] @ before @ [swap] @ cleanup, alts) of (ixs, alts) \<Rightarrow>
      \<exists>roundId pre b body. bn_toNumber (dc_roundId claim) = Inr roundId \<and> ixs = pre @ [b] @ body \<and>
        execution_body c claim cand payout m d slip vrf mint receiver roundId b body"
    if "answered (quoteRequest c (quote_params c (cd_mint cand) (js_string payout) m d slip)) quote"
      "answered (swapRequest c (toBase58 (ce_sdk (ex_chain c)) (ex_executor c)) quote
         (toBase58 (ce_sdk (ex_chain c)) receiver)) swapIxs"
      "list_all2 (decoded c) (sw_setupInstructions swapIxs) before" "decoded c (sw_swapInstruction swapIxs) swap"
      "list_all2 (decoded c) (case sw_cleanupInstruction swapIxs of None \<Rightarrow> [] | Some ix \<Rightarrow> [ix]) cleanup"
      "bn_toNumber (dc_roundId claim) = Inr roundId"
      "buildBeginDegenExecution (ex_chain c) (ex_executor c) (dc_winner claim) roundId (cd_rank cand)
         (cd_index cand) (jq_otherAmountThreshold quote) (routeHashFromQuote c quote) mint receiver vrf = Inr b"
    for pre price b before swap cleanup alts quote swapIxs roundId
  proof -
    have "list_all2 (decoded c) (sw_setupInstructions swapIxs @ [sw_swapInstruction swapIxs] @
        (case sw_cleanupInstruction swapIxs of None \<Rightarrow> [] | Some ix \<Rightarrow> [ix])) (before @ [swap] @ cleanup)"
      using that(3-5) by (simp add: list_all2_appendI)
    with that assms have "execution_body c claim cand payout m d slip vrf mint receiver roundId b (before @ [swap] @ cleanup)"
      unfolding execution_body_def by auto
    then show ?thesis
      using that(6) by (auto intro!: exI [of _ "pre @ [price]"])
  qed
  show ?thesis
    unfolding swapInstructionsFor_def getQuoteWithMaxAccounts_def getSwapInstructions_def Let_def
    by (intro returns_bind [OF returns_jupiter] returns_bind [OF returns_mapE [OF returns_decoded]]
        returns_bind [OF returns_decoded] returns_bind [OF returns_pure] returns_bind [OF returns_any] returns_ret)
      (rule heart; assumption)
qed

lemma instructions_shape:
  assumes "bn_toNumber (dc_roundId claim) = Inr roundId"
    and "buildBeginDegenExecution (ex_chain c) (ex_executor c) (dc_winner claim) roundId (cd_rank cand)
      (cd_index cand) payout routeHash mint receiver vrf = Inr beginIx"
  shows "valid (\<lambda>_. True) (executionInstructions c claim cand payout m d slip vrf mint receiver prefix beginIx)
    (returns (\<lambda>(ixs, alts). \<exists>pre b body. ixs = pre @ [b] @ body \<and> set prefix \<subseteq> set pre \<and>
       execution_body c claim cand payout m d slip vrf mint receiver roundId b body))"
    (is "valid _ _ (returns ?G)")
proof (cases "is_direct_usdc c cand")
  case True
  have direct: "?G ([setComputeUnitLimit (ex_sv c) DEGEN_DIRECT_USDC_CU_LIMIT] @ prefix @
      [setComputeUnitPrice (ex_sv c) (DEGEN_PRIORITY_FEE c), beginIx] @
      [createTransfer c src receiver (ex_executor c) payout (TOKEN_PROGRAM_ID (ce_programs (ex_chain c)))], [])"
    if "ata (ex_chain c) (usdc (ex_chain c)) (ex_executor c) False = Inr src" for src
    using that assms(2) True
    by (auto intro!: exI [of _ "setComputeUnitLimit (ex_sv c) DEGEN_DIRECT_USDC_CU_LIMIT # prefix @
      [setComputeUnitPrice (ex_sv c) (DEGEN_PRIORITY_FEE c)]"] simp: execution_body_def)
  show ?thesis
    unfolding executionInstructions_def if_P [OF True] by (intro returns_bind [OF returns_pure] returns_ret direct)
next
  case False
  have swap: "?G (prefix @ pre @ [b] @ body, alts)"
    if "execution_body c claim cand payout m d slip vrf mint receiver roundId b body" for pre b body alts
    using that by (auto intro!: exI [of _ "prefix @ pre"])
  show ?thesis
    unfolding executionInstructions_def if_not_P [OF False]
    by (rule returns_bind [OF swap_shape [OF False]], clarify, rule returns_ret)
      (use assms(1) in \<open>auto intro: swap [simplified]\<close>)
qed

lemma execution_txI:
  assumes "\<exists>pre b body. ixs = pre @ [b] @ body \<and>
       set (drain @ [createAtaIdempotent c (ex_executor c) receiver (dc_winner claim) mint owner]) \<subseteq> set pre \<and>
       execution_body c claim cand payout m d slip vrf mint receiver roundId b body"
    and "parsePublicKey (ce_sdk (ex_chain c)) (cd_mint cand) = Some mint"
    and "ataOfProgram c mint (dc_winner claim) True owner = Inr receiver" and "\<not> \<not> supported_owner c owner"
    and "bn_toNumber (dc_roundId claim) = Inr roundId"
    and "buildFinalizeDegenSuccess (ex_chain c) (ex_executor c) (dc_winner claim) roundId receiver = Inr f"
    and "vt_ixs tx = ixs @ [f]" and "vt_payer tx = ex_executor c"
  shows "execution_tx c claim cand payout m d slip vrf tx"
proof -
  from assms(1) obtain pre b body where ixs: "ixs = pre @ [b] @ body" and b:
      "createAtaIdempotent c (ex_executor c) receiver (dc_winner claim) mint owner \<in> set pre"
      "execution_body c claim cand payout m d slip vrf mint receiver roundId b body"
    by auto
  from assms(7) ixs have "vt_ixs tx = pre @ [b] @ body @ [f]" by simp
  with b assms(2-6,8) show ?thesis unfolding execution_tx_def not_not by blast
qed

lemma build_shape:
  "valid (\<lambda>_. True) (buildExecutionTx c claim cand payout m d slip vrf)
     (returns (\<lambda>(tx, _). execution_tx c claim cand payout m d slip vrf tx))"
  unfolding buildExecutionTx_def Let_def
  by (intro returns_bind [OF returns_key] returns_bind [OF returns_pure] returns_bind [OF instructions_shape]
      returns_bind [OF returns_any] returns_ret returns_error returns_if valid_case_option valid_case_prod; assumption?)
    (unfold prod.case, rule execution_txI, (assumption | simp)+)

section \<open>Errors\<close>

abbreviation never_throws :: "('s, 'e + 'a) state \<Rightarrow> bool" where
  "never_throws m \<equiv> valid (\<lambda>_. True) m (\<lambda>r _. \<exists>x. r = Inr x)"

lemma never_throws_return: "never_throws (returnE x)"
  by (rule valid_returnE) simp

lemma never_throws_bind:
  assumes "never_throws m" and "\<And>x. never_throws (f x)"
  shows "never_throws (bindE m f)"
  by (rule valid_bindE [where R = "\<lambda>_ _. True", OF _ assms(2)]) (rule valid_weaken [OF assms(1)], auto)

lemma never_throws_try:
  assumes "\<And>e. never_throws (h e)"
  shows "never_throws (tryE m h)"
  by (rule valid_tryE [where R = "\<lambda>_ _. True", OF _ assms]) (auto simp: valid_def split: sum.splits)

lemmas never_throws_rules = never_throws_return never_throws_bind never_throws_try

lemma tryCandidates_total: "never_throws (tryCandidates c claim payout vrf cands)"
  by (induction cands) (auto intro!: never_throws_rules valid_if claimMovedOn_total)

lemma claimFallback_total: "never_throws (claimFallback c claim t)"
  unfolding claimFallback_def Let_def by (intro never_throws_rules)

lemma nowSeconds_total: "never_throws (nowSeconds c)"
  by (auto simp: nowSeconds_def valid_def split: prod.splits)

lemma processReadyClaim_errors:
  "valid (\<lambda>s. ex_events s = []) (processReadyClaim c claim)
     (\<lambda>r s. case r of Inl _ \<Rightarrow> ex_events s = [] | Inr _ \<Rightarrow> True)"
proof -
  have tail: "valid (\<lambda>s. ex_events s = []) (bindE (tryCandidates c claim payout vrf cands) (\<lambda>finished.
      if finished then returnE () else bindE (nowSeconds c) (\<lambda>nowSec.
        if dc_fallbackAfterTs claim \<le> nowSec then claimFallback c claim nowSec else returnE ())))
      (\<lambda>r s. case r of Inl _ \<Rightarrow> ex_events s = [] | Inr _ \<Rightarrow> True)" for payout vrf cands
    by (rule valid_weaken [of "\<lambda>_. True" _ "\<lambda>r _. \<exists>x. r = Inr x"])
      (intro never_throws_rules valid_if tryCandidates_total nowSeconds_total claimFallback_total, auto)
  have ready: "keeps (\<lambda>s. ex_events s = []) (readyPayout c claim)"
    unfolding readyPayout_def Let_def by (intro hoare)
  have derive: "keeps (\<lambda>s. ex_events s = []) (deriveClaimCandidates c claim)"
    unfolding deriveClaimCandidates_def by (intro hoare)
  have step: "valid (\<lambda>s. ex_events s = []) (bindE m f) (\<lambda>r s. case r of Inl _ \<Rightarrow> ex_events s = [] | Inr _ \<Rightarrow> True)"
    if "keeps (\<lambda>s. ex_events s = []) m" "\<And>x. valid (\<lambda>s. ex_events s = []) (f x) (\<lambda>r s. case r of Inl _ \<Rightarrow> ex_events s = [] | Inr _ \<Rightarrow> True)"
    for m :: "(('a, 'b, 'c) executor, exec_error + 'd) state" and f :: "'d \<Rightarrow> (('a, 'b, 'c) executor, exec_error + unit) state"
    by (rule valid_bindE [OF _ that(2)]) (rule valid_weaken [OF that(1)], auto split: sum.splits)
  show ?thesis
    unfolding processReadyClaim_def
    by (intro step ready derive tail valid_case_option valid_case_prod valid_returnE) simp
qed

section \<open>Properties\<close>


text \<open>
  C11. An execution transaction is atomic in the intended order: if one is built, the executor
  pays for it, it creates the winner's associated account for the candidate's mint under the mint's
  token program, begins the execution of the claim's round for exactly this candidate's rank, index
  and mint with that account as the receiver, and ends with the finalize instruction for the same
  receiver. For the candidate USDC the minimum output is the payout and the only instruction in
  between transfers exactly the payout from the executor to the receiver. For any other token the
  instructions in between are, in order, the setup, swap and cleanup instructions that Jupiter
  returned for a quote of exactly the payout with the receiver as destination, and the minimum
  output and the route hash are those of that quote.
\<close>

theorem execution_shape:
  "returns (\<lambda>(tx, _). execution_tx c claim cand payout maxAccounts onlyDirect slip vrf tx)
     (fst (run_state (buildExecutionTx c claim cand payout maxAccounts onlyDirect slip vrf) s)) ()"
  using valid_run [OF build_shape [of c claim cand payout maxAccounts onlyDirect slip vrf], of s]
  by (simp add: returns_def)

text \<open>
  Failures of candidates, of the timeout check and of the fallback never escape from a claim:
  when \<open>processReadyClaim\<close> throws, it has not attempted any transaction.
\<close>

theorem claim_throws_before_sending:
  "case run_state (processReadyClaim c claim) (s\<lparr>ex_events := []\<rparr>) of
     (Inl _, t) \<Rightarrow> ex_events t = [] | (Inr _, t) \<Rightarrow> True"
  using valid_run [OF processReadyClaim_errors [of c claim], of "s\<lparr>ex_events := []\<rparr>"]
  by (auto split: prod.splits sum.splits)

end
