(* ===== verification/Actions.thy ===== *)
theory Actions
  imports JS_Number Firebase Round_Scan
begin

text \<open>
  What the end points of the Actions API share, \<open>lib/api/actions-shared.ts\<close> (the file
  \<open>api/actions/_shared.ts\<close> is the same text): request parsing, errors with a status and a
  code, the scan for the current round with its cache, and the search for a claimable or
  refundable round.

  A handler is a computation on the module's cache and the outside world that yields a
  response or throws; \<open>withHandler\<close> turns what it throws into a response. Response headers
  are not modelled. Requests issued together by \<open>Promise.all\<close> run in the order of the
  list. JSON text is \<open>parseJson\<close>'s, the printed form of a \<open>Number\<close> \<open>showNumber\<close>'s, the
  conversion to a big number \<open>bnOfNumber\<close>'s. An error a package throws is its message.

  In a response \<open>JQuot a b\<close> is \<open>Number(a) / b\<close>, \<open>JUrl\<close> a URL given by protocol, host, path
  and search parameters, and \<open>JText j\<close> the string \<open>JSON.stringify(j)\<close>.
\<close>

section \<open>Requests, responses and errors\<close>

datatype json = JNull | JBool bool | JNum js_number | JQuot int int | JStr string | JArr "json list"
  | JObj "(string \<times> json) list" | JUrl string string string "(string \<times> json) list" | JText json

datatype qval = QStr string | QArr "string list"

datatype req_body = NoBody | TextBody string | JsonBody json

record request =
  rq_method :: string
  rq_body :: req_body
  rq_query :: "string \<Rightarrow> qval option"
  rq_headers :: "string \<Rightarrow> string option"

datatype 'pk payload = Json json | PostResponse 'pk string "'pk instruction list" string

record 'pk response =
  rp_status :: int
  rp_payload :: "'pk payload option"

datatype api_error = ApiError int string string | PlainError string

definition error_status :: "api_error \<Rightarrow> int" where
  "error_status e = (case e of ApiError st _ _ \<Rightarrow> if st = 0 then 500 else st | PlainError _ \<Rightarrow> 500)"

definition error_code :: "string \<Rightarrow> api_error \<Rightarrow> string" where
  "error_code dflt e = (case e of ApiError _ code _ \<Rightarrow> if code = [] then dflt else code | PlainError _ \<Rightarrow> dflt)"

definition error_message :: "string \<Rightarrow> api_error \<Rightarrow> string" where
  "error_message dflt e =
     (let msg = (case e of ApiError _ _ m \<Rightarrow> m | PlainError m \<Rightarrow> m) in if msg = [] then dflt else msg)"

section \<open>State and environment\<close>

record round_cache =
  tsMs :: int
  activeRoundId :: "int option"
  joinableRoundId :: "int option"

record 'w actions =
  currentRoundCache :: round_cache
  ac_world :: 'w

record ('w, 'pk) actions_env =
  ac_sv :: "('w, 'pk) services"
  ac_chain :: "'pk chain_env"
  ac_ieee :: ieee
  parseJson :: "string \<Rightarrow> json result"
  showNumber :: "js_number \<Rightarrow> string"
  bnOfNumber :: "rat \<Rightarrow> int result"
  ac_getTokenAccountBalance :: "'pk \<Rightarrow> ('w, int result) state"
  ac_createAtaIdempotent :: "'pk \<Rightarrow> 'pk \<Rightarrow> 'pk \<Rightarrow> 'pk \<Rightarrow> 'pk instruction"
  ac_compile :: "'pk \<Rightarrow> string \<Rightarrow> 'pk instruction list \<Rightarrow> unit result"

type_synonym ('w, 'a) action = "('w actions, api_error + 'a) state"

definition rpc :: "('w, 'a result) state \<Rightarrow> ('w, 'a) action" where
  "rpc m = State (\<lambda>s. case run_state m (ac_world s) of (x, w) \<Rightarrow> (map_sum PlainError id x, s\<lparr>ac_world := w\<rparr>))"

definition dateNowMs :: "('w, 'pk) actions_env \<Rightarrow> ('w, int) action" where
  "dateNowMs c = rpc (do { t \<leftarrow> dateNow (ac_sv c); State_Monad.return (Inr t) })"

definition plain :: "'a result \<Rightarrow> api_error + 'a" where
  "plain r = map_sum PlainError id r"

definition api_throw :: "int \<Rightarrow> string \<Rightarrow> string \<Rightarrow> ('w, 'a) action" where
  "api_throw status code msg = throwE (ApiError status code msg)"

definition CURRENT_ROUND_CACHE_TTL_MS :: int where "CURRENT_ROUND_CACHE_TTL_MS = 5000"
definition ROUND_SCAN_BATCH :: nat where "ROUND_SCAN_BATCH = 20"
definition ROUND_SCAN_MAX :: nat where "ROUND_SCAN_MAX = 200"
definition ROUND_SCAN_NULL_STREAK_LIMIT :: int where "ROUND_SCAN_NULL_STREAK_LIMIT = 20"
definition ELIGIBILITY_LOOKBACK_ROUNDS :: int where "ELIGIBILITY_LOOKBACK_ROUNDS = 300"

section \<open>Responses\<close>

definition json_response :: "int \<Rightarrow> json \<Rightarrow> 'pk response" where
  "json_response status body = \<lparr>rp_status = status, rp_payload = Some (Json body)\<rparr>"

definition jsonError :: "int \<Rightarrow> string \<Rightarrow> string \<Rightarrow> 'pk response" where
  "jsonError status code msg = json_response status
     (JObj [(''error'', JObj [(''code'', JStr code), (''message'', JStr msg), (''details'', JNull)])])"

definition maybeHandleOptions :: "request \<Rightarrow> 'pk response option" where
  "maybeHandleOptions req =
     (if rq_method req = ''OPTIONS'' then Some \<lparr>rp_status = 204, rp_payload = None\<rparr> else None)"

definition withHandler :: "('w, 'pk response) action \<Rightarrow> ('w, 'pk response) action" where
  "withHandler fn =
     tryE fn (\<lambda>e. returnE (jsonError (error_status e) (error_code ''INTERNAL_ERROR'' e) (error_message ''Error'' e)))"

definition serializeEligibilityError :: "api_error \<Rightarrow> string \<Rightarrow> (string \<times> json) list" where
  "serializeEligibilityError e fallbackCode =
     (let code = error_code fallbackCode e;
          retryable = (code = ''NO_UNCLAIMED_PRIZE'' \<or> code = ''NO_REFUND_AVAILABLE'')
      in [(''eligible'', JBool False), (''code'', JStr code),
          (''message'', JStr (error_message ''Eligibility unknown'' e)), (''retryable'', JBool retryable)])"

section \<open>Request parsing\<close>

definition json_field :: "json \<Rightarrow> string \<Rightarrow> json option" where
  "json_field j k = (case j of JObj fs \<Rightarrow> map_of (rev fs) k | _ \<Rightarrow> None)"

definition parseBody :: "('w, 'pk) actions_env \<Rightarrow> request \<Rightarrow> api_error + json" where
  "parseBody c req =
     (case rq_body req of
        NoBody \<Rightarrow> Inr (JObj [])
      | TextBody s \<Rightarrow> plain (parseJson c s)
      | JsonBody j \<Rightarrow> Inr j)"

definition requireAccount :: "('w, 'pk) actions_env \<Rightarrow> json \<Rightarrow> api_error + 'pk" where
  "requireAccount c body =
     (case json_field body ''account'' of
        Some (JStr raw) \<Rightarrow>
          if raw = [] then Inl (ApiError 400 ''MISSING_ACCOUNT'' ''Missing body.account'')
          else (case parsePublicKey (ce_sdk (ac_chain c)) raw of
              None \<Rightarrow> Inl (ApiError 400 ''INVALID_ACCOUNT'' ''Invalid account pubkey'')
            | Some k \<Rightarrow> Inr k)
      | _ \<Rightarrow> Inl (ApiError 400 ''MISSING_ACCOUNT'' ''Missing body.account''))"

definition parseOptionalAccountQuery :: "('w, 'pk) actions_env \<Rightarrow> request \<Rightarrow> api_error + 'pk option" where
  "parseOptionalAccountQuery c req =
     (case rq_query req ''account'' of
        None \<Rightarrow> Inr None
      | Some (QArr _) \<Rightarrow> Inl (ApiError 400 ''INVALID_ACCOUNT'' ''Invalid account query param'')
      | Some (QStr raw) \<Rightarrow>
          if raw = [] then Inr None
          else (case parsePublicKey (ce_sdk (ac_chain c)) raw of
              None \<Rightarrow> Inl (ApiError 400 ''INVALID_ACCOUNT'' ''Invalid account query param'')
            | Some k \<Rightarrow> Inr (Some k)))"

definition qval_string :: "qval \<Rightarrow> string" where
  "qval_string v = (case v of QStr s \<Rightarrow> s | QArr xs \<Rightarrow> concat (map2 (\<lambda>i x. if i = 0 then x else CHR '','' # x) [0..<length xs] xs))"

definition parseRoundId :: "('w, 'pk) actions_env \<Rightarrow> request \<Rightarrow> api_error + rat" where
  "parseRoundId c req =
     (let n = (case rq_query req ''roundId'' of None \<Rightarrow> NaN | Some raw \<Rightarrow> js_Number (ac_ieee c) (qval_string raw)) in
      case n of
        Finite q \<Rightarrow> if q < 0 then Inl (ApiError 400 ''INVALID_ROUND_ID'' ''roundId query param is required'') else Inr q
      | _ \<Rightarrow> Inl (ApiError 400 ''INVALID_ROUND_ID'' ''roundId query param is required''))"

definition parseOptionalRoundId :: "('w, 'pk) actions_env \<Rightarrow> request \<Rightarrow> api_error + rat option" where
  "parseOptionalRoundId c req =
     (if rq_query req ''roundId'' = None \<or> rq_query req ''roundId'' = Some (QStr []) then Inr None
      else and_then (parseRoundId c req) (\<lambda>n. Inr (Some n)))"

fun replace_comma :: "string \<Rightarrow> string" where
  "replace_comma [] = []"
| "replace_comma (x # xs) = (if x = CHR '','' then CHR ''.'' # xs else x # replace_comma xs)"

definition bigint_infinity :: string where
  "bigint_infinity =
     ''The number Infinity cannot be converted to a BigInt because it is not an integer''"

definition parseUsdcAmountRaw :: "('w, 'pk) actions_env \<Rightarrow> request \<Rightarrow> api_error + int" where
  "parseUsdcAmountRaw c req =
     (case rq_query req ''amount'' of
        None \<Rightarrow> Inl (ApiError 400 ''INVALID_AMOUNT'' ''amount query param is required'')
      | Some raw \<Rightarrow> (case js_Number (ac_ieee c) (js_trim (replace_comma (qval_string raw))) of
          Finite num \<Rightarrow>
            if num \<le> 0 then Inl (ApiError 400 ''INVALID_AMOUNT'' ''Amount must be > 0'')
            else (case ac_ieee c (num * 1000000) of
                Finite p \<Rightarrow>
                  if \<lfloor>p\<rfloor> \<le> 0 then Inl (ApiError 400 ''INVALID_AMOUNT'' ''Amount too small'') else Inr \<lfloor>p\<rfloor>
              | _ \<Rightarrow> Inl (PlainError bigint_infinity))
        | _ \<Rightarrow> Inl (ApiError 400 ''INVALID_AMOUNT'' ''Amount must be > 0'')))"

section \<open>Links and texts\<close>

definition actionUrl :: "request \<Rightarrow> string \<Rightarrow> (string \<times> json) list \<Rightarrow> json" where
  "actionUrl req pathname qs =
     (let host = rq_headers req ''host'';
          proto = (case rq_headers req ''x-forwarded-proto'' of
              Some p \<Rightarrow> if p \<noteq> [] then Some p else None | None \<Rightarrow> None);
          local = (case host of Some h \<Rightarrow> js_includes h ''localhost'' \<or> js_includes h ''127.0.0.1'' | None \<Rightarrow> False)
      in JUrl (case proto of Some p \<Rightarrow> p | None \<Rightarrow> if local then ''http'' else ''https'')
           (case host of Some h \<Rightarrow> h | None \<Rightarrow> ''undefined'') pathname qs)"

definition actionIconUrl :: "request \<Rightarrow> json" where
  "actionIconUrl req = actionUrl req ''/metadata/w_logo.svg'' []"

definition actionEnvelope :: "request \<Rightarrow> string \<Rightarrow> string \<Rightarrow> string \<Rightarrow> json option \<Rightarrow> (string \<times> json) list \<Rightarrow>
    (string \<times> json) list" where
  "actionEnvelope req title description label links extra =
     [(''type'', JStr ''action''), (''icon'', actionIconUrl req), (''title'', JStr title),
      (''description'', JStr description), (''label'', JStr label)] @
     (case links of Some l \<Rightarrow> [(''links'', l)] | None \<Rightarrow> []) @ extra"

text \<open>\<open>(Number(raw) / 1_000_000).toFixed(2)\<close>; beyond \<open>1e21\<close> the printed form differs.\<close>

definition fixed2 :: "rat \<Rightarrow> string" where
  "fixed2 q =
     (let n = \<lfloor>q * 100 + 1 / 2\<rfloor> in
      js_string (n div 100) @ ''.'' @ js_string (n mod 100 div 10) @ js_string (n mod 10))"

definition formatUsdcRaw :: "('w, 'pk) actions_env \<Rightarrow> int \<Rightarrow> string" where
  "formatUsdcRaw c raw =
     (case ac_ieee c (of_int raw) of
        Finite q \<Rightarrow> (case ac_ieee c (q / 1000000) of Finite p \<Rightarrow> fixed2 p | _ \<Rightarrow> ''Infinity'')
      | _ \<Rightarrow> ''Infinity'')"

definition buildActionTxResponse :: "('w, 'pk) actions_env \<Rightarrow> 'pk \<Rightarrow> 'pk instruction list \<Rightarrow> string \<Rightarrow>
    ('w, 'pk response) action" where
  "buildActionTxResponse c payer instructions msg =
     bindE (rpc (getLatestBlockhash (ac_sv c))) (\<lambda>blockhash.
     bindE (liftE (plain (ac_compile c payer blockhash instructions))) (\<lambda>_.
     returnE \<lparr>rp_status = 200, rp_payload = Some (PostResponse payer blockhash instructions msg)\<rparr>))"

section \<open>Accounts\<close>

definition fetchParsedConfig :: "('w, 'pk) actions_env \<Rightarrow> ('w, 'pk ParsedConfig) action" where
  "fetchParsedConfig c =
     bindE (rpc (getAccountInfo (ac_sv c) (config_pda (ac_chain c)))) (\<lambda>info.
     case info of
       None \<Rightarrow> api_throw 500 ''CONFIG_NOT_FOUND'' ''Config not found''
     | Some data \<Rightarrow> (case parseConfig (ce_sdk (ac_chain c)) data of
         None \<Rightarrow> api_throw 500 ''CONFIG_PARSE_ERROR'' ''Failed to parse config account''
       | Some cfg \<Rightarrow> returnE cfg))"

definition fetchParsedRound :: "('w, 'pk) actions_env \<Rightarrow> rat \<Rightarrow> ('w, 'pk RoundData option) action" where
  "fetchParsedRound c roundId =
     bindE (liftE (plain (bnOfNumber c roundId))) (\<lambda>id.
     bindE (rpc (getAccountInfo (ac_sv c) (round_pda (ac_chain c) id))) (\<lambda>info.
     returnE (case info of None \<Rightarrow> None | Some data \<Rightarrow> parseRound (ce_sdk (ac_chain c)) data)))"

section \<open>The current round\<close>

datatype scan_mode = ActiveMode | JoinableMode

record api_scan =
  as_maxExisting :: int
  as_activeRound :: int
  as_joinableRound :: int
  as_nullStreak :: int

definition isJoinableRoundStatus :: "int \<Rightarrow> bool" where
  "isJoinableRoundStatus status \<longleftrightarrow> status = Open"

definition api_scan_done :: "api_scan \<Rightarrow> bool" where
  "api_scan_done v \<longleftrightarrow> 0 < as_maxExisting v \<and> ROUND_SCAN_NULL_STREAK_LIMIT \<le> as_nullStreak v"

fun scanInfos :: "('pk, 'm) sdk_scheme \<Rightarrow> (int \<times> buffer option) list \<Rightarrow> api_scan \<Rightarrow> api_scan" where
  "scanInfos sdk [] v = v"
| "scanInfos sdk ((rid, info) # rest) v =
     (case info of
        None \<Rightarrow>
          let v1 = v\<lparr>as_nullStreak := as_nullStreak v + 1\<rparr> in
          if api_scan_done v1 then v1 else scanInfos sdk rest v1
      | Some data \<Rightarrow>
          let v1 = v\<lparr>as_nullStreak := 0\<rparr> in
          (case parseRound sdk data of
             None \<Rightarrow> scanInfos sdk rest v1
           | Some parsed \<Rightarrow>
               let v2 = v1\<lparr>as_maxExisting := rid\<rparr>;
                   v3 = (if isActiveRoundStatus (rd_status parsed) then v2\<lparr>as_activeRound := rid\<rparr> else v2)
               in scanInfos sdk rest
                    (if isJoinableRoundStatus (rd_status parsed) then v3\<lparr>as_joinableRound := rid\<rparr> else v3)))"

fun scanBatches :: "('w, 'pk) actions_env \<Rightarrow> int list \<Rightarrow> api_scan \<Rightarrow> ('w, api_scan) action" where
  "scanBatches c [] v = returnE v"
| "scanBatches c (base # rest) v =
     (let ids = map (\<lambda>i. base + int i) [0..<ROUND_SCAN_BATCH] in
      bindE (rpc (getMultipleAccountsInfo (ac_sv c) (map (round_pda (ac_chain c)) ids))) (\<lambda>infos.
      let v1 = scanInfos (ce_sdk (ac_chain c)) (zip ids infos) v in
      if api_scan_done v1 then returnE v1 else scanBatches c rest v1))"

text \<open>The bases of the \<open>for\<close> loop, \<open>scanStart\<close> to \<open>scanStart + ROUND_SCAN_MAX\<close>.\<close>

definition scan_bases :: "int \<Rightarrow> int list" where
  "scan_bases scanStart = map (\<lambda>i. scanStart + int (ROUND_SCAN_BATCH * i)) [0..<ROUND_SCAN_MAX div ROUND_SCAN_BATCH + 1]"

definition mode_round :: "scan_mode \<Rightarrow> round_cache \<Rightarrow> int option" where
  "mode_round mode cache = (case mode of JoinableMode \<Rightarrow> joinableRoundId cache | ActiveMode \<Rightarrow> activeRoundId cache)"

definition seed_round :: "scan_mode \<Rightarrow> round_cache \<Rightarrow> int" where
  "seed_round mode cache =
     (let (first, second) = (case mode of
          JoinableMode \<Rightarrow> (joinableRoundId cache, activeRoundId cache)
        | ActiveMode \<Rightarrow> (activeRoundId cache, joinableRoundId cache))
      in case first of Some r \<Rightarrow> r | None \<Rightarrow> (case second of Some r \<Rightarrow> r | None \<Rightarrow> 1))"

definition cache_of_scan :: "int \<Rightarrow> api_scan \<Rightarrow> round_cache" where
  "cache_of_scan t v = \<lparr>tsMs = t,
     activeRoundId = Some (if 0 < as_activeRound v then as_activeRound v else max 1 (as_maxExisting v)),
     joinableRoundId = (if 0 < as_joinableRound v then Some (as_joinableRound v) else None)\<rparr>"

definition no_round_error :: "scan_mode \<Rightarrow> api_error" where
  "no_round_error mode = (case mode of
     JoinableMode \<Rightarrow> ApiError 404 ''NO_OPEN_ROUND'' ''No open round found''
   | ActiveMode \<Rightarrow> ApiError 404 ''NO_ACTIVE_ROUND'' ''No active round found'')"

text \<open>The scan itself, when the cache does not answer.\<close>

definition rescan :: "('w, 'pk) actions_env \<Rightarrow> scan_mode \<Rightarrow> int \<Rightarrow> int \<Rightarrow> ('w, int) action" where
  "rescan c mode now scanStart =
     bindE (scanBatches c (scan_bases scanStart)
              \<lparr>as_maxExisting = 0, as_activeRound = 0, as_joinableRound = 0, as_nullStreak = 0\<rparr>) (\<lambda>v.
     doE (State_Monad.update (\<lambda>s. s\<lparr>currentRoundCache := cache_of_scan now v\<rparr>)) (\<lambda>_.
     case mode_round mode (cache_of_scan now v) of
       None \<Rightarrow> throwE (no_round_error mode)
     | Some r \<Rightarrow> if r \<le> 0 then throwE (no_round_error mode) else returnE r))"

definition scanRoundIds :: "('w, 'pk) actions_env \<Rightarrow> scan_mode \<Rightarrow> ('w, int) action" where
  "scanRoundIds c mode =
     bindE (dateNowMs c) (\<lambda>now.
     doE State_Monad.get (\<lambda>s.
     let cache = currentRoundCache s;
         cached = (if now - tsMs cache < CURRENT_ROUND_CACHE_TTL_MS then mode_round mode cache else None) in
     case cached of
       Some r \<Rightarrow> if 0 < r then returnE r else rescan c mode now (max 1 (seed_round mode cache - 2))
     | None \<Rightarrow> rescan c mode now (max 1 (seed_round mode cache - 2))))"

definition resolveRoundId :: "('w, 'pk) actions_env \<Rightarrow> request \<Rightarrow> scan_mode \<Rightarrow> ('w, rat \<times> string) action" where
  "resolveRoundId c req mode =
     bindE (liftE (parseOptionalRoundId c req)) (\<lambda>queryRoundId.
     case queryRoundId of
       Some q \<Rightarrow> returnE (q, ''query'')
     | None \<Rightarrow> bindE (scanRoundIds c mode) (\<lambda>roundId. returnE (of_int roundId, ''auto'')))"

definition getLatestKnownRoundId :: "('w, 'pk) actions_env \<Rightarrow> ('w, int) action" where
  "getLatestKnownRoundId c = bindE (scanRoundIds c ActiveMode) (\<lambda>r. returnE (max 1 r))"

section \<open>Searching back\<close>

text \<open>The \<open>while\<close> loop ends for a positive batch size only.\<close>

definition batch_down :: "int \<Rightarrow> int \<Rightarrow> nat \<Rightarrow> int list" where
  "batch_down current endInclusive batchSize =
     takeWhile (\<lambda>r. endInclusive \<le> r) (map (\<lambda>i. current - int i) [0..<batchSize])"

partial_function (option) descendingBatches :: "int \<Rightarrow> int \<Rightarrow> nat \<Rightarrow> int list list option" where
  "descendingBatches current endInclusive batchSize =
     (if current < endInclusive then Some []
      else do { rest \<leftarrow> descendingBatches (current - int batchSize) endInclusive batchSize;
                Some (batch_down current endInclusive batchSize # rest) })"

text \<open>The first entry of a batch that satisfies the test, the \<open>return\<close> inside the loop.\<close>

definition first_match :: "('x \<Rightarrow> bool) \<Rightarrow> (int \<times> 'x) list \<Rightarrow> int option" where
  "first_match p entries = map_option fst (List.find (\<lambda>(_, x). p x) entries)"

definition claimable_by :: "('pk, 'm) sdk_scheme \<Rightarrow> 'pk \<Rightarrow> buffer option \<Rightarrow> bool" where
  "claimable_by sdk winner info =
     (case info of
        None \<Rightarrow> False
      | Some data \<Rightarrow> (case parseRound sdk data of
          None \<Rightarrow> False
        | Some rd \<Rightarrow> rd_status rd = Settled \<and> rd_winner rd = winner))"

definition is_cancelled :: "('pk, 'm) sdk_scheme \<Rightarrow> buffer option \<Rightarrow> bool" where
  "is_cancelled sdk info =
     (case info of
        None \<Rightarrow> False
      | Some data \<Rightarrow> (case parseRound sdk data of None \<Rightarrow> False | Some rd \<Rightarrow> rd_status rd = Cancelled))"

definition refundable_to :: "('pk, 'm) sdk_scheme \<Rightarrow> 'pk \<Rightarrow> buffer option \<Rightarrow> bool" where
  "refundable_to sdk user info =
     (case info of
        None \<Rightarrow> False
      | Some data \<Rightarrow> (case parseParticipant sdk data of
          None \<Rightarrow> False
        | Some p \<Rightarrow> pd_user p = user \<and> 0 < pd_usdcTotal p))"

fun searchClaimable :: "('w, 'pk) actions_env \<Rightarrow> 'pk \<Rightarrow> int list list \<Rightarrow> ('w, int) action" where
  "searchClaimable c winner [] = api_throw 404 ''NO_UNCLAIMED_PRIZE'' ''No claimable prize found in recent rounds''"
| "searchClaimable c winner (ids # rest) =
     bindE (rpc (getMultipleAccountsInfo (ac_sv c) (map (round_pda (ac_chain c)) ids))) (\<lambda>infos.
     case first_match (claimable_by (ce_sdk (ac_chain c)) winner) (zip ids infos) of
       Some r \<Rightarrow> returnE r
     | None \<Rightarrow> searchClaimable c winner rest)"

fun searchRefundable :: "('w, 'pk) actions_env \<Rightarrow> 'pk \<Rightarrow> int list list \<Rightarrow> ('w, int) action" where
  "searchRefundable c user [] =
     api_throw 404 ''NO_REFUND_AVAILABLE'' ''No refundable cancelled round found in recent rounds''"
| "searchRefundable c user (ids # rest) =
     bindE (rpc (getMultipleAccountsInfo (ac_sv c) (map (round_pda (ac_chain c)) ids))) (\<lambda>roundInfos.
     let cancelledIds = map fst (filter (\<lambda>(_, info). is_cancelled (ce_sdk (ac_chain c)) info) (zip ids roundInfos)) in
     if cancelledIds = [] then searchRefundable c user rest
     else
       bindE (rpc (getMultipleAccountsInfo (ac_sv c)
                (map (\<lambda>rid. participant_pda (ac_chain c) (round_pda (ac_chain c) rid) user) cancelledIds))) (\<lambda>participantInfos.
       case first_match (refundable_to (ce_sdk (ac_chain c)) user) (zip cancelledIds participantInfos) of
         Some r \<Rightarrow> returnE r
       | None \<Rightarrow> searchRefundable c user rest))"

text \<open>Both searches run over the last 301 rounds at most; the batches are those of a positive size.\<close>

definition lookback_batches :: "int \<Rightarrow> int list list" where
  "lookback_batches latest =
     (case descendingBatches latest (max 1 (latest - ELIGIBILITY_LOOKBACK_ROUNDS)) ROUND_SCAN_BATCH of
        Some bs \<Rightarrow> bs | None \<Rightarrow> [])"

definition findLatestClaimableRoundId :: "('w, 'pk) actions_env \<Rightarrow> 'pk \<Rightarrow> ('w, int) action" where
  "findLatestClaimableRoundId c winner =
     bindE (getLatestKnownRoundId c) (\<lambda>latest. searchClaimable c winner (lookback_batches latest))"

definition findLatestRefundableRoundId :: "('w, 'pk) actions_env \<Rightarrow> 'pk \<Rightarrow> ('w, int) action" where
  "findLatestRefundableRoundId c user =
     bindE (getLatestKnownRoundId c) (\<lambda>latest. searchRefundable c user (lookback_batches latest))"

section \<open>The batches\<close>

lemma batch_down_take:
  assumes "low \<le> current"
  shows "batch_down current low n = map (\<lambda>i. current - int i) [0..<min n (nat (current - low + 1))]"
proof -
  have "batch_down current low n = take (nat (current - low + 1)) (map (\<lambda>i. current - int i) [0..<n])"
    unfolding batch_down_def by (rule takeWhile_eq_take_P_nth) (use assms in auto)
  also have "take m [0..<n] = [0..<min n m]" for m
    by (cases "m \<le> n") (simp_all add: min_def take_upt)
  ultimately show ?thesis by (simp add: take_map)
qed

lemma down_split:
  assumes "low \<le> current" and "0 < n"
  shows "map (\<lambda>i. current - int i) [0..<nat (current - low + 1)] =
    batch_down current low n @ map (\<lambda>i. current - int n - int i) [0..<nat (current - int n - low + 1)]"
proof (cases "int n \<le> current - low + 1")
  case True
  then have "nat (current - low + 1) = n + nat (current - int n - low + 1)" by simp
  then have "map (\<lambda>i. current - int i) [0..<nat (current - low + 1)] =
      map (\<lambda>i. current - int i) [0..<n] @ map (\<lambda>i. current - int i) [n..<n + nat (current - int n - low + 1)]"
    by (metis map_append upt_add_eq_append zero_le)
  also have "map (\<lambda>i. current - int i) [n..<n + k] = map (\<lambda>i. current - int n - int i) [0..<k]" for k
    by (rule nth_equalityI) auto
  finally show ?thesis using True assms by (simp add: batch_down_take min_def)
next
  case False
  then show ?thesis using assms by (simp add: batch_down_take min_def)
qed

text \<open>For a positive batch size the batches exist; they list the rounds downwards, none larger than asked.\<close>

lemma descendingBatches_total:
  assumes "0 < n"
  shows "\<exists>bs. descendingBatches current low n = Some bs \<and>
    concat bs = map (\<lambda>i. current - int i) [0..<nat (current - low + 1)] \<and>
    (\<forall>b\<in>set bs. b \<noteq> [] \<and> length b \<le> n)"
proof (induction "nat (current - low + 1)" arbitrary: current rule: less_induct)
  case less
  show ?case
  proof (cases "current < low")
    case True
    then show ?thesis by (subst descendingBatches.simps) simp
  next
    case False
    with assms have "nat (current - int n - low + 1) < nat (current - low + 1)" by simp
    from less [OF this] obtain bs where bs: "descendingBatches (current - int n) low n = Some bs"
      "concat bs = map (\<lambda>i. current - int n - int i) [0..<nat (current - int n - low + 1)]"
      "\<forall>b\<in>set bs. b \<noteq> [] \<and> length b \<le> n" by blast
    have "batch_down current low n \<noteq> [] \<and> length (batch_down current low n) \<le> n"
      using False assms by (simp add: batch_down_take)
    with False bs down_split [of low current n] assms show ?thesis
      by (subst descendingBatches.simps) simp
  qed
qed

lemma lookback_concat:
  "concat (lookback_batches latest) =
     map (\<lambda>i. latest - int i) [0..<nat (latest - max 1 (latest - ELIGIBILITY_LOOKBACK_ROUNDS) + 1)]"
  using descendingBatches_total [of ROUND_SCAN_BATCH latest "max 1 (latest - ELIGIBILITY_LOOKBACK_ROUNDS)"]
  by (auto simp: lookback_batches_def ROUND_SCAN_BATCH_def)

end
