(* ===== verification/Actions_Api.thy ===== *)
theory Actions_Api
  imports Actions
begin

text \<open>
  The end points of the Actions API, the default exports of \<open>api/actions/*.ts\<close>: \<open>round\<close>,
  \<open>join\<close>, \<open>join-batch\<close>, \<open>claim\<close>, \<open>claim-refund\<close> and \<open>claim-degen\<close>. Every end point is a
  computation that yields one response; the requests it makes go through \<^const>\<open>rpc\<close> in
  the order of the source.
\<close>

section \<open>Shared pieces\<close>

text \<open>The UTF-8 bytes of the long dash of the titles.\<close>

definition em_dash :: string where
  "em_dash = [CHR 0xE2, CHR 0x80, CHR 0x94]"

definition jint :: "int \<Rightarrow> json" where
  "jint n = JNum (Finite (of_int n))"

definition method_not_allowed :: "string \<Rightarrow> 'pk response" where
  "method_not_allowed msg = json_response 405
     (JObj [(''error'', JObj [(''code'', JStr ''METHOD_NOT_ALLOWED''), (''message'', JStr msg)])])"

text \<open>What \<open>parseRound\<close> throws on data that is too short.\<close>

definition dataview_error :: string where
  "dataview_error = ''Offset is outside the bounds of the DataView''"

definition parseRoundE :: "('w, 'pk) actions_env \<Rightarrow> buffer \<Rightarrow> ('w, 'pk RoundData) action" where
  "parseRoundE c data =
     (case parseRound (ce_sdk (ac_chain c)) data of
        None \<Rightarrow> throwE (PlainError dataview_error) | Some rd \<Rightarrow> returnE rd)"

definition getRoundAccount :: "('w, 'pk) actions_env \<Rightarrow> rat \<Rightarrow> ('w, buffer option) action" where
  "getRoundAccount c roundId =
     bindE (liftE (plain (bnOfNumber c roundId))) (\<lambda>id.
     rpc (getAccountInfo (ac_sv c) (round_pda (ac_chain c) id)))"

text \<open>\<open>url.searchParams.set\<close> on a parameter that is not there yet.\<close>

definition url_set :: "string \<Rightarrow> json \<Rightarrow> json \<Rightarrow> json" where
  "url_set k v u = (case u of JUrl p h path qs \<Rightarrow> JUrl p h path (qs @ [(k, v)]) | _ \<Rightarrow> u)"

definition external_link :: "json \<Rightarrow> string \<Rightarrow> 'pk response" where
  "external_link uiUrl msg = json_response 200
     (JObj [(''type'', JStr ''external-link''), (''externalLink'', uiUrl), (''message'', JStr msg)])"

section \<open>round\<close>

definition hex_digit :: "nat \<Rightarrow> char" where
  "hex_digit d = (if d < 10 then char_of (48 + d) else char_of (87 + d))"

definition hex_string :: "buffer \<Rightarrow> string" where
  "hex_string b = concat (map (\<lambda>x. [hex_digit (unat x div 16), hex_digit (unat x mod 16)]) b)"

definition round_body :: "('w, 'pk) actions_env \<Rightarrow> request \<Rightarrow> rat \<Rightarrow> string \<Rightarrow> 'pk RoundData \<Rightarrow> 'pk ParsedConfig \<Rightarrow> json" where
  "round_body c req roundId source rd cfg =
     (let ticketUnit = cf_ticketUnit cfg; minTotalTickets = cf_minTotalTickets cfg in
      JObj (actionEnvelope req (''roll2roll '' @ em_dash @ '' Round #'' @ showNumber c (Finite roundId))
              ''Current or requested round details, including provably fair fields.'' ''Open Round'' None [] @
        [(''project'', JStr ''roll2roll''), (''roundId'', JNum (Finite roundId)), (''roundIdSource'', JStr source),
         (''status'', jint (rd_status rd)), (''totalUsdcRaw'', JStr (js_string (rd_totalUsdc rd))),
         (''totalUsdc'', JQuot (rd_totalUsdc rd) 1000000),
         (''totalTickets'', JStr (js_string (rd_totalTickets rd))),
         (''participantsCount'', jint (rd_participantsCount rd)),
         (''endTs'', JNum (ac_ieee c (of_int (rd_endTs rd)))),
         (''ticketUnitRaw'', JStr (js_string ticketUnit)), (''minTotalTickets'', JStr (js_string minTotalTickets)),
         (''minPotUsdc'', JQuot (ticketUnit * minTotalTickets) 1000000),
         (''provablyFair'', JObj [(''randomnessHex'', JStr (hex_string (rd_randomness rd))),
            (''winningTicket'', JStr (js_string (rd_winningTicket rd))),
            (''winner'', JStr (toBase58 (ce_sdk (ac_chain c)) (rd_winner rd)))])]))"

definition round_not_found :: "'pk response" where
  "round_not_found = json_response 404
     (JObj [(''error'', JObj [(''code'', JStr ''ROUND_NOT_FOUND''), (''message'', JStr ''Round not found'')])])"

definition round_handler :: "('w, 'pk) actions_env \<Rightarrow> request \<Rightarrow> ('w, 'pk response) action" where
  "round_handler c req =
     (case maybeHandleOptions req of
        Some r \<Rightarrow> returnE r
      | None \<Rightarrow>
          if rq_method req \<noteq> ''GET'' then withHandler (returnE (method_not_allowed ''Use GET''))
          else withHandler (
            bindE (resolveRoundId c req ActiveMode) (\<lambda>(roundId, source).
            bindE (getRoundAccount c roundId) (\<lambda>roundInfo.
            bindE (fetchParsedConfig c) (\<lambda>rawConfig.
            case roundInfo of
              None \<Rightarrow> returnE round_not_found
            | Some data \<Rightarrow> bindE (parseRoundE c data) (\<lambda>round.
                returnE (json_response 200 (round_body c req roundId source round rawConfig))))))))"

section \<open>join\<close>

definition getUserUsdcBalanceRaw :: "('w, 'pk) actions_env \<Rightarrow> 'pk \<Rightarrow> ('w, int) action" where
  "getUserUsdcBalanceRaw c ata' = tryE (rpc (ac_getTokenAccountBalance c ata')) (\<lambda>_. returnE 0)"

definition join_links :: "('w, 'pk) actions_env \<Rightarrow> request \<Rightarrow> rat \<Rightarrow> json" where
  "join_links c req roundId =
     (let base = ''/api/actions/join'';
          href = (\<lambda>amount. actionUrl req base [(''roundId'', JStr (showNumber c (Finite roundId))), (''amount'', JStr amount)]) in
      JObj [(''actions'', JArr
        [JObj [(''label'', JStr ''Join with 1 USDC''), (''href'', href ''1'')],
         JObj [(''label'', JStr ''Join with 5 USDC''), (''href'', href ''5'')],
         JObj [(''label'', JStr ''Custom amount''), (''href'', href ''{amount}''),
           (''parameters'', JArr [JObj [(''name'', JStr ''amount''), (''label'', JStr ''USDC amount'')]])]])])"

definition join_round_info :: "('w, 'pk) actions_env \<Rightarrow> rat \<Rightarrow> string \<Rightarrow> 'pk RoundData option \<Rightarrow> json" where
  "join_round_info c roundId source info =
     (case info of
        Some rd \<Rightarrow> JObj [(''id'', JNum (Finite roundId)), (''status'', jint (rd_status rd)),
          (''potUsdc'', JQuot (rd_totalUsdc rd) 1000000), (''players'', jint (rd_participantsCount rd)),
          (''endTs'', JNum (ac_ieee c (of_int (rd_endTs rd)))), (''source'', JStr source)]
      | None \<Rightarrow> JObj [(''id'', JNum (Finite roundId)), (''source'', JStr source)])"

definition join_get :: "('w, 'pk) actions_env \<Rightarrow> request \<Rightarrow> ('w, 'pk response) action" where
  "join_get c req =
     bindE (liftE (parseOptionalRoundId c req)) (\<lambda>queryRoundId.
     bindE (case queryRoundId of Some q \<Rightarrow> returnE (q, ''query'') | None \<Rightarrow> resolveRoundId c req JoinableMode) (\<lambda>(roundId, source).
     bindE (fetchParsedRound c roundId) (\<lambda>round.
     returnE (json_response 200 (JObj (actionEnvelope req (''roll2roll '' @ em_dash @ '' Join Round (USDC)'')
       ''Fair, open, on-chain SocialFi jackpot on Solana. Join the latest open round with USDC.'' ''Join Round''
       (Some (join_links c req roundId)) [(''round'', join_round_info c roundId source round)]))))))"

definition join_post :: "('w, 'pk) actions_env \<Rightarrow> request \<Rightarrow> ('w, 'pk response) action" where
  "join_post c req =
     (let e = ac_chain c in
     bindE (liftE (parseBody c req)) (\<lambda>body.
     bindE (liftE (requireAccount c body)) (\<lambda>user.
     bindE (liftE (parseUsdcAmountRaw c req)) (\<lambda>amountRaw.
     bindE (resolveRoundId c req JoinableMode) (\<lambda>(roundId, _).
     bindE (fetchParsedConfig c) (\<lambda>rawConfig.
     bindE (liftE (plain (ata e (cf_usdcMint rawConfig) user False))) (\<lambda>userUsdcAta.
     bindE (getUserUsdcBalanceRaw c userUsdcAta) (\<lambda>balanceBeforeRaw.
     bindE (liftE (plain (bnOfNumber c roundId))) (\<lambda>id.
     bindE (liftE (plain (ata e (cf_usdcMint rawConfig) (round_pda e id) True))) (\<lambda>vaultUsdcAta.
     bindE (liftE (plain (ce_anchor e ''depositAny'' [ArgBN id, ArgBN balanceBeforeRaw, ArgBN amountRaw]
       [(''user'', Some user), (''config'', Some (config_pda e)), (''round'', Some (round_pda e id)),
        (''participant'', Some (participant_pda e (round_pda e id) user)),
        (''userUsdcAta'', Some userUsdcAta), (''vaultUsdcAta'', Some vaultUsdcAta),
        (''tokenProgram'', Some (TOKEN_PROGRAM_ID (ce_programs e))),
        (''systemProgram'', Some (SystemProgram_programId (ce_programs e)))]))) (\<lambda>depositIx.
     buildActionTxResponse c user
       [ac_createAtaIdempotent c user userUsdcAta user (cf_usdcMint rawConfig), depositIx]
       (''Join round #'' @ showNumber c (Finite roundId) @ '' with '' @ formatUsdcRaw c amountRaw @ '' USDC''))))))))))))"

text \<open>The method dispatch of the end points that serve GET and POST.\<close>

definition dispatch :: "request \<Rightarrow> ('w, 'pk response) action \<Rightarrow> ('w, 'pk response) action \<Rightarrow> ('w, 'pk response) action" where
  "dispatch req get post =
     (case maybeHandleOptions req of
        Some r \<Rightarrow> returnE r
      | None \<Rightarrow>
          if rq_method req = ''GET'' then withHandler get
          else if rq_method req \<noteq> ''POST'' then withHandler (returnE (method_not_allowed ''Use GET or POST''))
          else withHandler post)"

definition join_handler :: "('w, 'pk) actions_env \<Rightarrow> request \<Rightarrow> ('w, 'pk response) action" where
  "join_handler c req = dispatch req (join_get c req) (join_post c req)"

section \<open>join-batch\<close>

record BatchLegInput =
  bl_mint :: string
  bl_amount :: rat

text \<open>\<open>String(v)\<close>, truthiness and \<open>Number(v)\<close> of a parsed JSON value.\<close>

fun json_string :: "(js_number \<Rightarrow> string) \<Rightarrow> json \<Rightarrow> string" where
  "json_string sn JNull = ''null''"
| "json_string sn (JBool b) = (if b then ''true'' else ''false'')"
| "json_string sn (JNum q) = sn q"
| "json_string sn (JStr s) = s"
| "json_string sn (JArr []) = []"
| "json_string sn (JArr [x]) = (if x = JNull then [] else json_string sn x)"
| "json_string sn (JArr (x # y # zs)) =
     (if x = JNull then [] else json_string sn x) @ '','' @ json_string sn (JArr (y # zs))"
| "json_string sn _ = ''[object Object]''"

definition json_truthy :: "json \<Rightarrow> bool" where
  "json_truthy j \<longleftrightarrow> j \<noteq> JNull \<and> j \<noteq> JBool False \<and> j \<noteq> JNum (Finite 0) \<and> j \<noteq> JNum NaN \<and> j \<noteq> JStr []"

definition json_number :: "('w, 'pk) actions_env \<Rightarrow> json \<Rightarrow> js_number" where
  "json_number c j =
     (case j of
        JNull \<Rightarrow> Finite 0
      | JBool b \<Rightarrow> Finite (if b then 1 else 0)
      | JNum q \<Rightarrow> q
      | _ \<Rightarrow> js_Number (ac_ieee c) (json_string (showNumber c) j))"

definition invalid_legs :: "string \<Rightarrow> api_error" where
  "invalid_legs msg = ApiError 400 ''INVALID_LEGS'' msg"

definition parse_leg :: "('w, 'pk) actions_env \<Rightarrow> nat \<Rightarrow> json \<Rightarrow> api_error + BatchLegInput" where
  "parse_leg c i leg =
     (case leg of
        JObj _ \<Rightarrow>
          let mint = (case json_field leg ''mint'' of
                Some m \<Rightarrow> if json_truthy m then json_string (showNumber c) m else [] | None \<Rightarrow> []);
              amount = (case json_field leg ''amount'' of Some a \<Rightarrow> json_number c a | None \<Rightarrow> NaN) in
          (case amount of
             Finite q \<Rightarrow>
               if mint = [] \<or> q \<le> 0
               then Inl (invalid_legs (''legs['' @ js_string (int i) @ ''] requires mint + amount>0''))
               else Inr \<lparr>bl_mint = mint, bl_amount = q\<rparr>
           | _ \<Rightarrow> Inl (invalid_legs (''legs['' @ js_string (int i) @ ''] requires mint + amount>0'')))
      | JArr _ \<Rightarrow> Inl (invalid_legs (''legs['' @ js_string (int i) @ ''] requires mint + amount>0''))
      | _ \<Rightarrow> Inl (invalid_legs (''legs['' @ js_string (int i) @ ''] must be object'')))"

fun parse_legs :: "('w, 'pk) actions_env \<Rightarrow> nat \<Rightarrow> json list \<Rightarrow> api_error + BatchLegInput list" where
  "parse_legs c i [] = Inr []"
| "parse_legs c i (leg # rest) =
     and_then (parse_leg c i leg) (\<lambda>l. and_then (parse_legs c (Suc i) rest) (\<lambda>ls. Inr (l # ls)))"

definition parseBatchLegs :: "('w, 'pk) actions_env \<Rightarrow> request \<Rightarrow> api_error + BatchLegInput list option" where
  "parseBatchLegs c req =
     (case rq_query req ''legs'' of
        None \<Rightarrow> Inr None
      | Some raw \<Rightarrow>
          if raw = QStr [] then Inr None
          else (case parseJson c (qval_string raw) of
              Inl _ \<Rightarrow> Inl (invalid_legs ''Invalid legs JSON'')
            | Inr (JArr legs) \<Rightarrow>
                if legs = [] then Inl (invalid_legs ''legs must not be empty'')
                else if 5 < length legs then Inl (invalid_legs ''legs length too large (max 5 in action launcher)'')
                else and_then (parse_legs c 0 legs) (\<lambda>ls. Inr (Some ls))
            | Inr _ \<Rightarrow> Inl (invalid_legs ''legs must be an array'')))"

definition legs_json :: "BatchLegInput list \<Rightarrow> json" where
  "legs_json legs =
     JArr (map (\<lambda>l. JObj [(''mint'', JStr (bl_mint l)), (''amount'', JNum (Finite (bl_amount l)))]) legs)"

definition join_batch_get :: "('w, 'pk) actions_env \<Rightarrow> request \<Rightarrow> ('w, 'pk response) action" where
  "join_batch_get c req =
     bindE (resolveRoundId c req JoinableMode) (\<lambda>(roundId, source).
     let base = ''/api/actions/join-batch'';
         rid = (''roundId'', JStr (showNumber c (Finite roundId)));
         label = ''Batch legs JSON [{\"mint\":\"...\",\"amount\":1.23}]'' in
     returnE (json_response 200 (JObj (actionEnvelope req
       (''roll2roll '' @ em_dash @ '' Join Round (Batch / Multi-token)'')
       ''Open roll2roll in batch deposit mode. Use this for multi-token entry (Jupiter + batch flow handled in-app).''
       ''Open Batch Deposit''
       (Some (JObj [(''actions'', JArr
          [JObj [(''label'', JStr ''Open Batch Deposit''), (''href'', actionUrl req base [rid])],
           JObj [(''label'', JStr ''Open with batch legs (JSON)''),
             (''href'', actionUrl req base [rid, (''legs'', JStr ''{legs}'')]),
             (''parameters'', JArr [JObj [(''name'', JStr ''legs''), (''label'', JStr label)]])]])]))
       [(''round'', JObj [(''id'', JNum (Finite roundId)), (''source'', JStr source)]),
        (''mode'', JStr ''launcher''),
        (''note'', JStr ''Actions launcher opens the in-app batch flow (multi-tx orchestration may be required).'')]))))"

definition join_batch_post :: "('w, 'pk) actions_env \<Rightarrow> request \<Rightarrow> ('w, 'pk response) action" where
  "join_batch_post c req =
     bindE (liftE (parseBody c req)) (\<lambda>body.
     bindE (liftE (requireAccount c body)) (\<lambda>_.
     bindE (liftE (parseOptionalRoundId c req)) (\<lambda>queryRoundId.
     bindE (case queryRoundId of Some q \<Rightarrow> returnE q
              | None \<Rightarrow> bindE (resolveRoundId c req JoinableMode) (\<lambda>(roundId, _). returnE roundId)) (\<lambda>roundId.
     bindE (liftE (parseBatchLegs c req)) (\<lambda>legs.
     let uiUrl = url_set ''roundId'' (JStr (showNumber c (Finite roundId)))
                   (url_set ''action'' (JStr ''join-batch'') (actionUrl req ''/'' []));
         uiUrl = (case legs of Some ls \<Rightarrow> url_set ''legs'' (JText (legs_json ls)) uiUrl | None \<Rightarrow> uiUrl) in
     returnE (external_link uiUrl (''Open roll2roll batch deposit for round #'' @ showNumber c (Finite roundId))))))))"

definition join_batch_handler :: "('w, 'pk) actions_env \<Rightarrow> request \<Rightarrow> ('w, 'pk response) action" where
  "join_batch_handler c req = dispatch req (join_batch_get c req) (join_batch_post c req)"

section \<open>claim\<close>

text \<open>
  What the claim end points answer to a GET with an account: the latest round the account can
  claim, which becomes the round of the link when the query names none, or why there is none.
\<close>

definition check_eligibility :: "('w, 'pk) actions_env \<Rightarrow> ('pk \<Rightarrow> ('w, int) action) \<Rightarrow> string \<Rightarrow>
    (string \<times> json) list \<Rightarrow> 'pk option \<Rightarrow> rat option \<Rightarrow> ('w, rat option \<times> json option) action" where
  "check_eligibility c search fallbackCode added account roundId =
     (case account of
        None \<Rightarrow> returnE (roundId, None)
      | Some k \<Rightarrow>
          let base58 = JStr (toBase58 (ce_sdk (ac_chain c)) k) in
          tryE
            (bindE (search k) (\<lambda>discovered.
             let r = (case roundId of None \<Rightarrow> of_int discovered | Some q \<Rightarrow> q) in
             returnE (Some r, Some (JObj ([(''eligible'', JBool True), (''account'', base58),
               (''roundId'', jint discovered),
               (''source'', JStr (if r = of_int discovered then ''wallet-auto'' else ''query''))] @ added)))))
            (\<lambda>err. returnE (roundId,
               Some (JObj ((''account'', base58) # serializeEligibilityError err fallbackCode @ added)))))"

definition claim_links :: "('w, 'pk) actions_env \<Rightarrow> request \<Rightarrow> string \<Rightarrow> string \<Rightarrow> rat option \<Rightarrow> json" where
  "claim_links c req path label roundId =
     JObj [(''actions'', JArr [JObj ([(''label'', JStr label),
       (''href'', actionUrl req path
          [(''roundId'', JStr (case roundId of Some q \<Rightarrow> showNumber c (Finite q) | None \<Rightarrow> ''{roundId}''))])] @
       (case roundId of
          None \<Rightarrow> [(''parameters'', JArr [JObj [(''name'', JStr ''roundId''), (''label'', JStr ''Round ID'')]])]
        | Some _ \<Rightarrow> []))])]"

definition eligibility_field :: "json option \<Rightarrow> (string \<times> json) list" where
  "eligibility_field eligibility = (case eligibility of Some j \<Rightarrow> [(''eligibility'', j)] | None \<Rightarrow> [])"

definition claim_get :: "('w, 'pk) actions_env \<Rightarrow> request \<Rightarrow> ('w, 'pk response) action" where
  "claim_get c req =
     bindE (liftE (parseOptionalAccountQuery c req)) (\<lambda>account.
     bindE (liftE (parseOptionalRoundId c req)) (\<lambda>queryRoundId.
     bindE (check_eligibility c (findLatestClaimableRoundId c) ''NO_UNCLAIMED_PRIZE'' [] account queryRoundId)
       (\<lambda>(roundId, eligibility).
     returnE (json_response 200 (JObj (actionEnvelope req (''roll2roll '' @ em_dash @ '' Claim Prize (USDC)'')
       ''Claim your roll2roll prize in classic USDC mode.'' ''Claim Prize''
       (Some (claim_links c req ''/api/actions/claim'' ''Claim Prize'' roundId)) (eligibility_field eligibility)))))))"

text \<open>The round of a POST: the one the query names, or the one the search finds.\<close>

definition query_or_find :: "('w, 'pk) actions_env \<Rightarrow> request \<Rightarrow> ('w, int) action \<Rightarrow> ('w, rat) action" where
  "query_or_find c req search =
     bindE (liftE (parseOptionalRoundId c req)) (\<lambda>queryRoundId.
     case queryRoundId of Some q \<Rightarrow> returnE q | None \<Rightarrow> bindE search (\<lambda>r. returnE (of_int r)))"

definition claim_post :: "('w, 'pk) actions_env \<Rightarrow> request \<Rightarrow> ('w, 'pk response) action" where
  "claim_post c req =
     (let e = ac_chain c in
     bindE (liftE (parseBody c req)) (\<lambda>body.
     bindE (liftE (requireAccount c body)) (\<lambda>winner.
     bindE (query_or_find c req (findLatestClaimableRoundId c winner)) (\<lambda>roundId.
     bindE (liftE (plain (bnOfNumber c roundId))) (\<lambda>id.
     bindE (fetchParsedConfig c) (\<lambda>rawConfig.
     bindE (rpc (getAccountInfo (ac_sv c) (round_pda e id))) (\<lambda>roundInfo.
     case roundInfo of
       None \<Rightarrow> api_throw 404 ''ROUND_NOT_FOUND'' ''Round not found''
     | Some data \<Rightarrow>
         bindE (parseRoundE c data) (\<lambda>rd.
         bindE (liftE (plain (ata e (cf_usdcMint rawConfig) (round_pda e id) True))) (\<lambda>vaultUsdcAta.
         bindE (liftE (plain (ata e (cf_usdcMint rawConfig) winner False))) (\<lambda>winnerUsdcAta.
         bindE (if rd_vrfPayer rd = pk_default (ce_sdk e) then returnE None
                else bindE (liftE (plain (ata e (cf_usdcMint rawConfig) (rd_vrfPayer rd) False)))
                  (\<lambda>k. returnE (Some k))) (\<lambda>vrfPayerUsdcAta.
         bindE (liftE (plain (ce_anchor e ''claim'' [ArgBN id]
           [(''winner'', Some winner), (''config'', Some (config_pda e)), (''round'', Some (round_pda e id)),
            (''vaultUsdcAta'', Some vaultUsdcAta), (''winnerUsdcAta'', Some winnerUsdcAta),
            (''treasuryUsdcAta'', Some (cf_treasuryUsdcAta rawConfig)),
            (''vrfPayerUsdcAta'', vrfPayerUsdcAta),
            (''tokenProgram'', Some (TOKEN_PROGRAM_ID (ce_programs e)))]))) (\<lambda>claimIx.
         buildActionTxResponse c winner [claimIx]
           (''Claim roll2roll prize for round #'' @ showNumber c (Finite roundId) @ '' (USDC)'')))))))))))))"

definition claim_handler :: "('w, 'pk) actions_env \<Rightarrow> request \<Rightarrow> ('w, 'pk response) action" where
  "claim_handler c req = dispatch req (claim_get c req) (claim_post c req)"

section \<open>claim-refund\<close>

definition claim_refund_get :: "('w, 'pk) actions_env \<Rightarrow> request \<Rightarrow> ('w, 'pk response) action" where
  "claim_refund_get c req =
     bindE (liftE (parseOptionalAccountQuery c req)) (\<lambda>account.
     bindE (liftE (parseOptionalRoundId c req)) (\<lambda>queryRoundId.
     bindE (check_eligibility c (findLatestRefundableRoundId c) ''NO_REFUND_AVAILABLE'' [] account queryRoundId)
       (\<lambda>(roundId, eligibility).
     returnE (json_response 200 (JObj (actionEnvelope req (''roll2roll '' @ em_dash @ '' Claim Refund'')
       ''Claim a refund from a cancelled round.'' ''Claim Refund''
       (Some (claim_links c req ''/api/actions/claim-refund'' ''Claim Refund'' roundId)) (eligibility_field eligibility)))))))"

definition claim_refund_post :: "('w, 'pk) actions_env \<Rightarrow> request \<Rightarrow> ('w, 'pk response) action" where
  "claim_refund_post c req =
     (let e = ac_chain c in
     bindE (liftE (parseBody c req)) (\<lambda>body.
     bindE (liftE (requireAccount c body)) (\<lambda>user.
     bindE (query_or_find c req (findLatestRefundableRoundId c user)) (\<lambda>roundId.
     bindE (fetchParsedConfig c) (\<lambda>rawConfig.
     bindE (liftE (plain (bnOfNumber c roundId))) (\<lambda>id.
     bindE (liftE (plain (ata e (cf_usdcMint rawConfig) (round_pda e id) True))) (\<lambda>vaultAta.
     bindE (liftE (plain (ata e (cf_usdcMint rawConfig) user False))) (\<lambda>userUsdcAta.
     bindE (liftE (plain (ce_anchor e ''claimRefund'' [ArgBN id]
       [(''config'', Some (config_pda e)), (''round'', Some (round_pda e id)), (''user'', Some user),
        (''participant'', Some (participant_pda e (round_pda e id) user)),
        (''vaultUsdcAta'', Some vaultAta), (''userUsdcAta'', Some userUsdcAta),
        (''tokenProgram'', Some (TOKEN_PROGRAM_ID (ce_programs e)))]))) (\<lambda>ix.
     buildActionTxResponse c user [ix] (''Claim refund for round #'' @ showNumber c (Finite roundId)))))))))))"

definition claim_refund_handler :: "('w, 'pk) actions_env \<Rightarrow> request \<Rightarrow> ('w, 'pk response) action" where
  "claim_refund_handler c req = dispatch req (claim_refund_get c req) (claim_refund_post c req)"

section \<open>claim-degen\<close>

definition claim_degen_get :: "('w, 'pk) actions_env \<Rightarrow> request \<Rightarrow> ('w, 'pk response) action" where
  "claim_degen_get c req =
     bindE (liftE (parseOptionalAccountQuery c req)) (\<lambda>account.
     bindE (liftE (parseOptionalRoundId c req)) (\<lambda>queryRoundId.
     bindE (check_eligibility c (findLatestClaimableRoundId c) ''NO_UNCLAIMED_PRIZE''
              [(''mode'', JStr ''degen-lite'')] account queryRoundId) (\<lambda>(roundId, eligibility).
     returnE (json_response 200 (JObj (actionEnvelope req (''roll2roll '' @ em_dash @ '' Degen Claim (Lite)'')
       ''Open roll2roll degen claim flow. Lite degen claim is a 2-step flow in-app (USDC claim + Jupiter swap into a VRF-derived token).''
       ''Open Degen Claim'' (Some (claim_links c req ''/api/actions/claim-degen'' ''Open Degen Claim'' roundId))
       ((''mode'', JStr ''launcher'') # eligibility_field eligibility @
        [(''note'', JStr ''This Action launches the existing in-app lite degen claim flow.'')])))))))"

definition claim_degen_post :: "('w, 'pk) actions_env \<Rightarrow> request \<Rightarrow> ('w, 'pk response) action" where
  "claim_degen_post c req =
     bindE (liftE (parseBody c req)) (\<lambda>body.
     bindE (liftE (requireAccount c body)) (\<lambda>winner.
     bindE (query_or_find c req (findLatestClaimableRoundId c winner)) (\<lambda>roundId.
     let uiUrl = url_set ''roundId'' (JStr (showNumber c (Finite roundId)))
                   (url_set ''action'' (JStr ''claim-degen'') (actionUrl req ''/'' [])) in
     returnE (external_link uiUrl (''Open lite degen claim flow for round #'' @ showNumber c (Finite roundId))))))"

definition claim_degen_handler :: "('w, 'pk) actions_env \<Rightarrow> request \<Rightarrow> ('w, 'pk response) action" where
  "claim_degen_handler c req = dispatch req (claim_degen_get c req) (claim_degen_post c req)"

end
