(* ===== verification/Fenwick.thy ===== *)
theory Fenwick
  imports Payout "HOL-Library.Word"
begin

unbundle bit_operations_syntax

text \<open>
  The tree of ticket counts in the round account: \<open>bit_add_in_account_data\<close>,
  \<open>bit_sub_in_account_data\<close> and \<open>bit_find_prefix_in_account_data\<close> of \<open>legacy_layouts.rs\<close> on the
  array of its 201 nodes. The loops are partial functions; a result shows that they return.

  \<open>ticket_index\<close> is what deposits, cancellations and the draw rely on; the tree implements it.
\<close>

section \<open>The operations\<close>

abbreviation (input) ROUND_FENWICK_NODE_COUNT :: nat where "ROUND_FENWICK_NODE_COUNT \<equiv> 201"

type_synonym nodes = "64 word list"

definition checked_add_u64 :: "64 word \<Rightarrow> 64 word \<Rightarrow> 64 word option" where
  "checked_add_u64 a b = (if uint a + uint b < 2 ^ 64 then Some (a + b) else None)"

text \<open>\<open>index & (!index + 1)\<close> on \<open>usize\<close>.\<close>

definition lowbit :: "nat \<Rightarrow> nat" where
  "lowbit index = (let w = (of_nat index :: 64 word) in unat (w AND (NOT w + 1)))"

partial_function (option) bit_add_loop :: "nat \<Rightarrow> 64 word \<Rightarrow> nodes \<Rightarrow> (LayoutError + nodes) option" where
  "bit_add_loop index delta nodes =
     (if index \<le> ROUND_FENWICK_NODE_COUNT - 1 then
        (case checked_add_u64 (nodes ! index) delta of
           None \<Rightarrow> Some (Inl MathOverflow)
         | Some next \<Rightarrow> bit_add_loop (index + lowbit index) delta (nodes[index := next]))
      else Some (Inr nodes))"

definition bit_add :: "nodes \<Rightarrow> nat \<Rightarrow> 64 word \<Rightarrow> (LayoutError + nodes) option" where
  "bit_add nodes index delta =
     (if index = 0 \<or> ROUND_FENWICK_NODE_COUNT - 1 < index then Some (Inl SliceTooShort)
      else bit_add_loop index delta nodes)"

partial_function (option) bit_sub_loop :: "nat \<Rightarrow> 64 word \<Rightarrow> nodes \<Rightarrow> (LayoutError + nodes) option" where
  "bit_sub_loop index delta nodes =
     (if index \<le> ROUND_FENWICK_NODE_COUNT - 1 then
        (case checked_sub_u64 (nodes ! index) delta of
           None \<Rightarrow> Some (Inl MathOverflow)
         | Some next \<Rightarrow> bit_sub_loop (index + lowbit index) delta (nodes[index := next]))
      else Some (Inr nodes))"

definition bit_sub :: "nodes \<Rightarrow> nat \<Rightarrow> 64 word \<Rightarrow> (LayoutError + nodes) option" where
  "bit_sub nodes index delta =
     (if index = 0 \<or> ROUND_FENWICK_NODE_COUNT - 1 < index then Some (Inl SliceTooShort)
      else bit_sub_loop index delta nodes)"

partial_function (option) bit_mask_loop :: "nat \<Rightarrow> nat \<Rightarrow> nat option" where
  "bit_mask_loop n bit_mask = (if bit_mask \<le> n then bit_mask_loop n (bit_mask * 2) else Some bit_mask)"

function bit_find_loop :: "nodes \<Rightarrow> 64 word \<Rightarrow> nat \<Rightarrow> nat \<Rightarrow> 64 word \<Rightarrow> LayoutError + nat" where
  "bit_find_loop nodes target step idx cur =
     (if step = 0 then Inr (idx + 1)
      else
        let next = idx + step in
        if next \<le> ROUND_FENWICK_NODE_COUNT - 1 then
          (case checked_add_u64 cur (nodes ! next) of
             None \<Rightarrow> Inl MathOverflow
           | Some cand \<Rightarrow>
               if cand < target then bit_find_loop nodes target (step div 2) next cand
               else bit_find_loop nodes target (step div 2) idx cur)
        else bit_find_loop nodes target (step div 2) idx cur)"
  by pat_completeness auto

termination by (relation "measure (\<lambda>(_, _, step, _, _). step)") auto

declare bit_find_loop.simps [simp del]

declare bit_add_loop.simps [code] bit_sub_loop.simps [code] bit_mask_loop.simps [code]

definition bit_find_prefix :: "nodes \<Rightarrow> 64 word \<Rightarrow> (LayoutError + nat) option" where
  "bit_find_prefix nodes target =
     (case bit_mask_loop (ROUND_FENWICK_NODE_COUNT - 1) 1 of
        None \<Rightarrow> None
      | Some bit_mask \<Rightarrow> Some (bit_find_loop nodes target bit_mask 0 0))"

section \<open>The lowest bit\<close>

lemma lowbit_power:
  assumes "2 ^ k * (2 * a + 1) < (2 :: nat) ^ 64"
  shows "lowbit (2 ^ k * (2 * a + 1)) = 2 ^ k"
proof -
  let ?w = "of_nat (2 ^ k * (2 * a + 1)) :: 64 word"
  have "(2 :: nat) ^ k \<le> 2 ^ k * (2 * a + 1)" by simp
  with assms have k: "k < 64" by (metis le_less_trans power_less_imp_less_exp one_less_numeral_iff semiring_norm(76))
  have w: "?w = push_bit (Suc k) (of_nat a) + 2 ^ k" by (simp only: push_bit_eq_mult of_nat_mult of_nat_add of_nat_power of_nat_numeral of_nat_1 distrib_left power_Suc mult_1_left mult_1_right ac_simps)
  have w1: "?w - 1 = push_bit (Suc k) (of_nat a) + mask k" unfolding w mask_eq_exp_minus_1 by (simp only: add_diff_eq)
  have "?w AND (NOT ?w + 1) = ?w AND NOT (?w - 1)" by (simp add: minus_eq_not_plus_1 [symmetric] minus_eq_not_minus_1)
  also have "\<dots> = 2 ^ k"
  proof (rule bit_word_eqI)
    fix n assume n: "n < LENGTH(64)"
    have "?w = push_bit (Suc k) (of_nat a) OR 2 ^ k"
      unfolding w by (rule disjunctive_add) (auto simp: bit_simps simp del: push_bit_Suc)
    moreover have "?w - 1 = push_bit (Suc k) (of_nat a) OR mask k"
      unfolding w1 by (rule disjunctive_add) (auto simp: bit_simps simp del: push_bit_Suc)
    ultimately show "bit (?w AND NOT (?w - 1)) n \<longleftrightarrow> bit (2 ^ k :: 64 word) n"
      using n k by (auto simp: bit_simps simp del: push_bit_Suc)
  qed
  finally have "lowbit (2 ^ k * (2 * a + 1)) = unat (2 ^ k :: 64 word)" by (simp only: lowbit_def Let_def)
  also have "\<dots> = unat (of_nat (2 ^ k) :: 64 word)" by simp
  also have "\<dots> = 2 ^ k"
  proof -
    have "(2 :: nat) ^ k < 2 ^ 64" using k by (intro power_strict_increasing) simp_all
    then show ?thesis unfolding unat_of_nat by (intro mod_less) simp
  qed
  finally show ?thesis .
qed

lemma odd_decomp:
  assumes "0 < (i :: nat)"
  obtains k a where "i = 2 ^ k * (2 * a + 1)"
proof -
  have "\<exists>k a. i = 2 ^ k * (2 * a + 1)" using assms
  proof (induction i rule: less_induct)
    case (less i)
    show ?case
    proof (cases "even i")
      case True
      then obtain j where j: "i = 2 * j" by (auto elim: evenE)
      with less.prems less.IH [of j] obtain k a where "j = 2 ^ k * (2 * a + 1)" by auto
      with j have "i = 2 ^ Suc k * (2 * a + 1)" by simp
      then show ?thesis by blast
    next
      case False
      then obtain a where "i = 2 ^ 0 * (2 * a + 1)" by (auto elim: oddE)
      then show ?thesis by blast
    qed
  qed
  then show ?thesis using that by blast
qed

text \<open>Node \<open>i\<close> counts the tickets of the indices \<open>i - lowbit i + 1\<close> to \<open>i\<close>.\<close>

definition covers :: "nat \<Rightarrow> nat \<Rightarrow> bool" where
  "covers i j \<longleftrightarrow> i - lowbit i < j \<and> j \<le> i"

lemma between_multiples:
  fixes a x k :: nat
  shows "\<not> (2 ^ Suc k * a < 2 ^ Suc k * x \<and> 2 ^ Suc k * x \<le> 2 ^ Suc k * a + 2 ^ k)"
proof
  assume h: "2 ^ Suc k * a < 2 ^ Suc k * x \<and> 2 ^ Suc k * x \<le> 2 ^ Suc k * a + 2 ^ k"
  then have "a < x" by simp
  then have "2 ^ Suc k * (a + 1) \<le> 2 ^ Suc k * x" by (intro mult_le_mono) simp_all
  moreover have "2 ^ Suc k * (a + 1) = 2 ^ Suc k * a + 2 ^ Suc k" by (simp only: distrib_left mult_1_right)
  moreover have "(2 :: nat) ^ k < 2 ^ Suc k" by simp
  ultimately show False using h by linarith
qed

lemma covers_step:
  assumes "0 < j" and "i \<noteq> j" and "0 < i" and bound: "i < 2 ^ 64" "j < 2 ^ 64"
  shows "covers i (j + lowbit j) \<longleftrightarrow> covers i j"
proof -
  obtain k a where i: "i = 2 ^ k * (2 * a + 1)" using odd_decomp [OF assms(3)] .
  obtain q b where j: "j = 2 ^ q * (2 * b + 1)" using odd_decomp [OF assms(1)] .
  have li: "lowbit i = 2 ^ k" and lj: "lowbit j = 2 ^ q"
    using lowbit_power [of k a] lowbit_power [of q b] bound i j by simp_all
  have i': "i = 2 ^ Suc k * a + 2 ^ k" and m: "i - lowbit i = 2 ^ Suc k * a"
    unfolding li by (simp_all add: i algebra_simps)
  show ?thesis
  proof (cases "q \<le> k")
    case True
    define M where "M = 2 ^ (Suc k - q) * a"
    define K :: nat where "K = 2 ^ (k - q)"
    have pk: "(2 :: nat) ^ k = 2 ^ q * K" and pm: "2 ^ Suc k * a = 2 ^ q * M"
      using True by (simp_all add: K_def M_def power_add [symmetric] Suc_diff_le del: power_Suc)
    have even: "even M" using True by (simp add: M_def Suc_diff_le)
    have ij: "i = 2 ^ q * (M + K)" "j + lowbit j = 2 ^ q * (2 * b + 2)" "i - lowbit i = 2 ^ q * M"
      using i' m pk pm j lj by (simp_all add: algebra_simps)
    have "2 * b + 1 \<noteq> M + K" using assms(2) ij(1) j by metis
    with even show ?thesis
      unfolding covers_def ij(2,3) unfolding ij(1) j mult_less_cancel1 mult_le_cancel1 by auto presburger+
  next
    case False
    then have "2 ^ q = (2 :: nat) ^ Suc k * 2 ^ (q - Suc k)" by (simp add: power_add [symmetric] del: power_Suc)
    then have "j = 2 ^ Suc k * (2 ^ (q - Suc k) * (2 * b + 1))"
      and "j + lowbit j = 2 ^ Suc k * (2 ^ (q - Suc k) * (2 * b + 2))"
      using j lj by (simp_all add: algebra_simps)
    then show ?thesis unfolding covers_def m unfolding i' using between_multiples by metis
  qed
qed

lemma lowbit_pos:
  assumes "0 < i" and "i < 2 ^ 64"
  shows "0 < lowbit i \<and> lowbit i \<le> i"
proof -
  obtain k a where "i = 2 ^ k * (2 * a + 1)" using odd_decomp [OF assms(1)] .
  with assms(2) lowbit_power [of k a] show ?thesis by simp
qed

section \<open>Adding and subtracting\<close>

text \<open>The loop touches the nodes that cover the index and no others.\<close>

lemma covers_self: "0 < i \<Longrightarrow> i < 2 ^ 64 \<Longrightarrow> covers i i"
  using lowbit_pos [of i] by (simp add: covers_def)

lemma covers_next: "0 < i \<Longrightarrow> i < 2 ^ 64 \<Longrightarrow> \<not> covers i (i + lowbit i)"
  using lowbit_pos [of i] by (simp add: covers_def)

lemma checked_add_Some_iff:
  "checked_add_u64 a b = Some c \<longleftrightarrow> unat a + unat b < 2 ^ 64 \<and> c = a + b"
proof -
  have "uint a + uint b < 2 ^ 64 \<longleftrightarrow> unat a + unat b < 2 ^ 64" 
    using of_nat_less_iff [where 'a = int, of "unat a + unat b" "2 ^ 64"]
    by (simp only: of_nat_add of_nat_power of_nat_numeral uint_nat)
  then show ?thesis by (auto simp: checked_add_u64_def)
qed

lemma unat_add: "unat a + unat b < 2 ^ 64 \<Longrightarrow> unat (a + b :: 64 word) = unat a + unat b"
  using unat_add_lem [of a b] by simp

lemma checked_sub_Some: "unat b \<le> unat a \<Longrightarrow> \<exists>c. checked_sub_u64 a b = Some c \<and> unat c = unat a - unat b"
  by (simp add: checked_sub_u64_def word_le_nat_alt unat_sub)

text \<open>Both loops walk the same nodes; they differ in the checked operation.\<close>

locale node_loop =
  fixes loop :: "nat \<Rightarrow> 64 word \<Rightarrow> nodes \<Rightarrow> (LayoutError + nodes) option"
    and step :: "64 word \<Rightarrow> 64 word \<Rightarrow> 64 word option"
  assumes loop_unfold: "loop index delta nodes =
     (if index \<le> 200 then
        (case step (nodes ! index) delta of
           None \<Rightarrow> Some (Inl MathOverflow)
         | Some next \<Rightarrow> loop (index + lowbit index) delta (nodes[index := next]))
      else Some (Inr nodes))"
begin

lemma next_index:
  assumes "0 < index" and "index \<le> 200"
  shows "201 - (index + lowbit index) < 201 - index"
    and "covers index index"
    and "i \<in> {1..200} \<Longrightarrow> covers i (index + lowbit index) \<longleftrightarrow> covers i index \<and> i \<noteq> index"
proof -
  have small: "(201 :: nat) < 2 ^ 64" by simp
  have "0 < lowbit index" using lowbit_pos [of index] assms small by simp
  with assms show "201 - (index + lowbit index) < 201 - index" by linarith
  show "covers index index" using covers_self [of index] assms small by simp
  show "i \<in> {1..200} \<Longrightarrow> covers i (index + lowbit index) \<longleftrightarrow> covers i index \<and> i \<noteq> index"
    using covers_step [of index i] covers_next [of index] assms small by auto
qed

lemma loop_nodes:
  assumes "0 < index" and "length nodes = 201"
    and "\<forall>i \<in> {1..200}. covers i index \<longrightarrow> step (nodes ! i) delta \<noteq> None"
  shows "\<exists>nodes'. loop index delta nodes = Some (Inr nodes') \<and> length nodes' = 201 \<and>
    (\<forall>i \<in> {1..200}. nodes' ! i = (if covers i index then the (step (nodes ! i) delta) else nodes ! i))"
  using assms
proof (induction "201 - index" arbitrary: index nodes rule: less_induct)
  case less
  show ?case
  proof (cases "index \<le> 200")
    case False
    then have "\<not> covers i index" if "i \<in> {1..200}" for i using that by (simp add: covers_def)
    with False less.prems(2) show ?thesis by (subst loop_unfold) simp
  next
    case True
    let ?j = "index + lowbit index"
    note next_index = next_index [OF less.prems(1) True]
    from less.prems True next_index(2) obtain c where c: "step (nodes ! index) delta = Some c" by force
    obtain nodes' where "loop ?j delta (nodes[index := c]) = Some (Inr nodes')"
      "length nodes' = 201" "\<forall>i \<in> {1..200}. nodes' ! i =
          (if covers i ?j then the (step (nodes[index := c] ! i) delta) else nodes[index := c] ! i)"
      using less.hyps [OF next_index(1), of "nodes[index := c]"] less.prems next_index(3)
      by (auto simp: nth_list_update)
    then show ?thesis
      using True c less.prems next_index
      by (subst loop_unfold) (auto simp: nth_list_update)
  qed
qed

lemma loop_overflow:
  assumes "0 < index" and "length nodes = 201"
    and "\<exists>i \<in> {1..200}. covers i index \<and> step (nodes ! i) delta = None"
  shows "loop index delta nodes = Some (Inl MathOverflow)"
  using assms
proof (induction "201 - index" arbitrary: index nodes rule: less_induct)
  case less
  from less.prems(3) have True: "index \<le> 200" by (auto simp: covers_def)
  note next_index = next_index [OF less.prems(1) True]
  show ?case
  proof (cases "step (nodes ! index) delta")
    case None
    with True show ?thesis by (subst loop_unfold) simp
  next
    case (Some c)
    with less.prems(3) next_index(3) have
      "\<exists>i \<in> {1..200}. covers i (index + lowbit index) \<and> step (nodes[index := c] ! i) delta = None"
      by (metis nth_list_update_neq option.distinct(1))
    with less.hyps [OF next_index(1), of "nodes[index := c]"] less.prems True Some show ?thesis
      by (subst loop_unfold) simp
  qed
qed

end

interpretation adding: node_loop bit_add_loop checked_add_u64
  by unfold_locales (subst bit_add_loop.simps, simp)

interpretation subtracting: node_loop bit_sub_loop checked_sub_u64
  by unfold_locales (subst bit_sub_loop.simps, simp)

section \<open>The counts a tree represents\<close>

definition tree_of :: "nodes \<Rightarrow> (nat \<Rightarrow> nat) \<Rightarrow> bool" where
  "tree_of nodes f \<longleftrightarrow> length nodes = 201 \<and>
     (\<forall>i \<in> {1..200}. unat (nodes ! i) = sum f {i - lowbit i<..i})"

lemma covers_interval: "covers i j \<longleftrightarrow> j \<in> {i - lowbit i<..i}"
  by (simp add: covers_def)

lemma node_le: "i \<in> {1..200} \<Longrightarrow> sum f {i - lowbit i<..i} \<le> sum f {1..200 :: nat}" for f :: "nat \<Rightarrow> nat"
  by (intro sum_mono2) auto

lemma sum_fun_upd:
  fixes f :: "'a \<Rightarrow> nat"
  assumes "finite A"
  shows "sum (f(x := y)) A = (if x \<in> A then sum f A - f x + y else sum f A)"
proof -
  have "sum (f(x := y)) A = (if x \<in> A then y + sum f (A - {x}) else sum f A)"
    using assms by (auto simp: sum.remove intro!: sum.cong)
  moreover have "x \<in> A \<Longrightarrow> sum f A = f x + sum f (A - {x})" using assms by (rule sum.remove)
  ultimately show ?thesis by simp
qed

lemma member_sum: "finite A \<Longrightarrow> x \<in> A \<Longrightarrow> f x \<le> sum f A" for f :: "'a \<Rightarrow> nat"
  by (rule member_le_sum) simp_all

lemma tree_empty: "tree_of (replicate 201 0) (\<lambda>_. 0)"
  by (simp add: tree_of_def)

lemma bit_add_tree:
  assumes "tree_of nodes f" and "index \<in> {1..200}" and "sum f {1..200} + unat delta < 2 ^ 64"
  shows "\<exists>nodes'. bit_add nodes index delta = Some (Inr nodes') \<and>
    tree_of nodes' (f(index := f index + unat delta))"
proof -
  have fits: "unat (nodes ! i) + unat delta < 2 ^ 64" if "i \<in> {1..200}" for i
    using assms(1,3) node_le [OF that, of f] that by (simp add: tree_of_def)
  then have "\<forall>i \<in> {1..200}. covers i index \<longrightarrow> checked_add_u64 (nodes ! i) delta = Some (nodes ! i + delta)"
    by (simp add: checked_add_Some_iff)
  with adding.loop_nodes [of index nodes delta] assms(1,2) obtain nodes' where
    "bit_add nodes index delta = Some (Inr nodes')" "length nodes' = 201"
    "\<forall>i \<in> {1..200}. nodes' ! i = (if covers i index then nodes ! i + delta else nodes ! i)"
    by (auto simp: bit_add_def tree_of_def)
  moreover from this(3) have "\<forall>i \<in> {1..200}. unat (nodes' ! i) =
      unat (nodes ! i) + (if index \<in> {i - lowbit i<..i} then unat delta else 0)"
    by (simp add: unat_add [OF fits] covers_def)
  ultimately show ?thesis
    using assms(1) member_sum [of _ index f]
    by (intro exI [of _ nodes']) (simp add: tree_of_def sum_fun_upd del: fun_upd_apply)
qed

lemma bit_sub_tree:
  assumes "tree_of nodes f" and "index \<in> {1..200}" and "unat delta \<le> f index"
  shows "\<exists>nodes'. bit_sub nodes index delta = Some (Inr nodes') \<and>
    tree_of nodes' (f(index := f index - unat delta))"
proof -
  have fits: "unat delta \<le> unat (nodes ! i)" if "i \<in> {1..200}" "covers i index" for i
  proof -
    have "f index \<le> sum f {i - lowbit i<..i}"
      using that(2) by (intro member_le_sum) (auto simp: covers_interval)
    with that assms(1,3) show ?thesis by (simp add: tree_of_def)
  qed
  then have "\<forall>i \<in> {1..200}. covers i index \<longrightarrow> checked_sub_u64 (nodes ! i) delta = Some (nodes ! i - delta)"
    by (simp add: checked_sub_u64_def word_le_nat_alt)
  with subtracting.loop_nodes [of index nodes delta] assms(1,2) obtain nodes' where
    "bit_sub nodes index delta = Some (Inr nodes')" "length nodes' = 201"
    "\<forall>i \<in> {1..200}. nodes' ! i = (if covers i index then nodes ! i - delta else nodes ! i)"
    by (auto simp: bit_sub_def tree_of_def)
  moreover from this(3) have "\<forall>i \<in> {1..200}. unat (nodes' ! i) =
      unat (nodes ! i) - (if index \<in> {i - lowbit i<..i} then unat delta else 0)"
    using fits by (simp add: unat_sub word_le_nat_alt covers_def)
  ultimately show ?thesis
    using assms(1,3) member_sum [of _ index f]
    by (intro exI [of _ nodes']) (simp add: tree_of_def sum_fun_upd del: fun_upd_apply)
qed

section \<open>Finding the owner of a ticket\<close>

lemma bit_mask_200: "bit_mask_loop (201 - 1) 1 = Some 256"
  by (simp add: bit_mask_loop.simps)

lemma bit_find_loop_tree:
  assumes tree: "tree_of nodes f" and total: "sum f {1..200} < 2 ^ 64" "unat target \<le> sum f {1..200}"
  shows "2 ^ s dvd idx \<Longrightarrow> idx \<le> 200 \<Longrightarrow> unat cur = sum f {1..idx} \<Longrightarrow> unat cur < unat target \<Longrightarrow>
    (idx + 2 ^ s \<le> 200 \<longrightarrow> unat target \<le> sum f {1..idx + 2 ^ s}) \<Longrightarrow>
    \<exists>i \<in> {1..200}. bit_find_loop nodes target (2 ^ s div 2) idx cur = Inr i \<and>
      sum f {1..<i} < unat target \<and> unat target \<le> sum f {1..i}"
proof (induction s arbitrary: idx cur)
  case 0
  have "idx \<noteq> 200" using 0 total(2) by auto
  with 0 show ?case
    by (intro bexI [of _ "idx + 1"]) (simp_all add: bit_find_loop.simps atLeastLessThanSuc_atLeastAtMost)
next
  case (Suc s)
  from Suc.prems(1) obtain c where c: "idx = 2 ^ Suc s * c" by (elim dvdE)
  let ?next = "idx + 2 ^ s"
  have next': "?next = 2 ^ s * (2 * c + 1)" by (simp add: c)
  show ?case
  proof (cases "?next \<le> 200")
    case False
    with Suc.IH [of idx cur] Suc.prems next' show ?thesis
      by (subst bit_find_loop.simps) (auto simp: Let_def dvd_def c)
  next
    case True
    then have "lowbit ?next = 2 ^ s" unfolding next' by (intro lowbit_power) simp
    then have node: "unat (nodes ! ?next) = sum f {idx<..?next}"
      using tree True by (simp add: tree_of_def Suc_le_eq)
    moreover have split: "sum f {1..?next} = sum f {1..idx} + sum f {idx<..?next}"
      by (subst sum.union_disjoint [symmetric]) (auto intro!: sum.cong)
    moreover have "sum f {1..?next} \<le> sum f {1..200}" using True by (intro sum_mono2) auto
    ultimately have "unat cur + unat (nodes ! ?next) < 2 ^ 64" using total(1) Suc.prems(3) by simp
    then have add: "checked_add_u64 cur (nodes ! ?next) = Some (cur + nodes ! ?next)"
      and cand: "unat (cur + nodes ! ?next) = sum f {1..?next}"
      using Suc.prems(3) node split by (simp_all add: checked_add_Some_iff unat_add)
    have dvd: "2 ^ s dvd idx" unfolding c by simp
    have two: "?next + 2 ^ s = idx + 2 ^ Suc s" by simp
    show ?thesis
      using Suc.IH [of ?next "cur + nodes ! ?next"] Suc.IH [of idx cur] Suc.prems True add cand dvd dvd_add [OF dvd dvd_refl] two
      by (subst bit_find_loop.simps) (auto simp: Let_def word_less_nat_alt)
  qed
qed

lemma bit_find_prefix_tree:
  assumes "tree_of nodes f" and "sum f {1..200} < 2 ^ 64" and "0 < target" and "unat target \<le> sum f {1..200}"
  shows "\<exists>i \<in> {1..200}. bit_find_prefix nodes target = Some (Inr i) \<and>
    sum f {1..<i} < unat target \<and> unat target \<le> sum f {1..i}"
  using bit_find_loop_tree [OF assms(1,2,4), of 9 0 0] assms(3)
  by (auto simp: bit_find_prefix_def bit_mask_200 [simplified] word_less_nat_alt)

section \<open>The index of tickets\<close>

text \<open>
  An index holds a number of tickets for each of 200 participants. A ticket is a number from 1
  to the total; participant \<open>i\<close> owns as many of them as it has tickets, right after those
  of the participants before it.
\<close>

locale ticket_index =
  fixes empty :: 't
    and add :: "'t \<Rightarrow> nat \<Rightarrow> 64 word \<Rightarrow> (LayoutError + 't) option"
    and sub :: "'t \<Rightarrow> nat \<Rightarrow> 64 word \<Rightarrow> (LayoutError + 't) option"
    and find :: "'t \<Rightarrow> 64 word \<Rightarrow> (LayoutError + nat) option"
    and rep :: "'t \<Rightarrow> (nat \<Rightarrow> nat) \<Rightarrow> bool"
  assumes rep_empty: "rep empty (\<lambda>_. 0)"
    and rep_add: "rep t f \<Longrightarrow> i \<in> {1..200} \<Longrightarrow> sum f {1..200} + unat d < 2 ^ 64 \<Longrightarrow>
      \<exists>t'. add t i d = Some (Inr t') \<and> rep t' (f(i := f i + unat d))"
    and rep_sub: "rep t f \<Longrightarrow> i \<in> {1..200} \<Longrightarrow> unat d \<le> f i \<Longrightarrow>
      \<exists>t'. sub t i d = Some (Inr t') \<and> rep t' (f(i := f i - unat d))"
    and rep_find: "rep t f \<Longrightarrow> sum f {1..200} < 2 ^ 64 \<Longrightarrow> 0 < k \<Longrightarrow> unat k \<le> sum f {1..200} \<Longrightarrow>
      \<exists>i \<in> {1..200}. find t k = Some (Inr i) \<and> sum f {1..<i} < unat k \<and> unat k \<le> sum f {1..i}"
begin

text \<open>The owner of a ticket is determined by the counts.\<close>

lemma owner_unique:
  fixes f :: "nat \<Rightarrow> nat"
  assumes "sum f {1..<i} < k" "k \<le> sum f {1..i}" and "sum f {1..<j} < k" "k \<le> sum f {1..j}"
  shows "i = j"
proof -
  have "sum f {1..a} \<le> sum f {1..<b}" if "a < b" for a b using that by (intro sum_mono2) auto
  with assms show ?thesis by (metis linorder_neqE_nat not_less order_trans)
qed

lemma find_iff:
  assumes "rep t f" "sum f {1..200} < 2 ^ 64" "0 < k" "unat k \<le> sum f {1..200}"
  shows "find t k = Some (Inr i) \<longleftrightarrow> i \<in> {1..200} \<and> sum f {1..<i} < unat k \<and> unat k \<le> sum f {1..i}"
proof -
  from rep_find [OF assms] obtain j where j: "j \<in> {1..200}" "find t k = Some (Inr j)"
    "sum f {1..<j} < unat k" "unat k \<le> sum f {1..j}" by blast
  then show ?thesis using owner_unique [of f i "unat k" j] by auto
qed

text \<open>The owner has tickets, and it owns exactly as many numbers as it has tickets.\<close>

lemma find_owner:
  assumes "rep t f" "sum f {1..200} < 2 ^ 64" "0 < k" "unat k \<le> sum f {1..200}"
  obtains i where "find t k = Some (Inr i)" "i \<in> {1..200}" "0 < f i"
proof -
  from rep_find [OF assms] obtain i where i: "i \<in> {1..200}" "find t k = Some (Inr i)"
    "sum f {1..<i} < unat k" "unat k \<le> sum f {1..i}" by blast
  moreover have "sum f {1..i} = sum f {1..<i} + f i" using i(1) by (simp add: atLeastLessThanSuc_atLeastAtMost [symmetric])
  ultimately show ?thesis using that by force
qed

lemma find_share:
  assumes "rep t f" "sum f {1..200} < 2 ^ 64" "i \<in> {1..200}"
  shows "card {k. 0 < k \<and> unat k \<le> sum f {1..200} \<and> find t k = Some (Inr i)} = f i"
proof -
  let ?lo = "sum f {1..<i}" and ?hi = "sum f {1..i}"
  have hi: "?hi = ?lo + f i" using assms(3) by (simp add: atLeastLessThanSuc_atLeastAtMost [symmetric])
  have le: "?hi \<le> sum f {1..200}" using assms(3) by (intro sum_mono2) auto
  have "{k. 0 < k \<and> unat k \<le> sum f {1..200} \<and> find t k = Some (Inr i)} = {k :: 64 word. ?lo < unat k \<and> unat k \<le> ?hi}"
    using find_iff [OF assms(1,2)] assms(3) le by (auto simp: word_less_nat_alt)
  also have "\<dots> = of_nat ` {?lo<..?hi}"
  proof (intro equalityI subsetI)
    fix k :: "64 word" assume "k \<in> {k. ?lo < unat k \<and> unat k \<le> ?hi}"
    then show "k \<in> of_nat ` {?lo<..?hi}" by (intro image_eqI [of _ _ "unat k"]) simp_all
  next
    fix k :: "64 word" assume "k \<in> of_nat ` {?lo<..?hi}"
    then show "k \<in> {k. ?lo < unat k \<and> unat k \<le> ?hi}" using le assms(2) by (auto simp: unat_of_nat)
  qed
  also have "card \<dots> = card {?lo<..?hi}"
    using le assms(2) by (intro card_image inj_onI) (auto simp: word_unat_eq_iff unat_of_nat)
  finally show ?thesis using hi by simp
qed

end

interpretation tree: ticket_index "replicate 201 0" bit_add bit_sub bit_find_prefix tree_of
  by unfold_locales (fact tree_empty bit_add_tree bit_sub_tree bit_find_prefix_tree)+

end
