(* ===== verification/Jackpot.thy ===== *)
theory Jackpot
  imports Fenwick
begin

text \<open>
  The instruction handlers of the on-chain program that move a round through its life,
  \<open>jackpot_pinocchio_poc/src/handlers\<close>: start, deposit, lock, draw, claim, cancel, refund and
  close. An account is the record of its fields (the codecs of \<open>legacy_layouts.rs\<close> are in
  \<open>Layouts\<close>), the arguments of an instruction are given parsed, and a handler returns the
  records it writes. A failing handler changes nothing, as a failing transaction does.
  \<^const>\<open>None\<close> would be a panic or a loop that does not end.
\<close>

section \<open>Accounts and errors\<close>

type_synonym key = buffer

definition zero_key :: key where "zero_key = replicate 32 0"

record RoundAccount = RoundLifecycleView +
  ra_vault :: key
  ra_randomness :: buffer
  ra_winning_ticket :: "64 word"
  ra_winner :: key
  ra_participants :: "key list"
  ra_bit :: nodes
  ra_vrf_payer :: key
  ra_vrf_reimbursed :: "8 word"
  ra_degen_mode :: "8 word"

record TokenAccount =
  tk_mint :: key
  tk_owner :: key
  tk_amount :: "64 word"

datatype JackpotCompatError =
    Paused | InvalidFeeBps | InvalidTicketUnit | RoundNotOpen | RoundNotLocked | RoundNotVrfRequested
  | RoundNotSettled | RoundAlreadyClaimed | NoDepositsYet | NotEnoughParticipants | NotEnoughTickets
  | RoundNotEnded | InvalidVault | InvalidTreasury | InvalidUserUsdcAta | InvalidUsdcBalanceBefore
  | SlippageExceeded | DepositTooSmall | MaxParticipantsReached | OnlyWinnerCanClaim | MathOverflow
  | Unauthorized | RoundNotCancellable | NoDepositToRefund | AlreadyRefunded | RoundNotCloseable
  | VaultNotEmpty | InvalidRoundDuration | RoundExpired | ParticipantRoundMismatch | MaxDepositExceeded
  | InvalidAdmin | ParticipantNotEmpty | CancelNotAllowed | DegenClaimLocked | DegenVrfNotRequested
  | DegenVrfNotReady | DegenAlreadyRequested | DegenAlreadyClaimed | InvalidDegenClaim
  | InvalidDegenCandidate | UnauthorizedDegenExecutor | InvalidDegenExecutionState
  | InvalidDegenExecutorAta | InvalidDegenReceiverAta | InvalidVrfPayerAta | DegenOutputNotReceived
  | DegenFallbackTooEarly

datatype ProgramError =
    InvalidInstructionData | InvalidAccountData | AccountAlreadyInitialized | TokenProgramError
  | Custom JackpotCompatError

definition map_layout_err :: "LayoutError \<Rightarrow> ProgramError" where
  "map_layout_err err = (case err of LayoutError.MathOverflow \<Rightarrow> Custom MathOverflow | _ \<Rightarrow> InvalidAccountData)"

definition ok_or :: "'a option \<Rightarrow> JackpotCompatError \<Rightarrow> ProgramError + 'a" where
  "ok_or x e = (case x of None \<Rightarrow> Inl (Custom e) | Some y \<Rightarrow> Inr y)"

definition fail :: "JackpotCompatError \<Rightarrow> ProgramError + 'a" where
  "fail e = Inl (Custom e)"

abbreviation (input) ROUND_STATUS_OPEN :: "8 word" where "ROUND_STATUS_OPEN \<equiv> 0"
abbreviation (input) ROUND_STATUS_LOCKED :: "8 word" where "ROUND_STATUS_LOCKED \<equiv> 1"
abbreviation (input) ROUND_STATUS_VRF_REQUESTED :: "8 word" where "ROUND_STATUS_VRF_REQUESTED \<equiv> 2"
abbreviation (input) ROUND_STATUS_SETTLED :: "8 word" where "ROUND_STATUS_SETTLED \<equiv> 3"
abbreviation (input) ROUND_STATUS_CLAIMED :: "8 word" where "ROUND_STATUS_CLAIMED \<equiv> 4"
abbreviation (input) ROUND_STATUS_CANCELLED :: "8 word" where "ROUND_STATUS_CANCELLED \<equiv> 5"
abbreviation (input) DEGEN_MODE_NONE :: "8 word" where "DEGEN_MODE_NONE \<equiv> 0"
abbreviation (input) MAX_PARTICIPANTS :: nat where "MAX_PARTICIPANTS \<equiv> 200"

text \<open>Checked arithmetic of the other widths; \<open>checked_add\<close> of \<open>i64\<close> reads the words as signed.\<close>

definition checked_add_u16 :: "16 word \<Rightarrow> 16 word \<Rightarrow> 16 word option" where
  "checked_add_u16 a b = (if uint a + uint b < 2 ^ 16 then Some (a + b) else None)"

definition checked_add_u32 :: "32 word \<Rightarrow> 32 word \<Rightarrow> 32 word option" where
  "checked_add_u32 a b = (if uint a + uint b < 2 ^ 32 then Some (a + b) else None)"

definition checked_add_i64 :: "64 word \<Rightarrow> 64 word \<Rightarrow> 64 word option" where
  "checked_add_i64 a b =
     (if - (2 ^ 63) \<le> sint a + sint b \<and> sint a + sint b < 2 ^ 63 then Some (a + b) else None)"

definition checked_div_u64 :: "64 word \<Rightarrow> 64 word \<Rightarrow> 64 word option" where
  "checked_div_u64 a b = (if b = 0 then None else Some (a div b))"

section \<open>Start\<close>

text \<open>The account is zeroed before; every field the handler does not set stays zero.\<close>

definition zero_round :: RoundAccount where
  "zero_round = \<lparr>rl_round_id = 0, rl_status = 0, rl_bump = 0, rl_start_ts = 0, rl_end_ts = 0,
     rl_first_deposit_ts = 0, rl_total_usdc = 0, rl_total_tickets = 0, rl_participants_count = 0,
     ra_vault = zero_key, ra_randomness = replicate 32 0, ra_winning_ticket = 0, ra_winner = zero_key,
     ra_participants = replicate 200 zero_key, ra_bit = replicate 201 0, ra_vrf_payer = zero_key,
     ra_vrf_reimbursed = 0, ra_degen_mode = 0\<rparr>"

definition start_round :: "key \<Rightarrow> key \<Rightarrow> key \<Rightarrow> 8 word \<Rightarrow> 64 word \<Rightarrow> ConfigView \<Rightarrow> RoundAccount option \<Rightarrow>
    TokenAccount \<Rightarrow> 64 word \<Rightarrow> ProgramError + RoundAccount" where
  "start_round round_pubkey vault_pubkey usdc_mint round_bump now config acct vault round_id =
     (if cv_paused config then fail Paused
      else if cv_usdc_mint config \<noteq> usdc_mint then fail InvalidVault
      else if acct \<noteq> None then Inl AccountAlreadyInitialized
      else if tk_mint vault \<noteq> cv_usdc_mint config \<or> tk_owner vault \<noteq> round_pubkey then fail InvalidVault
      else Inr (zero_round\<lparr>rl_round_id := round_id, rl_status := ROUND_STATUS_OPEN, rl_bump := round_bump,
        rl_start_ts := now, ra_vault := vault_pubkey\<rparr>))"

section \<open>Deposit\<close>

definition read_or_init_participant :: "ParticipantView option \<Rightarrow> key \<Rightarrow> 8 word \<Rightarrow> ParticipantView" where
  "read_or_init_participant acct user bump =
     (case acct of
        None \<Rightarrow> \<lparr>pv_round = zero_key, pv_user = user, pv_index = 0, pv_bump = bump, pv_tickets_total = 0,
          pv_usdc_total = 0, pv_deposits_count = 0, pv_reserved = replicate 16 0\<rparr>
      | Some p \<Rightarrow> p)"

text \<open>Registration of a participant the round does not know yet.\<close>

definition register_participant :: "key \<Rightarrow> key \<Rightarrow> 8 word \<Rightarrow> RoundAccount \<Rightarrow> ParticipantView \<Rightarrow>
    ProgramError + (RoundAccount \<times> ParticipantView)" where
  "register_participant user round_pubkey bump round' p =
     (if pv_round p = round_pubkey then Inr (round', p)
      else and_then (ok_or (checked_add_u16 (rl_participants_count round') 1) MathOverflow) (\<lambda>next.
        if MAX_PARTICIPANTS < unat next then fail MaxParticipantsReached
        else Inr
          (round'\<lparr>rl_participants_count := next,
             ra_participants := (ra_participants round')[unat next - 1 := user]\<rparr>,
           p\<lparr>pv_round := round_pubkey, pv_user := user, pv_index := next, pv_bump := bump,
             pv_tickets_total := 0, pv_usdc_total := 0, pv_deposits_count := 0\<rparr>)))"

definition start_clock :: "64 word \<Rightarrow> ConfigView \<Rightarrow> RoundAccount \<Rightarrow> ProgramError + RoundAccount" where
  "start_clock now config round' =
     (let r1 = (if rl_first_deposit_ts round' = 0 then round'\<lparr>rl_first_deposit_ts := now\<rparr> else round') in
      if rl_end_ts r1 = 0 \<and> cv_min_participants config \<le> rl_participants_count r1
      then and_then (ok_or (checked_add_i64 now (ucast (cv_round_duration_sec config))) MathOverflow)
             (\<lambda>t. Inr (r1\<lparr>rl_end_ts := t\<rparr>))
      else Inr r1)"

definition credit :: "ConfigView \<Rightarrow> 64 word \<Rightarrow> 64 word \<Rightarrow> RoundAccount \<Rightarrow> ParticipantView \<Rightarrow>
    ProgramError + (RoundAccount \<times> ParticipantView)" where
  "credit config delta tickets round' p =
     and_then (ok_or (checked_add_u64 (pv_usdc_total p) delta) MathOverflow) (\<lambda>new_usdc_total.
     if 0 < cv_max_deposit_per_user config \<and> cv_max_deposit_per_user config < new_usdc_total
     then fail MaxDepositExceeded
     else
       and_then (ok_or (checked_add_u64 (pv_tickets_total p) tickets) MathOverflow) (\<lambda>tickets_total.
       and_then (ok_or (checked_add_u32 (pv_deposits_count p) 1) MathOverflow) (\<lambda>deposits_count.
       and_then (ok_or (checked_add_u64 (rl_total_tickets round') tickets) MathOverflow) (\<lambda>total_tickets.
       and_then (ok_or (checked_add_u64 (rl_total_usdc round') delta) MathOverflow) (\<lambda>total_usdc.
       Inr (round'\<lparr>rl_total_tickets := total_tickets, rl_total_usdc := total_usdc\<rparr>,
            p\<lparr>pv_tickets_total := tickets_total, pv_usdc_total := new_usdc_total,
              pv_deposits_count := deposits_count\<rparr>))))))"

definition deposit_amounts :: "ConfigView \<Rightarrow> TokenAccount \<Rightarrow> 64 word \<Rightarrow> 64 word \<Rightarrow>
    ProgramError + (64 word \<times> 64 word)" where
  "deposit_amounts config user_ata usdc_balance_before min_out =
     (if tk_amount user_ata < usdc_balance_before then fail InvalidUsdcBalanceBefore
      else and_then (ok_or (checked_sub_u64 (tk_amount user_ata) usdc_balance_before) MathOverflow) (\<lambda>delta.
        if delta < min_out then fail SlippageExceeded
        else and_then (ok_or (checked_div_u64 delta (cv_ticket_unit config)) MathOverflow) (\<lambda>tickets_added.
          if tickets_added = 0 then fail DepositTooSmall else Inr (delta, tickets_added))))"

record deposit_args =
  da_round_id :: "64 word"
  da_usdc_balance_before :: "64 word"
  da_min_out :: "64 word"

definition deposit_any :: "key \<Rightarrow> key \<Rightarrow> key \<Rightarrow> 8 word \<Rightarrow> 64 word \<Rightarrow> ConfigView \<Rightarrow> RoundAccount \<Rightarrow>
    ParticipantView option \<Rightarrow> TokenAccount \<Rightarrow> TokenAccount \<Rightarrow> deposit_args \<Rightarrow>
    (ProgramError + (64 word \<times> RoundAccount \<times> ParticipantView)) option" where
  "deposit_any user round_pubkey vault_pubkey bump now config round' part user_ata vault_ata args =
     (if cv_paused config then Some (fail Paused)
      else if rl_round_id round' \<noteq> da_round_id args then Some (Inl InvalidAccountData)
      else if rl_status round' \<noteq> ROUND_STATUS_OPEN then Some (fail RoundNotOpen)
      else if ra_vault round' \<noteq> vault_pubkey then Some (fail InvalidVault)
      else if tk_mint vault_ata \<noteq> cv_usdc_mint config \<or> tk_owner vault_ata \<noteq> round_pubkey then Some (fail InvalidVault)
      else if tk_mint user_ata \<noteq> cv_usdc_mint config \<or> tk_owner user_ata \<noteq> user then Some (fail InvalidUserUsdcAta)
      else if rl_end_ts round' \<noteq> 0 \<and> sint (rl_end_ts round') \<le> sint now then Some (fail RoundExpired)
      else
        (case and_then (deposit_amounts config user_ata (da_usdc_balance_before args) (da_min_out args)) (\<lambda>(delta, tickets_added).
            and_then (register_participant user round_pubkey bump round' (read_or_init_participant part user bump)) (\<lambda>(r1, p1).
            and_then (start_clock now config r1) (\<lambda>r2.
            and_then (credit config delta tickets_added r2 p1) (\<lambda>(r3, p2).
            Inr (delta, tickets_added, r3, p2))))) of
           Inl e \<Rightarrow> Some (Inl e)
         | Inr (delta, tickets_added, r3, p2) \<Rightarrow>
             (case bit_add (ra_bit r3) (unat (pv_index p2)) tickets_added of
                None \<Rightarrow> None
              | Some (Inl e) \<Rightarrow> Some (Inl (map_layout_err e))
              | Some (Inr bit') \<Rightarrow> Some (Inr (delta, r3\<lparr>ra_bit := bit'\<rparr>, p2)))))"

section \<open>Lock and draw\<close>

definition lock_round :: "ConfigView \<Rightarrow> RoundAccount \<Rightarrow> 64 word \<Rightarrow> ProgramError + RoundAccount" where
  "lock_round config round' now =
     (if rl_status round' \<noteq> ROUND_STATUS_OPEN then fail RoundNotOpen
      else if rl_first_deposit_ts round' = 0 then fail NoDepositsYet
      else if rl_participants_count round' < cv_min_participants config then fail NotEnoughParticipants
      else if rl_total_tickets round' < cv_min_total_tickets config then fail NotEnoughTickets
      else if sint now < sint (rl_end_ts round') then fail RoundNotEnded
      else Inr (round'\<lparr>rl_status := ROUND_STATUS_LOCKED\<rparr>))"

definition request_vrf :: "key \<Rightarrow> ConfigView \<Rightarrow> RoundAccount \<Rightarrow> ProgramError + RoundAccount" where
  "request_vrf payer config round' =
     (if rl_status round' \<noteq> ROUND_STATUS_LOCKED then fail RoundNotLocked
      else if rl_participants_count round' < cv_min_participants config then fail NotEnoughParticipants
      else if rl_total_tickets round' < cv_min_total_tickets config then fail NotEnoughTickets
      else Inr (round'\<lparr>rl_status := ROUND_STATUS_VRF_REQUESTED, ra_vrf_payer := payer\<rparr>))"

text \<open>\<open>randomness_u128 % total + 1\<close>; the remainder by zero panics.\<close>

definition draw_ticket :: "buffer \<Rightarrow> 64 word \<Rightarrow> 64 word option" where
  "draw_ticket randomness total_tickets =
     (if total_tickets = 0 then None
      else Some (of_int (le_uint (take 16 randomness) mod uint total_tickets) + 1))"

definition vrf_callback :: "ConfigView \<Rightarrow> RoundAccount \<Rightarrow> buffer \<Rightarrow> (ProgramError + RoundAccount) option" where
  "vrf_callback config round' randomness =
     (if rl_status round' \<noteq> ROUND_STATUS_VRF_REQUESTED then Some (fail RoundNotVrfRequested)
      else if rl_participants_count round' < cv_min_participants config then Some (fail NotEnoughParticipants)
      else if rl_total_tickets round' < cv_min_total_tickets config then Some (fail NotEnoughTickets)
      else case draw_ticket randomness (rl_total_tickets round') of
          None \<Rightarrow> None
        | Some winning_ticket \<Rightarrow>
            (case bit_find_prefix (ra_bit round') winning_ticket of
               None \<Rightarrow> None
             | Some (Inl e) \<Rightarrow> Some (Inl (map_layout_err e))
             | Some (Inr winner_idx) \<Rightarrow>
                 if MAX_PARTICIPANTS \<le> winner_idx - 1 then Some (Inl InvalidAccountData)
                 else Some (Inr (round'\<lparr>ra_randomness := randomness, ra_winning_ticket := winning_ticket,
                   ra_winner := ra_participants round' ! (winner_idx - 1), rl_status := ROUND_STATUS_SETTLED\<rparr>))))"

section \<open>Claim\<close>

text \<open>
  The checks that \<open>claim\<close> and \<open>auto_claim\<close> share; for the latter the winner is read from the
  round. The VRF payer is repaid when its token account is given and fits.
\<close>

definition vrf_payer_owed :: "RoundAccount \<Rightarrow> bool" where
  "vrf_payer_owed round' \<longleftrightarrow> ra_vrf_payer round' \<noteq> zero_key \<and> ra_vrf_reimbursed round' = 0"

definition settle_claim :: "key \<Rightarrow> key \<Rightarrow> key \<Rightarrow> ConfigView \<Rightarrow> RoundAccount \<Rightarrow> TokenAccount \<Rightarrow> TokenAccount \<Rightarrow>
    key \<Rightarrow> TokenAccount \<Rightarrow> TokenAccount option \<Rightarrow> ProgramError + (ClaimAmountsCompat \<times> RoundAccount)" where
  "settle_claim winner round_pubkey vault_pubkey config round' vault winner_ata treasury_pubkey treasury_ata vrf_payer_ata =
     (if ra_vault round' \<noteq> vault_pubkey \<or> tk_mint vault \<noteq> cv_usdc_mint config \<or> tk_owner vault \<noteq> round_pubkey
      then fail InvalidVault
      else if tk_mint winner_ata \<noteq> cv_usdc_mint config \<or> tk_owner winner_ata \<noteq> winner then fail InvalidUserUsdcAta
      else if treasury_pubkey \<noteq> cv_treasury_usdc_ata config \<or> tk_mint treasury_ata \<noteq> cv_usdc_mint config
      then fail InvalidTreasury
      else
        let reimburse_vrf = (vrf_payer_owed round' \<and>
              (case vrf_payer_ata of
                 None \<Rightarrow> False
               | Some a \<Rightarrow> tk_mint a = cv_usdc_mint config \<and> tk_owner a = ra_vrf_payer round')) in
        and_then (ok_or (compute_claim_amounts (rl_total_usdc round') (cv_fee_bps config) reimburse_vrf) MathOverflow) (\<lambda>amounts.
        Inr (amounts,
          let r1 = round'\<lparr>rl_status := ROUND_STATUS_CLAIMED\<rparr> in
          if 0 < ca_vrf_reimburse amounts then r1\<lparr>ra_vrf_reimbursed := 1\<rparr> else r1)))"

definition claim :: "key \<Rightarrow> key \<Rightarrow> key \<Rightarrow> ConfigView \<Rightarrow> RoundAccount \<Rightarrow> TokenAccount \<Rightarrow> TokenAccount \<Rightarrow>
    key \<Rightarrow> TokenAccount \<Rightarrow> TokenAccount option \<Rightarrow> ProgramError + (ClaimAmountsCompat \<times> RoundAccount)" where
  "claim winner round_pubkey vault_pubkey config round' vault winner_ata treasury_pubkey treasury_ata vrf_payer_ata =
     (if rl_status round' \<noteq> ROUND_STATUS_SETTLED then fail RoundNotSettled
      else if ra_degen_mode round' \<noteq> DEGEN_MODE_NONE then fail DegenClaimLocked
      else if ra_winner round' \<noteq> winner then fail OnlyWinnerCanClaim
      else settle_claim winner round_pubkey vault_pubkey config round' vault winner_ata treasury_pubkey treasury_ata vrf_payer_ata)"

definition auto_claim :: "key \<Rightarrow> key \<Rightarrow> ConfigView \<Rightarrow> RoundAccount \<Rightarrow> TokenAccount \<Rightarrow> TokenAccount \<Rightarrow>
    key \<Rightarrow> TokenAccount \<Rightarrow> TokenAccount option \<Rightarrow> ProgramError + (ClaimAmountsCompat \<times> RoundAccount)" where
  "auto_claim round_pubkey vault_pubkey config round' vault winner_ata treasury_pubkey treasury_ata vrf_payer_ata =
     (if rl_status round' \<noteq> ROUND_STATUS_SETTLED then fail RoundNotSettled
      else if ra_degen_mode round' \<noteq> DEGEN_MODE_NONE then fail DegenClaimLocked
      else settle_claim (ra_winner round') round_pubkey vault_pubkey config round' vault winner_ata treasury_pubkey treasury_ata
             vrf_payer_ata)"

section \<open>Cancel and refund\<close>

definition cancel_round :: "key \<Rightarrow> key \<Rightarrow> key \<Rightarrow> ConfigView \<Rightarrow> RoundAccount \<Rightarrow> ParticipantView \<Rightarrow>
    TokenAccount \<Rightarrow> TokenAccount \<Rightarrow> (ProgramError + (64 word \<times> RoundAccount \<times> ParticipantView)) option" where
  "cancel_round user round_pubkey vault_pubkey config round' p vault user_ata =
     (let refund_amount = pv_usdc_total p; cancelled_tickets = pv_tickets_total p in
      if pv_user p \<noteq> user then Some (fail Unauthorized)
      else if pv_round p \<noteq> round_pubkey then Some (fail Unauthorized)
      else if refund_amount = 0 then Some (fail NoDepositToRefund)
      else if rl_status round' \<noteq> ROUND_STATUS_OPEN then Some (fail RoundNotCancellable)
      else if rl_total_usdc round' \<noteq> refund_amount then Some (fail CancelNotAllowed)
      else if ra_vault round' \<noteq> vault_pubkey \<or> tk_owner vault \<noteq> round_pubkey then Some (fail InvalidVault)
      else if tk_owner user_ata \<noteq> user \<or> tk_mint user_ata \<noteq> cv_usdc_mint config then Some (fail InvalidUserUsdcAta)
      else if pv_index p = 0 then Some (Inl InvalidAccountData)
      else case bit_sub (ra_bit round') (unat (pv_index p)) cancelled_tickets of
          None \<Rightarrow> None
        | Some (Inl e) \<Rightarrow> Some (Inl (map_layout_err e))
        | Some (Inr bit') \<Rightarrow> Some (
            and_then (ok_or (checked_sub_u64 (rl_total_usdc round') refund_amount) MathOverflow) (\<lambda>total_usdc.
            and_then (ok_or (checked_sub_u64 (rl_total_tickets round') cancelled_tickets) MathOverflow) (\<lambda>total_tickets.
            Inr (refund_amount,
              round'\<lparr>ra_bit := bit', rl_total_usdc := total_usdc, rl_total_tickets := total_tickets,
                rl_status := if total_usdc = 0 then ROUND_STATUS_CANCELLED else rl_status round'\<rparr>,
              p\<lparr>pv_usdc_total := 0, pv_tickets_total := 0\<rparr>)))))"

definition admin_force_cancel :: "key \<Rightarrow> ConfigView \<Rightarrow> RoundAccount \<Rightarrow> ProgramError + RoundAccount" where
  "admin_force_cancel admin config round' =
     (if cv_admin config \<noteq> admin then fail Unauthorized
      else if \<not> (rl_status round' = ROUND_STATUS_OPEN \<or> rl_status round' = ROUND_STATUS_LOCKED \<or>
                 rl_status round' = ROUND_STATUS_VRF_REQUESTED)
      then fail RoundNotCancellable
      else Inr (round'\<lparr>rl_status := ROUND_STATUS_CANCELLED\<rparr>))"

definition claim_refund :: "key \<Rightarrow> key \<Rightarrow> key \<Rightarrow> ConfigView \<Rightarrow> RoundAccount \<Rightarrow> ParticipantView \<Rightarrow>
    TokenAccount \<Rightarrow> TokenAccount \<Rightarrow> ProgramError + (64 word \<times> ParticipantView)" where
  "claim_refund user round_pubkey vault_pubkey config round' p vault user_ata =
     (if pv_user p \<noteq> user then fail Unauthorized
      else if pv_round p \<noteq> round_pubkey then fail ParticipantRoundMismatch
      else if pv_usdc_total p = 0 then fail NoDepositToRefund
      else if rl_status round' \<noteq> ROUND_STATUS_CANCELLED then fail RoundNotCancellable
      else if ra_vault round' \<noteq> vault_pubkey \<or> tk_owner vault \<noteq> round_pubkey then fail InvalidVault
      else if tk_owner user_ata \<noteq> user \<or> tk_mint user_ata \<noteq> cv_usdc_mint config then fail InvalidUserUsdcAta
      else Inr (pv_usdc_total p, p\<lparr>pv_usdc_total := 0, pv_tickets_total := 0\<rparr>))"

section \<open>Close\<close>

definition closeable :: "RoundAccount \<Rightarrow> bool" where
  "closeable round' \<longleftrightarrow> rl_status round' = ROUND_STATUS_CLAIMED \<or> rl_status round' = ROUND_STATUS_CANCELLED"

definition close_participant :: "key \<Rightarrow> key \<Rightarrow> RoundAccount \<Rightarrow> ParticipantView \<Rightarrow> ProgramError + unit" where
  "close_participant user round_pubkey round' p =
     (if \<not> closeable round' then fail RoundNotCloseable
      else if pv_round p \<noteq> round_pubkey then fail ParticipantRoundMismatch
      else if pv_user p \<noteq> user then fail Unauthorized
      else if rl_status round' = ROUND_STATUS_CANCELLED \<and> (pv_usdc_total p \<noteq> 0 \<or> pv_tickets_total p \<noteq> 0)
      then fail ParticipantNotEmpty
      else Inr ())"

definition close_round :: "key \<Rightarrow> RoundAccount \<Rightarrow> TokenAccount \<Rightarrow> ProgramError + 64 word" where
  "close_round round_pubkey round' vault =
     (if \<not> closeable round' then fail RoundNotCloseable
      else if tk_owner vault \<noteq> round_pubkey then fail InvalidVault
      else Inr (tk_amount vault))"

end
