(* ===== verification/Jackpot_Degen.thy ===== *)
theory Jackpot_Degen
  imports Jackpot
begin

text \<open>
  The handlers of the degen claim (a winner who asks for a second random number and is paid in
  a token it selects) and of the configuration, in the style of \<open>Jackpot\<close>.
\<close>

section \<open>Accounts\<close>

abbreviation (input) DEGEN_MODE_VRF_REQUESTED :: "8 word" where "DEGEN_MODE_VRF_REQUESTED \<equiv> 1"
abbreviation (input) DEGEN_MODE_VRF_READY :: "8 word" where "DEGEN_MODE_VRF_READY \<equiv> 2"
abbreviation (input) DEGEN_MODE_EXECUTING :: "8 word" where "DEGEN_MODE_EXECUTING \<equiv> 3"
abbreviation (input) DEGEN_MODE_CLAIMED :: "8 word" where "DEGEN_MODE_CLAIMED \<equiv> 4"

definition DEFAULT_DEGEN_FALLBACK_TIMEOUT_SEC :: "32 word" where "DEFAULT_DEGEN_FALLBACK_TIMEOUT_SEC = 300"
definition DEGEN_CANDIDATE_WINDOW :: "8 word" where "DEGEN_CANDIDATE_WINDOW = 30"
definition DEGEN_POOL_VERSION :: "32 word" where "DEGEN_POOL_VERSION = 1"

record DegenConfigView =
  dg_executor :: key
  dg_fallback_timeout_sec :: "32 word"
  dg_bump :: "8 word"
  dg_reserved :: buffer

record DegenClaimView =
  dv_round :: key
  dv_winner :: key
  dv_round_id :: "64 word"
  dv_status :: "8 word"
  dv_bump :: "8 word"
  dv_selected_candidate_rank :: "8 word"
  dv_fallback_reason :: "8 word"
  dv_token_index :: "32 word"
  dv_pool_version :: "32 word"
  dv_candidate_window :: "8 word"
  dv_padding0 :: buffer
  dv_requested_at :: "64 word"
  dv_fulfilled_at :: "64 word"
  dv_claimed_at :: "64 word"
  dv_fallback_after_ts :: "64 word"
  dv_payout_raw :: "64 word"
  dv_min_out_raw :: "64 word"
  dv_receiver_pre_balance :: "64 word"
  dv_token_mint :: key
  dv_executor :: key
  dv_receiver_token_ata :: key
  dv_randomness :: buffer
  dv_route_hash :: buffer
  dv_reserved :: buffer

definition zero_claim :: DegenClaimView where
  "zero_claim = \<lparr>dv_round = zero_key, dv_winner = zero_key, dv_round_id = 0, dv_status = 0, dv_bump = 0,
     dv_selected_candidate_rank = 0, dv_fallback_reason = 0, dv_token_index = 0, dv_pool_version = 0,
     dv_candidate_window = 0, dv_padding0 = replicate 7 0, dv_requested_at = 0, dv_fulfilled_at = 0,
     dv_claimed_at = 0, dv_fallback_after_ts = 0, dv_payout_raw = 0, dv_min_out_raw = 0,
     dv_receiver_pre_balance = 0, dv_token_mint = zero_key, dv_executor = zero_key,
     dv_receiver_token_ata = zero_key, dv_randomness = replicate 32 0, dv_route_hash = replicate 32 0,
     dv_reserved = replicate 32 0\<rparr>"

section \<open>The second draw\<close>

definition request_degen_vrf :: "key \<Rightarrow> key \<Rightarrow> 8 word \<Rightarrow> 64 word \<Rightarrow> RoundAccount \<Rightarrow> DegenClaimView \<Rightarrow> 64 word \<Rightarrow>
    ProgramError + (RoundAccount \<times> DegenClaimView)" where
  "request_degen_vrf winner round_pubkey bump now round' dc round_id =
     (if rl_round_id round' \<noteq> round_id then fail Unauthorized
      else if rl_status round' \<noteq> ROUND_STATUS_SETTLED then fail RoundNotSettled
      else if ra_winner round' \<noteq> winner then fail OnlyWinnerCanClaim
      else if ra_degen_mode round' = DEGEN_MODE_VRF_REQUESTED then fail DegenAlreadyRequested
      else if ra_degen_mode round' = DEGEN_MODE_VRF_READY \<or> ra_degen_mode round' = DEGEN_MODE_CLAIMED
      then fail DegenAlreadyClaimed
      else if ra_degen_mode round' \<noteq> DEGEN_MODE_NONE then fail DegenClaimLocked
      else if dv_round dc \<noteq> zero_key \<and>
          (dv_round dc \<noteq> round_pubkey \<or> dv_winner dc \<noteq> winner \<or> dv_round_id dc \<noteq> round_id)
      then fail InvalidDegenClaim
      else if dv_round dc \<noteq> zero_key \<and> dv_status dc = 1 then fail DegenAlreadyRequested
      else if dv_round dc \<noteq> zero_key \<and> dv_status dc \<in> {2, 3, 4, 5} then fail DegenAlreadyClaimed
      else Inr (round'\<lparr>ra_degen_mode := DEGEN_MODE_VRF_REQUESTED\<rparr>,
        zero_claim\<lparr>dv_round := round_pubkey, dv_winner := winner, dv_round_id := round_id, dv_status := 1,
          dv_bump := bump, dv_selected_candidate_rank := 255, dv_pool_version := DEGEN_POOL_VERSION,
          dv_candidate_window := DEGEN_CANDIDATE_WINDOW, dv_requested_at := now\<rparr>))"

definition degen_vrf_callback :: "key \<Rightarrow> 64 word \<Rightarrow> ConfigView \<Rightarrow> RoundAccount \<Rightarrow> DegenClaimView \<Rightarrow>
    DegenConfigView option \<Rightarrow> buffer \<Rightarrow> ProgramError + (RoundAccount \<times> DegenClaimView)" where
  "degen_vrf_callback round_pubkey now config round' dc degen_config randomness =
     (if rl_status round' \<noteq> ROUND_STATUS_SETTLED then fail RoundNotSettled
      else if ra_degen_mode round' \<noteq> DEGEN_MODE_VRF_REQUESTED then fail DegenVrfNotRequested
      else if dv_round dc \<noteq> round_pubkey \<or> dv_round_id dc \<noteq> rl_round_id round' \<or> dv_winner dc \<noteq> ra_winner round'
      then fail InvalidDegenClaim
      else if dv_status dc \<noteq> 1 then fail DegenVrfNotRequested
      else
        let timeout = (case degen_config of
              None \<Rightarrow> DEFAULT_DEGEN_FALLBACK_TIMEOUT_SEC
            | Some g \<Rightarrow> if dg_fallback_timeout_sec g = 0 then DEFAULT_DEGEN_FALLBACK_TIMEOUT_SEC
                        else dg_fallback_timeout_sec g) in
        and_then (ok_or (checked_add_i64 now (ucast timeout)) MathOverflow) (\<lambda>fallback_after_ts.
        and_then (ok_or (compute_claim_amounts (rl_total_usdc round') (cv_fee_bps config) (vrf_payer_owed round'))
                    MathOverflow) (\<lambda>amounts.
        Inr (round'\<lparr>ra_degen_mode := DEGEN_MODE_VRF_READY\<rparr>,
          dc\<lparr>dv_status := 2, dv_randomness := randomness, dv_selected_candidate_rank := 255,
            dv_fallback_reason := 0, dv_token_index := 0, dv_pool_version := DEGEN_POOL_VERSION,
            dv_candidate_window := DEGEN_CANDIDATE_WINDOW, dv_padding0 := replicate 7 0,
            dv_token_mint := zero_key, dv_fulfilled_at := now, dv_fallback_after_ts := fallback_after_ts,
            dv_payout_raw := ca_payout amounts, dv_min_out_raw := 0, dv_receiver_pre_balance := 0,
            dv_executor := zero_key, dv_receiver_token_ata := zero_key, dv_route_hash := replicate 32 0\<rparr>))))"

section \<open>Execution\<close>

text \<open>The VRF payer has to be given, with its token account, when it is still to be repaid.\<close>

definition vrf_payer_given :: "ConfigView \<Rightarrow> RoundAccount \<Rightarrow> key option \<Rightarrow> TokenAccount option \<Rightarrow> bool" where
  "vrf_payer_given config round' authority vrf_payer_ata \<longleftrightarrow>
     authority = Some (ra_vrf_payer round') \<and>
     (case vrf_payer_ata of
        None \<Rightarrow> False
      | Some a \<Rightarrow> tk_mint a = cv_usdc_mint config \<and> tk_owner a = ra_vrf_payer round')"

definition mark_reimbursed :: "ClaimAmountsCompat \<Rightarrow> RoundAccount \<Rightarrow> RoundAccount" where
  "mark_reimbursed amounts round' =
     (if 0 < ca_vrf_reimburse amounts then round'\<lparr>ra_vrf_reimbursed := 1\<rparr> else round')"

record begin_args =
  ba_round_id :: "64 word"
  ba_candidate_rank :: "8 word"
  ba_token_index :: "32 word"
  ba_min_out_raw :: "64 word"
  ba_route_hash :: buffer

definition begin_degen_execution :: "key \<Rightarrow> key \<Rightarrow> key \<Rightarrow> key \<Rightarrow> key \<Rightarrow> key \<Rightarrow> key option \<Rightarrow> 64 word \<Rightarrow> ConfigView \<Rightarrow>
    DegenConfigView \<Rightarrow> RoundAccount \<Rightarrow> DegenClaimView \<Rightarrow> TokenAccount \<Rightarrow> TokenAccount \<Rightarrow> TokenAccount \<Rightarrow> TokenAccount \<Rightarrow>
    TokenAccount option \<Rightarrow> begin_args \<Rightarrow> ProgramError + (ClaimAmountsCompat \<times> RoundAccount \<times> DegenClaimView)" where
  "begin_degen_execution executor round_pubkey vault_pubkey treasury_pubkey selected_mint receiver_pubkey vrf_authority now
     config degen_config round' dc vault executor_ata treasury_ata receiver_ata vrf_payer_ata args =
     (if dg_executor degen_config \<noteq> executor then fail UnauthorizedDegenExecutor
      else if tk_owner executor_ata \<noteq> executor \<or> tk_mint executor_ata \<noteq> cv_usdc_mint config \<or> tk_amount executor_ata \<noteq> 0
      then fail InvalidDegenExecutorAta
      else if rl_round_id round' \<noteq> ba_round_id args then Inl InvalidInstructionData
      else if rl_status round' \<noteq> ROUND_STATUS_SETTLED then fail RoundNotSettled
      else if ra_degen_mode round' \<noteq> DEGEN_MODE_VRF_READY then fail DegenVrfNotReady
      else if dv_status dc \<noteq> 2 then fail DegenVrfNotReady
      else if dv_round dc \<noteq> round_pubkey \<or> dv_round_id dc \<noteq> ba_round_id args then fail InvalidDegenClaim
      else if vault_pubkey \<noteq> ra_vault round' \<or> tk_mint vault \<noteq> cv_usdc_mint config \<or> tk_owner vault \<noteq> round_pubkey
      then fail InvalidVault
      else if treasury_pubkey \<noteq> cv_treasury_usdc_ata config \<or> tk_mint treasury_ata \<noteq> cv_usdc_mint config
      then fail InvalidTreasury
      else if tk_owner receiver_ata \<noteq> dv_winner dc \<or> tk_mint receiver_ata \<noteq> selected_mint then fail InvalidDegenReceiverAta
      else if vrf_payer_owed round' \<and> \<not> vrf_payer_given config round' vrf_authority vrf_payer_ata then fail InvalidVrfPayerAta
      else
        and_then (ok_or (compute_claim_amounts (rl_total_usdc round') (cv_fee_bps config) (vrf_payer_owed round'))
                    MathOverflow) (\<lambda>amounts.
        Inr (amounts, mark_reimbursed amounts (round'\<lparr>ra_degen_mode := DEGEN_MODE_EXECUTING\<rparr>),
          dc\<lparr>dv_status := 3, dv_selected_candidate_rank := ba_candidate_rank args, dv_fallback_reason := 0,
            dv_token_index := ba_token_index args, dv_token_mint := selected_mint, dv_executor := executor,
            dv_receiver_token_ata := receiver_pubkey, dv_receiver_pre_balance := tk_amount receiver_ata,
            dv_min_out_raw := ba_min_out_raw args, dv_payout_raw := ca_payout amounts,
            dv_route_hash := ba_route_hash args, dv_claimed_at := 0, dv_fulfilled_at := now\<rparr>)))"

definition finalize_degen_success :: "key \<Rightarrow> key \<Rightarrow> 64 word \<Rightarrow> DegenConfigView \<Rightarrow> RoundAccount \<Rightarrow> DegenClaimView \<Rightarrow>
    TokenAccount \<Rightarrow> TokenAccount \<Rightarrow> 64 word \<Rightarrow> ProgramError + (RoundAccount \<times> DegenClaimView)" where
  "finalize_degen_success executor receiver_pubkey now degen_config round' dc executor_ata receiver_ata round_id =
     (if dg_executor degen_config \<noteq> executor \<or> dv_executor dc \<noteq> executor then fail UnauthorizedDegenExecutor
      else if dv_status dc \<noteq> 3 then fail InvalidDegenExecutionState
      else if rl_round_id round' \<noteq> round_id then Inl InvalidInstructionData
      else if rl_status round' \<noteq> ROUND_STATUS_SETTLED then fail RoundNotSettled
      else if ra_degen_mode round' \<noteq> DEGEN_MODE_EXECUTING then fail InvalidDegenExecutionState
      else if receiver_pubkey \<noteq> dv_receiver_token_ata dc \<or> tk_owner receiver_ata \<noteq> dv_winner dc \<or>
          tk_mint receiver_ata \<noteq> dv_token_mint dc
      then fail InvalidDegenReceiverAta
      else and_then (ok_or (checked_add_u64 (dv_receiver_pre_balance dc) (dv_min_out_raw dc)) MathOverflow) (\<lambda>expected.
        if tk_amount receiver_ata < expected then fail DegenOutputNotReceived
        else if tk_owner executor_ata \<noteq> executor \<or> tk_amount executor_ata \<noteq> 0 then fail InvalidDegenExecutorAta
        else Inr (round'\<lparr>rl_status := ROUND_STATUS_CLAIMED, ra_degen_mode := DEGEN_MODE_CLAIMED\<rparr>,
          dc\<lparr>dv_status := 4, dv_claimed_at := now\<rparr>)))"

section \<open>Claims in USDC\<close>

text \<open>What \<open>claim_degen\<close> and the fallback check and change alike.\<close>

definition settle_degen :: "key \<Rightarrow> key \<Rightarrow> key \<Rightarrow> ConfigView \<Rightarrow> RoundAccount \<Rightarrow> DegenClaimView \<Rightarrow> TokenAccount \<Rightarrow>
    TokenAccount \<Rightarrow> key \<Rightarrow> TokenAccount \<Rightarrow> key option \<Rightarrow> TokenAccount option \<Rightarrow> 64 word \<Rightarrow>
    ProgramError + (ClaimAmountsCompat \<times> RoundAccount)" where
  "settle_degen winner round_pubkey vault_pubkey config round' dc vault winner_ata treasury_pubkey treasury_ata
     vrf_authority vrf_payer_ata round_id =
     (if rl_status round' \<noteq> ROUND_STATUS_SETTLED then fail RoundNotSettled
      else if ra_degen_mode round' \<noteq> DEGEN_MODE_VRF_READY then fail DegenVrfNotReady
      else if winner \<noteq> ra_winner round' then fail OnlyWinnerCanClaim
      else if dv_round dc \<noteq> round_pubkey \<or> dv_winner dc \<noteq> winner \<or> dv_round_id dc \<noteq> round_id \<or> rl_round_id round' \<noteq> round_id
      then fail InvalidDegenClaim
      else if ra_vault round' \<noteq> vault_pubkey \<or> tk_mint vault \<noteq> cv_usdc_mint config \<or> tk_owner vault \<noteq> round_pubkey
      then fail InvalidVault
      else if tk_mint winner_ata \<noteq> cv_usdc_mint config \<or> tk_owner winner_ata \<noteq> winner then fail InvalidUserUsdcAta
      else if treasury_pubkey \<noteq> cv_treasury_usdc_ata config \<or> tk_mint treasury_ata \<noteq> cv_usdc_mint config
      then fail InvalidTreasury
      else if vrf_payer_owed round' \<and> \<not> vrf_payer_given config round' vrf_authority vrf_payer_ata then fail InvalidVrfPayerAta
      else
        and_then (ok_or (compute_claim_amounts (rl_total_usdc round') (cv_fee_bps config) (vrf_payer_owed round'))
                    MathOverflow) (\<lambda>amounts.
        Inr (amounts, mark_reimbursed amounts
          (round'\<lparr>rl_status := ROUND_STATUS_CLAIMED, ra_degen_mode := DEGEN_MODE_CLAIMED\<rparr>))))"

definition clear_execution :: "ClaimAmountsCompat \<Rightarrow> 64 word \<Rightarrow> DegenClaimView \<Rightarrow> DegenClaimView" where
  "clear_execution amounts now dc = dc\<lparr>dv_claimed_at := now, dv_token_mint := zero_key, dv_executor := zero_key,
     dv_receiver_token_ata := zero_key, dv_receiver_pre_balance := 0, dv_min_out_raw := 0,
     dv_route_hash := replicate 32 0, dv_payout_raw := ca_payout amounts\<rparr>"

definition claim_degen :: "key \<Rightarrow> key \<Rightarrow> key \<Rightarrow> 64 word \<Rightarrow> ConfigView \<Rightarrow> RoundAccount \<Rightarrow> DegenClaimView \<Rightarrow> TokenAccount \<Rightarrow>
    TokenAccount \<Rightarrow> key \<Rightarrow> TokenAccount \<Rightarrow> key option \<Rightarrow> TokenAccount option \<Rightarrow> 64 word \<Rightarrow> 8 word \<Rightarrow> 32 word \<Rightarrow>
    ProgramError + (ClaimAmountsCompat \<times> RoundAccount \<times> DegenClaimView)" where
  "claim_degen winner round_pubkey vault_pubkey now config round' dc vault winner_ata treasury_pubkey treasury_ata
     vrf_authority vrf_payer_ata round_id candidate_rank token_index =
     (if dv_status dc \<noteq> 2 then fail DegenVrfNotReady
      else and_then (settle_degen winner round_pubkey vault_pubkey config round' dc vault winner_ata treasury_pubkey treasury_ata
                       vrf_authority vrf_payer_ata round_id) (\<lambda>(amounts, r).
        Inr (amounts, r, (clear_execution amounts now dc)\<lparr>dv_status := 4,
          dv_selected_candidate_rank := candidate_rank, dv_fallback_reason := 0, dv_token_index := token_index\<rparr>)))"

definition claim_degen_fallback :: "key \<Rightarrow> key \<Rightarrow> key \<Rightarrow> 64 word \<Rightarrow> ConfigView \<Rightarrow> RoundAccount \<Rightarrow> DegenClaimView \<Rightarrow>
    TokenAccount \<Rightarrow> TokenAccount \<Rightarrow> key \<Rightarrow> TokenAccount \<Rightarrow> key option \<Rightarrow> TokenAccount option \<Rightarrow> 64 word \<Rightarrow> 8 word \<Rightarrow>
    ProgramError + (ClaimAmountsCompat \<times> RoundAccount \<times> DegenClaimView)" where
  "claim_degen_fallback winner round_pubkey vault_pubkey now config round' dc vault winner_ata treasury_pubkey treasury_ata
     vrf_authority vrf_payer_ata round_id fallback_reason =
     (if dv_status dc \<noteq> 2 then fail InvalidDegenExecutionState
      else if sint now < sint (dv_fallback_after_ts dc) then fail DegenFallbackTooEarly
      else and_then (settle_degen winner round_pubkey vault_pubkey config round' dc vault winner_ata treasury_pubkey treasury_ata
                       vrf_authority vrf_payer_ata round_id) (\<lambda>(amounts, r).
        Inr (amounts, r, (clear_execution amounts now dc)\<lparr>dv_status := 5,
          dv_selected_candidate_rank := 255, dv_fallback_reason := fallback_reason, dv_token_index := - 1\<rparr>)))"

section \<open>Configuration\<close>

record config_args =
  ca_usdc_mint :: key
  ca_treasury_usdc_ata :: key
  ca_fee_bps :: "16 word"
  ca_ticket_unit :: "64 word"
  ca_round_duration_sec :: "32 word"
  ca_min_participants :: "16 word"
  ca_min_total_tickets :: "64 word"
  ca_max_deposit_per_user :: "64 word"

definition init_config :: "key \<Rightarrow> 8 word \<Rightarrow> config_args \<Rightarrow> ProgramError + ConfigView" where
  "init_config admin bump args =
     (if 10000 < ca_fee_bps args then fail InvalidFeeBps
      else if ca_ticket_unit args = 0 then fail InvalidTicketUnit
      else if ca_round_duration_sec args = 0 then fail InvalidRoundDuration
      else Inr \<lparr>cv_admin = admin, cv_usdc_mint = ca_usdc_mint args, cv_treasury_usdc_ata = ca_treasury_usdc_ata args,
        cv_fee_bps = ca_fee_bps args, cv_ticket_unit = ca_ticket_unit args,
        cv_round_duration_sec = ca_round_duration_sec args, cv_min_participants = max 1 (ca_min_participants args),
        cv_min_total_tickets = max 1 (ca_min_total_tickets args), cv_paused = False, cv_bump = bump,
        cv_max_deposit_per_user = ca_max_deposit_per_user args, cv_reserved = replicate 24 0\<rparr>)"

record update_args =
  ua_fee_bps :: "16 word option"
  ua_ticket_unit :: "64 word option"
  ua_round_duration_sec :: "32 word option"
  ua_min_participants :: "16 word option"
  ua_min_total_tickets :: "64 word option"
  ua_paused :: "bool option"
  ua_max_deposit_per_user :: "64 word option"

definition update_config :: "key \<Rightarrow> ConfigView \<Rightarrow> update_args \<Rightarrow> ProgramError + ConfigView" where
  "update_config admin config args =
     (if cv_admin config \<noteq> admin then fail Unauthorized
      else if (case ua_fee_bps args of Some v \<Rightarrow> 10000 < v | None \<Rightarrow> False) then fail InvalidFeeBps
      else if ua_ticket_unit args = Some 0 then fail InvalidTicketUnit
      else if ua_round_duration_sec args = Some 0 then fail InvalidRoundDuration
      else Inr (config\<lparr>cv_fee_bps := (case ua_fee_bps args of Some v \<Rightarrow> v | None \<Rightarrow> cv_fee_bps config),
        cv_ticket_unit := (case ua_ticket_unit args of Some v \<Rightarrow> v | None \<Rightarrow> cv_ticket_unit config),
        cv_round_duration_sec := (case ua_round_duration_sec args of Some v \<Rightarrow> v | None \<Rightarrow> cv_round_duration_sec config),
        cv_min_participants := (case ua_min_participants args of Some v \<Rightarrow> max 1 v | None \<Rightarrow> cv_min_participants config),
        cv_min_total_tickets := (case ua_min_total_tickets args of Some v \<Rightarrow> max 1 v | None \<Rightarrow> cv_min_total_tickets config),
        cv_paused := (case ua_paused args of Some v \<Rightarrow> v | None \<Rightarrow> cv_paused config),
        cv_max_deposit_per_user :=
          (case ua_max_deposit_per_user args of Some v \<Rightarrow> v | None \<Rightarrow> cv_max_deposit_per_user config)\<rparr>))"

definition transfer_admin :: "key \<Rightarrow> ConfigView \<Rightarrow> key \<Rightarrow> ProgramError + ConfigView" where
  "transfer_admin admin config new_admin =
     (if cv_admin config \<noteq> admin then fail Unauthorized
      else if new_admin = zero_key \<or> new_admin = cv_admin config then fail InvalidAdmin
      else Inr (config\<lparr>cv_admin := new_admin\<rparr>))"

definition set_treasury_usdc_ata :: "key \<Rightarrow> ConfigView \<Rightarrow> key \<Rightarrow> TokenAccount \<Rightarrow> key \<Rightarrow> ProgramError + ConfigView" where
  "set_treasury_usdc_ata admin config new_treasury_pubkey new_treasury expected_owner =
     (if cv_admin config \<noteq> admin then fail Unauthorized
      else if tk_mint new_treasury \<noteq> cv_usdc_mint config then fail InvalidTreasury
      else if tk_owner new_treasury \<noteq> expected_owner then fail InvalidTreasury
      else if cv_treasury_usdc_ata config = new_treasury_pubkey then fail InvalidTreasury
      else Inr (config\<lparr>cv_treasury_usdc_ata := new_treasury_pubkey\<rparr>))"

definition upsert_degen_config :: "key \<Rightarrow> ConfigView \<Rightarrow> 8 word \<Rightarrow> key \<Rightarrow> 32 word \<Rightarrow> ProgramError + DegenConfigView" where
  "upsert_degen_config admin config bump executor fallback_timeout_sec =
     (if cv_admin config \<noteq> admin then fail Unauthorized
      else if executor = zero_key then fail UnauthorizedDegenExecutor
      else Inr \<lparr>dg_executor = executor,
        dg_fallback_timeout_sec = (if fallback_timeout_sec = 0 then DEFAULT_DEGEN_FALLBACK_TIMEOUT_SEC
                                   else fallback_timeout_sec),
        dg_bump = bump, dg_reserved = replicate 27 0\<rparr>)"

end
