(* ===== verification/Jackpot_Ledger.thy ===== *)
theory Jackpot_Ledger
  imports Jackpot_Degen
begin

text \<open>
  The accounts of one round and the instructions on them: every instruction of
  \<open>jackpot_pinocchio_poc/src/runtime\<close> that touches a round, with its token transfers, as a function
  from ledger to ledger. The round lives at the address \<open>rk\<close> with its vault at \<open>vk\<close>; participant
  and claim accounts are found by the key of their user, as their addresses are derived from it.
  The owner, signer and writable checks of the runtime are not repeated: an instruction names
  the signers that pass them. The token program is the parameter \<open>tp\<close>; \<open>spl_token\<close> is its documented
  behaviour.
\<close>

section \<open>The ledger\<close>

record ledger =
  lg_config :: ConfigView
  lg_degen_config :: "DegenConfigView option"
  lg_round :: "RoundAccount option"
  lg_parts :: "key \<Rightarrow> ParticipantView option"
  lg_claims :: "key \<Rightarrow> DegenClaimView option"
  lg_tokens :: "key \<Rightarrow> TokenAccount option"

type_synonym tokens = "key \<Rightarrow> TokenAccount option"
type_synonym token_program = "tokens \<Rightarrow> key \<Rightarrow> key \<Rightarrow> 64 word \<Rightarrow> tokens option"

text \<open>A transfer needs both accounts, one mint and the balance; to the same account it changes nothing.\<close>

definition spl_token :: "token_program \<Rightarrow> bool" where
  "spl_token tp \<longleftrightarrow> (\<forall>ts from to amount. tp ts from to amount =
     (case (ts from, ts to) of
        (Some a, Some b) \<Rightarrow>
          if tk_mint a \<noteq> tk_mint b \<or> tk_amount a < amount then None
          else if from = to then Some ts
          else if 2 ^ 64 \<le> uint (tk_amount b) + uint amount then None
          else Some (ts(from \<mapsto> a\<lparr>tk_amount := tk_amount a - amount\<rparr>, to \<mapsto> b\<lparr>tk_amount := tk_amount b + amount\<rparr>))
      | _ \<Rightarrow> None))"

definition transfer :: "token_program \<Rightarrow> key \<Rightarrow> key \<Rightarrow> 64 word \<Rightarrow> tokens \<Rightarrow> ProgramError + tokens" where
  "transfer tp from to amount ts =
     (case tp ts from to amount of None \<Rightarrow> Inl TokenProgramError | Some ts' \<Rightarrow> Inr ts')"

definition found :: "'a option \<Rightarrow> ('a \<Rightarrow> ProgramError + 'b) \<Rightarrow> ProgramError + 'b" where
  "found x f = (case x of None \<Rightarrow> Inl InvalidAccountData | Some y \<Rightarrow> f y)"

text \<open>\<open>transfer_claim_amounts\<close>: the VRF payer when it is given, the winner, the treasury.\<close>

definition transfer_claim_amounts :: "token_program \<Rightarrow> key \<Rightarrow> key \<Rightarrow> key \<Rightarrow> key option \<Rightarrow> ClaimAmountsCompat \<Rightarrow> tokens \<Rightarrow>
    ProgramError + tokens" where
  "transfer_claim_amounts tp vault winner_ata treasury vrf_payer_ata amounts ts =
     and_then
       (case vrf_payer_ata of
          Some k \<Rightarrow> if 0 < ca_vrf_reimburse amounts then transfer tp vault k (ca_vrf_reimburse amounts) ts else Inr ts
        | None \<Rightarrow> Inr ts) (\<lambda>ts1.
     and_then (transfer tp vault winner_ata (ca_payout amounts) ts1) (\<lambda>ts2.
     if 0 < ca_fee amounts then transfer tp vault treasury (ca_fee amounts) ts2 else Inr ts2))"

text \<open>\<open>transfer_begin_amounts\<close> and \<open>transfer_fallback_amounts\<close> require the VRF payer when there is something to repay.\<close>

definition transfer_degen_amounts :: "token_program \<Rightarrow> key \<Rightarrow> key \<Rightarrow> key \<Rightarrow> key option \<Rightarrow> ClaimAmountsCompat \<Rightarrow> tokens \<Rightarrow>
    ProgramError + tokens" where
  "transfer_degen_amounts tp vault receiver treasury vrf_payer_ata amounts ts =
     (if 0 < ca_vrf_reimburse amounts \<and> vrf_payer_ata = None then Inl InvalidAccountData
      else transfer_claim_amounts tp vault receiver treasury vrf_payer_ata amounts ts)"

section \<open>Instructions\<close>

text \<open>
  \<open>AutoClaimDegenFallback\<close> needs no signature of the winner, which it reads from the round; its key
  is the user the claim account is derived from.

  The accounts a claim names: the recipient's token account, the treasury, the VRF payer and its token account.\<close>

record claim_accounts =
  cl_receiver :: key
  cl_treasury :: key
  cl_vrf_authority :: "key option"
  cl_vrf_ata :: "key option"

datatype instr =
    is_StartRound: StartRound "8 word" "64 word" key "64 word"
  | DepositAny key key "8 word" "64 word" deposit_args
  | LockRound "64 word"
  | RequestVrf key
  | VrfCallback buffer
  | Claim key claim_accounts
  | AutoClaim claim_accounts
  | CancelRound key key
  | AdminForceCancel key
  | ClaimRefund key key
  | CloseParticipant key
  | CloseRound key "key option"
  | RequestDegenVrf key "8 word" "64 word" "64 word"
  | DegenVrfCallback key "64 word" buffer
  | BeginDegenExecution key key key claim_accounts key "64 word" begin_args
  | FinalizeDegenSuccess key key key key "64 word" "64 word"
  | ClaimDegen key claim_accounts "64 word" "64 word" "8 word" "32 word"
  | ClaimDegenFallback key claim_accounts "64 word" "64 word" "8 word"
  | AutoClaimDegenFallback key claim_accounts "64 word" "64 word" "8 word"
  | UpdateConfig key update_args
  | TransferAdmin key key
  | SetTreasury key key key
  | UpsertDegenConfig key "8 word" key "32 word"

definition degen_claim_account :: "ledger \<Rightarrow> key \<Rightarrow> DegenClaimView" where
  "degen_claim_account s k = (case lg_claims s k of None \<Rightarrow> zero_claim | Some dc \<Rightarrow> dc)"

definition optional_account :: "ledger \<Rightarrow> key option \<Rightarrow> ProgramError + TokenAccount option" where
  "optional_account s k = (case k of None \<Rightarrow> Inr None | Some a \<Rightarrow> found (lg_tokens s a) (\<lambda>t. Inr (Some t)))"

text \<open>Claims read the vault, the recipient, the treasury and the VRF payer's account, then pay.\<close>

definition with_claim_accounts :: "ledger \<Rightarrow> key \<Rightarrow> claim_accounts \<Rightarrow>
    (TokenAccount \<Rightarrow> TokenAccount \<Rightarrow> TokenAccount \<Rightarrow> TokenAccount option \<Rightarrow> ProgramError + 'a) \<Rightarrow> ProgramError + 'a" where
  "with_claim_accounts s vk cl f =
     found (lg_tokens s vk) (\<lambda>vault. found (lg_tokens s (cl_receiver cl)) (\<lambda>receiver.
     found (lg_tokens s (cl_treasury cl)) (\<lambda>treasury.
     and_then (optional_account s (cl_vrf_ata cl)) (\<lambda>vrf. f vault receiver treasury vrf))))"

definition exec_claim :: "token_program \<Rightarrow> key \<Rightarrow> key \<Rightarrow> key option \<Rightarrow> claim_accounts \<Rightarrow> ledger \<Rightarrow> ProgramError + ledger" where
  "exec_claim tp rk vk winner cl s =
     found (lg_round s) (\<lambda>r. with_claim_accounts s vk cl (\<lambda>vault receiver treasury vrf.
     and_then (case winner of
         Some w \<Rightarrow> claim w rk vk (lg_config s) r vault receiver (cl_treasury cl) treasury vrf
       | None \<Rightarrow> auto_claim rk vk (lg_config s) r vault receiver (cl_treasury cl) treasury vrf) (\<lambda>(amounts, r').
     and_then (transfer_claim_amounts tp vk (cl_receiver cl) (cl_treasury cl) (cl_vrf_ata cl) amounts (lg_tokens s)) (\<lambda>ts.
     Inr (s\<lparr>lg_round := Some r', lg_tokens := ts\<rparr>)))))"

definition exec_deposit :: "token_program \<Rightarrow> key \<Rightarrow> key \<Rightarrow> key \<Rightarrow> key \<Rightarrow> 8 word \<Rightarrow> 64 word \<Rightarrow> deposit_args \<Rightarrow> ledger \<Rightarrow>
    (ProgramError + ledger) option" where
  "exec_deposit tp rk vk user user_ata bump now args s =
     (case (lg_round s, lg_tokens s user_ata, lg_tokens s vk) of
        (Some r, Some ua, Some vault) \<Rightarrow>
          map_option (\<lambda>res. and_then res (\<lambda>(delta, r', p').
            and_then (transfer tp user_ata vk delta (lg_tokens s)) (\<lambda>ts.
            Inr (s\<lparr>lg_round := Some r', lg_parts := (lg_parts s)(user \<mapsto> p'), lg_tokens := ts\<rparr>))))
            (deposit_any user rk vk bump now (lg_config s) r (lg_parts s user) ua vault args)
      | _ \<Rightarrow> Some (Inl InvalidAccountData))"

definition exec_cancel :: "token_program \<Rightarrow> key \<Rightarrow> key \<Rightarrow> key \<Rightarrow> key \<Rightarrow> ledger \<Rightarrow> (ProgramError + ledger) option" where
  "exec_cancel tp rk vk user user_ata s =
     (case (lg_round s, lg_parts s user, lg_tokens s user_ata, lg_tokens s vk) of
        (Some r, Some p, Some ua, Some vault) \<Rightarrow>
          map_option (\<lambda>res. and_then res (\<lambda>(refund, r', p').
            and_then (transfer tp vk user_ata refund (lg_tokens s)) (\<lambda>ts.
            Inr (s\<lparr>lg_round := Some r', lg_parts := (lg_parts s)(user \<mapsto> p'), lg_tokens := ts\<rparr>))))
            (cancel_round user rk vk (lg_config s) r p vault ua)
      | _ \<Rightarrow> Some (Inl InvalidAccountData))"

definition exec_refund :: "token_program \<Rightarrow> key \<Rightarrow> key \<Rightarrow> key \<Rightarrow> key \<Rightarrow> ledger \<Rightarrow> ProgramError + ledger" where
  "exec_refund tp rk vk user user_ata s =
     found (lg_round s) (\<lambda>r. found (lg_parts s user) (\<lambda>p. found (lg_tokens s user_ata) (\<lambda>ua. found (lg_tokens s vk) (\<lambda>vault.
     and_then (claim_refund user rk vk (lg_config s) r p vault ua) (\<lambda>(refund, p').
     and_then (transfer tp vk user_ata refund (lg_tokens s)) (\<lambda>ts.
     Inr (s\<lparr>lg_parts := (lg_parts s)(user \<mapsto> p'), lg_tokens := ts\<rparr>)))))))"

text \<open>
  \<open>process_close_round\<close> sweeps the vault into the account given in the place of the treasury, if
  there is one. It takes any token account of the round for the vault. The token program closes an empty token
  account only.
\<close>

definition exec_close_round :: "token_program \<Rightarrow> key \<Rightarrow> key \<Rightarrow> key option \<Rightarrow> ledger \<Rightarrow> ProgramError + ledger" where
  "exec_close_round tp rk vault_key treasury s =
     found (lg_round s) (\<lambda>r. found (lg_tokens s vault_key) (\<lambda>vault.
     and_then (close_round rk r vault) (\<lambda>dust.
     and_then (case treasury of
         Some k \<Rightarrow> if dust = 0 then Inr (lg_tokens s) else transfer tp vault_key k dust (lg_tokens s)
       | None \<Rightarrow> Inr (lg_tokens s)) (\<lambda>ts.
     found (ts vault_key) (\<lambda>v.
     if tk_amount v \<noteq> 0 then Inl TokenProgramError
     else Inr (s\<lparr>lg_round := None, lg_tokens := ts(vault_key := None)\<rparr>))))))"

definition exec_round :: "ledger \<Rightarrow> (RoundAccount \<Rightarrow> ProgramError + RoundAccount) \<Rightarrow> ProgramError + ledger" where
  "exec_round s f = found (lg_round s) (\<lambda>r. and_then (f r) (\<lambda>r'. Inr (s\<lparr>lg_round := Some r'\<rparr>)))"

definition exec_config :: "ledger \<Rightarrow> (ConfigView \<Rightarrow> ProgramError + ConfigView) \<Rightarrow> ProgramError + ledger" where
  "exec_config s f = and_then (f (lg_config s)) (\<lambda>c. Inr (s\<lparr>lg_config := c\<rparr>))"

definition exec_start :: "key \<Rightarrow> key \<Rightarrow> 8 word \<Rightarrow> 64 word \<Rightarrow> key \<Rightarrow> 64 word \<Rightarrow> ledger \<Rightarrow> ProgramError + ledger" where
  "exec_start rk vk bump now mint round_id s =
     (let vault = (case lg_tokens s vk of Some v \<Rightarrow> v | None \<Rightarrow> \<lparr>tk_mint = mint, tk_owner = rk, tk_amount = 0\<rparr>) in
      and_then (start_round rk vk mint bump now (lg_config s) (lg_round s) vault round_id) (\<lambda>r.
      Inr (s\<lparr>lg_round := Some r, lg_tokens := (lg_tokens s)(vk \<mapsto> vault)\<rparr>)))"

section \<open>Degen instructions\<close>

definition exec_request_degen :: "key \<Rightarrow> key \<Rightarrow> 8 word \<Rightarrow> 64 word \<Rightarrow> 64 word \<Rightarrow> ledger \<Rightarrow> ProgramError + ledger" where
  "exec_request_degen rk winner bump now round_id s =
     found (lg_round s) (\<lambda>r.
     and_then (request_degen_vrf winner rk bump now r (degen_claim_account s winner) round_id) (\<lambda>(r', dc).
     Inr (s\<lparr>lg_round := Some r', lg_claims := (lg_claims s)(winner \<mapsto> dc)\<rparr>)))"

definition exec_degen_callback :: "key \<Rightarrow> key \<Rightarrow> 64 word \<Rightarrow> buffer \<Rightarrow> ledger \<Rightarrow> ProgramError + ledger" where
  "exec_degen_callback rk winner now randomness s =
     found (lg_round s) (\<lambda>r. found (lg_claims s winner) (\<lambda>dc.
     and_then (degen_vrf_callback rk now (lg_config s) r dc (lg_degen_config s) randomness) (\<lambda>(r', dc').
     Inr (s\<lparr>lg_round := Some r', lg_claims := (lg_claims s)(winner \<mapsto> dc')\<rparr>))))"

definition exec_begin :: "token_program \<Rightarrow> key \<Rightarrow> key \<Rightarrow> key \<Rightarrow> key \<Rightarrow> key \<Rightarrow> claim_accounts \<Rightarrow> key \<Rightarrow> 64 word \<Rightarrow> begin_args \<Rightarrow>
    ledger \<Rightarrow> ProgramError + ledger" where
  "exec_begin tp rk vk executor winner mint cl receiver now args s =
     found (lg_round s) (\<lambda>r. found (lg_claims s winner) (\<lambda>dc. found (lg_degen_config s) (\<lambda>g.
     found (lg_tokens s receiver) (\<lambda>receiver_ata.
     with_claim_accounts s vk cl (\<lambda>vault executor_ata treasury vrf.
     and_then (begin_degen_execution executor rk vk (cl_treasury cl) mint receiver (cl_vrf_authority cl) now (lg_config s) g r dc
                 vault executor_ata treasury receiver_ata vrf args) (\<lambda>(amounts, r', dc').
     and_then (transfer_degen_amounts tp vk (cl_receiver cl) (cl_treasury cl) (cl_vrf_ata cl) amounts (lg_tokens s)) (\<lambda>ts.
     Inr (s\<lparr>lg_round := Some r', lg_claims := (lg_claims s)(winner \<mapsto> dc'), lg_tokens := ts\<rparr>))))))))"

definition exec_finalize :: "key \<Rightarrow> key \<Rightarrow> key \<Rightarrow> key \<Rightarrow> 64 word \<Rightarrow> 64 word \<Rightarrow> ledger \<Rightarrow> ProgramError + ledger" where
  "exec_finalize executor winner executor_key receiver now round_id s =
     found (lg_round s) (\<lambda>r. found (lg_claims s winner) (\<lambda>dc. found (lg_degen_config s) (\<lambda>g.
     found (lg_tokens s executor_key) (\<lambda>executor_ata. found (lg_tokens s receiver) (\<lambda>receiver_ata.
     and_then (finalize_degen_success executor receiver now g r dc executor_ata receiver_ata round_id) (\<lambda>(r', dc').
     Inr (s\<lparr>lg_round := Some r', lg_claims := (lg_claims s)(winner \<mapsto> dc')\<rparr>)))))))"

definition exec_degen_claim :: "token_program \<Rightarrow> key \<Rightarrow> key \<Rightarrow> claim_accounts \<Rightarrow> ledger \<Rightarrow>
    (RoundAccount \<Rightarrow> DegenClaimView \<Rightarrow> TokenAccount \<Rightarrow> TokenAccount \<Rightarrow> TokenAccount \<Rightarrow> TokenAccount option \<Rightarrow>
       ProgramError + (ClaimAmountsCompat \<times> RoundAccount \<times> DegenClaimView)) \<Rightarrow> ProgramError + ledger" where
  "exec_degen_claim tp vk winner cl s handler =
     found (lg_round s) (\<lambda>r. found (lg_claims s winner) (\<lambda>dc.
     with_claim_accounts s vk cl (\<lambda>vault receiver treasury vrf.
     and_then (handler r dc vault receiver treasury vrf) (\<lambda>(amounts, r', dc').
     and_then (transfer_degen_amounts tp vk (cl_receiver cl) (cl_treasury cl) (cl_vrf_ata cl) amounts (lg_tokens s)) (\<lambda>ts.
     Inr (s\<lparr>lg_round := Some r', lg_claims := (lg_claims s)(winner \<mapsto> dc'), lg_tokens := ts\<rparr>))))))"

section \<open>Execution\<close>

fun exec :: "token_program \<Rightarrow> key \<Rightarrow> key \<Rightarrow> instr \<Rightarrow> ledger \<Rightarrow> (ProgramError + ledger) option" where
  "exec tp rk vk (StartRound bump now mint round_id) s = Some (exec_start rk vk bump now mint round_id s)"
| "exec tp rk vk (DepositAny user user_ata bump now args) s = exec_deposit tp rk vk user user_ata bump now args s"
| "exec tp rk vk (LockRound now) s = Some (exec_round s (\<lambda>r. lock_round (lg_config s) r now))"
| "exec tp rk vk (RequestVrf payer) s = Some (exec_round s (\<lambda>r. request_vrf payer (lg_config s) r))"
| "exec tp rk vk (VrfCallback randomness) s =
     (case lg_round s of
        None \<Rightarrow> Some (Inl InvalidAccountData)
      | Some r \<Rightarrow> map_option (\<lambda>res. and_then res (\<lambda>r'. Inr (s\<lparr>lg_round := Some r'\<rparr>)))
          (vrf_callback (lg_config s) r randomness))"
| "exec tp rk vk (Claim winner cl) s = Some (exec_claim tp rk vk (Some winner) cl s)"
| "exec tp rk vk (AutoClaim cl) s = Some (exec_claim tp rk vk None cl s)"
| "exec tp rk vk (CancelRound user user_ata) s = exec_cancel tp rk vk user user_ata s"
| "exec tp rk vk (AdminForceCancel admin) s = Some (exec_round s (\<lambda>r. admin_force_cancel admin (lg_config s) r))"
| "exec tp rk vk (ClaimRefund user user_ata) s = Some (exec_refund tp rk vk user user_ata s)"
| "exec tp rk vk (CloseParticipant user) s = Some (found (lg_round s) (\<lambda>r. found (lg_parts s user) (\<lambda>p.
     and_then (close_participant user rk r p) (\<lambda>_. Inr (s\<lparr>lg_parts := (lg_parts s)(user := None)\<rparr>)))))"
| "exec tp rk vk (CloseRound vault treasury) s = Some (exec_close_round tp rk vault treasury s)"
| "exec tp rk vk (RequestDegenVrf winner bump now round_id) s = Some (exec_request_degen rk winner bump now round_id s)"
| "exec tp rk vk (DegenVrfCallback winner now randomness) s = Some (exec_degen_callback rk winner now randomness s)"
| "exec tp rk vk (BeginDegenExecution executor winner mint cl receiver now args) s =
     Some (exec_begin tp rk vk executor winner mint cl receiver now args s)"
| "exec tp rk vk (FinalizeDegenSuccess executor winner executor_key receiver now round_id) s =
     Some (exec_finalize executor winner executor_key receiver now round_id s)"
| "exec tp rk vk (ClaimDegen winner cl now round_id rank index) s =
     Some (exec_degen_claim tp vk winner cl s (\<lambda>r dc vault receiver treasury vrf.
       claim_degen winner rk vk now (lg_config s) r dc vault receiver (cl_treasury cl) treasury
         (cl_vrf_authority cl) vrf round_id rank index))"
| "exec tp rk vk (ClaimDegenFallback winner cl now round_id reason) s =
     Some (exec_degen_claim tp vk winner cl s (\<lambda>r dc vault receiver treasury vrf.
       claim_degen_fallback winner rk vk now (lg_config s) r dc vault receiver (cl_treasury cl) treasury
         (cl_vrf_authority cl) vrf round_id reason))"
| "exec tp rk vk (AutoClaimDegenFallback claimant cl now round_id reason) s =
     Some (exec_degen_claim tp vk claimant cl s (\<lambda>r dc vault receiver treasury vrf.
       claim_degen_fallback (ra_winner r) rk vk now (lg_config s) r dc vault receiver (cl_treasury cl) treasury
         (cl_vrf_authority cl) vrf round_id reason))"
| "exec tp rk vk (UpdateConfig admin args) s = Some (exec_config s (\<lambda>c. update_config admin c args))"
| "exec tp rk vk (TransferAdmin admin new_admin) s = Some (exec_config s (\<lambda>c. transfer_admin admin c new_admin))"
| "exec tp rk vk (SetTreasury admin new_treasury owner) s =
     Some (found (lg_tokens s new_treasury) (\<lambda>t. exec_config s (\<lambda>c. set_treasury_usdc_ata admin c new_treasury t owner)))"
| "exec tp rk vk (UpsertDegenConfig admin bump executor timeout) s =
     Some (and_then (upsert_degen_config admin (lg_config s) bump executor timeout) (\<lambda>g. Inr (s\<lparr>lg_degen_config := Some g\<rparr>)))"

end
