(* ===== verification/Jackpot_Inv.thy ===== *)
theory Jackpot_Inv
  imports Jackpot_Ledger
begin

text \<open>
  The books of a round. From its start on, whatever instructions succeed in whatever order, the
  totals of the round are the sums over its participants, the ticket tree represents their
  tickets and the vault holds what is owed.
\<close>

section \<open>Transfers\<close>

lemma transfer_spl:
  assumes "spl_token tp" and "transfer tp from to amount ts = Inr ts'"
  obtains a b where "ts from = Some a" "ts to = Some b" "tk_mint a = tk_mint b" "amount \<le> tk_amount a"
    "from \<noteq> to \<Longrightarrow> uint (tk_amount b) + uint amount < 2 ^ 64"
    "ts' = (if from = to then ts else ts(from \<mapsto> a\<lparr>tk_amount := tk_amount a - amount\<rparr>, to \<mapsto> b\<lparr>tk_amount := tk_amount b + amount\<rparr>))"
  using assms by (auto simp: transfer_def spl_token_def not_less not_le split: option.splits if_splits)

text \<open>Money leaves an account by at most the amount; mint and owner stay.\<close>

definition funded :: "tokens \<Rightarrow> key \<Rightarrow> key \<Rightarrow> key \<Rightarrow> nat \<Rightarrow> bool" where
  "funded ts vk rk mint n \<longleftrightarrow>
     (\<exists>v. ts vk = Some v \<and> tk_owner v = rk \<and> tk_mint v = mint \<and> n \<le> unat (tk_amount v))"

lemma funded_mono: "funded ts vk rk mint n \<Longrightarrow> m \<le> n \<Longrightarrow> funded ts vk rk mint m"
  by (auto simp: funded_def)

lemma transfer_out:
  assumes "spl_token tp" and "transfer tp vk to amount ts = Inr ts'" and "funded ts vk rk mint n"
  shows "funded ts' vk rk mint (n - unat amount)"
  by (rule transfer_spl [OF assms(1,2)], insert assms(3), auto simp: funded_def word_le_nat_alt unat_sub)

lemma transfer_in:
  assumes "spl_token tp" and "transfer tp from vk amount ts = Inr ts'" and "funded ts vk rk mint n" and "from \<noteq> vk"
  shows "funded ts' vk rk mint (n + unat amount)"
proof (rule transfer_spl [OF assms(1,2)])
  fix a b
  assume b: "ts vk = Some b" and "from \<noteq> vk \<Longrightarrow> uint (tk_amount b) + uint amount < 2 ^ 64"
    and ts': "ts' = (if from = vk then ts else ts(from \<mapsto> a\<lparr>tk_amount := tk_amount a - amount\<rparr>, vk \<mapsto> b\<lparr>tk_amount := tk_amount b + amount\<rparr>))"
  then have "checked_add_u64 (tk_amount b) amount = Some (tk_amount b + amount)"
    using assms(4) by (simp add: checked_add_u64_def)
  then have "unat (tk_amount b + amount) = unat (tk_amount b) + unat amount"
    by (simp add: checked_add_Some_iff unat_add)
  with b ts' assms(3,4) show ?thesis by (auto simp: funded_def)
qed

lemma transfer_claim_funded:
  assumes "spl_token tp" and "transfer_claim_amounts tp vk w t v amounts ts = Inr ts'" and "funded ts vk rk mint n"
  shows "funded ts' vk rk mint 0"
proof -
  note out = transfer_out [OF assms(1)]
  show ?thesis
    using assms(2,3) unfolding transfer_claim_amounts_def
    by (auto simp: and_then_Inr_iff split: option.splits if_splits dest!: out intro: funded_mono)
qed

section \<open>The books\<close>

type_synonym parts = "key \<Rightarrow> ParticipantView option"

definition count :: "RoundAccount \<Rightarrow> nat" where
  "count r = unat (rl_participants_count r)"

definition usdc_of :: "parts \<Rightarrow> key \<Rightarrow> nat" where
  "usdc_of parts u = (case parts u of Some p \<Rightarrow> unat (pv_usdc_total p) | None \<Rightarrow> 0)"

definition tickets_of :: "parts \<Rightarrow> key \<Rightarrow> nat" where
  "tickets_of parts u = (case parts u of Some p \<Rightarrow> unat (pv_tickets_total p) | None \<Rightarrow> 0)"

text \<open>The tickets of the participant with index \<open>i\<close>, counted from 1.\<close>

definition tickets_at :: "RoundAccount \<Rightarrow> parts \<Rightarrow> nat \<Rightarrow> nat" where
  "tickets_at r parts i =
     (if 1 \<le> i \<and> i \<le> count r then tickets_of parts (ra_participants r ! (i - 1)) else 0)"

text \<open>The list of the round and the participant accounts name each other.\<close>

definition registered :: "key \<Rightarrow> RoundAccount \<Rightarrow> parts \<Rightarrow> bool" where
  "registered rk r parts \<longleftrightarrow> count r \<le> 200 \<and> length (ra_participants r) = 200 \<and>
     dom parts = set (take (count r) (ra_participants r)) \<and>
     (\<forall>i < count r. \<exists>p. parts (ra_participants r ! i) = Some p \<and> unat (pv_index p) = i + 1 \<and>
        pv_round p = rk \<and> pv_user p = ra_participants r ! i)"

definition books :: "key \<Rightarrow> RoundAccount \<Rightarrow> parts \<Rightarrow> bool" where
  "books rk r parts \<longleftrightarrow> registered rk r parts \<and> tree_of (ra_bit r) (tickets_at r parts) \<and>
     unat (rl_total_tickets r) = sum (tickets_at r parts) {1..200} \<and>
     unat (rl_total_usdc r) = sum (usdc_of parts) (dom parts)"

lemma registered_finite: "registered rk r parts \<Longrightarrow> finite (dom parts)"
  by (simp add: registered_def)

lemma registered_user:
  assumes "registered rk r parts" and "parts u = Some p"
  obtains i where "i < count r" "u = ra_participants r ! i" "unat (pv_index p) = i + 1" "pv_round p = rk" "pv_user p = u"
proof -
  from assms have "u \<in> set (take (count r) (ra_participants r))" unfolding registered_def by blast
  with assms(1) obtain i where "i < count r" "u = ra_participants r ! i"
    by (auto simp: in_set_conv_nth registered_def)
  with assms that show ?thesis by (fastforce simp: registered_def)
qed

lemma registered_distinct:
  assumes "registered rk r parts" and "i < count r" and "j < count r"
    and "ra_participants r ! i = ra_participants r ! j"
  shows "i = j"
proof -
  have "\<exists>p. parts (ra_participants r ! i) = Some p \<and> unat (pv_index p) = i + 1"
    and "\<exists>p. parts (ra_participants r ! j) = Some p \<and> unat (pv_index p) = j + 1"
    using assms(1-3) unfolding registered_def by blast+
  with assms(4) show ?thesis by force
qed

section \<open>Deposits\<close>

text \<open>What a successful deposit did.\<close>

lemma ok_or_Inr [simp]: "ok_or x e = Inr y \<longleftrightarrow> x = Some y"
  by (auto simp: ok_or_def split: option.splits)

lemma fail_Inr [simp]: "fail e \<noteq> Inr y" "Inr y \<noteq> fail e"
  by (simp_all add: fail_def)

definition deposited :: "64 word \<Rightarrow> 64 word \<Rightarrow> RoundAccount \<Rightarrow> ParticipantView \<Rightarrow> RoundAccount \<Rightarrow> ParticipantView \<Rightarrow> bool" where
  "deposited delta tickets r1 p1 r' p' \<longleftrightarrow>
     rl_status r' = rl_status r1 \<and> rl_participants_count r' = rl_participants_count r1 \<and>
     ra_participants r' = ra_participants r1 \<and> ra_vault r' = ra_vault r1 \<and> ra_degen_mode r' = ra_degen_mode r1 \<and>
     rl_round_id r' = rl_round_id r1 \<and>
     bit_add (ra_bit r1) (unat (pv_index p1)) tickets = Some (Inr (ra_bit r')) \<and>
     checked_add_u64 (rl_total_tickets r1) tickets = Some (rl_total_tickets r') \<and>
     checked_add_u64 (rl_total_usdc r1) delta = Some (rl_total_usdc r') \<and>
     checked_add_u64 (pv_tickets_total p1) tickets = Some (pv_tickets_total p') \<and>
     checked_add_u64 (pv_usdc_total p1) delta = Some (pv_usdc_total p') \<and>
     pv_index p' = pv_index p1 \<and> pv_round p' = pv_round p1 \<and> pv_user p' = pv_user p1"

lemma start_clock_frame:
  "start_clock now config r = Inr r' \<Longrightarrow>
     \<exists>a b. r' = r\<lparr>rl_first_deposit_ts := a, rl_end_ts := b\<rparr>"
  by (cases r) (auto simp: start_clock_def Let_def and_then_Inr_iff split: if_splits)

lemma credit_frame:
  "credit config delta tickets r p = Inr (r', p') \<Longrightarrow>
     \<exists>a b c d e. r' = r\<lparr>rl_total_tickets := a, rl_total_usdc := b\<rparr> \<and>
       p' = p\<lparr>pv_tickets_total := c, pv_usdc_total := d, pv_deposits_count := e\<rparr> \<and>
       checked_add_u64 (rl_total_tickets r) tickets = Some a \<and> checked_add_u64 (rl_total_usdc r) delta = Some b \<and>
       checked_add_u64 (pv_tickets_total p) tickets = Some c \<and> checked_add_u64 (pv_usdc_total p) delta = Some d"
  by (auto simp: credit_def and_then_Inr_iff split: if_splits)

lemma deposit_shape:
  assumes "deposit_any user rk vk bump now config r part ua vault args = Some (Inr (delta, r', p'))"
  obtains tickets r1 p1 where
    "deposit_amounts config ua (da_usdc_balance_before args) (da_min_out args) = Inr (delta, tickets)"
    "register_participant user rk bump r (read_or_init_participant part user bump) = Inr (r1, p1)"
    "deposited delta tickets r1 p1 r' p'"
    "rl_status r = ROUND_STATUS_OPEN" "ra_vault r = vk" "tk_owner ua = user"
proof -
  from assms obtain tickets r1 p1 r2 r3 bits where h:
    "deposit_amounts config ua (da_usdc_balance_before args) (da_min_out args) = Inr (delta, tickets)"
    "register_participant user rk bump r (read_or_init_participant part user bump) = Inr (r1, p1)"
    "start_clock now config r1 = Inr r2" "credit config delta tickets r2 p1 = Inr (r3, p')"
    "bit_add (ra_bit r3) (unat (pv_index p')) tickets = Some (Inr bits)" "r' = r3\<lparr>ra_bit := bits\<rparr>"
    and status: "rl_status r = ROUND_STATUS_OPEN" "ra_vault r = vk" "tk_owner ua = user"
    by (auto simp: deposit_any_def and_then_Inr_iff split: if_splits sum.splits option.splits)
  from start_clock_frame [OF h(3)] credit_frame [OF h(4)] h(5,6) have "deposited delta tickets r1 p1 r' p'"
    by (auto simp: deposited_def)
  with that h(1,2) status show ?thesis by blast
qed

lemma unat_add_uint:
  fixes a b :: "'a :: len word"
  assumes "uint a + uint b < 2 ^ LENGTH('a)"
  shows "unat (a + b) = unat a + unat b"
proof -
  have "int (unat a + unat b) < int (2 ^ LENGTH('a))"
    using assms by (simp only: of_nat_add of_nat_power of_nat_numeral uint_nat)
  then show ?thesis using unat_add_lem [of a b] by (simp only: of_nat_less_iff)
qed

lemma checked_add_u16_unat: "checked_add_u16 a b = Some c \<Longrightarrow> unat c = unat a + unat b"
  using unat_add_uint [of a b] by (simp add: checked_add_u16_def split: if_splits)

lemma take_list_update_last: "n < length xs \<Longrightarrow> take (Suc n) (xs[n := x]) = take n xs @ [x]"
  by (simp add: take_Suc_conv_app_nth)

lemma register_books:
  assumes books: "books rk r parts"
    and reg: "register_participant user rk bump r (read_or_init_participant (parts user) user bump) = Inr (r1, p1)"
    and index: "unat (pv_index p1) \<noteq> 0"
  shows "books rk r1 (parts(user \<mapsto> p1))"
    and "rl_status r1 = rl_status r" "ra_vault r1 = ra_vault r" "ra_degen_mode r1 = ra_degen_mode r" "rl_round_id r1 = rl_round_id r"
proof -
  have reg0: "registered rk r parts" using books by (simp add: books_def)
  have "books rk r1 (parts(user \<mapsto> p1)) \<and> rl_status r1 = rl_status r \<and> ra_vault r1 = ra_vault r \<and>
      ra_degen_mode r1 = ra_degen_mode r \<and> rl_round_id r1 = rl_round_id r"
  proof (cases "parts user")
    case (Some p)
    then have "pv_round p = rk" using registered_user [OF reg0] by blast
    with reg Some have "r1 = r" "p1 = p" by (simp_all add: read_or_init_participant_def register_participant_def)
    then show ?thesis using Some books by (simp add: fun_upd_idem)
  next
    case None
    let ?n = "count r" and ?p = "read_or_init_participant (parts user) user bump"
    from reg index None have "pv_round ?p \<noteq> rk"
      by (auto simp: register_participant_def read_or_init_participant_def)
    with reg obtain k where nx: "checked_add_u16 (rl_participants_count r) 1 = Some k" "unat k \<le> 200"
      and r1: "r1 = r\<lparr>rl_participants_count := k, ra_participants := (ra_participants r)[unat k - 1 := user]\<rparr>"
      and p1: "p1 = ?p\<lparr>pv_round := rk, pv_user := user, pv_index := k, pv_bump := bump,
             pv_tickets_total := 0, pv_usdc_total := 0, pv_deposits_count := 0\<rparr>"
      by (auto simp: register_participant_def and_then_Inr_iff split: if_splits)
    have k: "unat k = Suc ?n" using checked_add_u16_unat [OF nx(1)] by (simp add: count_def)
    have len: "?n < length (ra_participants r)" using reg0 nx(2) k by (simp add: registered_def)
    have count1: "count r1 = Suc ?n" by (simp add: count_def r1 k)
    have list1: "ra_participants r1 = (ra_participants r)[?n := user]" by (simp add: r1 k)
    have notin: "user \<notin> set (take ?n (ra_participants r))" using reg0 None unfolding registered_def by (metis domIff)
    have other: "ra_participants r ! i \<noteq> user" if "i < ?n" for i
    proof -
      have "take ?n (ra_participants r) ! i \<in> set (take ?n (ra_participants r))" using that len by (intro nth_mem) simp
      with notin that show ?thesis by auto
    qed
    have reg1: "registered rk r1 (parts(user \<mapsto> p1))"
      using reg0 len nx(2) k other
      by (auto simp: registered_def count1 list1 take_list_update_last p1 less_Suc_eq nth_list_update)
    have "tickets_at r1 (parts(user \<mapsto> p1)) = tickets_at r parts"
      using other len None by (auto simp: fun_eq_iff tickets_at_def tickets_of_def count1 list1 p1 nth_list_update le_Suc_eq)
    moreover have "sum (usdc_of (parts(user \<mapsto> p1))) (dom (parts(user \<mapsto> p1))) = sum (usdc_of parts) (dom parts)"
    proof -
      have "sum (usdc_of (parts(user \<mapsto> p1))) (dom parts) = sum (usdc_of parts) (dom parts)"
        using None by (intro sum.cong) (auto simp: usdc_of_def)
      then show ?thesis using registered_finite [OF reg0] None by (simp add: usdc_of_def p1 domIff)
    qed
    ultimately show ?thesis using books reg1 by (simp add: books_def r1)
  qed
  then show "books rk r1 (parts(user \<mapsto> p1))"
    and "rl_status r1 = rl_status r" "ra_vault r1 = ra_vault r" "ra_degen_mode r1 = ra_degen_mode r" "rl_round_id r1 = rl_round_id r"
    by blast+
qed

lemma checked_add_unat: "checked_add_u64 a b = Some c \<Longrightarrow> unat c = unat a + unat b"
  by (simp add: checked_add_Some_iff unat_add)

lemma tickets_at_upd:
  assumes "registered rk r parts" and "i < count r"
  shows "tickets_at r (parts(ra_participants r ! i \<mapsto> p)) = (tickets_at r parts)(i + 1 := unat (pv_tickets_total p))"
proof (rule ext)
  fix j
  show "tickets_at r (parts(ra_participants r ! i \<mapsto> p)) j = ((tickets_at r parts)(i + 1 := unat (pv_tickets_total p))) j"
    using registered_distinct [OF assms, of "j - 1"] assms(2)
    by (auto simp: tickets_at_def tickets_of_def)
qed

lemma usdc_of_upd: "usdc_of (parts(u \<mapsto> p)) = (usdc_of parts)(u := unat (pv_usdc_total p))"
  by (auto simp: usdc_of_def)

lemma registered_upd:
  assumes "registered rk r parts" and "parts u = Some p"
    and "pv_index p' = pv_index p" "pv_round p' = pv_round p" "pv_user p' = pv_user p"
  shows "registered rk r (parts(u \<mapsto> p'))"
proof -
  have "u \<in> dom parts" using assms(2) by blast
  then have "dom (parts(u \<mapsto> p')) = dom parts" by (simp add: insert_absorb)
  with assms show ?thesis unfolding registered_def by (auto split: if_splits)
qed

lemma registered_cong:
  "rl_participants_count r' = rl_participants_count r \<Longrightarrow> ra_participants r' = ra_participants r \<Longrightarrow>
     registered rk r' parts = registered rk r parts"
  by (simp add: registered_def count_def)

lemma tickets_at_cong:
  "rl_participants_count r' = rl_participants_count r \<Longrightarrow> ra_participants r' = ra_participants r \<Longrightarrow>
     tickets_at r' parts = tickets_at r parts"
  by (simp add: tickets_at_def count_def fun_eq_iff)

lemma deposited_books:
  assumes books: "books rk r parts" and user: "parts user = Some p" and dep: "deposited delta tickets r p r' p'"
  shows "books rk r' (parts(user \<mapsto> p'))"
proof -
  have reg: "registered rk r parts" using books by (simp add: books_def)
  obtain i where i: "i < count r" "user = ra_participants r ! i" "unat (pv_index p) = i + 1"
    using registered_user [OF reg user] .
  let ?f = "tickets_at r parts"
  have sums: "unat (rl_total_tickets r') = unat (rl_total_tickets r) + unat tickets"
    "unat (rl_total_usdc r') = unat (rl_total_usdc r) + unat delta"
    "unat (pv_tickets_total p') = unat (pv_tickets_total p) + unat tickets"
    "unat (pv_usdc_total p') = unat (pv_usdc_total p) + unat delta"
    using dep by (simp_all add: deposited_def checked_add_unat)
  have range: "i + 1 \<in> {1..200}" using i(1) reg by (simp add: registered_def)
  have fi: "?f (i + 1) = unat (pv_tickets_total p)" using i user by (simp add: tickets_at_def tickets_of_def)
  have "unat (rl_total_tickets r) + unat tickets < 2 ^ 64"
    using dep by (simp add: deposited_def checked_add_Some_iff)
  then have "sum ?f {1..200} + unat tickets < 2 ^ 64" using books by (simp add: books_def)
  from tree.rep_add [OF _ range this, of "ra_bit r"] books i(3) dep
  have tree: "tree_of (ra_bit r') (?f(i + 1 := ?f (i + 1) + unat tickets))"
    by (auto simp: deposited_def books_def)
  have tickets: "tickets_at r' (parts(user \<mapsto> p')) = ?f(i + 1 := ?f (i + 1) + unat tickets)"
    using tickets_at_upd [OF reg i(1), of p'] tickets_at_cong [of r' r] i(2) dep fi
    by (simp add: deposited_def sums)
  have "registered rk r' (parts(user \<mapsto> p'))"
    using registered_upd [OF reg user, of p'] registered_cong [of r' r] dep by (simp add: deposited_def)
  moreover have "unat (rl_total_tickets r') = sum (tickets_at r' (parts(user \<mapsto> p'))) {1..200}"
    using books dep range member_sum [of "{1..200}" "i + 1" ?f]
    by (simp add: tickets sum_fun_upd books_def deposited_def sums del: fun_upd_apply)
  moreover have "unat (rl_total_usdc r') = sum (usdc_of (parts(user \<mapsto> p'))) (dom (parts(user \<mapsto> p')))"
  proof -
    have "usdc_of parts user = unat (pv_usdc_total p)" "user \<in> dom parts" using user by (auto simp: usdc_of_def)
    with books dep registered_finite [OF reg] member_sum [of "dom parts" user "usdc_of parts"] show ?thesis
      by (simp add: usdc_of_upd sum_fun_upd books_def deposited_def sums insert_absorb del: fun_upd_apply)
  qed
  ultimately show ?thesis using tree tickets by (simp add: books_def)
qed

lemma deposit_books:
  assumes "books rk r parts" and "deposit_any user rk vk bump now config r (parts user) ua vault args = Some (Inr (delta, r', p'))"
  shows "books rk r' (parts(user \<mapsto> p')) \<and> rl_status r' = rl_status r \<and> ra_vault r' = ra_vault r \<and>
    ra_degen_mode r' = ra_degen_mode r \<and> unat (rl_total_usdc r') = unat (rl_total_usdc r) + unat delta"
proof -
  obtain tickets r1 p1 where
    "deposit_amounts config ua (da_usdc_balance_before args) (da_min_out args) = Inr (delta, tickets)"
    and h: "register_participant user rk bump r (read_or_init_participant (parts user) user bump) = Inr (r1, p1)"
    "deposited delta tickets r1 p1 r' p'"
    by (rule deposit_shape [OF assms(2)])
  from h(2) have index: "unat (pv_index p1) \<noteq> 0" by (auto simp: deposited_def bit_add_def split: if_splits)
  note reg = register_books [OF assms(1) h(1) index]
  have "rl_total_usdc r1 = rl_total_usdc r"
    using h(1) by (auto simp: register_participant_def and_then_Inr_iff split: if_splits)
  with deposited_books [OF reg(1) _ h(2), where user = user] reg(2,3,4) h(2) show ?thesis
    by (simp add: deposited_def checked_add_unat [of _ delta])
qed

section \<open>The invariant\<close>

text \<open>The bounds that \<^const>\<open>init_config\<close> establishes.\<close>

definition config_ok :: "ConfigView \<Rightarrow> bool" where
  "config_ok c \<longleftrightarrow> cv_fee_bps c \<le> 10000 \<and> cv_ticket_unit c \<noteq> 0 \<and> 1 \<le> cv_min_participants c \<and> 1 \<le> cv_min_total_tickets c"

definition live :: "RoundAccount \<Rightarrow> bool" where
  "live r \<longleftrightarrow> rl_status r \<in> {ROUND_STATUS_OPEN, ROUND_STATUS_LOCKED, ROUND_STATUS_VRF_REQUESTED, ROUND_STATUS_SETTLED}"

text \<open>A degen execution has taken the pot out of the vault.\<close>

definition executing :: "RoundAccount \<Rightarrow> bool" where
  "executing r \<longleftrightarrow> rl_status r = ROUND_STATUS_SETTLED \<and> ra_degen_mode r = DEGEN_MODE_EXECUTING"

text \<open>What the vault owes: the pot, or what cancelled participants have not taken back yet.\<close>

definition owed :: "RoundAccount \<Rightarrow> parts \<Rightarrow> nat" where
  "owed r parts =
     (if executing r \<or> rl_status r = ROUND_STATUS_CLAIMED then 0
      else if rl_status r = ROUND_STATUS_CANCELLED then sum (usdc_of parts) (dom parts)
      else unat (rl_total_usdc r))"

definition parts_ok :: "key \<Rightarrow> parts \<Rightarrow> bool" where
  "parts_ok rk parts \<longleftrightarrow> finite (dom parts) \<and> (\<forall>u p. parts u = Some p \<longrightarrow> pv_round p = rk \<and> pv_user p = u)"

text \<open>The winner of a settled round holds a ticket.\<close>

definition winner_ok :: "RoundAccount \<Rightarrow> parts \<Rightarrow> bool" where
  "winner_ok r parts \<longleftrightarrow> (rl_status r = ROUND_STATUS_SETTLED \<longrightarrow> 0 < tickets_of parts (ra_winner r))"

definition round_ok :: "key \<Rightarrow> key \<Rightarrow> RoundAccount \<Rightarrow> parts \<Rightarrow> bool" where
  "round_ok rk vk r parts \<longleftrightarrow> ra_vault r = vk \<and> parts_ok rk parts \<and>
     (live r \<or> rl_status r = ROUND_STATUS_CLAIMED \<or> rl_status r = ROUND_STATUS_CANCELLED) \<and>
     (live r \<longrightarrow> books rk r parts) \<and> winner_ok r parts \<and>
     (live r \<and> rl_status r \<noteq> ROUND_STATUS_SETTLED \<longrightarrow> ra_degen_mode r = DEGEN_MODE_NONE)"

definition sound :: "key \<Rightarrow> key \<Rightarrow> ledger \<Rightarrow> bool" where
  "sound rk vk s \<longleftrightarrow> config_ok (lg_config s) \<and>
     (case lg_round s of
        None \<Rightarrow> True
      | Some r \<Rightarrow> round_ok rk vk r (lg_parts s) \<and>
          funded (lg_tokens s) vk rk (cv_usdc_mint (lg_config s)) (owed r (lg_parts s)))"

lemma soundI:
  "config_ok (lg_config s) \<Longrightarrow> lg_round s = Some r \<Longrightarrow> round_ok rk vk r (lg_parts s) \<Longrightarrow>
     funded (lg_tokens s) vk rk (cv_usdc_mint (lg_config s)) (owed r (lg_parts s)) \<Longrightarrow> sound rk vk s"
  by (simp add: sound_def)

lemma soundD:
  assumes "sound rk vk s" and "lg_round s = Some r"
  shows "config_ok (lg_config s)" "round_ok rk vk r (lg_parts s)"
    "funded (lg_tokens s) vk rk (cv_usdc_mint (lg_config s)) (owed r (lg_parts s))"
  using assms by (simp_all add: sound_def)

lemma books_parts_ok: "books rk r parts \<Longrightarrow> parts_ok rk parts"
proof -
  assume "books rk r parts"
  then have reg: "registered rk r parts" by (simp add: books_def)
  have "pv_round p = rk \<and> pv_user p = u" if "parts u = Some p" for u p
    by (rule registered_user [OF reg that]) simp
  with registered_finite [OF reg] show "parts_ok rk parts" by (simp add: parts_ok_def)
qed

lemma books_cong:
  "rl_participants_count r' = rl_participants_count r \<Longrightarrow> ra_participants r' = ra_participants r \<Longrightarrow>
   ra_bit r' = ra_bit r \<Longrightarrow> rl_total_tickets r' = rl_total_tickets r \<Longrightarrow> rl_total_usdc r' = rl_total_usdc r \<Longrightarrow>
     books rk r' parts = books rk r parts"
  using registered_cong [of r' r rk parts] tickets_at_cong [of r' r parts] by (simp add: books_def)

subsection \<open>Instruction by instruction\<close>

lemma found_Inr: "found x f = Inr y \<longleftrightarrow> (\<exists>z. x = Some z \<and> f z = Inr y)"
  by (simp add: found_def split: option.splits)

lemma deposit_sound:
  assumes "spl_token tp" and "sound rk vk s" and "user \<noteq> rk"
    and "exec_deposit tp rk vk user user_ata bump now args s = Some (Inr s')"
  shows "sound rk vk s'"
proof -
  from assms(4) obtain r ua vault delta r' p' ts where r: "lg_round s = Some r" and ua: "lg_tokens s user_ata = Some ua"
    and dep: "deposit_any user rk vk bump now (lg_config s) r (lg_parts s user) ua vault args = Some (Inr (delta, r', p'))"
    and tr: "transfer tp user_ata vk delta (lg_tokens s) = Inr ts"
    and s': "s' = s\<lparr>lg_round := Some r', lg_parts := (lg_parts s)(user \<mapsto> p'), lg_tokens := ts\<rparr>"
    by (auto simp: exec_deposit_def and_then_Inr_iff split: option.splits)
  note inv = soundD [OF assms(2) r]
  have status: "rl_status r = ROUND_STATUS_OPEN" and owner: "tk_owner ua = user"
    by (rule deposit_shape [OF dep], assumption)+
  then have books: "books rk r (lg_parts s)" using inv(2) by (simp add: round_ok_def live_def)
  note dep' = deposit_books [OF books dep]
  have "user_ata \<noteq> vk" using inv(3) ua owner assms(3) by (auto simp: funded_def)
  from transfer_in [OF assms(1) tr inv(3) this] dep' status
  have "funded ts vk rk (cv_usdc_mint (lg_config s)) (owed r' ((lg_parts s)(user \<mapsto> p')))"
    by (simp add: owed_def executing_def)
  moreover have "round_ok rk vk r' ((lg_parts s)(user \<mapsto> p'))"
    using dep' inv(2) status books_parts_ok [of rk r' "(lg_parts s)(user \<mapsto> p')"] by (simp add: round_ok_def live_def winner_ok_def)
  ultimately show ?thesis using inv(1) by (intro soundI [of _ r']) (simp_all add: s')
qed

lemma cancel_shape:
  assumes "cancel_round user rk vk config r p vault ua = Some (Inr (refund, r', p'))"
  shows "rl_status r = ROUND_STATUS_OPEN" "refund = pv_usdc_total p" "rl_total_usdc r = refund"
    "rl_status r' = ROUND_STATUS_CANCELLED" "ra_vault r' = ra_vault r"
    "p' = p\<lparr>pv_usdc_total := 0, pv_tickets_total := 0\<rparr>"
proof -
  have zero: "checked_sub_u64 a a = Some 0" for a by (simp add: checked_sub_u64_def)
  from assms obtain bits b where "rl_status r = ROUND_STATUS_OPEN \<and> rl_total_usdc r = pv_usdc_total p \<and> refund = pv_usdc_total p \<and>
    r' = r\<lparr>ra_bit := bits, rl_total_usdc := 0, rl_total_tickets := b, rl_status := ROUND_STATUS_CANCELLED\<rparr> \<and>
    p' = p\<lparr>pv_usdc_total := 0, pv_tickets_total := 0\<rparr>"
    unfolding cancel_round_def Let_def
    by (simp add: and_then_Inr_iff zero split: if_split_asm option.split_asm sum.split_asm) blast
  then show "rl_status r = ROUND_STATUS_OPEN" "refund = pv_usdc_total p" "rl_total_usdc r = refund"
    "rl_status r' = ROUND_STATUS_CANCELLED" "ra_vault r' = ra_vault r"
    "p' = p\<lparr>pv_usdc_total := 0, pv_tickets_total := 0\<rparr>" by simp_all
qed

lemma parts_ok_upd:
  "parts_ok rk parts \<Longrightarrow> parts u = Some p \<Longrightarrow> pv_round p' = pv_round p \<Longrightarrow> pv_user p' = pv_user p \<Longrightarrow>
     parts_ok rk (parts(u \<mapsto> p'))"
  by (auto simp: parts_ok_def)

lemma usdc_sum_upd:
  assumes "parts_ok rk parts" and "parts u = Some p"
  shows "sum (usdc_of (parts(u \<mapsto> p'))) (dom (parts(u \<mapsto> p'))) =
    sum (usdc_of parts) (dom parts) - unat (pv_usdc_total p) + unat (pv_usdc_total p')"
proof -
  have "u \<in> dom parts" "usdc_of parts u = unat (pv_usdc_total p)" using assms(2) by (auto simp: usdc_of_def)
  then show ?thesis using assms(1) by (simp add: usdc_of_upd sum_fun_upd parts_ok_def insert_absorb del: fun_upd_apply)
qed

lemma cancel_sound:
  assumes "spl_token tp" and "sound rk vk s" and "exec_cancel tp rk vk user user_ata s = Some (Inr s')"
  shows "sound rk vk s'"
proof -
  from assms(3) obtain r p ua vault refund r' p' ts where r: "lg_round s = Some r" and p: "lg_parts s user = Some p"
    and can: "cancel_round user rk vk (lg_config s) r p vault ua = Some (Inr (refund, r', p'))"
    and tr: "transfer tp vk user_ata refund (lg_tokens s) = Inr ts"
    and s': "s' = s\<lparr>lg_round := Some r', lg_parts := (lg_parts s)(user \<mapsto> p'), lg_tokens := ts\<rparr>"
    by (auto simp: exec_cancel_def and_then_Inr_iff split: option.splits)
  note inv = soundD [OF assms(2) r] and shape = cancel_shape [OF can]
  have ok: "parts_ok rk (lg_parts s)" and "books rk r (lg_parts s)"
    using inv(2) shape(1) by (simp_all add: round_ok_def live_def)
  then have "owed r' ((lg_parts s)(user \<mapsto> p')) = 0"
    using usdc_sum_upd [OF ok p, of p'] shape by (simp add: owed_def executing_def books_def)
  then have "funded ts vk rk (cv_usdc_mint (lg_config s)) (owed r' ((lg_parts s)(user \<mapsto> p')))"
    using funded_mono [OF transfer_out [OF assms(1) tr inv(3)]] by simp
  moreover have "round_ok rk vk r' ((lg_parts s)(user \<mapsto> p'))"
    using inv(2) shape parts_ok_upd [OF ok p, of p'] by (simp add: round_ok_def live_def winner_ok_def)
  ultimately show ?thesis using inv(1) by (intro soundI [of _ r']) (simp_all add: s')
qed

lemma refund_sound:
  assumes "spl_token tp" and "sound rk vk s" and "exec_refund tp rk vk user user_ata s = Inr s'"
  shows "sound rk vk s'"
proof -
  from assms(3) obtain r p ua vault refund p' ts where r: "lg_round s = Some r" and p: "lg_parts s user = Some p"
    and ref: "claim_refund user rk vk (lg_config s) r p vault ua = Inr (refund, p')"
    and tr: "transfer tp vk user_ata refund (lg_tokens s) = Inr ts"
    and s': "s' = s\<lparr>lg_parts := (lg_parts s)(user \<mapsto> p'), lg_tokens := ts\<rparr>"
    by (auto simp: exec_refund_def and_then_Inr_iff found_Inr)
  note inv = soundD [OF assms(2) r]
  from ref have shape: "rl_status r = ROUND_STATUS_CANCELLED" "refund = pv_usdc_total p"
    "p' = p\<lparr>pv_usdc_total := 0, pv_tickets_total := 0\<rparr>"
    by (auto simp: claim_refund_def split: if_splits)
  have ok: "parts_ok rk (lg_parts s)" using inv(2) by (simp add: round_ok_def)
  have "funded ts vk rk (cv_usdc_mint (lg_config s)) (owed r ((lg_parts s)(user \<mapsto> p')))"
    using transfer_out [OF assms(1) tr inv(3)] usdc_sum_upd [OF ok p, of p'] shape
    by (simp add: owed_def executing_def)
  moreover have "round_ok rk vk r ((lg_parts s)(user \<mapsto> p'))"
    using inv(2) shape parts_ok_upd [OF ok p, of p'] by (simp add: round_ok_def live_def winner_ok_def)
  ultimately show ?thesis using inv(1) r by (intro soundI [of _ r]) (simp_all add: s')
qed

lemma close_participant_sound:
  assumes "sound rk vk s" and "lg_round s = Some r" and "lg_parts s user = Some p" and "close_participant user rk r p = Inr ()"
  shows "sound rk vk (s\<lparr>lg_parts := (lg_parts s)(user := None)\<rparr>)"
proof -
  let ?parts = "(lg_parts s)(user := None)"
  note inv = soundD [OF assms(1,2)]
  have ok: "parts_ok rk (lg_parts s)" using inv(2) by (simp add: round_ok_def)
  from assms(4) have status: "rl_status r = ROUND_STATUS_CLAIMED \<or> rl_status r = ROUND_STATUS_CANCELLED \<and> pv_usdc_total p = 0"
    by (auto simp: close_participant_def closeable_def split: if_splits)
  have "sum (usdc_of ?parts) (dom ?parts) \<le> sum (usdc_of (lg_parts s)) (dom (lg_parts s))"
  proof -
    have "sum (usdc_of ?parts) (dom ?parts) = sum (usdc_of (lg_parts s)) (dom ?parts)"
      by (intro sum.cong) (auto simp: usdc_of_def)
    also have "\<dots> \<le> sum (usdc_of (lg_parts s)) (dom (lg_parts s))"
      using ok by (intro sum_mono2) (auto simp: parts_ok_def)
    finally show ?thesis .
  qed
  then have "owed r ?parts \<le> owed r (lg_parts s)" by (simp add: owed_def)
  moreover have "round_ok rk vk r ?parts"
    using inv(2) status ok by (auto simp: round_ok_def live_def winner_ok_def parts_ok_def)
  ultimately show ?thesis
    using inv(1,3) assms(2) by (intro soundI [of _ r]) (auto intro: funded_mono)
qed

text \<open>A round that has been claimed owes nothing any more.\<close>

lemma claimed_sound:
  assumes "sound rk vk s" and "lg_round s = Some r" and "rl_status r' = ROUND_STATUS_CLAIMED" "ra_vault r' = ra_vault r"
    and "funded ts vk rk (cv_usdc_mint (lg_config s)) 0"
  shows "sound rk vk (s\<lparr>lg_round := Some r', lg_claims := cs, lg_tokens := ts\<rparr>)"
  using soundD [OF assms(1,2)] assms(3-5)
  by (intro soundI [of _ r']) (simp_all add: round_ok_def live_def winner_ok_def owed_def)

lemma settle_claim_shape:
  "settle_claim w rk vk config r vault wa tk ta va = Inr (amounts, r') \<Longrightarrow>
     rl_status r' = ROUND_STATUS_CLAIMED \<and> ra_vault r' = ra_vault r"
  by (auto simp: settle_claim_def Let_def and_then_Inr_iff split: if_splits)

lemma claim_sound:
  assumes "spl_token tp" and "sound rk vk s" and "exec_claim tp rk vk w cl s = Inr s'"
  shows "sound rk vk s'"
proof -
  from assms(3) obtain r amounts r' ts where r: "lg_round s = Some r"
    and shape: "rl_status r' = ROUND_STATUS_CLAIMED \<and> ra_vault r' = ra_vault r"
    and tr: "transfer_claim_amounts tp vk (cl_receiver cl) (cl_treasury cl) (cl_vrf_ata cl) amounts (lg_tokens s) = Inr ts"
    and s': "s' = s\<lparr>lg_round := Some r', lg_tokens := ts\<rparr>"
    by (auto simp: exec_claim_def and_then_Inr_iff found_Inr with_claim_accounts_def claim_def auto_claim_def
        split: option.splits if_splits dest!: settle_claim_shape)
  have "s' = s\<lparr>lg_round := Some r', lg_claims := lg_claims s, lg_tokens := ts\<rparr>" by (simp add: s')
  with claimed_sound [OF assms(2) r, of r' ts "lg_claims s"] shape
    transfer_claim_funded [OF assms(1) tr soundD(3) [OF assms(2) r]]
  show ?thesis by (simp only: simp_thms)
qed

lemma degen_funded:
  assumes "spl_token tp" and "transfer_degen_amounts tp vk w t v amounts ts = Inr ts'" and "funded ts vk rk mint n"
  shows "funded ts' vk rk mint 0"
  using assms(2) transfer_claim_funded [OF assms(1) _ assms(3)] by (auto simp: transfer_degen_amounts_def split: if_splits)

lemma mark_reimbursed_simps [simp]:
  "rl_status (mark_reimbursed a r) = rl_status r" "ra_vault (mark_reimbursed a r) = ra_vault r"
  "ra_degen_mode (mark_reimbursed a r) = ra_degen_mode r" "ra_bit (mark_reimbursed a r) = ra_bit r"
  "rl_participants_count (mark_reimbursed a r) = rl_participants_count r"
  "ra_participants (mark_reimbursed a r) = ra_participants r" "ra_winner (mark_reimbursed a r) = ra_winner r"
  "rl_total_tickets (mark_reimbursed a r) = rl_total_tickets r" "rl_total_usdc (mark_reimbursed a r) = rl_total_usdc r"
  by (simp_all add: mark_reimbursed_def)

lemma settle_degen_shape:
  "settle_degen w rk vk config r dc vault wa tk ta va vb rid = Inr (amounts, r') \<Longrightarrow>
     rl_status r' = ROUND_STATUS_CLAIMED \<and> ra_vault r' = ra_vault r"
  by (auto simp: settle_degen_def and_then_Inr_iff split: if_splits)

lemma degen_claim_sound:
  assumes "spl_token tp" and "sound rk vk s" and "exec_degen_claim tp vk winner cl s handler = Inr s'"
    and handler: "\<And>r dc v a t f x. handler r dc v a t f = Inr x \<Longrightarrow>
      rl_status (fst (snd x)) = ROUND_STATUS_CLAIMED \<and> ra_vault (fst (snd x)) = ra_vault r"
  shows "sound rk vk s'"
proof -
  from assms(3) obtain r amounts r' dc' ts where r: "lg_round s = Some r"
    and shape: "rl_status r' = ROUND_STATUS_CLAIMED \<and> ra_vault r' = ra_vault r"
    and tr: "transfer_degen_amounts tp vk (cl_receiver cl) (cl_treasury cl) (cl_vrf_ata cl) amounts (lg_tokens s) = Inr ts"
    and s': "s' = s\<lparr>lg_round := Some r', lg_claims := (lg_claims s)(winner \<mapsto> dc'), lg_tokens := ts\<rparr>"
    by (fastforce simp: exec_degen_claim_def and_then_Inr_iff found_Inr with_claim_accounts_def dest!: handler)
  with claimed_sound [OF assms(2) r] degen_funded [OF assms(1) tr soundD(3) [OF assms(2) r]]
  show ?thesis by simp
qed

end
