(* ===== verification/Jackpot_Reach.thy ===== *)
theory Jackpot_Reach
  imports Jackpot_Inv
begin

text \<open>
  The reachable ledgers: whatever any sequence of successful instructions and token movements outside
  the program lead to. The program lets the address of a closed round be used again while participant
  accounts of the old round are left; \<open>reach\<close> includes these ledgers and tells them apart. The invariant
  of \<open>Jackpot_Inv\<close> holds in the others.
\<close>

section \<open>Instructions on the round alone\<close>

text \<open>Steps that touch neither the books nor the money.\<close>

definition same_books :: "RoundAccount \<Rightarrow> RoundAccount \<Rightarrow> bool" where
  "same_books r r' \<longleftrightarrow> rl_participants_count r' = rl_participants_count r \<and> ra_participants r' = ra_participants r \<and>
     ra_bit r' = ra_bit r \<and> rl_total_tickets r' = rl_total_tickets r \<and> rl_total_usdc r' = rl_total_usdc r \<and>
     ra_vault r' = ra_vault r"

lemma same_books_sound:
  assumes "sound rk vk s" and "lg_round s = Some r" and "live r" "same_books r r'" "live r'"
    and "rl_status r' = ROUND_STATUS_SETTLED \<Longrightarrow> 0 < tickets_of (lg_parts s) (ra_winner r')"
    and "rl_status r' \<noteq> ROUND_STATUS_SETTLED \<Longrightarrow> ra_degen_mode r' = DEGEN_MODE_NONE"
    and "owed r' (lg_parts s) \<le> owed r (lg_parts s)"
  shows "sound rk vk (s\<lparr>lg_round := Some r', lg_claims := cs\<rparr>)"
proof -
  note inv = soundD [OF assms(1,2)]
  have "books rk r' (lg_parts s)"
    using inv(2) assms(3,4) books_cong [of r' r rk "lg_parts s"] by (simp add: round_ok_def same_books_def)
  then have "round_ok rk vk r' (lg_parts s)"
    using inv(2) assms(4-7) by (simp add: round_ok_def winner_ok_def same_books_def)
  with inv(1,3) assms(8) show ?thesis by (intro soundI [of _ r']) (auto intro: funded_mono)
qed

lemma exec_round_Inr:
  "exec_round s f = Inr s' \<longleftrightarrow> (\<exists>r r'. lg_round s = Some r \<and> f r = Inr r' \<and> s' = s\<lparr>lg_round := Some r', lg_claims := lg_claims s\<rparr>)"
  by (auto simp: exec_round_def found_Inr and_then_Inr_iff)

lemma live_mode: "sound rk vk s \<Longrightarrow> lg_round s = Some r \<Longrightarrow> live r \<Longrightarrow> rl_status r \<noteq> ROUND_STATUS_SETTLED \<Longrightarrow>
    ra_degen_mode r = DEGEN_MODE_NONE"
  using soundD(2) by (simp add: round_ok_def)

lemma lock_sound:
  assumes "sound rk vk s" and "exec_round s (\<lambda>r. lock_round (lg_config s) r now) = Inr s'"
  shows "sound rk vk s'"
proof -
  from assms(2) obtain r where r: "lg_round s = Some r" "rl_status r = ROUND_STATUS_OPEN"
    and s': "s' = s\<lparr>lg_round := Some (r\<lparr>rl_status := ROUND_STATUS_LOCKED\<rparr>), lg_claims := lg_claims s\<rparr>"
    by (auto simp: exec_round_Inr lock_round_def split: if_splits)
  then show ?thesis unfolding s' using live_mode [OF assms(1) r(1)]
    by (intro same_books_sound [OF assms(1) r(1)]) (simp_all add: live_def same_books_def owed_def executing_def)
qed

lemma request_vrf_sound:
  assumes "sound rk vk s" and "exec_round s (\<lambda>r. request_vrf payer (lg_config s) r) = Inr s'"
  shows "sound rk vk s'"
proof -
  from assms(2) obtain r where r: "lg_round s = Some r" "rl_status r = ROUND_STATUS_LOCKED"
    and s': "s' = s\<lparr>lg_round := Some (r\<lparr>rl_status := ROUND_STATUS_VRF_REQUESTED, ra_vrf_payer := payer\<rparr>), lg_claims := lg_claims s\<rparr>"
    by (auto simp: exec_round_Inr request_vrf_def split: if_splits)
  then show ?thesis unfolding s' using live_mode [OF assms(1) r(1)]
    by (intro same_books_sound [OF assms(1) r(1)]) (simp_all add: live_def same_books_def owed_def executing_def)
qed

lemma force_cancel_sound:
  assumes "sound rk vk s" and "exec_round s (\<lambda>r. admin_force_cancel admin (lg_config s) r) = Inr s'"
  shows "sound rk vk s'"
proof -
  from assms(2) obtain r where r: "lg_round s = Some r"
    and status: "rl_status r \<in> {ROUND_STATUS_OPEN, ROUND_STATUS_LOCKED, ROUND_STATUS_VRF_REQUESTED}"
    and s': "s' = s\<lparr>lg_round := Some (r\<lparr>rl_status := ROUND_STATUS_CANCELLED\<rparr>), lg_claims := lg_claims s\<rparr>"
    by (auto simp: exec_round_Inr admin_force_cancel_def split: if_splits)
  note inv = soundD [OF assms(1) r]
  have books: "books rk r (lg_parts s)" using inv(2) status by (auto simp: round_ok_def live_def)
  then have "owed (r\<lparr>rl_status := ROUND_STATUS_CANCELLED\<rparr>) (lg_parts s) = owed r (lg_parts s)"
    using status by (auto simp: owed_def executing_def books_def)
  with inv show ?thesis
    by (intro soundI [of _ "r\<lparr>rl_status := ROUND_STATUS_CANCELLED\<rparr>"])
      (simp_all add: s' round_ok_def live_def winner_ok_def)
qed

section \<open>The draw\<close>

lemma draw_ticket_range:
  assumes "draw_ticket randomness total_tickets = Some k"
  shows "0 < k \<and> k \<le> total_tickets"
proof -
  let ?n = "le_uint (take 16 randomness) mod uint total_tickets"
  from assms have "total_tickets \<noteq> 0" and k: "k = of_int ?n + 1" by (auto simp: draw_ticket_def split: if_splits)
  then have "0 < uint total_tickets" using uint_0_iff uint_ge_0 by (metis order_le_less)
  then have n: "0 \<le> ?n" "?n < uint total_tickets" by simp_all
  have "uint total_tickets < 2 ^ 64" using uint_lt2p [of total_tickets] by simp
  moreover with n have "uint (word_of_int ?n :: 64 word) = ?n" by (simp add: uint_word_of_int)
  ultimately have "uint k = ?n + 1" using n unfolding k by (simp add: uint_word_ariths)
  with n show ?thesis by (simp add: word_less_def word_le_def)
qed

lemma draw_ticket_total: "draw_ticket randomness total_tickets = None \<longleftrightarrow> total_tickets = 0"
  by (simp add: draw_ticket_def)

text \<open>Every draw of a sound round settles it, on the participant that owns the ticket.\<close>

lemma books_total: "books rk r parts \<Longrightarrow> sum (tickets_at r parts) {1..200} < 2 ^ 64"
proof -
  assume "books rk r parts"
  then have "unat (rl_total_tickets r) = sum (tickets_at r parts) {1..200}" by (simp add: books_def)
  moreover have "unat (rl_total_tickets r) < 2 ^ LENGTH(64)" by (rule unsigned_less)
  ultimately show ?thesis by simp
qed

lemma tickets_at_owner:
  assumes "0 < tickets_at r parts i"
  shows "i \<in> {1..count r} \<and> tickets_at r parts i = tickets_of parts (ra_participants r ! (i - 1))"
  using assms by (auto simp: tickets_at_def split: if_splits)

lemma vrf_callback_settles:
  assumes "books rk r parts" and "rl_status r = ROUND_STATUS_VRF_REQUESTED" and "1 \<le> cv_min_total_tickets config"
    and "cv_min_participants config \<le> rl_participants_count r" "cv_min_total_tickets config \<le> rl_total_tickets r"
  obtains k i where "draw_ticket randomness (rl_total_tickets r) = Some k" "bit_find_prefix (ra_bit r) k = Some (Inr i)"
    "i \<in> {1..count r}" "0 < tickets_at r parts i"
    "vrf_callback config r randomness = Some (Inr (r\<lparr>ra_randomness := randomness, ra_winning_ticket := k,
       ra_winner := ra_participants r ! (i - 1), rl_status := ROUND_STATUS_SETTLED\<rparr>))"
proof -
  have "1 \<le> rl_total_tickets r" using assms(3,5) by (rule order_trans)
  then have "rl_total_tickets r \<noteq> 0" by auto
  then obtain k where k: "draw_ticket randomness (rl_total_tickets r) = Some k"
    using draw_ticket_total [of randomness "rl_total_tickets r"] by fastforce
  note range = draw_ticket_range [OF k]
  have tree: "tree_of (ra_bit r) (tickets_at r parts)" using assms(1) by (simp add: books_def)
  have "unat k \<le> sum (tickets_at r parts) {1..200}"
    using assms(1) range by (simp add: books_def word_le_nat_alt)
  with range obtain i where i: "bit_find_prefix (ra_bit r) k = Some (Inr i)" "i \<in> {1..200}" "0 < tickets_at r parts i"
    using tree.find_owner [OF tree books_total [OF assms(1)]] by blast
  show ?thesis
  proof (rule that [OF k i(1) _ i(3)])
    show "i \<in> {1..count r}" using tickets_at_owner [OF i(3)] by blast
    show "vrf_callback config r randomness = Some (Inr (r\<lparr>ra_randomness := randomness, ra_winning_ticket := k,
       ra_winner := ra_participants r ! (i - 1), rl_status := ROUND_STATUS_SETTLED\<rparr>))"
      using assms(2,4,5) k i by (auto simp: vrf_callback_def)
  qed
qed

lemma vrf_callback_sound:
  assumes "sound rk vk s" and "exec tp rk vk (VrfCallback randomness) s = Some (Inr s')"
  shows "sound rk vk s'"
proof -
  from assms(2) obtain r r' where r: "lg_round s = Some r" and cb: "vrf_callback (lg_config s) r randomness = Some (Inr r')"
    and s': "s' = s\<lparr>lg_round := Some r', lg_claims := lg_claims s\<rparr>"
    by (auto simp: and_then_Inr_iff split: option.splits)
  note inv = soundD [OF assms(1) r]
  from cb have pre: "rl_status r = ROUND_STATUS_VRF_REQUESTED" "cv_min_participants (lg_config s) \<le> rl_participants_count r"
    "cv_min_total_tickets (lg_config s) \<le> rl_total_tickets r"
    by (auto simp: vrf_callback_def not_less split: if_splits)
  have books: "books rk r (lg_parts s)" using inv(2) pre(1) by (simp add: round_ok_def live_def)
  have min: "1 \<le> cv_min_total_tickets (lg_config s)" using inv(1) by (simp add: config_ok_def)
  obtain k i where i: "0 < tickets_at r (lg_parts s) i" and "vrf_callback (lg_config s) r randomness = Some (Inr (r\<lparr>ra_randomness := randomness,
       ra_winning_ticket := k, ra_winner := ra_participants r ! (i - 1), rl_status := ROUND_STATUS_SETTLED\<rparr>))"
    by (rule vrf_callback_settles [OF books pre(1) min pre(2,3)])
  with cb have r': "r' = r\<lparr>ra_randomness := randomness, ra_winning_ticket := k,
      ra_winner := ra_participants r ! (i - 1), rl_status := ROUND_STATUS_SETTLED\<rparr>" by simp
  have "ra_degen_mode r = DEGEN_MODE_NONE" using live_mode [OF assms(1) r] pre(1) by (simp add: live_def)
  with pre(1) tickets_at_owner [OF i] i show ?thesis unfolding s' r'
    by (intro same_books_sound [OF assms(1) r]) (simp_all add: live_def same_books_def owed_def executing_def)
qed

section \<open>Degen claims\<close>

lemma settled_sound:
  assumes "sound rk vk s" and "lg_round s = Some r" and "rl_status r = ROUND_STATUS_SETTLED"
    and "ra_degen_mode r \<noteq> DEGEN_MODE_EXECUTING"
  shows "sound rk vk (s\<lparr>lg_round := Some (r\<lparr>ra_degen_mode := m\<rparr>), lg_claims := cs\<rparr>)"
  using soundD(2) [OF assms(1,2)] assms(3,4)
  by (intro same_books_sound [OF assms(1,2)])
    (simp_all add: live_def same_books_def owed_def executing_def round_ok_def winner_ok_def)

lemma request_degen_sound:
  assumes "sound rk vk s" and "exec_request_degen rk winner bump now round_id s = Inr s'"
  shows "sound rk vk s'"
proof -
  from assms(2) obtain r cs where r: "lg_round s = Some r" "rl_status r = ROUND_STATUS_SETTLED" "ra_degen_mode r \<noteq> DEGEN_MODE_EXECUTING"
    and s': "s' = s\<lparr>lg_round := Some (r\<lparr>ra_degen_mode := DEGEN_MODE_VRF_REQUESTED\<rparr>), lg_claims := cs\<rparr>"
    by (auto simp: exec_request_degen_def found_Inr and_then_Inr_iff request_degen_vrf_def split: if_splits)
  show ?thesis unfolding s' by (rule settled_sound [OF assms(1) r])
qed

lemma degen_callback_sound:
  assumes "sound rk vk s" and "exec_degen_callback rk winner now randomness s = Inr s'"
  shows "sound rk vk s'"
proof -
  from assms(2) obtain r cs where r: "lg_round s = Some r" "rl_status r = ROUND_STATUS_SETTLED" "ra_degen_mode r \<noteq> DEGEN_MODE_EXECUTING"
    and s': "s' = s\<lparr>lg_round := Some (r\<lparr>ra_degen_mode := DEGEN_MODE_VRF_READY\<rparr>), lg_claims := cs\<rparr>"
    by (auto simp: exec_degen_callback_def found_Inr and_then_Inr_iff degen_vrf_callback_def Let_def split: if_splits)
  show ?thesis unfolding s' by (rule settled_sound [OF assms(1) r])
qed

lemma begin_shape:
  "begin_degen_execution e rk vk tk m rc va now config g r dc v ea ta ra vr args = Inr (amounts, r', dc') \<Longrightarrow>
     rl_status r = ROUND_STATUS_SETTLED \<and> r' = mark_reimbursed amounts (r\<lparr>ra_degen_mode := DEGEN_MODE_EXECUTING\<rparr>)"
  by (auto simp: begin_degen_execution_def and_then_Inr_iff split: if_splits)

lemma begin_sound:
  assumes "spl_token tp" and "sound rk vk s" and "exec_begin tp rk vk executor winner mint cl receiver now args s = Inr s'"
  shows "sound rk vk s'"
proof -
  from assms(3) obtain r amounts r' dc' ts where r: "lg_round s = Some r"
    and shape: "rl_status r = ROUND_STATUS_SETTLED \<and> r' = mark_reimbursed amounts (r\<lparr>ra_degen_mode := DEGEN_MODE_EXECUTING\<rparr>)"
    and tr: "transfer_degen_amounts tp vk (cl_receiver cl) (cl_treasury cl) (cl_vrf_ata cl) amounts (lg_tokens s) = Inr ts"
    and s': "s' = s\<lparr>lg_round := Some r', lg_claims := (lg_claims s)(winner \<mapsto> dc'), lg_tokens := ts\<rparr>"
    by (fastforce simp: exec_begin_def and_then_Inr_iff found_Inr with_claim_accounts_def dest!: begin_shape)
  note inv = soundD [OF assms(2) r]
  have "books rk r' (lg_parts s)"
    using inv(2) shape books_cong [of r' r rk "lg_parts s"] by (simp add: round_ok_def live_def)
  then have "round_ok rk vk r' (lg_parts s)" using inv(2) shape by (simp add: round_ok_def live_def winner_ok_def)
  moreover have "owed r' (lg_parts s) = 0" using shape by (simp add: owed_def executing_def)
  ultimately show ?thesis using inv(1) degen_funded [OF assms(1) tr inv(3)] by (intro soundI [of _ r']) (simp_all add: s')
qed

lemma finalize_sound:
  assumes "sound rk vk s" and "exec_finalize executor winner ek receiver now round_id s = Inr s'"
  shows "sound rk vk s'"
proof -
  from assms(2) obtain r cs where r: "lg_round s = Some r"
    and s': "s' = s\<lparr>lg_round := Some (r\<lparr>rl_status := ROUND_STATUS_CLAIMED, ra_degen_mode := DEGEN_MODE_CLAIMED\<rparr>), lg_claims := cs,
        lg_tokens := lg_tokens s\<rparr>"
    by (auto simp: exec_finalize_def found_Inr and_then_Inr_iff finalize_degen_success_def split: if_splits)
  show ?thesis unfolding s' using funded_mono [OF soundD(3) [OF assms(1) r], of 0]
    by (intro claimed_sound [OF assms(1) r]) simp_all
qed

section \<open>Configuration, start and close\<close>

lemma config_sound:
  assumes "sound rk vk s" and "exec_config s f = Inr s'"
    and "\<And>c. config_ok (lg_config s) \<Longrightarrow> f (lg_config s) = Inr c \<Longrightarrow> config_ok c \<and> cv_usdc_mint c = cv_usdc_mint (lg_config s)"
  shows "sound rk vk s'"
  using assms by (auto simp: exec_config_def and_then_Inr_iff sound_def split: option.splits)

lemma update_config_ok:
  assumes "config_ok c" and "update_config admin c args = Inr c'"
  shows "config_ok c' \<and> cv_usdc_mint c' = cv_usdc_mint c"
proof -
  from assms(2) have guard: "\<not> (case ua_fee_bps args of Some v \<Rightarrow> 10000 < v | None \<Rightarrow> False)" "ua_ticket_unit args \<noteq> Some 0"
    unfolding update_config_def by (simp_all split: if_split_asm)
  from assms(2) have c': "cv_fee_bps c' = (case ua_fee_bps args of Some v \<Rightarrow> v | None \<Rightarrow> cv_fee_bps c)"
    "cv_ticket_unit c' = (case ua_ticket_unit args of Some v \<Rightarrow> v | None \<Rightarrow> cv_ticket_unit c)"
    "cv_min_participants c' = (case ua_min_participants args of Some v \<Rightarrow> max 1 v | None \<Rightarrow> cv_min_participants c)"
    "cv_min_total_tickets c' = (case ua_min_total_tickets args of Some v \<Rightarrow> max 1 v | None \<Rightarrow> cv_min_total_tickets c)"
    "cv_usdc_mint c' = cv_usdc_mint c"
    unfolding update_config_def by (auto split: if_split_asm)
  have "cv_fee_bps c' \<le> 10000" using guard(1) assms(1) by (simp add: c' config_ok_def not_less split: option.splits)
  moreover have "cv_ticket_unit c' \<noteq> 0" using guard(2) assms(1) by (auto simp: c' config_ok_def split: option.splits)
  moreover have "1 \<le> cv_min_participants c'" "1 \<le> cv_min_total_tickets c'"
    using assms(1) by (simp_all add: c' config_ok_def split: option.splits)
  ultimately show ?thesis by (simp add: config_ok_def c'(5))
qed

lemma config_admin_ok:
  "config_ok c \<Longrightarrow> transfer_admin admin c k = Inr c' \<Longrightarrow> config_ok c' \<and> cv_usdc_mint c' = cv_usdc_mint c"
  "config_ok c \<Longrightarrow> set_treasury_usdc_ata admin c k t ow = Inr c' \<Longrightarrow> config_ok c' \<and> cv_usdc_mint c' = cv_usdc_mint c"
  by (auto simp: transfer_admin_def set_treasury_usdc_ata_def config_ok_def split: if_splits)

lemma init_config_ok: "init_config admin bump args = Inr c \<Longrightarrow> config_ok c"
  by (auto simp: init_config_def config_ok_def not_less split: if_splits)

lemma zero_books:
  assumes "ra_participants r = replicate 200 zero_key" "ra_bit r = replicate 201 0" "rl_participants_count r = 0"
    "rl_total_tickets r = 0" "rl_total_usdc r = 0"
  shows "books rk r (\<lambda>_. None)"
proof -
  have "tickets_at r (\<lambda>_. None) = (\<lambda>_. 0)" by (simp add: fun_eq_iff tickets_at_def tickets_of_def)
  with assms tree_empty show ?thesis by (simp add: books_def registered_def count_def)
qed

lemma start_sound:
  assumes "config_ok (lg_config s)" and "lg_parts s = (\<lambda>_. None)" and "exec_start rk vk bump now mint round_id s = Inr s'"
  shows "sound rk vk s'"
proof -
  let ?r = "zero_round\<lparr>rl_round_id := round_id, rl_status := ROUND_STATUS_OPEN, rl_bump := bump, rl_start_ts := now, ra_vault := vk\<rparr>"
  define v where "v = (case lg_tokens s vk of Some v \<Rightarrow> v | None \<Rightarrow> \<lparr>tk_mint = mint, tk_owner = rk, tk_amount = 0\<rparr>)"
  from assms(3) have v: "tk_mint v = cv_usdc_mint (lg_config s)" "tk_owner v = rk"
    and s': "s' = s\<lparr>lg_round := Some ?r, lg_tokens := (lg_tokens s)(vk \<mapsto> v)\<rparr>"
    unfolding exec_start_def v_def [symmetric] Let_def by (auto simp: and_then_Inr_iff start_round_def split: if_splits)
  have "books rk ?r (lg_parts s)" unfolding assms(2) by (rule zero_books) (simp_all add: zero_round_def)
  then have "round_ok rk vk ?r (lg_parts s)" using books_parts_ok [of rk ?r "lg_parts s"]
    by (simp add: round_ok_def live_def winner_ok_def zero_round_def)
  with assms(1) v show ?thesis
    by (intro soundI [of _ ?r]) (simp_all add: s' funded_def owed_def executing_def zero_round_def)
qed

lemma close_round_sound:
  "sound rk vk s \<Longrightarrow> exec_close_round tp rk vault treasury s = Inr s' \<Longrightarrow> sound rk vk s'"
  by (auto simp: exec_close_round_def found_Inr and_then_Inr_iff sound_def split: if_splits option.splits)

section \<open>Reachable ledgers\<close>

text \<open>
  The address of the round is derived by the program and signs for nothing else, so it is never
  the user of a deposit.
\<close>

fun signable :: "key \<Rightarrow> instr \<Rightarrow> bool" where
  "signable rk (DepositAny user user_ata bump now args) \<longleftrightarrow> user \<noteq> rk"
| "signable rk _ \<longleftrightarrow> True"

text \<open>
  How the present round began: \<open>Clean\<close>, when no participant account of an earlier round with the same address was
  left, or \<open>Reused\<close>. The program does not tell the two apart. What happened before the present round makes no
  difference.
\<close>

datatype life = Clean | Reused

fun life_after :: "instr \<Rightarrow> ledger \<Rightarrow> life \<Rightarrow> life" where
  "life_after (StartRound bump now mint round_id) s k = (if \<forall>u. lg_parts s u = None then Clean else Reused)"
| "life_after _ s k = k"

text \<open>What others may do to token accounts: anything but taking from the vault, which only the program signs for.\<close>

definition outside :: "key \<Rightarrow> tokens \<Rightarrow> tokens \<Rightarrow> bool" where
  "outside vk ts ts' \<longleftrightarrow>
     (\<forall>v. ts vk = Some v \<longrightarrow> (\<exists>v'. ts' vk = Some v' \<and> tk_mint v' = tk_mint v \<and> tk_owner v' = tk_owner v \<and> tk_amount v \<le> tk_amount v'))"

inductive reach :: "token_program \<Rightarrow> key \<Rightarrow> key \<Rightarrow> life \<Rightarrow> ledger \<Rightarrow> bool" for tp rk vk where
  fresh: "init_config admin bump args = Inr (lg_config s) \<Longrightarrow> lg_round s = None \<Longrightarrow> reach tp rk vk Clean s"
| step: "reach tp rk vk k s \<Longrightarrow> signable rk i \<Longrightarrow> exec tp rk vk i s = Some (Inr s') \<Longrightarrow> reach tp rk vk (life_after i s k) s'"
| move: "reach tp rk vk k s \<Longrightarrow> outside vk (lg_tokens s) ts \<Longrightarrow> reach tp rk vk k (s\<lparr>lg_tokens := ts\<rparr>)"

lemma degen_handlers_shape:
  "claim_degen w rk vk now c r dc v a tk t vb f rid rank idx = Inr x \<Longrightarrow>
     rl_status (fst (snd x)) = ROUND_STATUS_CLAIMED \<and> ra_vault (fst (snd x)) = ra_vault r"
  "claim_degen_fallback w rk vk now c r dc v a tk t vb f rid reason = Inr x \<Longrightarrow>
     rl_status (fst (snd x)) = ROUND_STATUS_CLAIMED \<and> ra_vault (fst (snd x)) = ra_vault r"
  by (auto simp: claim_degen_def claim_degen_fallback_def and_then_Inr_iff split: if_splits dest!: settle_degen_shape)

lemma close_participant_exec_sound:
  "sound rk vk s \<Longrightarrow> exec tp rk vk (CloseParticipant user) s = Some (Inr s') \<Longrightarrow> sound rk vk s'"
  by (auto simp: found_Inr and_then_Inr_iff intro: close_participant_sound)

lemma settings_sound:
  assumes "sound rk vk s"
  shows "exec tp rk vk (UpdateConfig admin args) s = Some (Inr s') \<Longrightarrow> sound rk vk s'"
    and "exec tp rk vk (TransferAdmin admin k) s = Some (Inr s') \<Longrightarrow> sound rk vk s'"
    and "exec tp rk vk (SetTreasury admin k ow) s = Some (Inr s') \<Longrightarrow> sound rk vk s'"
    and "exec tp rk vk (UpsertDegenConfig admin bump k timeout) s = Some (Inr s') \<Longrightarrow> sound rk vk s'"
proof -
  show "sound rk vk s'" if "exec tp rk vk (UpdateConfig admin args) s = Some (Inr s')"
    by (rule config_sound [OF assms]) (use that in \<open>auto dest: update_config_ok\<close>)
  show "sound rk vk s'" if "exec tp rk vk (TransferAdmin admin k) s = Some (Inr s')"
    by (rule config_sound [OF assms]) (use that in \<open>auto dest: config_admin_ok\<close>)
  show "sound rk vk s'" if "exec tp rk vk (SetTreasury admin k ow) s = Some (Inr s')"
  proof -
    from that obtain t where "exec_config s (\<lambda>c. set_treasury_usdc_ata admin c k t ow) = Inr s'" by (auto simp: found_Inr)
    then show ?thesis by (rule config_sound [OF assms]) (rule config_admin_ok)
  qed
  show "sound rk vk s'" if "exec tp rk vk (UpsertDegenConfig admin bump k timeout) s = Some (Inr s')"
    using that assms by (auto simp: and_then_Inr_iff sound_def split: option.splits)
qed

text \<open>The settings stay valid, whatever the state of the round is.\<close>

lemma exec_config_ok:
  assumes "exec tp rk vk i s = Some (Inr s')" and "config_ok (lg_config s)"
  shows "config_ok (lg_config s')"
proof (cases i)
  case (UpdateConfig admin args)
  with assms show ?thesis by (auto simp: exec_config_def and_then_Inr_iff dest: update_config_ok)
next
  case (TransferAdmin admin k)
  with assms show ?thesis by (auto simp: exec_config_def and_then_Inr_iff dest: config_admin_ok)
next
  case (SetTreasury admin k ow)
  with assms show ?thesis by (auto simp: found_Inr exec_config_def and_then_Inr_iff dest: config_admin_ok)
qed (use assms in \<open>auto simp: exec_start_def exec_deposit_def exec_round_def exec_claim_def exec_cancel_def exec_refund_def
    exec_close_round_def exec_request_degen_def exec_degen_callback_def exec_begin_def exec_finalize_def exec_degen_claim_def
    with_claim_accounts_def found_Inr and_then_Inr_iff Let_def split: if_splits option.splits\<close>)

lemma exec_sound:
  assumes tp: "spl_token tp" and sound: "sound rk vk s" and "signable rk i" "\<not> is_StartRound i"
    and ex: "exec tp rk vk i s = Some (Inr s')"
  shows "sound rk vk s'"
proof (cases i)
  case (ClaimDegen winner cl now round_id rank index)
  then show ?thesis using ex degen_claim_sound [OF tp sound] degen_handlers_shape(1) by simp
next
  case (ClaimDegenFallback winner cl now round_id reason)
  then show ?thesis using ex degen_claim_sound [OF tp sound] degen_handlers_shape(2) by simp
next
  case (AutoClaimDegenFallback claimant cl now round_id reason)
  then show ?thesis using ex degen_claim_sound [OF tp sound] degen_handlers_shape(2) by simp
qed (use ex assms(3,4) deposit_sound [OF tp sound] lock_sound [OF sound] request_vrf_sound [OF sound]
    vrf_callback_sound [OF sound] claim_sound [OF tp sound] cancel_sound [OF tp sound] force_cancel_sound [OF sound]
    refund_sound [OF tp sound] close_participant_exec_sound [OF sound] close_round_sound [OF sound]
    request_degen_sound [OF sound] degen_callback_sound [OF sound] begin_sound [OF tp sound] finalize_sound [OF sound]
    settings_sound [OF sound] in \<open>simp; fail\<close>)+

lemma move_sound:
  assumes "sound rk vk s" and "outside vk (lg_tokens s) ts"
  shows "sound rk vk (s\<lparr>lg_tokens := ts\<rparr>)"
  using assms by (fastforce simp: sound_def outside_def funded_def word_le_nat_alt split: option.splits)

lemma reach_sound:
  assumes "spl_token tp" and "reach tp rk vk Clean s"
  shows "sound rk vk s"
proof -
  have "config_ok (lg_config s) \<and> (k = Clean \<longrightarrow> sound rk vk s)" if "reach tp rk vk k s" for k
    using that
  proof induction
    case (fresh admin bump args s)
    then show ?case by (simp add: sound_def init_config_ok)
  next
    case (step k s i s')
    then have ok: "config_ok (lg_config s')" using exec_config_ok by blast
    show ?case
    proof (cases "is_StartRound i")
      case True
      then obtain bump now mint round_id where i: "i = StartRound bump now mint round_id" by (cases i) simp_all
      have "sound rk vk s'" if "\<forall>u. lg_parts s u = None"
      proof -
        from that have "lg_parts s = (\<lambda>_. None)" by (simp add: fun_eq_iff)
        with step i show ?thesis by (auto intro: start_sound)
      qed
      with ok i show ?thesis by auto
    next
      case False
      then have "life_after i s k = k" by (cases i) simp_all
      with step ok exec_sound [OF assms(1) _ step.hyps(2) False step.hyps(3)] show ?thesis by simp
    qed
  next
    case (move k s ts)
    then show ?case by (auto intro: move_sound)
  qed
  with assms(2) show ?thesis by blast
qed

end
