(* ===== verification/Jackpot_Demo.thy ===== *)
theory Jackpot_Demo
  imports Jackpot_Reach
begin

text \<open>
  A round played through: two users deposit, the round is locked and drawn. The witnesses of the
  properties of the program are its ledgers.
\<close>

section \<open>A token program\<close>

definition spl_transfer :: token_program where
  "spl_transfer ts from to amount =
     (case (ts from, ts to) of
        (Some a, Some b) \<Rightarrow>
          if tk_mint a \<noteq> tk_mint b \<or> tk_amount a < amount then None
          else if from = to then Some ts
          else if 2 ^ 64 \<le> uint (tk_amount b) + uint amount then None
          else Some (ts(from \<mapsto> a\<lparr>tk_amount := tk_amount a - amount\<rparr>, to \<mapsto> b\<lparr>tk_amount := tk_amount b + amount\<rparr>))
      | _ \<Rightarrow> None)"

lemma spl_transfer: "spl_token spl_transfer"
  by (simp add: spl_token_def spl_transfer_def)

section \<open>Sequences of instructions\<close>

fun run :: "token_program \<Rightarrow> key \<Rightarrow> key \<Rightarrow> instr list \<Rightarrow> ledger \<Rightarrow> ledger option" where
  "run tp rk vk [] s = Some s"
| "run tp rk vk (i # is) s =
     (case exec tp rk vk i s of Some (Inr s') \<Rightarrow> run tp rk vk is s' | _ \<Rightarrow> None)"

definition round_key :: key where "round_key = [100]"
definition vault_key :: key where "vault_key = [101]"

definition demo_config :: ConfigView where
  "demo_config = \<lparr>cv_admin = [9], cv_usdc_mint = [1], cv_treasury_usdc_ata = [8], cv_fee_bps = 25, cv_ticket_unit = 10000,
     cv_round_duration_sec = 60, cv_min_participants = 2, cv_min_total_tickets = 2, cv_paused = False, cv_bump = 255,
     cv_max_deposit_per_user = 0, cv_reserved = replicate 24 0\<rparr>"

definition demo_start :: ledger where
  "demo_start = \<lparr>lg_config = demo_config, lg_degen_config = None, lg_round = None, lg_parts = (\<lambda>_. None), lg_claims = (\<lambda>_. None),
     lg_tokens = [[8] \<mapsto> \<lparr>tk_mint = [1], tk_owner = [7], tk_amount = 0\<rparr>,
       [11] \<mapsto> \<lparr>tk_mint = [1], tk_owner = [10], tk_amount = 5000000\<rparr>,
       [21] \<mapsto> \<lparr>tk_mint = [1], tk_owner = [20], tk_amount = 3000000\<rparr>]\<rparr>"

text \<open>Apart from starting a round, sequences of instructions stay among the reachable ledgers.\<close>

fun later :: "key \<Rightarrow> instr \<Rightarrow> bool" where
  "later rk (StartRound bump now mint round_id) \<longleftrightarrow> False"
| "later rk (DepositAny user user_ata bump now args) \<longleftrightarrow> user \<noteq> rk"
| "later rk _ \<longleftrightarrow> True"

lemma later_step: "later rk i \<Longrightarrow> signable rk i \<and> life_after i s k = k"
  by (cases i) simp_all

lemma run_reach:
  "reach tp rk vk k s \<Longrightarrow> list_all (later rk) is \<Longrightarrow> run tp rk vk is s = Some s' \<Longrightarrow> reach tp rk vk k s'"
proof (induction "is" arbitrary: s)
  case (Cons i "is")
  then obtain s1 where "exec tp rk vk i s = Some (Inr s1)" "run tp rk vk is s1 = Some s'"
    by (auto split: option.splits sum.splits)
  with Cons reach.step [OF Cons.prems(1), of i s1] later_step [of rk i s k] show ?case by auto
qed simp

definition played :: "instr list \<Rightarrow> ledger" where
  "played is = the (run spl_transfer round_key vault_key (StartRound 255 1000 [1] 7 # is) demo_start)"

lemma demo_init: "\<exists>args. init_config [9] 255 args = Inr demo_config"
proof
  show "init_config [9] 255 \<lparr>ca_usdc_mint = [1], ca_treasury_usdc_ata = [8], ca_fee_bps = 25, ca_ticket_unit = 10000,
      ca_round_duration_sec = 60, ca_min_participants = 2, ca_min_total_tickets = 2, ca_max_deposit_per_user = 0\<rparr> = Inr demo_config"
    by code_simp
qed

lemma played_reach:
  assumes "list_all (later round_key) is"
    and "run spl_transfer round_key vault_key (StartRound 255 1000 [1] 7 # is) demo_start \<noteq> None"
  shows "reach spl_transfer round_key vault_key Clean (played is)"
proof -
  let ?i = "StartRound 255 1000 [1] 7"
  from assms(2) obtain s where s: "exec spl_transfer round_key vault_key ?i demo_start = Some (Inr s)"
    "run spl_transfer round_key vault_key is s = Some (played is)"
    by (auto simp: played_def split: option.splits sum.splits)
  have "reach spl_transfer round_key vault_key Clean demo_start"
    using demo_init by (auto simp: demo_start_def intro: reach.fresh)
  from reach.step [OF this _ s(1)] have "reach spl_transfer round_key vault_key Clean s" by (simp add: demo_start_def)
  then show ?thesis using assms(1) s(2) by (rule run_reach)
qed

text \<open>The deposits of the two users, and the round up to the draw.\<close>

definition demo_deposits :: "instr list" where
  "demo_deposits =
     [DepositAny [10] [11] 254 1010 \<lparr>da_round_id = 7, da_usdc_balance_before = 3000000, da_min_out = 2000000\<rparr>,
      DepositAny [20] [21] 253 1020 \<lparr>da_round_id = 7, da_usdc_balance_before = 0, da_min_out = 3000000\<rparr>]"

definition demo_locked :: "instr list" where
  "demo_locked = demo_deposits @ [LockRound 2000, RequestVrf [30]]"

definition demo_drawn :: "instr list" where
  "demo_drawn = demo_locked @ [VrfCallback (replicate 32 1)]"

lemma demo_run:
  "run spl_transfer round_key vault_key (StartRound 255 1000 [1] 7 # demo_drawn @ [Claim [20] \<lparr>cl_receiver = [21], cl_treasury = [8],
     cl_vrf_authority = None, cl_vrf_ata = None\<rparr>]) demo_start \<noteq> None"
  by code_simp

end
