(* ===== verification/Jackpot_Props.thy ===== *)
theory Jackpot_Props
  imports Jackpot_Demo
begin

text \<open>
  What the on-chain program promises of a round: its books, the draw, the payments, and where
  they end.
\<close>

section \<open>The books\<close>

lemma books_list:
  assumes "books rk r parts"
  shows "dom parts = (\<lambda>i. ra_participants r ! (i - 1)) ` {1..count r}"
    and "inj_on (\<lambda>i. ra_participants r ! (i - 1)) {1..count r}" and "count r \<le> 200"
proof -
  have reg: "registered rk r parts" using assms by (simp add: books_def)
  show "dom parts = (\<lambda>i. ra_participants r ! (i - 1)) ` {1..count r}"
  proof (intro set_eqI iffI)
    fix u assume "u \<in> dom parts"
    then obtain p where "parts u = Some p" by blast
    from registered_user [OF reg this] obtain i where "i < count r" "u = ra_participants r ! i" .
    then show "u \<in> (\<lambda>i. ra_participants r ! (i - 1)) ` {1..count r}" by (intro image_eqI [of _ _ "Suc i"]) simp_all
  next
    fix u assume "u \<in> (\<lambda>i. ra_participants r ! (i - 1)) ` {1..count r}"
    then obtain j where j: "1 \<le> j" "j \<le> count r" "u = ra_participants r ! (j - 1)" by auto
    define i where "i = j - 1"
    with j have "i < count r" "u = ra_participants r ! i" by auto
    then show "u \<in> dom parts" using reg unfolding registered_def by blast
  qed
  show "inj_on (\<lambda>i. ra_participants r ! (i - 1)) {1..count r}"
  proof (intro inj_onI)
    fix i j assume "i \<in> {1..count r}" "j \<in> {1..count r}" "ra_participants r ! (i - 1) = ra_participants r ! (j - 1)"
    moreover from this have "i - 1 = j - 1" by (intro registered_distinct [OF reg]) auto
    ultimately show "i = j" by auto
  qed
  show "count r \<le> 200" using reg by (simp add: registered_def)
qed

lemma books_tickets:
  assumes "books rk r parts"
  shows "unat (rl_total_tickets r) = sum (tickets_of parts) (dom parts)"
proof -
  note list = books_list [OF assms]
  have "unat (rl_total_tickets r) = sum (tickets_at r parts) {1..200}" using assms by (simp add: books_def)
  also have "\<dots> = sum (tickets_at r parts) {1..count r}"
    using list(3) by (intro sum.mono_neutral_right) (auto simp: tickets_at_def)
  also have "\<dots> = sum (tickets_of parts) (dom parts)"
    unfolding list(1) sum.reindex [OF list(2)] by (intro sum.cong) (auto simp: tickets_at_def)
  finally show ?thesis .
qed

lemma reach_books:
  assumes "spl_token tp" and "reach tp rk vk Clean s" and "lg_round s = Some r"
  shows "live r \<Longrightarrow> books rk r (lg_parts s)"
    and "rl_status r \<noteq> ROUND_STATUS_CLAIMED \<Longrightarrow> rl_status r \<noteq> ROUND_STATUS_CANCELLED \<Longrightarrow> live r"
  using soundD(2) [OF reach_sound [OF assms(1,2)] assms(3)] by (simp_all add: round_ok_def)

text \<open>C1. The totals of an undecided or unpaid round are the sums over its participant accounts, and it
  counts exactly these. This holds in every reachable ledger whose present round began \<open>Clean\<close>: no participant account
  of an earlier round with the same address was left when it was started. The program does not check that, and
  \<open>reused_round_keeps_old_deposits\<close> shows what it does otherwise.\<close>

theorem round_accounting:
  assumes "spl_token tp" and "reach tp rk vk Clean s" and "lg_round s = Some r"
    and "rl_status r \<noteq> ROUND_STATUS_CLAIMED" "rl_status r \<noteq> ROUND_STATUS_CANCELLED"
  shows "unat (rl_total_usdc r) = (\<Sum>u \<in> dom (lg_parts s). usdc_of (lg_parts s) u) \<and>
    unat (rl_total_tickets r) = (\<Sum>u \<in> dom (lg_parts s). tickets_of (lg_parts s) u) \<and>
    unat (rl_participants_count r) = card (dom (lg_parts s))"
proof -
  note books = reach_books(1) [OF assms(1-3) reach_books(2) [OF assms]]
  have "unat (rl_participants_count r) = card (dom (lg_parts s))"
    unfolding books_list(1) [OF books] card_image [OF books_list(2) [OF books]] by (simp add: count_def)
  with books books_tickets [OF books] show ?thesis by (simp add: books_def)
qed

text \<open>The ledgers of the example: where it stands after the deposits, before and after the draw.\<close>

definition stands :: "instr list \<Rightarrow> (ledger \<Rightarrow> RoundAccount \<Rightarrow> bool) \<Rightarrow> bool" where
  "stands is P \<longleftrightarrow> list_all (later round_key) is \<and>
     (case run spl_transfer round_key vault_key (StartRound 255 1000 [1] 7 # is) demo_start of
        None \<Rightarrow> False
      | Some s \<Rightarrow> (case lg_round s of None \<Rightarrow> False | Some r \<Rightarrow> P s r))"

lemma standsE:
  assumes "stands is P"
  obtains r where "reach spl_transfer round_key vault_key Clean (played is)" "lg_round (played is) = Some r" "P (played is) r"
  using assms played_reach [of "is"]
  by (auto simp: stands_def played_def simp del: run.simps split: option.splits)

lemma demo_drawn_stands:
  "stands demo_drawn (\<lambda>s r. rl_status r = ROUND_STATUS_SETTLED \<and> rl_total_usdc r = 5000000 \<and> rl_total_tickets r = 500 \<and>
     ra_winner r = [20] \<and> ra_degen_mode r = DEGEN_MODE_NONE)"
  by code_simp

theorem round_accounting_witness:
  "(\<Sum>u \<in> dom (lg_parts (played demo_drawn)). usdc_of (lg_parts (played demo_drawn)) u) = 5000000"
proof (rule standsE [OF demo_drawn_stands], elim conjE)
  fix r
  assume r: "reach spl_transfer round_key vault_key Clean (played demo_drawn)" "lg_round (played demo_drawn) = Some r"
    "rl_status r = ROUND_STATUS_SETTLED" "rl_total_usdc r = 5000000"
  from round_accounting [OF spl_transfer r(1,2)] r(3,4) show ?thesis by simp
qed

end
