(* ===== verification/Jackpot_Pay.thy ===== *)
theory Jackpot_Pay
  imports Jackpot_Props
begin

text \<open>
  Payments out of a round: the vault covers what it owes, every participant of a cancelled round
  gets its deposits back, the winner of a settled one gets the pot, and what closing a round does
  to refunds nobody has asked for yet.
\<close>

section \<open>Transfers that succeed\<close>

definition paid :: "TokenAccount \<Rightarrow> 64 word \<Rightarrow> TokenAccount" where
  "paid a amount = a\<lparr>tk_amount := tk_amount a + amount\<rparr>"

definition spent :: "TokenAccount \<Rightarrow> 64 word \<Rightarrow> TokenAccount" where
  "spent a amount = a\<lparr>tk_amount := tk_amount a - amount\<rparr>"

lemma paid_spent_simps [simp]:
  "tk_mint (paid a x) = tk_mint a" "tk_owner (paid a x) = tk_owner a" "tk_amount (paid a x) = tk_amount a + x"
  "tk_mint (spent a x) = tk_mint a" "tk_owner (spent a x) = tk_owner a" "tk_amount (spent a x) = tk_amount a - x"
  by (simp_all add: paid_def spent_def)

lemma uint_sum_less:
  fixes a b :: "64 word"
  shows "unat a + unat b < 2 ^ 64 \<Longrightarrow> uint a + uint b < 2 ^ 64"
proof -
  assume "unat a + unat b < 2 ^ 64"
  then have "int (unat a + unat b) < int (2 ^ 64)" by (simp only: of_nat_less_iff)
  then show ?thesis by (simp only: of_nat_add of_nat_power of_nat_numeral uint_nat)
qed

lemma transfer_ok:
  assumes "spl_token tp" and "ts from = Some a" "ts to = Some b" "from \<noteq> to" "tk_mint a = tk_mint b" "unat amount \<le> unat (tk_amount a)"
    and "unat (tk_amount b) + unat amount < 2 ^ 64"
  shows "transfer tp from to amount ts = Inr (ts(from \<mapsto> spent a amount, to \<mapsto> paid b amount))"
proof -
  have "\<not> tk_amount a < amount" using assms(6) by (simp add: word_less_nat_alt)
  moreover have "\<not> 2 ^ 64 \<le> uint (tk_amount b) + uint amount" using uint_sum_less [OF assms(7)] by simp
  ultimately show ?thesis using assms(1-5) by (simp add: transfer_def spl_token_def paid_def spent_def)
qed

section \<open>Refunds\<close>

lemma reach_owed:
  assumes "spl_token tp" and "reach tp rk vk Clean s" and "lg_round s = Some r"
  obtains v where "lg_tokens s vk = Some v" "tk_owner v = rk" "tk_mint v = cv_usdc_mint (lg_config s)"
    "owed r (lg_parts s) \<le> unat (tk_amount v)" "ra_vault r = vk" "parts_ok rk (lg_parts s)"
  using soundD [OF reach_sound [OF assms(1,2)] assms(3)] that by (auto simp: funded_def round_ok_def)

text \<open>C3. In every reachable ledger of a cancelled round that began \<open>Clean\<close> (no participant account of an earlier
  round with the same address was left), as long as the round is not closed, each participant that still has a deposit gets it
  back, whole, into any USDC account of its own, in whatever order the others ask. In a round whose address was used
  before with participant accounts left, a refund may take the deposits of others.\<close>

theorem refund_succeeds:
  assumes tp: "spl_token tp" and reach: "reach tp rk vk Clean s" and r: "lg_round s = Some r" "rl_status r = ROUND_STATUS_CANCELLED"
    and p: "lg_parts s user = Some p" "pv_usdc_total p \<noteq> 0" and "user \<noteq> rk"
    and ua: "lg_tokens s user_ata = Some ua" "tk_owner ua = user" "tk_mint ua = cv_usdc_mint (lg_config s)"
    and fits: "unat (tk_amount ua) + unat (pv_usdc_total p) < 2 ^ 64"
  shows "\<exists>s'. exec tp rk vk (ClaimRefund user user_ata) s = Some (Inr s') \<and>
    lg_tokens s' user_ata = Some (paid ua (pv_usdc_total p)) \<and>
    lg_parts s' = (lg_parts s)(user \<mapsto> p\<lparr>pv_usdc_total := 0, pv_tickets_total := 0\<rparr>)"
proof -
  obtain v where v: "lg_tokens s vk = Some v" "tk_owner v = rk" "tk_mint v = cv_usdc_mint (lg_config s)"
    and owed: "owed r (lg_parts s) \<le> unat (tk_amount v)" and vk: "ra_vault r = vk" and parts: "parts_ok rk (lg_parts s)"
    by (rule reach_owed [OF tp reach r(1)])
  have user: "pv_round p = rk" "pv_user p = user" using parts p(1) by (auto simp: parts_ok_def)
  have "unat (pv_usdc_total p) = usdc_of (lg_parts s) user" "user \<in> dom (lg_parts s)" using p(1) by (auto simp: usdc_of_def)
  then have "unat (pv_usdc_total p) \<le> owed r (lg_parts s)"
    using parts member_sum [of "dom (lg_parts s)" user "usdc_of (lg_parts s)"] r(2)
    by (simp add: owed_def executing_def parts_ok_def)
  with owed have "unat (pv_usdc_total p) \<le> unat (tk_amount v)" by linarith
  moreover have "vk \<noteq> user_ata" using v(1,2) ua(1,2) \<open>user \<noteq> rk\<close> by auto
  ultimately have "transfer tp vk user_ata (pv_usdc_total p) (lg_tokens s) =
      Inr ((lg_tokens s)(vk \<mapsto> spent v (pv_usdc_total p), user_ata \<mapsto> paid ua (pv_usdc_total p)))"
    using v ua fits by (intro transfer_ok [OF tp]) simp_all
  with user vk v ua p r show ?thesis
    by (simp add: exec_refund_def found_def and_then_def claim_refund_def)
qed

definition demo_cancelled :: "instr list" where
  "demo_cancelled = demo_deposits @ [LockRound 2000, AdminForceCancel [9], ClaimRefund [20] [21]]"

lemma demo_cancelled_stands:
  "stands demo_cancelled (\<lambda>s r. rl_status r = ROUND_STATUS_CANCELLED \<and>
     map_option pv_usdc_total (lg_parts s [10]) = Some 2000000 \<and> cv_usdc_mint (lg_config s) = [1] \<and>
     lg_tokens s [11] = Some \<lparr>tk_mint = [1], tk_owner = [10], tk_amount = 3000000\<rparr> \<and>
     lg_tokens s vault_key = Some \<lparr>tk_mint = [1], tk_owner = round_key, tk_amount = 2000000\<rparr> \<and>
     lg_tokens s [21] = Some \<lparr>tk_mint = [1], tk_owner = [20], tk_amount = 3000000\<rparr>)"
  by code_simp

theorem refund_succeeds_witness:
  "\<exists>s'. exec spl_transfer round_key vault_key (ClaimRefund [10] [11]) (played demo_cancelled) = Some (Inr s') \<and>
     map_option tk_amount (lg_tokens s' [11]) = Some 5000000"
proof (rule standsE [OF demo_cancelled_stands], elim conjE)
  fix r
  assume h: "reach spl_transfer round_key vault_key Clean (played demo_cancelled)" "lg_round (played demo_cancelled) = Some r"
    "rl_status r = ROUND_STATUS_CANCELLED" and p: "map_option pv_usdc_total (lg_parts (played demo_cancelled) [10]) = Some 2000000"
    and mint: "cv_usdc_mint (lg_config (played demo_cancelled)) = [1]"
    and ua: "lg_tokens (played demo_cancelled) [11] = Some \<lparr>tk_mint = [1], tk_owner = [10], tk_amount = 3000000\<rparr>"
  from p obtain q where q: "lg_parts (played demo_cancelled) [10] = Some q" "pv_usdc_total q = 2000000" by auto
  have "\<exists>s'. exec spl_transfer round_key vault_key (ClaimRefund [10] [11]) (played demo_cancelled) = Some (Inr s') \<and>
    lg_tokens s' [11] = Some (paid \<lparr>tk_mint = [1], tk_owner = [10], tk_amount = 3000000\<rparr> (pv_usdc_total q)) \<and>
    lg_parts s' = (lg_parts (played demo_cancelled))([10] \<mapsto> q\<lparr>pv_usdc_total := 0, pv_tickets_total := 0\<rparr>)"
    by (rule refund_succeeds [OF spl_transfer h q(1) _ _ ua]) (simp_all add: q(2) mint round_key_def)
  then show ?thesis by (auto simp: paid_def q(2))
qed

section \<open>The pot\<close>

lemma settle_claim_amounts:
  assumes "ra_vault r = vk" "tk_mint v = cv_usdc_mint config" "tk_owner v = rk"
    and "tk_mint w = cv_usdc_mint config" "tk_owner w = winner"
    and "tk_mint t = cv_usdc_mint config" and "cv_fee_bps config \<le> 10000"
  obtains a where "settle_claim winner rk vk config r v w (cv_treasury_usdc_ata config) t None =
      Inr (a, r\<lparr>rl_status := ROUND_STATUS_CLAIMED\<rparr>)"
    "ca_vrf_reimburse a = 0" "unat (ca_payout a) + unat (ca_fee a) = unat (rl_total_usdc r)"
    "unat (ca_fee a) = unat (rl_total_usdc r) * unat (cv_fee_bps config) div 10000"
proof -
  have bps: "uint (cv_fee_bps config) \<le> 10000" using assms(7) by (simp add: word_le_def)
  from compute_claim_amounts_int [OF this, of "rl_total_usdc r" False]
  obtain a where a: "compute_claim_amounts (rl_total_usdc r) (cv_fee_bps config) False = Some a" "ca_vrf_reimburse a = 0"
    "uint (ca_fee a) = uint (rl_total_usdc r) * uint (cv_fee_bps config) div 10000"
    "uint (ca_payout a) = uint (rl_total_usdc r) - uint (rl_total_usdc r) * uint (cv_fee_bps config) div 10000"
    by (auto simp: uint_0_iff)
  from a(3) have fee: "int (unat (ca_fee a)) = int (unat (rl_total_usdc r) * unat (cv_fee_bps config) div 10000)"
    by (simp only: uint_nat of_nat_mult of_nat_div of_nat_numeral)
  from a(3,4) have "int (unat (ca_payout a) + unat (ca_fee a)) = int (unat (rl_total_usdc r))"
    by (simp only: uint_nat of_nat_add)
  then have "unat (ca_payout a) + unat (ca_fee a) = unat (rl_total_usdc r)" by (simp only: of_nat_eq_iff)
  moreover from fee have "unat (ca_fee a) = unat (rl_total_usdc r) * unat (cv_fee_bps config) div 10000"
    by (simp only: of_nat_eq_iff)
  moreover have "settle_claim winner rk vk config r v w (cv_treasury_usdc_ata config) t None =
      Inr (a, r\<lparr>rl_status := ROUND_STATUS_CLAIMED\<rparr>)"
    using assms(1-6) a(1,2) by (simp add: settle_claim_def ok_or_def and_then_def)
  ultimately show ?thesis using that a(2) by blast
qed

lemma transfer_two_ok:
  assumes tp: "spl_token tp" and v: "ts vk = Some v" and w: "ts wk = Some w" and t: "ts tk = Some t"
    and "vk \<noteq> wk" "vk \<noteq> tk" "wk \<noteq> tk" "tk_mint v = tk_mint w" "tk_mint v = tk_mint t"
    and "unat (ca_payout a) + unat (ca_fee a) \<le> unat (tk_amount v)" and "ca_vrf_reimburse a = 0"
    and "unat (tk_amount w) + unat (ca_payout a) < 2 ^ 64" "unat (tk_amount t) + unat (ca_fee a) < 2 ^ 64"
  shows "\<exists>ts'. transfer_claim_amounts tp vk wk tk None a ts = Inr ts' \<and> ts' wk = Some (paid w (ca_payout a)) \<and>
    ts' tk = Some (paid t (ca_fee a))"
proof -
  let ?ts = "ts(vk \<mapsto> spent v (ca_payout a), wk \<mapsto> paid w (ca_payout a))"
  have first: "transfer tp vk wk (ca_payout a) ts = Inr ?ts"
    using assms by (intro transfer_ok [OF tp v w]) simp_all
  show ?thesis
  proof (cases "ca_fee a = 0")
    case True
    have "transfer_claim_amounts tp vk wk tk None a ts = Inr ?ts"
      by (simp add: transfer_claim_amounts_def first and_then_def True)
    then show ?thesis using True t assms(5-7) by (simp add: paid_def)
  next
    case False
    have "ca_payout a \<le> tk_amount v" using assms(10) by (simp add: word_le_nat_alt)
    then have "unat (ca_fee a) \<le> unat (tk_amount (spent v (ca_payout a)))"
      using assms(10) by (simp add: unat_sub)
    then have "transfer tp vk tk (ca_fee a) ?ts = Inr (?ts(vk \<mapsto> spent (spent v (ca_payout a)) (ca_fee a), tk \<mapsto> paid t (ca_fee a)))"
      using assms by (intro transfer_ok [OF tp]) simp_all
    moreover have "0 < ca_fee a" using False by (simp add: word_neq_0_conv)
    ultimately have "transfer_claim_amounts tp vk wk tk None a ts =
        Inr (?ts(vk \<mapsto> spent (spent v (ca_payout a)) (ca_fee a), tk \<mapsto> paid t (ca_fee a)))"
      by (simp add: transfer_claim_amounts_def first and_then_def)
    then show ?thesis using assms(5-7) by simp
  qed
qed

text \<open>C4. In every reachable ledger of a settled round that began \<open>Clean\<close> and whose winner has not chosen a degen claim, the claim
  succeeds: fee and payout add up to the pot, the fee is the configured share of it, rounded
  down, and the round can be claimed no more.\<close>

theorem winner_is_paid:
  assumes tp: "spl_token tp" and reach: "reach tp rk vk Clean s" and r: "lg_round s = Some r" "rl_status r = ROUND_STATUS_SETTLED"
    "ra_degen_mode r = DEGEN_MODE_NONE" and "ra_winner r \<noteq> rk"
    and w: "lg_tokens s wk = Some w" "tk_owner w = ra_winner r" "tk_mint w = cv_usdc_mint (lg_config s)"
    and t: "lg_tokens s (cv_treasury_usdc_ata (lg_config s)) = Some t" "tk_mint t = cv_usdc_mint (lg_config s)"
    and apart: "cv_treasury_usdc_ata (lg_config s) \<notin> {vk, wk}"
    and fits: "unat (tk_amount w) + unat (rl_total_usdc r) < 2 ^ 64" "unat (tk_amount t) + unat (rl_total_usdc r) < 2 ^ 64"
  shows "\<exists>s' payout fee. exec tp rk vk (Claim (ra_winner r) \<lparr>cl_receiver = wk, cl_treasury = cv_treasury_usdc_ata (lg_config s),
      cl_vrf_authority = None, cl_vrf_ata = None\<rparr>) s = Some (Inr s') \<and>
    unat payout + unat fee = unat (rl_total_usdc r) \<and>
    unat fee = unat (rl_total_usdc r) * unat (cv_fee_bps (lg_config s)) div 10000 \<and>
    lg_tokens s' wk = Some (paid w payout) \<and> lg_tokens s' (cv_treasury_usdc_ata (lg_config s)) = Some (paid t fee) \<and>
    lg_round s' = Some (r\<lparr>rl_status := ROUND_STATUS_CLAIMED\<rparr>)"
proof -
  obtain v where v: "lg_tokens s vk = Some v" "tk_owner v = rk" "tk_mint v = cv_usdc_mint (lg_config s)"
    and owed: "owed r (lg_parts s) \<le> unat (tk_amount v)" and vk: "ra_vault r = vk"
    by (rule reach_owed [OF tp reach r(1)])
  have cfg: "cv_fee_bps (lg_config s) \<le> 10000"
    using soundD(1) [OF reach_sound [OF tp reach] r(1)] by (simp add: config_ok_def)
  obtain a where a: "settle_claim (ra_winner r) rk vk (lg_config s) r v w (cv_treasury_usdc_ata (lg_config s)) t None =
      Inr (a, r\<lparr>rl_status := ROUND_STATUS_CLAIMED\<rparr>)" "ca_vrf_reimburse a = 0"
    and split: "unat (ca_payout a) + unat (ca_fee a) = unat (rl_total_usdc r)"
      "unat (ca_fee a) = unat (rl_total_usdc r) * unat (cv_fee_bps (lg_config s)) div 10000"
    by (rule settle_claim_amounts [OF vk v(3,2) w(3,2) t(2) cfg])
  have "vk \<noteq> wk" using v(1,2) w(1,2) \<open>ra_winner r \<noteq> rk\<close> by auto
  moreover have "unat (ca_payout a) + unat (ca_fee a) \<le> unat (tk_amount v)"
    using owed r(2,3) split(1) by (simp add: owed_def executing_def)
  ultimately have "\<exists>ts'. transfer_claim_amounts tp vk wk (cv_treasury_usdc_ata (lg_config s)) None a (lg_tokens s) = Inr ts' \<and>
    ts' wk = Some (paid w (ca_payout a)) \<and> ts' (cv_treasury_usdc_ata (lg_config s)) = Some (paid t (ca_fee a))"
    using fits split(1) apart v(3) w(3) t(2) a(2) by (intro transfer_two_ok [OF tp v(1) w(1) t(1)]) auto
  then obtain ts' where ts': "transfer_claim_amounts tp vk wk (cv_treasury_usdc_ata (lg_config s)) None a (lg_tokens s) = Inr ts'"
    "ts' wk = Some (paid w (ca_payout a))" "ts' (cv_treasury_usdc_ata (lg_config s)) = Some (paid t (ca_fee a))" by blast
  have "exec tp rk vk (Claim (ra_winner r) \<lparr>cl_receiver = wk, cl_treasury = cv_treasury_usdc_ata (lg_config s),
      cl_vrf_authority = None, cl_vrf_ata = None\<rparr>) s =
      Some (Inr (s\<lparr>lg_round := Some (r\<lparr>rl_status := ROUND_STATUS_CLAIMED\<rparr>), lg_tokens := ts'\<rparr>))"
    using r v w t a(1) ts'(1)
    by (simp add: exec_claim_def found_def and_then_def with_claim_accounts_def optional_account_def claim_def)
  with split ts'(2,3) show ?thesis by (intro exI [of _ "s\<lparr>lg_round := Some (r\<lparr>rl_status := ROUND_STATUS_CLAIMED\<rparr>), lg_tokens := ts'\<rparr>"]
    exI [of _ "ca_payout a"] exI [of _ "ca_fee a"]) simp
qed

lemma demo_drawn_tokens:
  "stands demo_drawn (\<lambda>s r. rl_status r = ROUND_STATUS_SETTLED \<and> ra_degen_mode r = DEGEN_MODE_NONE \<and> ra_winner r = [20] \<and>
     rl_total_usdc r = 5000000 \<and> cv_usdc_mint (lg_config s) = [1] \<and> cv_fee_bps (lg_config s) = 25 \<and>
     cv_treasury_usdc_ata (lg_config s) = [8] \<and> lg_tokens s [8] = Some \<lparr>tk_mint = [1], tk_owner = [7], tk_amount = 0\<rparr> \<and>
     lg_tokens s [21] = Some \<lparr>tk_mint = [1], tk_owner = [20], tk_amount = 0\<rparr>)"
  by code_simp

theorem winner_is_paid_witness:
  "\<exists>s' fee. exec spl_transfer round_key vault_key (Claim [20] \<lparr>cl_receiver = [21], cl_treasury = [8], cl_vrf_authority = None,
      cl_vrf_ata = None\<rparr>) (played demo_drawn) = Some (Inr s') \<and> unat fee = 12500 \<and> map_option tk_amount (lg_tokens s' [8]) = Some fee"
proof (rule standsE [OF demo_drawn_tokens], elim conjE)
  let ?s = "played demo_drawn"
  fix r
  assume h: "reach spl_transfer round_key vault_key Clean ?s" "lg_round ?s = Some r" "rl_status r = ROUND_STATUS_SETTLED" "ra_degen_mode r = DEGEN_MODE_NONE"
    and e: "ra_winner r = [20]" "rl_total_usdc r = 5000000" "cv_usdc_mint (lg_config ?s) = [1]" "cv_fee_bps (lg_config ?s) = 25"
      "cv_treasury_usdc_ata (lg_config ?s) = [8]"
    and t: "lg_tokens ?s [8] = Some \<lparr>tk_mint = [1], tk_owner = [7], tk_amount = 0\<rparr>"
      "lg_tokens ?s [21] = Some \<lparr>tk_mint = [1], tk_owner = [20], tk_amount = 0\<rparr>"
  have "\<exists>s' payout fee. exec spl_transfer round_key vault_key (Claim (ra_winner r) \<lparr>cl_receiver = [21],
      cl_treasury = cv_treasury_usdc_ata (lg_config ?s), cl_vrf_authority = None, cl_vrf_ata = None\<rparr>) ?s = Some (Inr s') \<and>
    unat payout + unat fee = unat (rl_total_usdc r) \<and>
    unat fee = unat (rl_total_usdc r) * unat (cv_fee_bps (lg_config ?s)) div 10000 \<and>
    lg_tokens s' [21] = Some (paid \<lparr>tk_mint = [1], tk_owner = [20], tk_amount = 0\<rparr> payout) \<and>
    lg_tokens s' (cv_treasury_usdc_ata (lg_config ?s)) = Some (paid \<lparr>tk_mint = [1], tk_owner = [7], tk_amount = 0\<rparr> fee) \<and>
    lg_round s' = Some (r\<lparr>rl_status := ROUND_STATUS_CLAIMED\<rparr>)"
    by (rule winner_is_paid [OF spl_transfer h]) (simp_all add: e t round_key_def vault_key_def)
  then show ?thesis by (auto simp: e)
qed

section \<open>Closing\<close>

text \<open>C18. \<open>close_round\<close> does not wait for the refunds of a cancelled round (one that began \<open>Clean\<close>): whoever calls it may name any
  token account in the place of the treasury, which receives everything the vault holds, at least
  all that is still owed to participants, and no refund succeeds afterwards.\<close>

theorem close_round_takes_refunds:
  assumes tp: "spl_token tp" and reach: "reach tp rk vk Clean s" and r: "lg_round s = Some r" "rl_status r = ROUND_STATUS_CANCELLED"
    and v: "lg_tokens s vk = Some v" and b: "lg_tokens s k = Some b" "tk_mint b = cv_usdc_mint (lg_config s)" "k \<noteq> vk"
    and fits: "unat (tk_amount b) + unat (tk_amount v) < 2 ^ 64"
  shows "\<exists>s'. exec tp rk vk (CloseRound vk (Some k)) s = Some (Inr s') \<and> lg_tokens s' k = Some (paid b (tk_amount v)) \<and>
    (\<Sum>u \<in> dom (lg_parts s). usdc_of (lg_parts s) u) \<le> unat (tk_amount v) \<and>
    (\<forall>user user_ata. exec tp rk vk (ClaimRefund user user_ata) s' = Some (Inl InvalidAccountData))"
proof -
  have v': "tk_owner v = rk" "tk_mint v = cv_usdc_mint (lg_config s)" "owed r (lg_parts s) \<le> unat (tk_amount v)"
    by (rule reach_owed [OF tp reach r(1)]; simp add: v)+
  have owed: "(\<Sum>u \<in> dom (lg_parts s). usdc_of (lg_parts s) u) \<le> unat (tk_amount v)"
    using v'(3) r(2) by (simp add: owed_def executing_def)
  let ?ts = "if tk_amount v = 0 then lg_tokens s else (lg_tokens s)(vk \<mapsto> spent v (tk_amount v), k \<mapsto> paid b (tk_amount v))"
  let ?s = "s\<lparr>lg_round := None, lg_tokens := ?ts(vk := None)\<rparr>"
  have "transfer tp vk k (tk_amount v) (lg_tokens s) = Inr ((lg_tokens s)(vk \<mapsto> spent v (tk_amount v), k \<mapsto> paid b (tk_amount v)))"
    using v v' b fits by (intro transfer_ok [OF tp]) simp_all
  then have "exec tp rk vk (CloseRound vk (Some k)) s = Some (Inr ?s)"
    using r v v' b by (simp add: exec_close_round_def found_def and_then_def close_round_def closeable_def)
  moreover have "lg_tokens ?s k = Some (paid b (tk_amount v))" using b by (simp add: paid_def)
  moreover have "exec tp rk vk (ClaimRefund user user_ata) ?s = Some (Inl InvalidAccountData)" for user user_ata
    by (simp add: exec_refund_def found_def)
  ultimately show ?thesis using owed by blast
qed

theorem close_round_takes_refunds_witness:
  "\<exists>s'. exec spl_transfer round_key vault_key (CloseRound vault_key (Some [21])) (played demo_cancelled) = Some (Inr s') \<and>
     map_option tk_amount (lg_tokens s' [21]) = Some 5000000 \<and>
     exec spl_transfer round_key vault_key (ClaimRefund [10] [11]) s' = Some (Inl InvalidAccountData)"
proof (rule standsE [OF demo_cancelled_stands], elim conjE)
  let ?s = "played demo_cancelled"
  fix r
  assume h: "reach spl_transfer round_key vault_key Clean ?s" "lg_round ?s = Some r" "rl_status r = ROUND_STATUS_CANCELLED"
    and mint: "cv_usdc_mint (lg_config ?s) = [1]"
    and v: "lg_tokens ?s vault_key = Some \<lparr>tk_mint = [1], tk_owner = round_key, tk_amount = 2000000\<rparr>"
    and b: "lg_tokens ?s [21] = Some \<lparr>tk_mint = [1], tk_owner = [20], tk_amount = 3000000\<rparr>"
  from close_round_takes_refunds [OF spl_transfer h v b] show ?thesis by (auto simp: mint vault_key_def paid_def)
qed

end
