(* ===== verification/Jackpot_Draw.thy ===== *)
theory Jackpot_Draw
  imports Jackpot_Props
begin

text \<open>
  The draw: which participant a random number selects, how often each of them wins, and the
  prefix search of the ticket tree against a linear search.
\<close>

section \<open>Random bytes\<close>

lemma take_le_bytes: "m \<le> n \<Longrightarrow> take m (le_bytes n x) = le_bytes m x"
proof (induction m arbitrary: n x)
  case (Suc m)
  then show ?case by (cases n) simp_all
qed simp

lemma draw_every_ticket:
  assumes "0 < k" "k \<le> total_tickets"
  shows "draw_ticket (le_bytes 32 (uint k - 1)) total_tickets = Some k"
proof -
  have k: "0 < uint k" "uint k \<le> uint total_tickets" using assms by (simp_all add: word_less_def word_le_def)
  moreover have "uint k < 2 ^ 64" using uint_lt2p [of k] by simp
  ultimately have "le_uint (take 16 (le_bytes 32 (uint k - 1))) = uint k - 1"
    by (simp add: take_le_bytes le_uint_le_bytes)
  moreover have "(uint k - 1) mod uint total_tickets = uint k - 1" using k by (intro mod_pos_pos_trivial) simp_all
  moreover have "total_tickets \<noteq> 0" using assms by auto
  moreover have "of_int (uint k - 1) + 1 = k" by simp
  ultimately show ?thesis by (simp add: draw_ticket_def)
qed

section \<open>Fairness\<close>

lemma vrf_callback_cases:
  assumes "books rk r parts" and "rl_status r = ROUND_STATUS_VRF_REQUESTED" and "1 \<le> cv_min_total_tickets config"
    and "cv_min_participants config \<le> rl_participants_count r" "cv_min_total_tickets config \<le> rl_total_tickets r"
    and "draw_ticket randomness (rl_total_tickets r) = Some k"
  shows "\<exists>i. bit_find_prefix (ra_bit r) k = Some (Inr i) \<and> i \<in> {1..count r} \<and>
    (\<exists>r'. vrf_callback config r randomness = Some (Inr r') \<and> ra_winner r' = ra_participants r ! (i - 1))"
proof -
  obtain k' i where h: "draw_ticket randomness (rl_total_tickets r) = Some k'" "bit_find_prefix (ra_bit r) k' = Some (Inr i)"
    "i \<in> {1..count r}" "vrf_callback config r randomness = Some (Inr (r\<lparr>ra_randomness := randomness, ra_winning_ticket := k',
       ra_winner := ra_participants r ! (i - 1), rl_status := ROUND_STATUS_SETTLED\<rparr>))"
    by (rule vrf_callback_settles [OF assms(1-5)])
  with assms(6) have "k' = k" by simp
  with h(2-4) show ?thesis by auto
qed

lemma winning_tickets:
  assumes books: "books rk r parts" and "rl_status r = ROUND_STATUS_VRF_REQUESTED" and "1 \<le> cv_min_total_tickets config"
    and "cv_min_participants config \<le> rl_participants_count r" "cv_min_total_tickets config \<le> rl_total_tickets r"
    and i: "i \<in> {1..count r}"
  shows "{k. \<exists>rnd r'. length rnd = 32 \<and> draw_ticket rnd (rl_total_tickets r) = Some k \<and>
      vrf_callback config r rnd = Some (Inr r') \<and> ra_winner r' = ra_participants r ! (i - 1)} =
    {k. 0 < k \<and> unat k \<le> sum (tickets_at r parts) {1..200} \<and> bit_find_prefix (ra_bit r) k = Some (Inr i)}" (is "?A = ?B")
proof (intro set_eqI iffI)
  have total: "unat (rl_total_tickets r) = sum (tickets_at r parts) {1..200}" using books by (simp add: books_def)
  note cb = vrf_callback_cases [OF assms(1-5)]
  {
    fix k assume "k \<in> ?A"
    then obtain rnd r' where h: "draw_ticket rnd (rl_total_tickets r) = Some k" "vrf_callback config r rnd = Some (Inr r')"
      "ra_winner r' = ra_participants r ! (i - 1)" by blast
    from cb [OF h(1)] h(2,3) obtain j where j: "bit_find_prefix (ra_bit r) k = Some (Inr j)" "j \<in> {1..count r}"
      "ra_participants r ! (j - 1) = ra_participants r ! (i - 1)" by auto
    with inj_onD [OF books_list(2) [OF books], of j i] i have "j = i" by auto
    with j draw_ticket_range [OF h(1)] total show "k \<in> ?B" by (simp add: word_le_nat_alt)
  next
    fix k assume k: "k \<in> ?B"
    then have "0 < k" "k \<le> rl_total_tickets r" by (simp_all add: total word_le_nat_alt)
    from draw_every_ticket [OF this] have draw: "draw_ticket (le_bytes 32 (uint k - 1)) (rl_total_tickets r) = Some k" .
    from cb [OF this] k obtain r' where "vrf_callback config r (le_bytes 32 (uint k - 1)) = Some (Inr r')"
      "ra_winner r' = ra_participants r ! (i - 1)" by auto
    with draw show "k \<in> ?A" by (auto intro!: exI [of _ "le_bytes 32 (uint k - 1)"])
  }
qed

text \<open>C2. The draw of a reachable round is fair, if the round began \<open>Clean\<close> (no participant account of an earlier
  round with the same address was left) and if it still has the configured minimum of participants and of tickets when the
  callback arrives: an \<open>update_config\<close> between request and callback may raise these minima, and then the callback fails.
  Whatever the random bytes are, the callback settles the round on one of its participants, and the numbers that make a
  participant the winner are exactly as many as the tickets it holds.\<close>

theorem draw_is_fair:
  assumes tp: "spl_token tp" and reach: "reach tp rk vk Clean s" and r: "lg_round s = Some r" "rl_status r = ROUND_STATUS_VRF_REQUESTED"
    and min: "cv_min_participants (lg_config s) \<le> rl_participants_count r" "cv_min_total_tickets (lg_config s) \<le> rl_total_tickets r"
    and p: "lg_parts s u = Some p"
  shows "(\<forall>rnd. \<exists>r'. vrf_callback (lg_config s) r rnd = Some (Inr r') \<and> ra_winner r' \<in> dom (lg_parts s)) \<and>
    card {k. \<exists>rnd r'. length rnd = 32 \<and> draw_ticket rnd (rl_total_tickets r) = Some k \<and>
      vrf_callback (lg_config s) r rnd = Some (Inr r') \<and> ra_winner r' = u} = unat (pv_tickets_total p)"
proof -
  have books: "books rk r (lg_parts s)" using reach_books(1) [OF tp reach r(1)] r(2) by (simp add: live_def)
  have one: "1 \<le> cv_min_total_tickets (lg_config s)"
    using soundD(1) [OF reach_sound [OF tp reach] r(1)] by (simp add: config_ok_def)
  note list = books_list [OF books]
  have "u \<in> dom (lg_parts s)" using p by blast
  then obtain i where i: "i \<in> {1..count r}" "u = ra_participants r ! (i - 1)" unfolding list(1) by blast
  from i(1) list(3) have range: "i \<in> {1..200}" by simp
  have "tree_of (ra_bit r) (tickets_at r (lg_parts s))" using books by (simp add: books_def)
  from tree.find_share [OF this books_total [OF books] range] winning_tickets [OF books r(2) one min i(1)] i p
  have "card {k. \<exists>rnd r'. length rnd = 32 \<and> draw_ticket rnd (rl_total_tickets r) = Some k \<and>
      vrf_callback (lg_config s) r rnd = Some (Inr r') \<and> ra_winner r' = u} = unat (pv_tickets_total p)"
    by (simp add: tickets_at_def tickets_of_def)
  moreover have "\<exists>r'. vrf_callback (lg_config s) r rnd = Some (Inr r') \<and> ra_winner r' \<in> dom (lg_parts s)" for rnd
  proof (rule vrf_callback_settles [OF books r(2) one min])
    fix k j
    assume "j \<in> {1..count r}" and "vrf_callback (lg_config s) r rnd = Some (Inr (r\<lparr>ra_randomness := rnd, ra_winning_ticket := k,
       ra_winner := ra_participants r ! (j - 1), rl_status := ROUND_STATUS_SETTLED\<rparr>))"
    then show ?thesis unfolding list(1) by simp
  qed
  ultimately show ?thesis by blast
qed

lemma demo_locked_stands:
  "stands demo_locked (\<lambda>s r. rl_status r = ROUND_STATUS_VRF_REQUESTED \<and>
     cv_min_participants (lg_config s) \<le> rl_participants_count r \<and> cv_min_total_tickets (lg_config s) \<le> rl_total_tickets r \<and>
     map_option pv_tickets_total (lg_parts s [20]) = Some 300)"
  by code_simp

theorem draw_is_fair_witness:
  "\<exists>r. lg_round (played demo_locked) = Some r \<and>
     card {k. \<exists>rnd r'. length rnd = 32 \<and> draw_ticket rnd (rl_total_tickets r) = Some k \<and>
       vrf_callback (lg_config (played demo_locked)) r rnd = Some (Inr r') \<and> ra_winner r' = [20]} = 300"
proof (rule standsE [OF demo_locked_stands], elim conjE)
  let ?s = "played demo_locked"
  fix r
  assume h: "reach spl_transfer round_key vault_key Clean ?s" "lg_round ?s = Some r" "rl_status r = ROUND_STATUS_VRF_REQUESTED"
    "cv_min_participants (lg_config ?s) \<le> rl_participants_count r" "cv_min_total_tickets (lg_config ?s) \<le> rl_total_tickets r"
    and "map_option pv_tickets_total (lg_parts ?s [20]) = Some 300"
  then obtain p where p: "lg_parts ?s [20] = Some p" "pv_tickets_total p = 300" by auto
  from draw_is_fair [OF spl_transfer h p(1)] h(2) p(2) show ?thesis by simp
qed

section \<open>Bias\<close>

lemma le_uint_inj: "inj_on le_uint {bs. length bs = n}"
  by (rule inj_onI) (metis le_bytes_le_uint mem_Collect_eq)

lemma le_uint_image: "le_uint ` {bs. length bs = n} = {0..<256 ^ n}"
proof (intro equalityI subsetI)
  fix x assume "x \<in> le_uint ` {bs. length bs = n}"
  then show "x \<in> {0..<256 ^ n}" using le_uint_bounds by auto
next
  fix x :: int assume "x \<in> {0..<256 ^ n}"
  then have "le_uint (le_bytes n x) = x" by (intro le_uint_le_bytes) simp_all
  then show "x \<in> le_uint ` {bs. length bs = n}" by (intro image_eqI [of _ _ "le_bytes n x"]) simp_all
qed

lemma residues_div:
  fixes n t c :: int
  assumes "0 < t" "0 \<le> c" "c < t" "0 \<le> n"
  shows "n div t \<le> (n + t - 1 - c) div t \<and> (n + t - 1 - c) div t \<le> n div t + 1"
proof -
  have "(n + t - 1 - c) div t \<le> (n + t) div t" using assms by (intro zdiv_mono1) simp_all
  moreover have "n div t \<le> (n + t - 1 - c) div t" using assms by (intro zdiv_mono1) simp_all
  moreover have "(n + t) div t = n div t + 1" using assms(1) div_add_self2 [of t n] by auto
  ultimately show ?thesis by simp
qed

lemma le_div_iff_mult_le_int:
  fixes j n t :: int
  assumes "0 < t"
  shows "j \<le> n div t \<longleftrightarrow> j * t \<le> n"
proof
  assume "j \<le> n div t"
  then have "j * t \<le> n div t * t" using assms by (intro mult_right_mono) simp_all
  also have "\<dots> \<le> n" using div_mult_mod_eq [of n t] pos_mod_sign [OF assms, of n] by linarith
  finally show "j * t \<le> n" .
next
  assume "j * t \<le> n"
  then have "j * t div t \<le> n div t" using assms by (rule zdiv_mono1)
  with assms show "j \<le> n div t" by simp
qed

lemma residue_class:
  fixes n t c :: int
  assumes t: "0 < t" and c: "0 \<le> c" "c < t" and "0 \<le> n"
  defines "m \<equiv> (n + t - 1 - c) div t"
  shows "card {x \<in> {0..<n}. x mod t = c} = nat m"
proof -
  have below: "c + t * i < n \<longleftrightarrow> i < m" for i
  proof -
    have "i < m \<longleftrightarrow> i + 1 \<le> (n + t - 1 - c) div t" unfolding m_def by linarith
    also have "\<dots> \<longleftrightarrow> (i + 1) * t \<le> n + t - 1 - c" using t by (rule le_div_iff_mult_le_int)
    also have "\<dots> \<longleftrightarrow> c + t * i < n" by (auto simp: algebra_simps)
    finally show ?thesis by simp
  qed
  have "{x \<in> {0..<n}. x mod t = c} = (\<lambda>i. c + t * i) ` {0..<m}"
  proof (intro equalityI subsetI)
    fix x assume x: "x \<in> {x \<in> {0..<n}. x mod t = c}"
    then have split: "x = c + t * (x div t)" using div_mult_mod_eq [of x t] by (simp add: algebra_simps)
    have "c + t * (x div t) < n" unfolding split [symmetric] using x by simp
    moreover have "0 \<le> x div t" using x t by (simp add: pos_imp_zdiv_nonneg_iff)
    ultimately have "x div t \<in> {0..<m}" by (simp add: below)
    with split show "x \<in> (\<lambda>i. c + t * i) ` {0..<m}" by (rule image_eqI)
  next
    fix x assume "x \<in> (\<lambda>i. c + t * i) ` {0..<m}"
    then obtain i where i: "0 \<le> i" "i < m" "x = c + t * i" by auto
    have "0 \<le> t * i" using t i(1) by simp
    moreover have "(c + t * i) mod t = c" using c by (simp add: mod_pos_pos_trivial)
    ultimately show "x \<in> {x \<in> {0..<n}. x mod t = c}" using i(2) c(1) unfolding i(3) by (simp add: below)
  qed
  moreover have "inj_on (\<lambda>i. c + t * i) {0..<m}" using t by (intro inj_onI) simp
  ultimately show ?thesis by (simp add: card_image)
qed

text \<open>C15. Of the \<open>2 ^ 128\<close> values of the sixteen bytes that the draw reads, every ticket of the round gets
  the same number up to one: the remainder favours the first tickets by at most one value each.\<close>

theorem draw_bias:
  assumes "0 < k" and "k \<le> total_tickets"
  shows "card {b. length b = 16 \<and> draw_ticket b total_tickets = Some k} \<in>
    {2 ^ 128 div unat total_tickets, 2 ^ 128 div unat total_tickets + 1}"
proof -
  let ?t = "uint total_tickets" and ?c = "uint k - 1"
  have k: "0 < uint k" "uint k \<le> ?t" using assms by (simp_all add: word_less_def word_le_def)
  have lt: "?t < 2 ^ 64" using uint_lt2p [of total_tickets] by simp
  have "draw_ticket b total_tickets = Some k \<longleftrightarrow> le_uint b mod ?t = ?c" if "length b = 16" for b
  proof -
    have n: "0 \<le> le_uint b mod ?t" "le_uint b mod ?t < ?t" using k by simp_all
    then have "uint (of_int (le_uint b mod ?t) + 1 :: 64 word) = le_uint b mod ?t + 1"
      using lt by (simp add: uint_word_ariths uint_word_of_int)
    moreover have "draw_ticket b total_tickets = Some (of_int (le_uint b mod ?t) + 1)"
      using that k by (auto simp: draw_ticket_def)
    ultimately show ?thesis by (auto simp: word_uint_eq_iff)
  qed
  then have set: "{b. length b = 16 \<and> draw_ticket b total_tickets = Some k} = {b \<in> {b. length b = 16}. le_uint b mod ?t = ?c}" by blast
  have image: "le_uint ` {b \<in> {b. length b = 16}. le_uint b mod ?t = ?c} = {x \<in> {0..<256 ^ 16}. x mod ?t = ?c}"
    unfolding le_uint_image [of 16, symmetric] by blast
  have inj: "inj_on le_uint {b \<in> {b. length b = 16}. le_uint b mod ?t = ?c}" by (rule inj_on_subset [OF le_uint_inj]) auto
  have "card {b. length b = 16 \<and> draw_ticket b total_tickets = Some k} = card {x \<in> {0..<256 ^ 16}. x mod ?t = ?c}"
    unfolding set image [symmetric] by (rule card_image [OF inj, symmetric])
  also have "\<dots> = nat ((256 ^ 16 + ?t - 1 - ?c) div ?t)" using k by (intro residue_class) simp_all
  finally have card: "card {b. length b = 16 \<and> draw_ticket b total_tickets = Some k} = nat ((256 ^ 16 + ?t - 1 - ?c) div ?t)" .
  have "nat (256 ^ 16 div ?t) = 2 ^ 128 div unat total_tickets" by (simp add: nat_div_distrib)
  with residues_div [of ?t ?c "256 ^ 16"] k show ?thesis unfolding card by auto
qed

theorem draw_bias_witness: "card {b. length b = 16 \<and> draw_ticket b 500 = Some 7} \<in> {2 ^ 128 div 500, 2 ^ 128 div 500 + 1}"
  using draw_bias [of 7 500] by simp

section \<open>The prefix search\<close>

text \<open>A tree built by any additions, and the search it replaces: add up the tickets from the first
  participant on until the target is reached.\<close>

fun adds :: "(nat \<times> 64 word) list \<Rightarrow> nodes \<Rightarrow> (LayoutError + nodes) option" where
  "adds [] nodes = Some (Inr nodes)"
| "adds ((i, d) # us) nodes = (case bit_add nodes i d of Some (Inr nodes') \<Rightarrow> adds us nodes' | x \<Rightarrow> x)"

definition share :: "(nat \<times> 64 word) list \<Rightarrow> nat \<Rightarrow> nat" where
  "share us i = (\<Sum>(j, d) \<leftarrow> us. if j = i then unat d else 0)"

definition linear_find :: "(nat \<Rightarrow> nat) \<Rightarrow> nat \<Rightarrow> nat option" where
  "linear_find f k = List.find (\<lambda>i. k \<le> sum f {1..i}) [1..<201]"

lemma share_simps [simp]: "share [] = (\<lambda>_. 0)" "share ((j, d) # us) i = (if j = i then unat d else 0) + share us i"
  by (auto simp: share_def fun_eq_iff)

lemma share_total:
  "list_all (\<lambda>(i, d). i \<in> {1..200}) us \<Longrightarrow> sum (share us) {1..200} = (\<Sum>(i, d) \<leftarrow> us. unat d)"
  by (induction us) (auto simp: sum.distrib)

lemma adds_tree:
  "list_all (\<lambda>(i, d). i \<in> {1..200}) us \<Longrightarrow> tree_of nodes f \<Longrightarrow> sum f {1..200} + (\<Sum>(i, d) \<leftarrow> us. unat d) < 2 ^ 64 \<Longrightarrow>
     \<exists>nodes'. adds us nodes = Some (Inr nodes') \<and> tree_of nodes' (\<lambda>i. f i + share us i)"
proof (induction us arbitrary: nodes f)
  case (Cons u us)
  obtain i d where u: "u = (i, d)" by fastforce
  have i: "i \<in> {1..200}" using Cons.prems(1) u by simp
  have "sum f {1..200} + unat d < 2 ^ 64" using Cons.prems(3) u by simp
  from tree.rep_add [OF Cons.prems(2) i this] obtain nodes1 where
    n1: "bit_add nodes i d = Some (Inr nodes1)" "tree_of nodes1 (f(i := f i + unat d))" by auto
  have "sum (f(i := f i + unat d)) {1..200} = sum f {1..200} + unat d"
    using i member_sum [of "{1..200}" i f] by (simp add: sum_fun_upd del: fun_upd_apply)
  then have "sum (f(i := f i + unat d)) {1..200} + (\<Sum>(i, d) \<leftarrow> us. unat d) < 2 ^ 64" using Cons.prems(3) u by simp
  from Cons.IH [OF _ n1(2) this] Cons.prems(1) u obtain nodes' where
    n': "adds us nodes1 = Some (Inr nodes')" "tree_of nodes' (\<lambda>j. (f(i := f i + unat d)) j + share us j)" by auto
  have "(\<lambda>j. (f(i := f i + unat d)) j + share us j) = (\<lambda>j. f j + share (u # us) j)" using u by (auto simp: fun_eq_iff)
  with n' n1(1) u show ?case by auto
qed simp

lemma linear_find_Some:
  assumes "i \<in> {1..200}" "sum f {1..<i} < k" "k \<le> sum f {1..i}"
  shows "linear_find f k = Some i"
proof -
  have "\<not> k \<le> sum f {1..j + 1}" if "j < i - 1" for j
  proof -
    have "sum f {1..j + 1} \<le> sum f {1..<i}" using that by (intro sum_mono2) auto
    with assms(2) show ?thesis by simp
  qed
  then show ?thesis using assms unfolding linear_find_def
    by (subst find_Some_iff) (auto intro!: exI [of _ "i - 1"] simp: nth_upt)
qed

text \<open>C14. The logarithmic search of the ticket tree returns what adding up the tickets one participant
  after the other returns, whatever deposits built the tree.\<close>

theorem bit_find_prefix_linear:
  assumes "list_all (\<lambda>(i, d). i \<in> {1..200}) us" and "(\<Sum>(i, d) \<leftarrow> us. unat d) < 2 ^ 64"
    and "0 < k" "unat k \<le> (\<Sum>(i, d) \<leftarrow> us. unat d)"
  shows "\<exists>nodes i. adds us (replicate 201 0) = Some (Inr nodes) \<and> bit_find_prefix nodes k = Some (Inr i) \<and>
    linear_find (share us) (unat k) = Some i"
proof -
  from adds_tree [OF assms(1) tree_empty] assms(2) obtain nodes where
    n: "adds us (replicate 201 0) = Some (Inr nodes)" "tree_of nodes (share us)" by auto
  from tree.rep_find [OF n(2) _ assms(3)] assms share_total [OF assms(1)] obtain i where
    "i \<in> {1..200}" "bit_find_prefix nodes k = Some (Inr i)" "sum (share us) {1..<i} < unat k" "unat k \<le> sum (share us) {1..i}"
    by auto
  with n(1) linear_find_Some show ?thesis by blast
qed

theorem bit_find_prefix_linear_witness:
  "\<exists>nodes i. adds [(1, 200), (2, 300)] (replicate 201 0) = Some (Inr nodes) \<and> bit_find_prefix nodes 201 = Some (Inr i) \<and>
     linear_find (share [(1, 200), (2, 300)]) 201 = Some i"
  using bit_find_prefix_linear [of "[(1, 200), (2, 300)]" 201] by simp

end
