(* ===== verification/Jackpot_Life.thy ===== *)
theory Jackpot_Life
  imports Jackpot_Props
begin

text \<open>
  The life of a round: its pot leaves the vault once, and what happens when the address of a
  closed round is used again.
\<close>

section \<open>The pot is paid once\<close>

fun pays :: "instr \<Rightarrow> bool" where
  "pays (Claim winner cl) \<longleftrightarrow> True"
| "pays (AutoClaim cl) \<longleftrightarrow> True"
| "pays (BeginDegenExecution executor winner mint cl receiver now args) \<longleftrightarrow> True"
| "pays (ClaimDegen winner cl now round_id rank index) \<longleftrightarrow> True"
| "pays (ClaimDegenFallback winner cl now round_id reason) \<longleftrightarrow> True"
| "pays (AutoClaimDegenFallback claimant cl now round_id reason) \<longleftrightarrow> True"
| "pays _ \<longleftrightarrow> False"

text \<open>A round from which nothing is paid any more.\<close>

definition done_paying :: "RoundAccount \<Rightarrow> bool" where
  "done_paying r \<longleftrightarrow> rl_status r = ROUND_STATUS_CLAIMED \<or> rl_status r = ROUND_STATUS_CANCELLED \<or> executing r"

lemma settle_claim_status:
  "claim w rk vk config r vault wa tk ta va = Inr (amounts, r') \<Longrightarrow> \<not> done_paying r \<and> done_paying r'"
  "auto_claim rk vk config r vault wa tk ta va = Inr (amounts, r') \<Longrightarrow> \<not> done_paying r \<and> done_paying r'"
  using settle_claim_shape by (auto simp: claim_def auto_claim_def done_paying_def executing_def split: if_splits)

lemma settle_degen_status:
  "settle_degen w rk vk config r dc vault wa tk ta va vb rid = Inr (amounts, r') \<Longrightarrow> \<not> done_paying r \<and> done_paying r'"
  by (frule settle_degen_shape) (auto simp: settle_degen_def done_paying_def executing_def split: if_splits)

lemma degen_claim_status:
  "claim_degen w rk vk now c r dc v a tk t vb f rid rank idx = Inr (amounts, r', dc') \<Longrightarrow> \<not> done_paying r \<and> done_paying r'"
  "claim_degen_fallback w rk vk now c r dc v a tk t vb f rid reason = Inr (amounts, r', dc') \<Longrightarrow> \<not> done_paying r \<and> done_paying r'"
  by (auto simp: claim_degen_def claim_degen_fallback_def and_then_Inr_iff split: if_splits dest!: settle_degen_status)

lemma begin_status:
  assumes "begin_degen_execution e rk vk tk m rc va now config g r dc v ea ta ra vr args = Inr (amounts, r', dc')"
  shows "\<not> done_paying r \<and> done_paying r'"
proof -
  from assms have "ra_degen_mode r = DEGEN_MODE_VRF_READY"
    by (auto simp: begin_degen_execution_def split: if_splits)
  with begin_shape [OF assms] show ?thesis by (auto simp: done_paying_def executing_def)
qed

definition round_changes :: "ledger \<Rightarrow> ledger \<Rightarrow> (RoundAccount \<Rightarrow> RoundAccount \<Rightarrow> bool) \<Rightarrow> bool" where
  "round_changes s s' P \<longleftrightarrow> (\<exists>r r'. lg_round s = Some r \<and> lg_round s' = Some r' \<and> P r r')"

lemma exec_claim_status:
  "exec_claim tp rk vk w cl s = Inr s' \<Longrightarrow> round_changes s s' (\<lambda>r r'. \<not> done_paying r \<and> done_paying r')"
  by (auto simp: exec_claim_def and_then_Inr_iff found_Inr with_claim_accounts_def round_changes_def
      split: option.splits dest!: settle_claim_status)

lemma exec_begin_status:
  "exec_begin tp rk vk executor winner mint cl receiver now args s = Inr s' \<Longrightarrow>
     round_changes s s' (\<lambda>r r'. \<not> done_paying r \<and> done_paying r')"
  by (auto simp: exec_begin_def and_then_Inr_iff found_Inr with_claim_accounts_def round_changes_def dest!: begin_status)

lemma exec_degen_claim_status:
  assumes "exec_degen_claim tp vk winner cl s handler = Inr s'"
    and "\<And>r dc v a t f amounts r' dc'. handler r dc v a t f = Inr (amounts, r', dc') \<Longrightarrow> \<not> done_paying r \<and> done_paying r'"
  shows "round_changes s s' (\<lambda>r r'. \<not> done_paying r \<and> done_paying r')"
  using assms(1) by (auto simp: exec_degen_claim_def and_then_Inr_iff found_Inr with_claim_accounts_def round_changes_def dest!: assms(2))

lemma pays_step:
  assumes "pays i" and "exec tp rk vk i s = Some (Inr s')"
  shows "round_changes s s' (\<lambda>r r'. \<not> done_paying r \<and> done_paying r')"
proof (cases i)
  case (ClaimDegen winner cl now round_id rank index)
  with assms(2) show ?thesis by simp (erule exec_degen_claim_status, rule degen_claim_status(1))
next
  case (ClaimDegenFallback winner cl now round_id reason)
  with assms(2) show ?thesis by simp (erule exec_degen_claim_status, rule degen_claim_status(2))
next
  case (AutoClaimDegenFallback claimant cl now round_id reason)
  with assms(2) show ?thesis by simp (erule exec_degen_claim_status, rule degen_claim_status(2))
qed (use assms in \<open>auto intro: exec_claim_status exec_begin_status\<close>)

text \<open>What remains done: the round may be closed, but it never becomes payable again.\<close>

definition still_done :: "ledger \<Rightarrow> bool" where
  "still_done s \<longleftrightarrow> (case lg_round s of None \<Rightarrow> True | Some r \<Rightarrow> done_paying r)"

lemma deposit_cancel_done:
  "still_done s \<Longrightarrow> exec_deposit tp rk vk user user_ata bump now args s \<noteq> Some (Inr s')"
  "still_done s \<Longrightarrow> exec_cancel tp rk vk user user_ata s \<noteq> Some (Inr s')"
proof -
  show "exec_deposit tp rk vk user user_ata bump now args s \<noteq> Some (Inr s')" if "still_done s"
  proof
    assume "exec_deposit tp rk vk user user_ata bump now args s = Some (Inr s')"
    then obtain r ua v delta r' p' where r: "lg_round s = Some r"
      and dep: "deposit_any user rk vk bump now (lg_config s) r (lg_parts s user) ua v args = Some (Inr (delta, r', p'))"
      by (auto simp: exec_deposit_def and_then_Inr_iff split: option.splits)
    have "rl_status r = ROUND_STATUS_OPEN" by (rule deposit_shape [OF dep])
    with that r show False by (simp add: still_done_def done_paying_def executing_def)
  qed
  show "exec_cancel tp rk vk user user_ata s \<noteq> Some (Inr s')" if "still_done s"
    using that cancel_shape(1)
    by (fastforce simp: exec_cancel_def and_then_Inr_iff still_done_def done_paying_def executing_def split: option.splits)
qed

lemma round_steps_done:
  assumes "still_done s"
  shows "exec_round s (\<lambda>r. lock_round (lg_config s) r now) \<noteq> Inr s'"
    and "exec_round s (\<lambda>r. request_vrf payer (lg_config s) r) \<noteq> Inr s'"
    and "exec_round s (\<lambda>r. admin_force_cancel admin (lg_config s) r) \<noteq> Inr s'"
    and "exec tp rk vk (VrfCallback randomness) s \<noteq> Some (Inr s')"
    and "exec_request_degen rk winner bump now rid s \<noteq> Inr s'"
    and "exec_degen_callback rk winner now randomness s \<noteq> Inr s'"
  using assms
  by (auto simp: exec_round_Inr lock_round_def request_vrf_def admin_force_cancel_def vrf_callback_def exec_request_degen_def
      exec_degen_callback_def request_degen_vrf_def degen_vrf_callback_def found_Inr and_then_Inr_iff still_done_def done_paying_def
      executing_def split: if_splits option.splits)

lemma finalize_done: "exec_finalize executor winner ek receiver now rid s = Inr s' \<Longrightarrow> still_done s'"
  by (auto simp: exec_finalize_def found_Inr and_then_Inr_iff finalize_degen_success_def still_done_def done_paying_def split: if_splits)

lemma same_round_done:
  "exec_refund tp rk vk user user_ata s = Inr s' \<Longrightarrow> lg_round s' = lg_round s"
  "exec_config s f = Inr s' \<Longrightarrow> lg_round s' = lg_round s"
  "exec_close_round tp rk vault treasury s = Inr s' \<Longrightarrow> lg_round s' = None"
  by (auto simp: exec_refund_def exec_config_def exec_close_round_def found_Inr and_then_Inr_iff split: if_splits)

lemma done_step:
  assumes "still_done s" and "later rk i" and "exec tp rk vk i s = Some (Inr s')"
  shows "\<not> pays i \<and> still_done s'"
proof
  show "\<not> pays i" using pays_step [OF _ assms(3)] assms(1) by (auto simp: round_changes_def still_done_def)
  then show "still_done s'"
    using assms deposit_cancel_done [OF assms(1)] round_steps_done [OF assms(1)] finalize_done same_round_done
    by (cases i) (auto simp: still_done_def found_Inr and_then_Inr_iff)
qed

lemma run_done:
  "still_done s \<Longrightarrow> list_all (later rk) is \<Longrightarrow> run tp rk vk is s = Some s' \<Longrightarrow> filter pays is = []"
proof (induction "is" arbitrary: s)
  case (Cons i "is")
  then obtain s1 where s1: "exec tp rk vk i s = Some (Inr s1)" "run tp rk vk is s1 = Some s'"
    by (auto split: option.splits sum.splits)
  from done_step [OF Cons.prems(1) _ s1(1)] Cons.prems(2) have "\<not> pays i" "still_done s1" by auto
  moreover from this(2) have "filter pays is = []" using Cons.prems(2) s1(2) by (intro Cons.IH) auto
  ultimately show ?case by simp
qed simp

text \<open>C5. However the instructions of a round are ordered, and whoever sends them, at most one of those that succeed
  takes the pot out of the vault: claim, automatic claim, the three degen claims in USDC and the
  begin of a degen execution exclude each other.\<close>

theorem pot_paid_once:
  assumes "list_all (later rk) is" and "run tp rk vk is s = Some s'"
  shows "length (filter pays is) \<le> 1"
  using assms
proof (induction "is" arbitrary: s)
  case (Cons i "is")
  then obtain s1 where s1: "exec tp rk vk i s = Some (Inr s1)" "run tp rk vk is s1 = Some s'"
    by (auto split: option.splits sum.splits)
  show ?case
  proof (cases "pays i")
    case True
    then have "still_done s1" using pays_step [OF True s1(1)] by (auto simp: round_changes_def still_done_def)
    then have "filter pays is = []" using Cons.prems(1) s1(2) by (intro run_done) auto
    with True show ?thesis by simp
  qed (use Cons s1 in simp)
qed simp

theorem pot_paid_once_witness:
  "run spl_transfer round_key vault_key (demo_drawn @ [Claim [20] \<lparr>cl_receiver = [21], cl_treasury = [8], cl_vrf_authority = None,
     cl_vrf_ata = None\<rparr>]) (played []) \<noteq> None \<and>
   length (filter pays (demo_drawn @ [Claim [20] \<lparr>cl_receiver = [21], cl_treasury = [8], cl_vrf_authority = None, cl_vrf_ata = None\<rparr>])) \<le> 1"
proof -
  let ?is = "demo_drawn @ [Claim [20] \<lparr>cl_receiver = [21], cl_treasury = [8], cl_vrf_authority = None, cl_vrf_ata = None\<rparr>]"
  have run: "run spl_transfer round_key vault_key ?is (played []) \<noteq> None" by code_simp
  moreover have "list_all (later round_key) ?is" by code_simp
  ultimately show ?thesis using pot_paid_once [of round_key ?is spl_transfer vault_key "played []"] by (auto simp del: filter_append)
qed

section \<open>Using an address again\<close>

text \<open>C19. After a round is closed anyone may start a round with the same id. A participant account left from
  the old one is then taken for a registered participant: its first deposit adds to the old
  total, the round counts nobody, and the participant's claim exceeds the pot by the old total.\<close>

theorem reused_round_keeps_old_deposits:
  assumes start: "exec tp rk vk (StartRound bump now mint rid) s = Some (Inr s1)"
    and p: "lg_parts s user = Some p" "pv_round p = rk"
    and dep: "exec tp rk vk (DepositAny user user_ata bump' now' args) s1 = Some (Inr s2)"
  shows "\<exists>r p'. lg_round s2 = Some r \<and> lg_parts s2 user = Some p' \<and> rl_participants_count r = 0 \<and>
    unat (pv_usdc_total p') = unat (pv_usdc_total p) + unat (rl_total_usdc r)"
proof -
  from start obtain r0 where r0: "lg_round s1 = Some r0" "rl_participants_count r0 = 0" "rl_total_usdc r0 = 0"
    and parts: "lg_parts s1 = lg_parts s"
    by (auto simp: exec_start_def Let_def and_then_Inr_iff start_round_def zero_round_def split: if_splits)
  from dep r0(1) obtain ua v delta r' p' where
    d: "deposit_any user rk vk bump' now' (lg_config s1) r0 (lg_parts s1 user) ua v args = Some (Inr (delta, r', p'))"
    and s2: "lg_round s2 = Some r'" "lg_parts s2 user = Some p'"
    by (auto simp: exec_deposit_def and_then_Inr_iff split: option.splits)
  obtain tickets r1 p1 where
    reg: "register_participant user rk bump' r0 (read_or_init_participant (lg_parts s1 user) user bump') = Inr (r1, p1)"
    and "deposited delta tickets r1 p1 r' p'" by (rule deposit_shape [OF d])
  moreover from reg p parts have "r1 = r0" "p1 = p" by (simp_all add: register_participant_def read_or_init_participant_def)
  ultimately have d': "rl_participants_count r' = 0" "checked_add_u64 (pv_usdc_total p) delta = Some (pv_usdc_total p')"
    "checked_add_u64 0 delta = Some (rl_total_usdc r')"
    using r0 by (simp_all add: deposited_def)
  have "unat (pv_usdc_total p') = unat (pv_usdc_total p) + unat (rl_total_usdc r')"
    using checked_add_unat [OF d'(2)] checked_add_unat [OF d'(3)] by simp
  with s2 d'(1) show ?thesis by auto
qed

definition demo_closed :: "instr list" where
  "demo_closed = demo_drawn @ [Claim [20] \<lparr>cl_receiver = [21], cl_treasury = [8], cl_vrf_authority = None, cl_vrf_ata = None\<rparr>,
     CloseParticipant [20], CloseRound vault_key None]"

definition demo_again :: "instr list" where
  "demo_again = [StartRound 255 3000 [1] 7,
     DepositAny [10] [11] 254 3010 \<lparr>da_round_id = 7, da_usdc_balance_before = 2000000, da_min_out = 0\<rparr>]"

text \<open>In the example the user deposits 1 USDC in the second round and is then owed 3.\<close>

lemma demo_again_run:
  "case run spl_transfer round_key vault_key (StartRound 255 1000 [1] 7 # demo_closed) demo_start of None \<Rightarrow> False
   | Some s \<Rightarrow> map_option pv_usdc_total (lg_parts s [10]) = Some 2000000 \<and> map_option pv_round (lg_parts s [10]) = Some round_key \<and>
       run spl_transfer round_key vault_key demo_again s \<noteq> None"
  by code_simp

theorem reused_round_keeps_old_deposits_witness:
  "\<exists>s r p. run spl_transfer round_key vault_key demo_again (played demo_closed) = Some s \<and> lg_round s = Some r \<and>
     lg_parts s [10] = Some p \<and> rl_participants_count r = 0 \<and> unat (pv_usdc_total p) = 2000000 + unat (rl_total_usdc r)"
proof -
  from demo_again_run obtain s2 q where s2: "run spl_transfer round_key vault_key demo_again (played demo_closed) = Some s2"
    and q: "lg_parts (played demo_closed) [10] = Some q" "pv_usdc_total q = 2000000" "pv_round q = round_key"
    by (auto simp: played_def simp del: run.simps split: option.splits)
  from s2 obtain s1 where
    s1: "exec spl_transfer round_key vault_key (StartRound 255 3000 [1] 7) (played demo_closed) = Some (Inr s1)"
      "exec spl_transfer round_key vault_key (DepositAny [10] [11] 254 3010
         \<lparr>da_round_id = 7, da_usdc_balance_before = 2000000, da_min_out = 0\<rparr>) s1 = Some (Inr s2)"
    unfolding demo_again_def by (auto simp del: exec.simps split: option.splits sum.splits)
  from reused_round_keeps_old_deposits [OF s1(1) q(1,3) s1(2)] s2 q(2) show ?thesis by auto
qed

end
