(* ===== verification/Actions_Props.thy ===== *)
theory Actions_Props
  imports Actions_Api
begin

text \<open>
  What the Actions API promises: which transactions it hands out and to whom, that the searches return
  the latest round that fits, and how far the scan for the current round sees.
\<close>

section \<open>Who asks, and for which round\<close>

text \<open>
  What is refused before anything is read, with its status: other methods than GET and POST, a body
  that is no JSON, a body without a valid account. The preflight request has its own answer.
\<close>

definition turned_away :: "('w, 'pk) actions_env \<Rightarrow> request \<Rightarrow> int option" where
  "turned_away c req =
     (if rq_method req = ''OPTIONS'' then Some 204
      else if rq_method req = ''GET'' then None
      else if rq_method req \<noteq> ''POST'' then Some 405
      else case parseBody c req of
          Inl _ \<Rightarrow> Some 500
        | Inr body \<Rightarrow> (case json_field body ''account'' of
            Some (JStr raw) \<Rightarrow> if raw = [] \<or> parsePublicKey (ce_sdk (ac_chain c)) raw = None then Some 400 else None
          | _ \<Rightarrow> Some 400))"

definition requested_by :: "('w, 'pk) actions_env \<Rightarrow> request \<Rightarrow> 'pk \<Rightarrow> bool" where
  "requested_by c req k \<longleftrightarrow> rq_method req = ''POST'' \<and> (\<exists>body raw. parseBody c req = Inr body \<and>
     json_field body ''account'' = Some (JStr raw) \<and> parsePublicKey (ce_sdk (ac_chain c)) raw = Some k)"

text \<open>The round of a request: the one the query names, or else one that the given search has found.\<close>

definition asked_round :: "('w, 'pk) actions_env \<Rightarrow> request \<Rightarrow> ('w, int) action \<Rightarrow> int \<Rightarrow> bool" where
  "asked_round c req search rid \<longleftrightarrow> (\<exists>q. bnOfNumber c q = Inr rid \<and>
     (parseOptionalRoundId c req = Inr (Some q) \<or>
      parseOptionalRoundId c req = Inr None \<and> (\<exists>r s. fst (run_state search s) = Inr r \<and> q = of_int r)))"

definition configured :: "('w, 'pk) actions_env \<Rightarrow> 'pk ParsedConfig \<Rightarrow> bool" where
  "configured c cfg \<longleftrightarrow> (\<exists>w data. fst (run_state (getAccountInfo (ac_sv c) (config_pda (ac_chain c))) w) = Inr (Some data) \<and>
     parseConfig (ce_sdk (ac_chain c)) data = Some cfg)"

section \<open>The transactions\<close>

text \<open>
  A claim: one instruction, for the winner, into its own USDC account, from the vault of the round, with the treasury of the
  configuration and the account of the VRF payer of the round, if it has one.
\<close>

definition claim_instructions :: "('w, 'pk) actions_env \<Rightarrow> request \<Rightarrow> 'pk \<Rightarrow> 'pk instruction list \<Rightarrow> bool" where
  "claim_instructions c req k ixs \<longleftrightarrow> (let e = ac_chain c in \<exists>rid cfg vault own payerAta ix w data rd.
     asked_round c req (findLatestClaimableRoundId c k) rid \<and> configured c cfg \<and>
     fst (run_state (getAccountInfo (ac_sv c) (round_pda e rid)) w) = Inr (Some data) \<and> parseRound (ce_sdk e) data = Some rd \<and>
     ata e (cf_usdcMint cfg) (round_pda e rid) True = Inr vault \<and> ata e (cf_usdcMint cfg) k False = Inr own \<and>
     (if rd_vrfPayer rd = pk_default (ce_sdk e) then payerAta = None
      else \<exists>a. ata e (cf_usdcMint cfg) (rd_vrfPayer rd) False = Inr a \<and> payerAta = Some a) \<and>
     ce_anchor e ''claim'' [ArgBN rid]
       [(''winner'', Some k), (''config'', Some (config_pda e)), (''round'', Some (round_pda e rid)),
        (''vaultUsdcAta'', Some vault), (''winnerUsdcAta'', Some own), (''treasuryUsdcAta'', Some (cf_treasuryUsdcAta cfg)),
        (''vrfPayerUsdcAta'', payerAta), (''tokenProgram'', Some (TOKEN_PROGRAM_ID (ce_programs e)))] = Inr ix \<and>
     ixs = [ix])"

text \<open>A refund: one instruction, from the vault of the round to the user's own USDC account.\<close>

definition refund_instructions :: "('w, 'pk) actions_env \<Rightarrow> request \<Rightarrow> 'pk \<Rightarrow> 'pk instruction list \<Rightarrow> bool" where
  "refund_instructions c req k ixs \<longleftrightarrow> (let e = ac_chain c in \<exists>rid cfg vault own ix.
     asked_round c req (findLatestRefundableRoundId c k) rid \<and> configured c cfg \<and>
     ata e (cf_usdcMint cfg) (round_pda e rid) True = Inr vault \<and> ata e (cf_usdcMint cfg) k False = Inr own \<and>
     ce_anchor e ''claimRefund'' [ArgBN rid]
       [(''config'', Some (config_pda e)), (''round'', Some (round_pda e rid)), (''user'', Some k),
        (''participant'', Some (participant_pda e (round_pda e rid) k)), (''vaultUsdcAta'', Some vault), (''userUsdcAta'', Some own),
        (''tokenProgram'', Some (TOKEN_PROGRAM_ID (ce_programs e)))] = Inr ix \<and>
     ixs = [ix])"

text \<open>A join: the user's own USDC account is created and the amount of the query is deposited from it into the vault of the round.\<close>

definition join_instructions :: "('w, 'pk) actions_env \<Rightarrow> request \<Rightarrow> 'pk \<Rightarrow> 'pk instruction list \<Rightarrow> bool" where
  "join_instructions c req k ixs \<longleftrightarrow> (let e = ac_chain c in \<exists>rid cfg vault own ix amount balance.
     asked_round c req (scanRoundIds c JoinableMode) rid \<and> configured c cfg \<and> parseUsdcAmountRaw c req = Inr amount \<and>
     ata e (cf_usdcMint cfg) (round_pda e rid) True = Inr vault \<and> ata e (cf_usdcMint cfg) k False = Inr own \<and>
     (\<exists>s. fst (run_state (getUserUsdcBalanceRaw c own) s) = Inr balance) \<and>
     ce_anchor e ''depositAny'' [ArgBN rid, ArgBN balance, ArgBN amount]
       [(''user'', Some k), (''config'', Some (config_pda e)), (''round'', Some (round_pda e rid)),
        (''participant'', Some (participant_pda e (round_pda e rid) k)), (''userUsdcAta'', Some own), (''vaultUsdcAta'', Some vault),
        (''tokenProgram'', Some (TOKEN_PROGRAM_ID (ce_programs e))),
        (''systemProgram'', Some (SystemProgram_programId (ce_programs e)))] = Inr ix \<and>
     ixs = [ac_createAtaIdempotent c k own k (cf_usdcMint cfg), ix])"

text \<open>
  An end point answers every request, turns away what it must, and hands out a transaction only to the
  account that asks for it, which pays for it, with the instructions \<open>P\<close> allows.
\<close>

definition hands_out :: "('pk \<Rightarrow> 'pk instruction list \<Rightarrow> bool) \<Rightarrow> 'pk response \<Rightarrow> bool" where
  "hands_out P r \<longleftrightarrow> (case rp_payload r of
     Some (PostResponse payer _ ixs _) \<Rightarrow> rp_status r = 200 \<and> P payer ixs
   | _ \<Rightarrow> True)"

definition end_point :: "('w, 'pk) actions_env \<Rightarrow> request \<Rightarrow> ('pk \<Rightarrow> 'pk instruction list \<Rightarrow> bool) \<Rightarrow> ('w, 'pk response) action \<Rightarrow> bool" where
  "end_point c req P handler \<longleftrightarrow> (\<forall>s. case fst (run_state handler s) of
     Inl _ \<Rightarrow> False
   | Inr r \<Rightarrow> hands_out (\<lambda>payer ixs. requested_by c req payer \<and> P payer ixs) r \<and>
       (case turned_away c req of Some status \<Rightarrow> rp_status r = status \<and> hands_out (\<lambda>_ _. False) r | None \<Rightarrow> True))"

subsection \<open>Rules\<close>

lemma returns_rpc: "valid (\<lambda>_. True) (rpc m) (returns (\<lambda>y. \<exists>w. fst (run_state m w) = Inr y))"
proof (rule validI)
  fix s r t assume "run_state (rpc m) s = (r, t)"
  then show "returns (\<lambda>y. \<exists>w. fst (run_state m w) = Inr y) r t"
    by (cases "run_state m (ac_world s)"; cases "fst (run_state m (ac_world s))")
      (auto simp: rpc_def returns_def intro!: exI [of _ "ac_world s"])
qed

lemma returns_plain: "valid (\<lambda>_. True) (liftE (plain r)) (returns (\<lambda>x. r = Inr x))"
  by (rule returns_weaken [OF returns_lift]) (cases r; simp add: plain_def)

lemma returns_config: "valid (\<lambda>_. True) (fetchParsedConfig c) (returns (configured c))"
  unfolding fetchParsedConfig_def api_throw_def
  by (intro returns_bind [OF returns_rpc] returns_option returns_throw returns_ret) (auto simp: configured_def)

lemma returns_round: "valid (\<lambda>_. True) (parseRoundE c data) (returns (\<lambda>rd. parseRound (ce_sdk (ac_chain c)) data = Some rd))"
  unfolding parseRoundE_def by (intro returns_option returns_throw returns_ret)

lemma returns_asked:
  "valid (\<lambda>_. True) (query_or_find c req search) (returns (\<lambda>q. parseOptionalRoundId c req = Inr (Some q) \<or>
     parseOptionalRoundId c req = Inr None \<and> (\<exists>r s. fst (run_state search s) = Inr r \<and> q = of_int r)))"
  unfolding query_or_find_def
  by (intro returns_bind [OF returns_lift] returns_option returns_bind [OF returns_answer] returns_ret) auto

lemma returns_resolved:
  "valid (\<lambda>_. True) (resolveRoundId c req mode) (returns (\<lambda>(q, _). parseOptionalRoundId c req = Inr (Some q) \<or>
     parseOptionalRoundId c req = Inr None \<and> (\<exists>r s. fst (run_state (scanRoundIds c mode) s) = Inr r \<and> q = of_int r)))"
  unfolding resolveRoundId_def
  by (intro returns_bind [OF returns_lift] returns_option returns_bind [OF returns_answer] returns_ret) auto

lemma returns_account:
  "valid (\<lambda>_. True) (liftE (requireAccount c body))
     (returns (\<lambda>k. \<exists>raw. json_field body ''account'' = Some (JStr raw) \<and> parsePublicKey (ce_sdk (ac_chain c)) raw = Some k))"
  by (rule returns_weaken [OF returns_lift])
    (auto simp: requireAccount_def split: option.splits json.splits if_splits)

lemma returns_transaction:
  assumes "P k ixs"
  shows "valid (\<lambda>_. True) (buildActionTxResponse c k ixs msg) (returns (hands_out P))"
  unfolding buildActionTxResponse_def
  by (intro returns_bind [OF returns_any] returns_ret) (use assms in \<open>simp add: hands_out_def\<close>)

lemma hands_out_json [simp]: "hands_out P (json_response st j)" "hands_out P (external_link u msg)" "hands_out P (jsonError st code msg)"
  by (simp_all add: hands_out_def json_response_def external_link_def jsonError_def)

lemmas returns_rules = returns_bind [OF returns_config] returns_bind [OF returns_plain] returns_bind [OF returns_round]
  returns_bind [OF returns_rpc] returns_bind [OF returns_lift]

subsection \<open>The end points\<close>

lemma gets_hand_out_nothing:
  "valid (\<lambda>_. True) (join_get c req) (returns (hands_out P))" "valid (\<lambda>_. True) (join_batch_get c req) (returns (hands_out P))"
  "valid (\<lambda>_. True) (claim_get c req) (returns (hands_out P))" "valid (\<lambda>_. True) (claim_refund_get c req) (returns (hands_out P))"
  "valid (\<lambda>_. True) (claim_degen_get c req) (returns (hands_out P))"
  unfolding join_get_def join_batch_get_def claim_get_def claim_refund_get_def claim_degen_get_def Let_def
  by (intro returns_bind [OF returns_any] returns_prod returns_ret hands_out_json)+

text \<open>What a POST does first, and what it needs for that.\<close>

definition names_account :: "('w, 'pk) actions_env \<Rightarrow> request \<Rightarrow> 'pk \<Rightarrow> bool" where
  "names_account c req k \<longleftrightarrow> (\<exists>body raw. parseBody c req = Inr body \<and> json_field body ''account'' = Some (JStr raw) \<and>
     parsePublicKey (ce_sdk (ac_chain c)) raw = Some k)"

lemma post_returns:
  assumes "\<And>k. names_account c req k \<Longrightarrow> valid (\<lambda>_. True) (f k) (returns (hands_out (\<lambda>payer ixs. names_account c req payer \<and> P payer ixs)))"
  shows "valid (\<lambda>_. True) (bindE (liftE (parseBody c req)) (\<lambda>body. bindE (liftE (requireAccount c body)) f))
    (returns (hands_out (\<lambda>payer ixs. names_account c req payer \<and> P payer ixs)))"
  by (rule returns_bind [OF returns_lift], rule returns_bind [OF returns_account], rule assms)
    (unfold names_account_def, blast)

lemma post_turned_away:
  assumes "turned_away c req = Some status" and "rq_method req = ''POST''"
  shows "\<exists>e. error_status e = status \<and>
    run_state (bindE (liftE (parseBody c req)) (\<lambda>body. bindE (liftE (requireAccount c body)) f)) s = (Inl e, s)"
proof (cases "parseBody c req")
  case (Inl e)
  then have "\<exists>m. e = PlainError m"
    by (auto simp: parseBody_def plain_def map_sum_def split: req_body.splits sum.splits)
  with Inl assms show ?thesis by (auto simp: turned_away_def error_status_def)
next
  case (Inr body)
  with assms have "\<exists>code msg. requireAccount c body = Inl (ApiError 400 code msg) \<and> status = 400"
    by (auto simp: turned_away_def requireAccount_def split: option.splits json.splits if_splits)
  with Inr show ?thesis by (auto simp: error_status_def)
qed

lemma withHandler_run:
  "\<exists>r. fst (run_state (withHandler m) s) = Inr r \<and>
     (case fst (run_state m s) of Inl e \<Rightarrow> rp_status r = error_status e \<and> (\<forall>P. hands_out P r) | Inr x \<Rightarrow> r = x)"
  by (cases "run_state m s"; cases "fst (run_state m s)") (auto simp: withHandler_def jsonError_def json_response_def hands_out_def)

lemma dispatch_end_point:
  assumes get: "\<And>P. valid (\<lambda>_. True) get (returns (hands_out P))"
    and post: "post = bindE (liftE (parseBody c req)) (\<lambda>body. bindE (liftE (requireAccount c body)) f)"
    and named: "\<And>k. names_account c req k \<Longrightarrow> valid (\<lambda>_. True) (f k) (returns (hands_out (\<lambda>payer ixs. names_account c req payer \<and> P payer ixs)))"
  shows "end_point c req P (dispatch req get post)"
  unfolding end_point_def
proof
  fix s
  have "valid (\<lambda>_. True) post (returns (hands_out (\<lambda>payer ixs. names_account c req payer \<and> P payer ixs)))"
    unfolding post by (rule post_returns [OF named])
  note r = returnsD [OF this]
  note g = returnsD [OF get]
  obtain rp rg where rp: "fst (run_state (withHandler post) s) = Inr rp" "case fst (run_state post s) of
      Inl e \<Rightarrow> rp_status rp = error_status e \<and> (\<forall>P. hands_out P rp) | Inr x \<Rightarrow> rp = x"
    and rg: "fst (run_state (withHandler get) s) = Inr rg" "case fst (run_state get s) of
      Inl e \<Rightarrow> rp_status rg = error_status e \<and> (\<forall>P. hands_out P rg) | Inr x \<Rightarrow> rg = x"
    using withHandler_run [of post s] withHandler_run [of get s] by blast
  have rg': "hands_out P' rg" for P' using rg(2) g by (auto split: sum.splits)
  have away: "rp_status rp = status \<and> hands_out (\<lambda>_ _. False) rp"
    if away: "turned_away c req = Some status" "rq_method req = ''POST''" for status
    using post_turned_away [OF away, of f s] rp(2) unfolding post [symmetric] by auto
  have rp': "hands_out (\<lambda>payer ixs. names_account c req payer \<and> P payer ixs) rp"
    using rp(2) r by (auto split: sum.splits)
  show "case fst (run_state (dispatch req get post) s) of
     Inl _ \<Rightarrow> False
   | Inr r \<Rightarrow> hands_out (\<lambda>payer ixs. requested_by c req payer \<and> P payer ixs) r \<and>
       (case turned_away c req of Some status \<Rightarrow> rp_status r = status \<and> hands_out (\<lambda>_ _. False) r | None \<Rightarrow> True)"
  proof (cases "rq_method req = ''POST''")
    case True
    then show ?thesis using rp(1) rp' away
      by (auto simp: dispatch_def maybeHandleOptions_def requested_by_def names_account_def split: option.splits)
  next
    case False
    then show ?thesis using rg(1) rg'
      by (auto simp: dispatch_def maybeHandleOptions_def turned_away_def withHandler_def method_not_allowed_def)
        (auto simp: hands_out_def json_response_def)
  qed
qed

lemma claim_end_point: "end_point c req (claim_instructions c req) (claim_handler c req)"
proof -
  have payer: "valid (\<lambda>_. True) (if rd_vrfPayer rd = pk_default (ce_sdk (ac_chain c)) then returnE None
      else bindE (liftE (plain (ata (ac_chain c) mint (rd_vrfPayer rd) False))) (\<lambda>k. returnE (Some k)))
    (returns (\<lambda>payerAta. if rd_vrfPayer rd = pk_default (ce_sdk (ac_chain c)) then payerAta = None
      else \<exists>a. ata (ac_chain c) mint (rd_vrfPayer rd) False = Inr a \<and> payerAta = Some a))" for rd mint
    by (intro returns_if returns_bind [OF returns_plain] returns_ret) auto
  show ?thesis
    unfolding claim_handler_def
    apply (rule dispatch_end_point [OF gets_hand_out_nothing(3)])
     apply (simp only: claim_post_def Let_def)
    apply (simp only: api_throw_def)
    apply (intro returns_bind [OF returns_asked] returns_rules returns_option returns_throw returns_bind [OF payer] returns_transaction conjI)
     apply assumption
    apply (unfold claim_instructions_def Let_def asked_round_def)
    by blast
qed

lemma refund_end_point: "end_point c req (refund_instructions c req) (claim_refund_handler c req)"
  unfolding claim_refund_handler_def
  apply (rule dispatch_end_point [OF gets_hand_out_nothing(4)])
   apply (simp only: claim_refund_post_def Let_def)
  apply (intro returns_bind [OF returns_asked] returns_rules returns_transaction conjI)
   apply assumption
  apply (unfold refund_instructions_def Let_def asked_round_def)
  by blast

lemma join_end_point: "end_point c req (join_instructions c req) (join_handler c req)"
  unfolding join_handler_def
  apply (rule dispatch_end_point [OF gets_hand_out_nothing(1)])
   apply (simp only: join_post_def Let_def)
  apply (intro returns_bind [OF returns_resolved] returns_rules returns_bind [OF returns_answer] returns_prod returns_transaction conjI)
   apply assumption
  apply (unfold join_instructions_def Let_def asked_round_def)
  by blast

lemma launcher_end_points:
  "end_point c req (\<lambda>_ _. False) (join_batch_handler c req)" "end_point c req (\<lambda>_ _. False) (claim_degen_handler c req)"
proof -
  show "end_point c req (\<lambda>_ _. False) (join_batch_handler c req)"
    unfolding join_batch_handler_def
    by (rule dispatch_end_point [OF gets_hand_out_nothing(2)], simp only: join_batch_post_def Let_def)
      (intro returns_bind [OF returns_any] returns_ret hands_out_json)
  show "end_point c req (\<lambda>_ _. False) (claim_degen_handler c req)"
    unfolding claim_degen_handler_def
    by (rule dispatch_end_point [OF gets_hand_out_nothing(5)], simp only: claim_degen_post_def Let_def)
      (intro returns_bind [OF returns_any] returns_ret hands_out_json)
qed

text \<open>C21. Every end point of the API that takes a POST answers every request, whatever the network does, and hands out a transaction only
  to the account that the body of the request names, which pays for it. A claim pays the USDC account of that account from the vault of
  the round that the query names, or that the search for a claimable round found, with the treasury of the configuration; a refund pays
  it likewise for a refundable round; a join deposits the amount of the query from it into the vault of the round. The end points for batches and
  degen claims hand out none. Other methods get the status 405 (a preflight 204), a body that is no JSON 500, and one without a valid account 400.\<close>

theorem transactions_for_requester:
  "end_point c req (claim_instructions c req) (claim_handler c req) \<and>
   end_point c req (refund_instructions c req) (claim_refund_handler c req) \<and>
   end_point c req (join_instructions c req) (join_handler c req) \<and>
   end_point c req (\<lambda>_ _. False) (join_batch_handler c req) \<and>
   end_point c req (\<lambda>_ _. False) (claim_degen_handler c req)"
  by (intro conjI claim_end_point refund_end_point join_end_point launcher_end_points)

section \<open>Searching back\<close>

text \<open>The chain as the searches see it, when no account changes meanwhile.\<close>

definition snapshot :: "('w, 'pk) actions_env \<Rightarrow> ('pk \<Rightarrow> buffer option) \<Rightarrow> bool" where
  "snapshot c acct \<longleftrightarrow> (\<forall>keys w. run_state (getMultipleAccountsInfo (ac_sv c) keys) w = (Inr (map acct keys), w))"

lemma snapshot_rpc: "snapshot c acct \<Longrightarrow> run_state (rpc (getMultipleAccountsInfo (ac_sv c) keys)) s = (Inr (map acct keys), s)"
  by (simp add: snapshot_def rpc_def)

text \<open>What the two searches have in common: batch by batch, the first hit of a batch ends the search.\<close>

locale batched_search =
  fixes steady :: bool
    and search :: "int list list \<Rightarrow> ('w, int) action"
    and hit :: "int \<Rightarrow> bool"
    and missing :: api_error
  assumes search_Nil: "steady \<Longrightarrow> run_state (search []) s = (Inl missing, s)"
    and search_Cons: "steady \<Longrightarrow> run_state (search (ids # rest)) s =
      (case List.find hit ids of Some r \<Rightarrow> (Inr r, s) | None \<Rightarrow> run_state (search rest) s)"
begin

lemma search_concat:
  "steady \<Longrightarrow> run_state (search batches) s =
     (case List.find hit (concat batches) of Some r \<Rightarrow> Inr r | None \<Rightarrow> Inl missing, s)"
proof (induction batches)
  case (Cons ids rest)
  have "List.find hit (ids @ concat rest) = (case List.find hit ids of Some r \<Rightarrow> Some r | None \<Rightarrow> List.find hit (concat rest))"
    by (induction ids) simp_all
  with Cons show ?case by (simp add: search_Cons split: option.split)
qed (simp add: search_Nil)

end

text \<open>The highest round of an interval that satisfies a condition.\<close>

definition latest_in :: "(int \<Rightarrow> bool) \<Rightarrow> int \<Rightarrow> int \<Rightarrow> int option" where
  "latest_in p low high = (if \<exists>r \<in> {low..high}. p r then Some (Max {r \<in> {low..high}. p r}) else None)"

lemma find_down: "List.find p (map (\<lambda>i. high - int i) [0..<nat (high - low + 1)]) = latest_in p low high"
proof (cases "List.find p (map (\<lambda>i. high - int i) [0..<nat (high - low + 1)])")
  case None
  have "\<not> p r" if "r \<in> {low..high}" for r
  proof -
    have "r \<in> set (map (\<lambda>i. high - int i) [0..<nat (high - low + 1)])"
      using that by (auto intro!: image_eqI [of _ _ "nat (high - r)"])
    with None show ?thesis by (simp only: find_None_iff) blast
  qed
  then show ?thesis using None by (simp add: latest_in_def)
next
  case (Some r)
  then obtain i where i: "i < nat (high - low + 1)" "p (high - int i)" "r = high - int i"
    and first: "\<And>j. j < i \<Longrightarrow> \<not> p (high - int j)"
    by (auto simp: find_Some_iff)
  have r: "r \<in> {low..high}" "p r" using i by auto
  have "r' \<le> r" if "r' \<in> {low..high}" "p r'" for r'
  proof (rule ccontr)
    assume "\<not> r' \<le> r"
    then have "nat (high - r') < i" "int (nat (high - r')) = high - r'" using that(1) i(3) by (auto simp: nat_less_iff)
    with first [of "nat (high - r')"] that(2) show False by simp
  qed
  moreover have "finite {r \<in> {low..high}. p r}" by (rule finite_subset [of _ "{low..high}"]) auto
  ultimately have "Max {r \<in> {low..high}. p r} = r" using r by (intro Max_eqI) auto
  with Some r show ?thesis by (auto simp: latest_in_def)
qed

lemma first_match_zip: "first_match p (zip ids (map f ids)) = List.find (\<lambda>r. p (f r)) ids"
  by (induction ids) (simp_all add: first_match_def)

lemma find_filter: "List.find p (filter q xs) = List.find (\<lambda>x. q x \<and> p x) xs"
  by (induction xs) simp_all

abbreviation (input) claimable where
  "claimable c acct winner r \<equiv> claimable_by (ce_sdk (ac_chain c)) winner (acct (round_pda (ac_chain c) r))"

abbreviation (input) refundable where
  "refundable c acct user r \<equiv> is_cancelled (ce_sdk (ac_chain c)) (acct (round_pda (ac_chain c) r)) \<and>
     refundable_to (ce_sdk (ac_chain c)) user (acct (participant_pda (ac_chain c) (round_pda (ac_chain c) r) user))"

interpretation claims: batched_search "snapshot c acct" "searchClaimable c winner" "\<lambda>r. claimable c acct winner r"
  "ApiError 404 ''NO_UNCLAIMED_PRIZE'' ''No claimable prize found in recent rounds''" for c acct winner
proof (unfold_locales, goal_cases)
  case (1 s)
  then show ?case by (simp add: api_throw_def)
next
  case (2 ids rest s)
  then show ?case
    using first_match_zip [of "claimable_by (ce_sdk (ac_chain c)) winner" ids "\<lambda>r. acct (round_pda (ac_chain c) r)"]
    by (simp add: snapshot_rpc comp_def split: option.split)
qed

lemma cancelled_zip: "map fst (filter (\<lambda>(_, info). p info) (zip ids (map f ids))) = filter (\<lambda>r. p (f r)) ids"
  by (induction ids) simp_all

interpretation refunds: batched_search "snapshot c acct" "searchRefundable c user" "\<lambda>r. refundable c acct user r"
  "ApiError 404 ''NO_REFUND_AVAILABLE'' ''No refundable cancelled round found in recent rounds''" for c acct user
proof (unfold_locales, goal_cases)
  case (1 s)
  then show ?case by (simp add: api_throw_def)
next
  case (2 ids rest s)
  let ?cancelled = "filter (\<lambda>r. is_cancelled (ce_sdk (ac_chain c)) (acct (round_pda (ac_chain c) r))) ids"
  let ?part = "\<lambda>r. acct (participant_pda (ac_chain c) (round_pda (ac_chain c) r) user)"
  have ids: "map fst (filter (\<lambda>(_, info). is_cancelled (ce_sdk (ac_chain c)) info) (zip ids (map (\<lambda>r. acct (round_pda (ac_chain c) r)) ids))) =
      ?cancelled" by (rule cancelled_zip)
  have match: "first_match (refundable_to (ce_sdk (ac_chain c)) user) (zip ?cancelled (map ?part ?cancelled)) =
      List.find (\<lambda>r. refundable c acct user r) ids"
    unfolding first_match_zip by (rule find_filter)
  show ?case
  proof (cases "?cancelled = []")
    case True
    then have "List.find (\<lambda>r. refundable c acct user r) ids = None" using match by (simp add: first_match_def)
    then show ?thesis using 2 True by (simp add: snapshot_rpc comp_def Let_def ids del: map_is_Nil_conv list.map_disc_iff)
  next
    case False
    then show ?thesis using 2 match by (simp add: snapshot_rpc comp_def Let_def ids del: map_is_Nil_conv list.map_disc_iff split: option.split)
  qed
qed

definition search_result :: "api_error \<Rightarrow> int option \<Rightarrow> api_error + int" where
  "search_result missing r = (case r of Some r \<Rightarrow> Inr r | None \<Rightarrow> Inl missing)"

text \<open>C22. On an unchanging chain the two searches return the latest of the last 301 rounds that the account
  can claim, or get a refund from, and otherwise say that there is none.\<close>

theorem searches_find_latest:
  assumes "snapshot c acct" and "run_state (getLatestKnownRoundId c) s = (Inr latest, t)"
  shows "run_state (findLatestClaimableRoundId c account) s =
      (search_result (ApiError 404 ''NO_UNCLAIMED_PRIZE'' ''No claimable prize found in recent rounds'')
        (latest_in (\<lambda>r. claimable_by (ce_sdk (ac_chain c)) account (acct (round_pda (ac_chain c) r)))
           (max 1 (latest - 300)) latest), t) \<and>
    run_state (findLatestRefundableRoundId c account) s =
      (search_result (ApiError 404 ''NO_REFUND_AVAILABLE'' ''No refundable cancelled round found in recent rounds'')
        (latest_in (\<lambda>r. is_cancelled (ce_sdk (ac_chain c)) (acct (round_pda (ac_chain c) r)) \<and>
             refundable_to (ce_sdk (ac_chain c)) account (acct (participant_pda (ac_chain c) (round_pda (ac_chain c) r) account)))
           (max 1 (latest - 300)) latest), t)"
  unfolding search_result_def find_down [symmetric]
  using assms claims.search_concat [OF assms(1)] refunds.search_concat [OF assms(1)]
  by (simp add: findLatestClaimableRoundId_def findLatestRefundableRoundId_def lookback_concat ELIGIBILITY_LOOKBACK_ROUNDS_def)

section \<open>The current round\<close>

lemma scanInfos_empty:
  assumes "as_maxExisting v = 0"
  shows "scanInfos sdk (zip ids (map (\<lambda>_. None) ids)) v = v\<lparr>as_nullStreak := as_nullStreak v + int (length ids)\<rparr>"
  using assms by (induction ids arbitrary: v) (auto simp: api_scan_done_def Let_def add.assoc)

lemma scanBatches_empty:
  assumes "snapshot c acct" and "\<forall>base \<in> set bases. \<forall>i < ROUND_SCAN_BATCH. acct (round_pda (ac_chain c) (base + int i)) = None"
    and "as_maxExisting v = 0" "as_activeRound v = 0" "as_joinableRound v = 0"
  shows "\<exists>v'. run_state (scanBatches c bases v) s = (Inr v', s) \<and> as_maxExisting v' = 0 \<and> as_activeRound v' = 0 \<and> as_joinableRound v' = 0"
  using assms(2-5)
proof (induction bases arbitrary: v)
  case (Cons base bases)
  let ?ids = "map (\<lambda>i. base + int i) [0..<ROUND_SCAN_BATCH]"
  have "map acct (map (round_pda (ac_chain c)) ?ids) = map (\<lambda>_. None) ?ids" using Cons.prems(1) by simp
  with Cons.IH [of "v\<lparr>as_nullStreak := as_nullStreak v + int (length ?ids)\<rparr>"] Cons.prems scanInfos_empty [OF Cons.prems(2), of "ce_sdk (ac_chain c)" ?ids]
  show ?case by (auto simp: snapshot_rpc [OF assms(1)] Let_def api_scan_done_def simp del: map_map)
qed simp

text \<open>C23. A cold scan sees the rounds 1 to 220 only. Once their accounts are closed, which the crank does with
  every finished round, an instance of the API that has just started answers with round 1, and
  with \<open>NO_OPEN_ROUND\<close> to those who want to join, whatever rounds are open beyond.\<close>

theorem cold_scan_blind:
  assumes "snapshot c acct" and "\<forall>r \<in> {1..220}. acct (round_pda (ac_chain c) r) = None"
    and "currentRoundCache s = \<lparr>tsMs = 0, activeRoundId = None, joinableRoundId = None\<rparr>"
  shows "fst (run_state (scanRoundIds c ActiveMode) s) = Inr 1 \<and>
    fst (run_state (scanRoundIds c JoinableMode) s) = Inl (ApiError 404 ''NO_OPEN_ROUND'' ''No open round found'')"
proof -
  let ?v = "\<lparr>as_maxExisting = 0, as_activeRound = 0, as_joinableRound = 0, as_nullStreak = 0\<rparr>"
  have bases: "scan_bases 1 = [1, 21, 41, 61, 81, 101, 121, 141, 161, 181, 201]" by code_simp
  have re: "fst (run_state (rescan c ActiveMode now 1) t) = Inr 1 \<and>
    fst (run_state (rescan c JoinableMode now 1) t) = Inl (ApiError 404 ''NO_OPEN_ROUND'' ''No open round found'')" for now t
  proof -
    have "\<exists>v'. run_state (scanBatches c (scan_bases 1) ?v) t = (Inr v', t) \<and> as_maxExisting v' = 0 \<and> as_activeRound v' = 0 \<and> as_joinableRound v' = 0"
      using assms(2) by (intro scanBatches_empty [OF assms(1)]) (auto simp: bases ROUND_SCAN_BATCH_def)
    then obtain v' where "run_state (scanBatches c (scan_bases 1) ?v) t = (Inr v', t)" "as_maxExisting v' = 0" "as_activeRound v' = 0"
      "as_joinableRound v' = 0" by blast
    then show ?thesis by (simp add: rescan_def cache_of_scan_def mode_round_def no_round_error_def State_Monad.update_def)
  qed
  obtain now t where now: "run_state (dateNowMs c) s = (Inr now, t)" "currentRoundCache t = currentRoundCache s"
    by (cases "run_state (dateNow (ac_sv c)) (ac_world s)") (simp add: dateNowMs_def rpc_def)
  with re assms(3) show ?thesis
    by (auto simp: scanRoundIds_def Let_def mode_round_def seed_round_def)
qed

section \<open>An environment\<close>

text \<open>For the witnesses: a world without state, keys that are words, numbers without rounding.\<close>

definition demo_actions :: "((256 word) \<Rightarrow> buffer option) \<Rightarrow> (unit, 256 word) actions_env" where
  "demo_actions acct = \<lparr>ac_sv = demo_services acct, ac_chain = demo_env, ac_ieee = Finite,
     parseJson = (\<lambda>s. Inr (JObj [(''account'', JStr s)])), showNumber = (\<lambda>_. ''7''), bnOfNumber = (\<lambda>q. Inr \<lfloor>q\<rfloor>),
     ac_getTokenAccountBalance = (\<lambda>_. State_Monad.return (Inr 5000000)), ac_createAtaIdempotent = (\<lambda>_ _ _ _. demo_ix),
     ac_compile = (\<lambda>_ _ _. Inr ())\<rparr>"

lemma demo_snapshot: "snapshot (demo_actions acct) acct"
  by (simp add: snapshot_def demo_actions_def demo_services_def)

definition demo_cold :: "unit actions" where
  "demo_cold = \<lparr>currentRoundCache = \<lparr>tsMs = 0, activeRoundId = None, joinableRoundId = None\<rparr>, ac_world = ()\<rparr>"

theorem cold_scan_blind_witness:
  "fst (run_state (scanRoundIds (demo_actions (\<lambda>_. None)) ActiveMode) demo_cold) = Inr 1 \<and>
   fst (run_state (scanRoundIds (demo_actions (\<lambda>_. None)) JoinableMode) demo_cold) =
     Inl (ApiError 404 ''NO_OPEN_ROUND'' ''No open round found'')"
  using cold_scan_blind [OF demo_snapshot, of "\<lambda>_. None" demo_cold] by (simp add: demo_cold_def)

text \<open>A chain on which every round is settled and won by the account with the key 0.\<close>

definition demo_settled :: buffer where
  "demo_settled = replicate 16 0 @ [3] @ replicate 160 0"

definition demo_warm :: "unit actions" where
  "demo_warm = \<lparr>currentRoundCache = \<lparr>tsMs = 999000, activeRoundId = Some 40, joinableRoundId = None\<rparr>, ac_world = ()\<rparr>"

lemma demo_settled_claimable: "claimable_by demo_sdk 0 (Some demo_settled)"
  by (simp add: claimable_by_def parseRound_def demo_settled_def getBigUint64_def getBigInt64_def getUint16_def get_uint_def
      js_at_def subarray_def Settled_def demo_sdk_def nth_append le_uint_zeros Let_def)

theorem searches_find_latest_witness:
  "fst (run_state (findLatestClaimableRoundId (demo_actions (\<lambda>_. Some demo_settled)) 0) demo_warm) = Inr 40"
proof -
  have "run_state (getLatestKnownRoundId (demo_actions (\<lambda>_. Some demo_settled))) demo_warm = (Inr 40, demo_warm)"
    by (simp add: getLatestKnownRoundId_def scanRoundIds_def dateNowMs_def rpc_def demo_actions_def demo_services_def
        demo_warm_def mode_round_def CURRENT_ROUND_CACHE_TTL_MS_def Let_def)
  from searches_find_latest [OF demo_snapshot this, of 0]
  have "fst (run_state (findLatestClaimableRoundId (demo_actions (\<lambda>_. Some demo_settled)) 0) demo_warm) =
      search_result (ApiError 404 ''NO_UNCLAIMED_PRIZE'' ''No claimable prize found in recent rounds'') (latest_in (\<lambda>r. True) 1 40)"
    by (simp add: demo_settled_claimable demo_actions_def demo_env_def)
  moreover have "latest_in (\<lambda>r. True) 1 40 = Some 40"
    unfolding find_down [symmetric] by (simp add: upt_conv_Cons)
  ultimately show ?thesis by (simp add: search_result_def)
qed

end
