(* ===== verification/Join_Flow.thy ===== *)
theory Join_Flow
  imports Actions_Props Jackpot_Demo
begin

text \<open>
  The API's join transaction meets the on-chain deposit: \<open>api/actions/join.ts\<close> fills the argument
  \<open>usdc_balance_before\<close> of \<open>deposit_any\<close> with the balance at the time of the request, and no instruction of the
  transaction adds to that balance.
\<close>

lemma bindE_Inr:
  "run_state (bindE m f) s = (Inr y, t) \<longleftrightarrow> (\<exists>x u. run_state m s = (Inr x, u) \<and> run_state (f x) u = (Inr y, t))"
  by (auto split: prod.splits sum.splits)

lemma liftE_Inr: "run_state (liftE r) s = (Inr x, t) \<longleftrightarrow> r = Inr x \<and> t = s"
  by auto

lemma parseUsdcAmountRaw_pos: "parseUsdcAmountRaw c req = Inr n \<Longrightarrow> 0 < n"
  by (auto simp: parseUsdcAmountRaw_def split: option.splits js_number.splits if_splits)

lemma balance_result:
  assumes "run_state (getUserUsdcBalanceRaw c k) s = (Inr b, t)"
  shows "\<exists>w. b = (case fst (run_state (ac_getTokenAccountBalance c k) w) of Inl _ \<Rightarrow> 0 | Inr n \<Rightarrow> n)"
  using assms
  by (cases "run_state (ac_getTokenAccountBalance c k) (ac_world s)")
    (auto simp: getUserUsdcBalanceRaw_def rpc_def intro!: exI [of _ "ac_world s"] split: sum.splits)

lemma join_post_shape:
  assumes "run_state (join_post c req) s = (Inr resp, s')"
  obtains user blockhash create ix msg id b amount accs k w where
    "rp_payload resp = Some (PostResponse user blockhash [create, ix] msg)"
    "ce_anchor (ac_chain c) ''depositAny'' [ArgBN id, ArgBN b, ArgBN amount] accs = Inr ix" "0 < amount"
    "parseUsdcAmountRaw c req = Inr amount"
    "b = (case fst (run_state (ac_getTokenAccountBalance c k) w) of Inl _ \<Rightarrow> 0 | Inr n \<Rightarrow> n)"
proof -
  from assms obtain user amount b ix id accs k t1 t2 create msg t3 where
    amount: "parseUsdcAmountRaw c req = Inr amount"
    and bal: "run_state (getUserUsdcBalanceRaw c k) t1 = (Inr b, t2)"
    and ix: "plain (ce_anchor (ac_chain c) ''depositAny'' [ArgBN id, ArgBN b, ArgBN amount] accs) = Inr ix"
    and resp: "run_state (buildActionTxResponse c user [create, ix] msg) t3 = (Inr resp, s')"
    unfolding join_post_def Let_def bindE_Inr liftE_Inr split_beta by blast
  from resp obtain blockhash where "rp_payload resp = Some (PostResponse user blockhash [create, ix] msg)"
    unfolding buildActionTxResponse_def bindE_Inr by auto
  moreover have "ce_anchor (ac_chain c) ''depositAny'' [ArgBN id, ArgBN b, ArgBN amount] accs = Inr ix"
    using ix by (auto simp: plain_def map_sum_def split: sum.splits)
  ultimately show ?thesis using that amount parseUsdcAmountRaw_pos [OF amount] balance_result [OF bal] by blast
qed

text \<open>C20. The deposit of a join transaction that the API returns cannot do what it says. While the
  user's balance is what the API read, the chain rejects it with \<open>SlippageExceeded\<close>, as nothing was added to the balance; when the
  balance could not be read, the API says 0 and the chain takes everything the user has.\<close>

theorem join_deposit_fails_or_takes_all:
  assumes "run_state (join_post c req) s = (Inr resp, s')" and "\<forall>k w. fst (run_state (ac_getTokenAccountBalance c k) w) = balance"
  shows "\<exists>user blockhash create ix msg id b amount accs.
    rp_payload resp = Some (PostResponse user blockhash [create, ix] msg) \<and>
    ce_anchor (ac_chain c) ''depositAny'' [ArgBN id, ArgBN b, ArgBN amount] accs = Inr ix \<and>
    parseUsdcAmountRaw c req = Inr amount \<and> 0 < amount \<and>
    (\<forall>config ua. amount < 2 ^ 64 \<and> balance = Inr (uint (tk_amount ua)) \<longrightarrow>
       deposit_amounts config ua (of_int b) (of_int amount) = fail SlippageExceeded) \<and>
    (\<forall>config ua e. balance = Inl e \<and> amount \<le> uint (tk_amount ua) \<and> cv_ticket_unit config \<noteq> 0 \<and> cv_ticket_unit config \<le> tk_amount ua \<longrightarrow>
       deposit_amounts config ua (of_int b) (of_int amount) = Inr (tk_amount ua, tk_amount ua div cv_ticket_unit config))"
proof -
  obtain user blockhash create ix msg id b amount accs k w where
    h: "rp_payload resp = Some (PostResponse user blockhash [create, ix] msg)"
      "ce_anchor (ac_chain c) ''depositAny'' [ArgBN id, ArgBN b, ArgBN amount] accs = Inr ix" "0 < amount"
      "parseUsdcAmountRaw c req = Inr amount"
    and "b = (case fst (run_state (ac_getTokenAccountBalance c k) w) of Inl _ \<Rightarrow> 0 | Inr n \<Rightarrow> n)"
    by (rule join_post_shape [OF assms(1)])
  with assms(2) have b: "b = (case balance of Inl _ \<Rightarrow> 0 | Inr n \<Rightarrow> n)" by metis
  have "deposit_amounts config ua (of_int b) (of_int amount) = fail SlippageExceeded"
    if "amount < 2 ^ 64" "balance = Inr (uint (tk_amount ua))" for config ua
  proof -
    have "uint (of_int amount :: 64 word) = amount" using that(1) h(3) by (simp add: uint_word_of_int)
    then have "(0 :: 64 word) < of_int amount" using h(3) by (simp add: word_less_def)
    then show ?thesis using that(2) b by (simp add: deposit_amounts_def checked_sub_u64_def and_then_def ok_or_def)
  qed
  moreover have "deposit_amounts config ua (of_int b) (of_int amount) = Inr (tk_amount ua, tk_amount ua div cv_ticket_unit config)"
    if e: "balance = Inl e" and le: "amount \<le> uint (tk_amount ua)" and unit: "cv_ticket_unit config \<noteq> 0" "cv_ticket_unit config \<le> tk_amount ua"
    for config ua e
  proof -
    have "uint (of_int amount :: 64 word) = amount"
      using le h(3) uint_lt2p [of "tk_amount ua"] by (simp add: uint_word_of_int)
    with le have "\<not> tk_amount ua < of_int amount" by (simp add: word_less_def)
    moreover have "tk_amount ua div cv_ticket_unit config \<noteq> 0"
      using unit by (simp add: word_unat_eq_iff unat_div div_eq_0_iff word_le_nat_alt)
    ultimately show ?thesis using e b unit by (simp add: deposit_amounts_def checked_sub_u64_def checked_div_u64_def and_then_def ok_or_def)
  qed
  ultimately show ?thesis using h by blast
qed

text \<open>A user with 5 USDC asks to join round 7 with 2 USDC.\<close>

definition demo_join :: request where
  "demo_join = \<lparr>rq_method = ''POST'', rq_body = TextBody ''u'',
     rq_query = [''amount'' \<mapsto> QStr ''2'', ''roundId'' \<mapsto> QStr ''7''], rq_headers = (\<lambda>_. None)\<rparr>"

definition demo_zeros :: "(unit, 256 word) actions_env" where
  "demo_zeros = demo_actions (\<lambda>_. Some (replicate 200 0))"

lemma demo_join_accepted:
  "case run_state (join_post demo_zeros demo_join) demo_cold of (Inr _, _) \<Rightarrow> True | _ \<Rightarrow> False"
  by code_simp

lemma demo_join_amount: "parseUsdcAmountRaw demo_zeros demo_join = Inr 2000000"
  by code_simp

theorem join_deposit_fails_or_takes_all_witness:
  "\<exists>ix id b accs. ce_anchor demo_env ''depositAny'' [ArgBN id, ArgBN b, ArgBN 2000000] accs = Inr ix \<and>
    deposit_amounts demo_config \<lparr>tk_mint = [], tk_owner = [], tk_amount = 5000000\<rparr> (of_int b) 2000000 = fail SlippageExceeded"
proof -
  obtain resp s' where run: "run_state (join_post demo_zeros demo_join) demo_cold = (Inr resp, s')"
    using demo_join_accepted by (auto split: prod.splits sum.splits)
  have balance: "\<forall>k w. fst (run_state (ac_getTokenAccountBalance demo_zeros k) w) = Inr 5000000"
    by (simp add: demo_zeros_def demo_actions_def)
  from join_deposit_fails_or_takes_all [OF run balance] obtain ix id b amount accs where
    ix: "ce_anchor (ac_chain demo_zeros) ''depositAny'' [ArgBN id, ArgBN b, ArgBN amount] accs = Inr ix"
    and amount: "parseUsdcAmountRaw demo_zeros demo_join = Inr amount"
    and rejected: "\<forall>config ua. amount < 2 ^ 64 \<and> (Inr 5000000 :: int result) = Inr (uint (tk_amount ua)) \<longrightarrow>
      deposit_amounts config ua (of_int b) (of_int amount) = fail SlippageExceeded"
    by blast
  have "amount = 2000000" using amount demo_join_amount by simp
  moreover have "ac_chain demo_zeros = demo_env" by (simp add: demo_zeros_def demo_actions_def)
  ultimately show ?thesis
    using ix rejected [rule_format, of "\<lparr>tk_mint = [], tk_owner = [], tk_amount = 5000000\<rparr>" demo_config] by auto
qed

end
