(* ===== verification/Front.thy ===== *)
theory Front
  imports Degen_Executor JS_Number
begin

text \<open>
  The outside of the web front end: the RPC connection, the Firebase database, the wallet and the
  Jupiter API as one record of computations over an outside world, and the readers of
  \<open>src/lib/program.ts\<close> on top of them.

  A document of the database is the record \<open>StoredRound\<close>; a key that the sources read with a
  default may be missing. A missing \<open>winner\<close> is the empty string, which the sources treat alike.
\<close>

record FrontHistoryRound =
  fh_roundId :: int
  fh_status :: int
  fh_totalUsdc :: js_quot
  fh_totalTickets :: int
  fh_participantsCount :: int
  fh_winner :: string
  fh_winningTicket :: int
  fh_randomness :: string
  fh_startTs :: int
  fh_endTs :: int
  fh_claimTx :: "string option"
  fh_vaultUsdcAta :: string
  fh_participants :: "string list"
  fh_participantDeposits :: "ParticipantDeposit list option"

record StoredRound =
  sr_roundId :: int
  sr_status :: int
  sr_totalUsdc :: js_quot
  sr_totalTickets :: "int option"
  sr_participantsCount :: int
  sr_winner :: string
  sr_winningTicket :: "string option"
  sr_randomness :: "string option"
  sr_startTs :: int
  sr_endTs :: int
  sr_claimTx :: "string option"
  sr_vaultUsdcAta :: "string option"
  sr_participants :: "string list option"
  sr_participantDeposits :: "ParticipantDeposit list option"
  sr_archivedAt :: int

text \<open>An error of the database: its code and its message.\<close>

type_synonym fb_error = "string \<times> string"

record 'pk DegenClaimData =
  dd_status :: int
  dd_tokenIndex :: int
  dd_tokenMint :: 'pk

record FrontQuote =
  fq_inputMint :: string
  fq_outputMint :: string
  fq_inAmount :: string
  fq_outAmount :: string
  fq_otherAmountThreshold :: string

text \<open>
  What \<open>fetch\<close> does: it answers, it is aborted by the timeout, it fails with a
  \<open>TypeError\<close> (no connection), or with another error.
\<close>

datatype 'a fetched = Response "'a http_response" | AbortError | NetworkTypeError string | OtherError string

text \<open>The code of an error of the Jupiter API.\<close>

datatype api_code = CodeStr string | CodeNum int

text \<open>A row of the token search of Jupiter, and what the RPC connection tells of a transaction: its keys with whether they sign and
  whether they come from a lookup table, and the token balances before and after it.\<close>

record token_row =
  tr_id :: "string option"
  tr_address :: "string option"
  tr_mint :: "string option"
  tr_symbol :: "string option"
  tr_name :: "string option"
  tr_logoURI :: "string option"
  tr_icon :: "string option"

record token_balance =
  tb_owner :: "string option"
  tb_mint :: string
  tb_uiAmount :: "rat option"

record parsed_tx =
  px_keys :: "(string \<times> bool \<times> bool) list"
  px_pre :: "token_balance list"
  px_post :: "token_balance list"

record UnclaimedPrize =
  up_roundId :: int
  up_winnerAddress :: string
  up_payout :: rat
  up_totalUsdc :: rat
  up_timestamp :: int

text \<open>What \<open>JSON.parse\<close> makes of the stored prizes: an array, one prize in the old format, or something else.\<close>

datatype stored_prizes = PrizeArray "UnclaimedPrize list" | PrizeObject UnclaimedPrize | OtherValue

text \<open>A transaction handed to the wallet: a legacy one, or a versioned one with lookup tables.\<close>

datatype ('pk, 'alt) wallet_tx = LegacyTx "'pk instruction list" | VersionedTx "('pk, 'alt) vtx"

record ('w, 'pk, 'alt) front_env =
  fe_sv :: "('w, 'pk) services"
  fe_chain :: "'pk chain_env"
  fe_db :: bool
  fe_set :: "int \<Rightarrow> StoredRound \<Rightarrow> ('w, fb_error + unit) state"
  fe_get :: "int \<Rightarrow> ('w, StoredRound option result) state"
  fe_last :: "nat \<Rightarrow> ('w, (int \<times> StoredRound) list option result) state"
  fe_degenClaim :: "'pk \<Rightarrow> ('w, 'pk DegenClaimData result) state"
  fe_config :: "'pk \<Rightarrow> ('w, 'pk result) state"
  fe_fl :: "rat \<Rightarrow> rat"
  fe_bn :: "int \<Rightarrow> int result"
  fe_bnOfString :: "string \<Rightarrow> int result"
  fe_apiKey :: string
  fe_quote :: "(string \<times> string) list \<Rightarrow> ('w, FrontQuote fetched) state"
  fe_swap :: "string \<Rightarrow> FrontQuote \<Rightarrow> ('w, JupiterSwapInstructions fetched) state"
  fe_sleep :: "int \<Rightarrow> ('w, unit) state"
  fe_random :: "('w, rat) state"
  fe_COMPUTE_BUDGET_PROGRAM :: 'pk
  fe_decodeBase64 :: "string \<Rightarrow> buffer"
  fe_newLookupTable :: "'pk \<Rightarrow> buffer \<Rightarrow> 'alt result"
  fe_compile :: "('pk, 'alt) vtx \<Rightarrow> unit result"
  fe_errorBody :: "string \<Rightarrow> (string option \<times> string option \<times> api_code option) option"
  fe_balance :: "'pk \<Rightarrow> ('w, (int \<times> int) result) state"
  fe_tokenAccounts :: "'pk \<Rightarrow> ('w, ('pk \<times> buffer option) list result) state"
  fe_decodeAccount :: "buffer \<Rightarrow> 'pk \<times> int"
  fe_createAta :: "'pk \<Rightarrow> 'pk \<Rightarrow> 'pk \<Rightarrow> 'pk \<Rightarrow> 'pk instruction"
  fe_createTransfer :: "'pk \<Rightarrow> 'pk \<Rightarrow> 'pk \<Rightarrow> int \<Rightarrow> 'pk instruction"
  fe_send :: "('pk, 'alt) wallet_tx \<Rightarrow> ('w, string result) state"
  fe_search :: "string \<Rightarrow> ('w, token_row list option fetched) state"
  fe_fetchImage :: "string \<Rightarrow> ('w, (bool \<times> string option) result) state"
  fe_utf8 :: "buffer \<Rightarrow> string"
  fe_TOKEN_METADATA_PROGRAM_ID :: 'pk
  fe_signatures :: "'pk \<Rightarrow> ('w, (string \<times> bool) list result) state"
  fe_parsedTx :: "string \<Rightarrow> ('w, parsed_tx option result) state"
  fe_parsePrizes :: "string \<Rightarrow> stored_prizes result"
  fe_showPrizes :: "UnclaimedPrize list \<Rightarrow> string"
  fe_canStore :: "string \<Rightarrow> bool"

abbreviation "fe_sdk c \<equiv> ce_sdk (fe_chain c)"

text \<open>\<open>v || dflt\<close> on strings.\<close>

definition or_string :: "string option \<Rightarrow> string \<Rightarrow> string" where
  "or_string v dflt = (case v of None \<Rightarrow> dflt | Some s \<Rightarrow> if s = [] then dflt else s)"

section \<open>Readers\<close>

definition fetchRound_front :: "('w, 'pk, 'alt) front_env \<Rightarrow> int \<Rightarrow> ('w, 'pk FrontRoundData option result) state" where
  "fetchRound_front c roundId =
     bindE (getAccountInfo (fe_sv c) (round_pda (fe_chain c) roundId)) (\<lambda>info.
     case info of
       None \<Rightarrow> returnE None
     | Some data \<Rightarrow> (case parseRound_front (fe_sdk c) data of
         None \<Rightarrow> throwE ''RangeError''
       | Some rd \<Rightarrow> returnE (Some rd)))"

definition fetchDegenClaim :: "('w, 'pk, 'alt) front_env \<Rightarrow> int \<Rightarrow> 'pk \<Rightarrow> ('w, 'pk DegenClaimData option result) state" where
  "fetchDegenClaim c roundId winner =
     tryE (bindE (fe_degenClaim c (degen_claim_pda (fe_chain c) roundId winner)) (\<lambda>d. returnE (Some d)))
       (\<lambda>_. returnE None)"

text \<open>Of the configuration the callers use the treasury account only.\<close>

definition fetchConfig :: "('w, 'pk, 'alt) front_env \<Rightarrow> ('w, 'pk result) state" where
  "fetchConfig c = fe_config c (config_pda (fe_chain c))"

section \<open>An environment for witnesses\<close>

definition demo_front :: "((256 word) \<Rightarrow> buffer option) \<Rightarrow> (int \<Rightarrow> StoredRound option) \<Rightarrow> (unit, 256 word, unit) front_env" where
  "demo_front acct docs = \<lparr>fe_sv = demo_services acct, fe_chain = demo_env, fe_db = True,
     fe_set = (\<lambda>_ _. State_Monad.return (Inr ())), fe_get = (\<lambda>i. State_Monad.return (Inr (docs i))),
     fe_last = (\<lambda>_. State_Monad.return (Inr None)), fe_degenClaim = (\<lambda>_. State_Monad.return (Inl ''none'')),
     fe_config = (\<lambda>_. State_Monad.return (Inr 0)), fe_fl = id, fe_bn = Inr, fe_bnOfString = (\<lambda>s. Inr (int (length s))),
     fe_apiKey = ''key'', fe_quote = (\<lambda>_. State_Monad.return AbortError), fe_swap = (\<lambda>_ _. State_Monad.return AbortError),
     fe_sleep = (\<lambda>_. State_Monad.return ()), fe_random = State_Monad.return 0, fe_COMPUTE_BUDGET_PROGRAM = 5,
     fe_decodeBase64 = buffer_from, fe_newLookupTable = (\<lambda>_ _. Inr ()), fe_compile = (\<lambda>_. Inr ()),
     fe_errorBody = (\<lambda>_. None), fe_balance = (\<lambda>_. State_Monad.return (Inr (5000000, 6))),
     fe_tokenAccounts = (\<lambda>_. State_Monad.return (Inr [])), fe_decodeAccount = (\<lambda>_. (0, 0)),
     fe_createAta = (\<lambda>_ _ _ _. demo_ix), fe_createTransfer = (\<lambda>_ _ _ _. demo_ix),
     fe_send = (\<lambda>_. State_Monad.return (Inr ''sig'')), fe_search = (\<lambda>_. State_Monad.return AbortError),
     fe_fetchImage = (\<lambda>_. State_Monad.return (Inl ''none'')), fe_utf8 = map (\<lambda>b. char_of (unat b)), fe_TOKEN_METADATA_PROGRAM_ID = 6,
     fe_signatures = (\<lambda>_. State_Monad.return (Inr [])), fe_parsedTx = (\<lambda>_. State_Monad.return (Inr None)),
     fe_parsePrizes = (\<lambda>_. Inr (PrizeArray [])), fe_showPrizes = (\<lambda>_. []), fe_canStore = (\<lambda>_. True)\<rparr>"

end
