(* ===== verification/Round_History.thy ===== *)
theory Round_History
  imports Front
begin

text \<open>
  The round archive of the front end, \<open>src/lib/roundArchive.ts\<close>, and the history page,
  \<open>src/hooks/useRoundHistory.ts\<close>: the records, the search for the highest round and the paging.

  The search first steps forward in batches until a batch is empty, a loop that need not end: it is
  a \<open>partial_function\<close>, and not returning is \<^const>\<open>None\<close>.
\<close>

section \<open>History records\<close>

definition toHistoryRound :: "('pk, 'm) sdk_scheme \<Rightarrow> 'pk FrontRoundData \<Rightarrow> ParticipantDeposit list option \<Rightarrow> FrontHistoryRound" where
  "toHistoryRound sdk rd deposits =
     \<lparr>fh_roundId = rd_roundId rd, fh_status = rd_status rd, fh_totalUsdc = Quot (rd_totalUsdc rd) (10 ^ 6),
      fh_totalTickets = rd_totalTickets rd, fh_participantsCount = rd_participantsCount rd,
      fh_winner = toBase58 sdk (rd_winner rd), fh_winningTicket = rd_winningTicket rd,
      fh_randomness = hex_string (rd_randomness rd), fh_startTs = rd_startTs rd, fh_endTs = rd_endTs rd,
      fh_claimTx = None, fh_vaultUsdcAta = toBase58 sdk (rd_vaultUsdcAta rd),
      fh_participants = map (toBase58 sdk) (rd_participants rd), fh_participantDeposits = deposits\<rparr>"

definition toHistoryRoundWithDeposits :: "('w, 'pk, 'alt) front_env \<Rightarrow> 'pk FrontRoundData \<Rightarrow> int \<Rightarrow>
    ('w, FrontHistoryRound result) state" where
  "toHistoryRoundWithDeposits c rd roundId =
     (let e = fe_chain c; sdk = ce_sdk e;
          deposit = (\<lambda>addr deposits.
            bindE (tryE
              (bindE (fetchParticipantAccount (fe_sv c) (participant_pda e (round_pda e roundId) addr)) (\<lambda>(usdcTotal, ticketsTotal).
               returnE \<lparr>dp_address = toBase58 sdk addr, dp_usdc = Quot usdcTotal (10 ^ 6), dp_tickets = ticketsTotal\<rparr>))
              (\<lambda>_. returnE \<lparr>dp_address = toBase58 sdk addr,
                 dp_usdc = Quot (rd_totalUsdc rd) (10 ^ 6 * rd_participantsCount rd),
                 dp_tickets = rd_totalTickets rd div rd_participantsCount rd\<rparr>))
            (\<lambda>d. returnE (deposits @ [d])))
      in bindE (foldE deposit (take (nat (rd_participantsCount rd)) (rd_participants rd)) []) (\<lambda>deposits.
         returnE (toHistoryRound sdk rd (Some deposits))))"

section \<open>The archive\<close>

text \<open>\<open>BigInt(string)\<close>.\<close>

definition js_BigInt :: "string \<Rightarrow> int result" where
  "js_BigInt str =
     (let s = js_trim str; digits = (\<lambda>b ds. if ds \<noteq> [] \<and> list_all (is_digit b) ds then Inr (int (digits_value b ds))
            else Inl ''Cannot convert string to a BigInt'') in
      case s of
        [] \<Rightarrow> Inr 0
      | ch # r \<Rightarrow>
          if ch = CHR ''0'' \<and> r \<noteq> [] \<and> hd r \<in> {CHR ''x'', CHR ''X''} then digits 16 (tl r)
          else if ch = CHR ''0'' \<and> r \<noteq> [] \<and> hd r \<in> {CHR ''o'', CHR ''O''} then digits 8 (tl r)
          else if ch = CHR ''0'' \<and> r \<noteq> [] \<and> hd r \<in> {CHR ''b'', CHR ''B''} then digits 2 (tl r)
          else if ch = CHR ''-'' then and_then (digits 10 r) (\<lambda>n. Inr (- n))
          else if ch = CHR ''+'' then digits 10 r
          else digits 10 s)"

definition stored_round :: "FrontHistoryRound \<Rightarrow> int \<Rightarrow> StoredRound" where
  "stored_round r t =
     \<lparr>sr_roundId = fh_roundId r, sr_status = fh_status r, sr_totalUsdc = fh_totalUsdc r,
      sr_totalTickets = Some (fh_totalTickets r), sr_participantsCount = fh_participantsCount r,
      sr_winner = fh_winner r, sr_winningTicket = Some (js_string (fh_winningTicket r)),
      sr_randomness = Some (fh_randomness r), sr_startTs = fh_startTs r, sr_endTs = fh_endTs r,
      sr_claimTx = (if fh_claimTx r = Some [] then None else fh_claimTx r),
      sr_vaultUsdcAta = Some (fh_vaultUsdcAta r), sr_participants = Some (fh_participants r),
      sr_participantDeposits = Some (case fh_participantDeposits r of None \<Rightarrow> [] | Some ds \<Rightarrow> ds),
      sr_archivedAt = t\<rparr>"

definition permission_denied :: "fb_error \<Rightarrow> bool" where
  "permission_denied e = (case e of (code, msg) \<Rightarrow> code = ''PERMISSION_DENIED'' \<or> js_includes msg ''PERMISSION_DENIED'')"

definition saveRoundToFirebase_front :: "('w, 'pk, 'alt) front_env \<Rightarrow> FrontHistoryRound \<Rightarrow> ('w, fb_error + unit) state" where
  "saveRoundToFirebase_front c r =
     (if \<not> fe_db c then returnE ()
      else tryE (doE (dateNow (fe_sv c)) (\<lambda>t. fe_set c (fh_roundId r) (stored_round r t)))
        (\<lambda>e. if permission_denied e then returnE () else throwE e))"

definition read_stored :: "StoredRound \<Rightarrow> FrontHistoryRound result" where
  "read_stored v =
     and_then (js_BigInt (or_string (sr_winningTicket v) ''0'')) (\<lambda>winningTicket.
     Inr \<lparr>fh_roundId = sr_roundId v, fh_status = sr_status v, fh_totalUsdc = sr_totalUsdc v,
       fh_totalTickets = (case sr_totalTickets v of None \<Rightarrow> 0 | Some n \<Rightarrow> n),
       fh_participantsCount = sr_participantsCount v, fh_winner = sr_winner v, fh_winningTicket = winningTicket,
       fh_randomness = or_string (sr_randomness v) [], fh_startTs = sr_startTs v, fh_endTs = sr_endTs v,
       fh_claimTx = (if sr_claimTx v = Some [] then None else sr_claimTx v),
       fh_vaultUsdcAta = or_string (sr_vaultUsdcAta v) [],
       fh_participants = (case sr_participants v of None \<Rightarrow> [] | Some ps \<Rightarrow> ps),
       fh_participantDeposits = Some (case sr_participantDeposits v of None \<Rightarrow> [] | Some ds \<Rightarrow> ds)\<rparr>)"

definition fetchRoundFromFirebase :: "('w, 'pk, 'alt) front_env \<Rightarrow> int \<Rightarrow> ('w, FrontHistoryRound option result) state" where
  "fetchRoundFromFirebase c roundId =
     (if \<not> fe_db c then returnE None
      else tryE (bindE (fe_get c roundId) (\<lambda>snapshot.
          case snapshot of
            None \<Rightarrow> returnE None
          | Some v \<Rightarrow> bindE (liftE (read_stored v)) (\<lambda>r. returnE (Some r))))
        (\<lambda>_. returnE None))"

definition fetchRoundsFromFirebase :: "('w, 'pk, 'alt) front_env \<Rightarrow> int list \<Rightarrow> ('w, FrontHistoryRound list result) state" where
  "fetchRoundsFromFirebase c roundIds =
     (if \<not> fe_db c \<or> roundIds = [] then returnE []
      else bindE (mapE (\<lambda>i. tryE (fetchRoundFromFirebase c i) (\<lambda>_ :: string. returnE None)) roundIds) (\<lambda>settled.
        returnE (List.map_filter id settled)))"

definition getMaxArchivedRoundId_front :: "('w, 'pk, 'alt) front_env \<Rightarrow> ('w, int result) state" where
  "getMaxArchivedRoundId_front c =
     (if \<not> fe_db c then returnE 0
      else tryE (bindE (fe_last c 1) (\<lambda>snapshot.
          returnE (case snapshot of Some ((k, _) # _) \<Rightarrow> k | _ \<Rightarrow> 0)))
        (\<lambda>_. returnE 0))"

definition read_winner :: "StoredRound \<Rightarrow> FrontHistoryRound result" where
  "read_winner r =
     and_then (case sr_winningTicket r of None \<Rightarrow> Inr 0 | Some s \<Rightarrow> js_BigInt s) (\<lambda>winningTicket.
     Inr \<lparr>fh_roundId = sr_roundId r, fh_status = sr_status r, fh_totalUsdc = sr_totalUsdc r,
       fh_totalTickets = (case sr_totalTickets r of None \<Rightarrow> 0 | Some n \<Rightarrow> n),
       fh_participantsCount = sr_participantsCount r, fh_winner = sr_winner r, fh_winningTicket = winningTicket,
       fh_randomness = (case sr_randomness r of None \<Rightarrow> [] | Some s \<Rightarrow> s), fh_startTs = sr_startTs r, fh_endTs = sr_endTs r,
       fh_claimTx = sr_claimTx r, fh_vaultUsdcAta = (case sr_vaultUsdcAta r of None \<Rightarrow> [] | Some s \<Rightarrow> s),
       fh_participants = (case sr_participants r of None \<Rightarrow> [] | Some ps \<Rightarrow> ps),
       fh_participantDeposits = sr_participantDeposits r\<rparr>)"

definition NO_WINNER :: string where "NO_WINNER = replicate 32 CHR ''1''"

definition newest_first :: "FrontHistoryRound list \<Rightarrow> FrontHistoryRound list" where
  "newest_first rs = sort_key (\<lambda>r. - fh_roundId r) rs"

definition fetchRecentWinnersFromFirebase :: "('w, 'pk, 'alt) front_env \<Rightarrow> nat \<Rightarrow> ('w, FrontHistoryRound list result) state" where
  "fetchRecentWinnersFromFirebase c count =
     (if \<not> fe_db c then returnE []
      else tryE (bindE (fe_last c count) (\<lambda>snapshot.
          case snapshot of
            None \<Rightarrow> returnE []
          | Some docs \<Rightarrow> bindE (mapE (\<lambda>(_, r). liftE (read_winner r)) docs) (\<lambda>rs.
              returnE (newest_first [r \<leftarrow> rs. fh_winner r \<noteq> [] \<and> fh_winner r \<noteq> NO_WINNER]))))
        (\<lambda>_. returnE []))"

section \<open>The highest round\<close>

definition PROBE_BATCH :: nat where "PROBE_BATCH = 20"
definition PAGE_SIZE :: int where "PAGE_SIZE = 10"

text \<open>The last index with an account, \<open>for (let i = infos.length - 1; i >= 0; i--)\<close>.\<close>

definition last_existing :: "'a option list \<Rightarrow> nat option" where
  "last_existing infos = List.find (\<lambda>i. infos ! i \<noteq> None) (rev [0..<length infos])"

partial_function (option) probe :: "('w, 'pk, 'alt) front_env \<Rightarrow> int \<Rightarrow> int \<Rightarrow> 'w \<Rightarrow> ((int \<times> int) result \<times> 'w) option" where
  "probe c low high w =
     (case run_state (getMultipleAccountsInfo (fe_sv c)
         (map (\<lambda>i. round_pda (fe_chain c) (high + int i)) [0..<PROBE_BATCH])) w of
        (Inl e, w') \<Rightarrow> Some (Inl e, w')
      | (Inr infos, w') \<Rightarrow> (case last_existing infos of
            None \<Rightarrow> Some (Inr (low, high), w')
          | Some i \<Rightarrow> probe c (high + int i) (high + int PROBE_BATCH) w'))"

declare probe.simps [code]

function bisect :: "('w, 'pk, 'alt) front_env \<Rightarrow> int \<Rightarrow> int \<Rightarrow> ('w, int result) state" where
  "bisect c low high =
     (if low < high then
        let mid = (low + high + 1) div 2 in
        bindE (getAccountInfo (fe_sv c) (round_pda (fe_chain c) mid)) (\<lambda>info.
        if info \<noteq> None then bisect c mid high else bisect c low (mid - 1))
      else returnE low)"
  by pat_completeness auto

termination by (relation "measure (\<lambda>(c, low, high). nat (high - low))") auto

declare bisect.simps [simp del]

definition findMaxRoundId :: "('w, 'pk, 'alt) front_env \<Rightarrow> 'w \<Rightarrow> (int result \<times> 'w) option" where
  "findMaxRoundId c w =
     (case run_state (getMaxArchivedRoundId_front c) w of
        (Inl e, w') \<Rightarrow> Some (Inl e, w')
      | (Inr archivedMax, w') \<Rightarrow>
          let start = (if 0 < archivedMax then archivedMax else 1) in
          (case probe c start start w' of
             None \<Rightarrow> None
           | Some (Inl e, w'') \<Rightarrow> Some (Inl e, w'')
           | Some (Inr (low, high), w'') \<Rightarrow>
               Some (run_state (bindE (bisect c low high) (\<lambda>r. returnE (max r archivedMax))) w'')))"

section \<open>The history page\<close>

text \<open>One account per id, in the order of the ids; what is gone is taken from the archive.\<close>

definition on_chain_rounds :: "('pk, 'm) sdk_scheme \<Rightarrow> (int \<times> buffer option) list \<Rightarrow> FrontHistoryRound list" where
  "on_chain_rounds sdk entries = List.map_filter (\<lambda>(_, info). case info of None \<Rightarrow> None
     | Some data \<Rightarrow> map_option (\<lambda>rd. toHistoryRound sdk rd None) (parseRound_front sdk data)) entries"

definition missing_ids :: "(int \<times> buffer option) list \<Rightarrow> int list" where
  "missing_ids entries = map fst [e \<leftarrow> entries. snd e = None]"

definition fetchRoundBatch :: "('w, 'pk, 'alt) front_env \<Rightarrow> int list \<Rightarrow> ('w, FrontHistoryRound list result) state" where
  "fetchRoundBatch c ids =
     (if ids = [] then returnE []
      else bindE (getMultipleAccountsInfo (fe_sv c) (map (round_pda (fe_chain c)) ids)) (\<lambda>infos.
        let entries = zip ids infos; results = on_chain_rounds (fe_sdk c) entries; missing = missing_ids entries in
        if missing \<noteq> [] then
          tryE (bindE (fetchRoundsFromFirebase c missing) (\<lambda>archived. returnE (results @ archived)))
            (\<lambda>_. returnE results)
        else returnE results))"

record 'w history =
  hs_rounds :: "FrontHistoryRound list"
  hs_loading :: bool
  hs_page :: int
  hs_totalPages :: int
  hs_maxRoundId :: int
  hs_world :: 'w

definition page_count :: "int \<Rightarrow> int" where
  "page_count maxId = (maxId + PAGE_SIZE - 1) div PAGE_SIZE"

definition page_ids :: "int \<Rightarrow> int \<Rightarrow> int list" where
  "page_ids maxId page = (let endId = maxId - page * PAGE_SIZE; startId = max 1 (endId - PAGE_SIZE + 1) in rev [startId..endId])"

definition ask :: "('w, 'a) state \<Rightarrow> ('w history, 'a) state" where
  "ask m = State (\<lambda>s. case run_state m (hs_world s) of (x, w) \<Rightarrow> (x, s\<lparr>hs_world := w\<rparr>))"

definition load_page :: "('w, 'pk, 'alt) front_env \<Rightarrow> int \<Rightarrow> int \<Rightarrow> ('w history, FrontHistoryRound list result) state" where
  "load_page c maxId page = bindE (ask (fetchRoundBatch c (page_ids maxId page))) (\<lambda>batch. returnE (newest_first batch))"

text \<open>A callback whose body is in \<open>try ... catch { } finally { setLoading(false) }\<close>.\<close>

definition quietly :: "('w history, unit result) state \<Rightarrow> ('w history, unit) state" where
  "quietly m = do { _ \<leftarrow> m; State_Monad.update (\<lambda>s. s\<lparr>hs_loading := False\<rparr>) }"

definition show_first :: "('w, 'pk, 'alt) front_env \<Rightarrow> int \<Rightarrow> ('w history, unit result) state" where
  "show_first c maxId =
     doE (State_Monad.update (\<lambda>s. s\<lparr>hs_maxRoundId := maxId\<rparr>)) (\<lambda>_.
     if maxId \<le> 0 then doE (State_Monad.update (\<lambda>s. s\<lparr>hs_rounds := [], hs_totalPages := 0\<rparr>)) (\<lambda>_. returnE ())
     else doE (State_Monad.update (\<lambda>s. s\<lparr>hs_totalPages := page_count maxId\<rparr>)) (\<lambda>_.
       bindE (load_page c maxId 0) (\<lambda>batch.
       doE (State_Monad.update (\<lambda>s. s\<lparr>hs_rounds := batch, hs_page := 0\<rparr>)) (\<lambda>_. returnE ()))))"

definition fetchInitial :: "('w, 'pk, 'alt) front_env \<Rightarrow> 'w history \<Rightarrow> 'w history option" where
  "fetchInitial c s =
     (case findMaxRoundId c (hs_world s) of
        None \<Rightarrow> None
      | Some (Inl _, w) \<Rightarrow> Some (s\<lparr>hs_world := w, hs_loading := False\<rparr>)
      | Some (Inr maxId, w) \<Rightarrow> Some (snd (run_state (quietly (show_first c maxId)) (s\<lparr>hs_world := w, hs_loading := True\<rparr>))))"

definition goToPage :: "('w, 'pk, 'alt) front_env \<Rightarrow> int \<Rightarrow> ('w history, unit) state" where
  "goToPage c targetPage =
     do { s \<leftarrow> State_Monad.get;
          let maxId = hs_maxRoundId s;
          if maxId \<le> 0 then State_Monad.return ()
          else do { State_Monad.update (\<lambda>s. s\<lparr>hs_loading := True\<rparr>);
            quietly
              (if maxId - targetPage * PAGE_SIZE < 1 then doE (State_Monad.update (\<lambda>s. s\<lparr>hs_rounds := []\<rparr>)) (\<lambda>_. returnE ())
               else bindE (load_page c maxId targetPage) (\<lambda>batch.
                 doE (State_Monad.update (\<lambda>s. s\<lparr>hs_rounds := batch, hs_page := targetPage\<rparr>)) (\<lambda>_. returnE ()))) } }"

definition refresh :: "('w, 'pk, 'alt) front_env \<Rightarrow> 'w history \<Rightarrow> 'w history option" where
  "refresh c s = fetchInitial c (s\<lparr>hs_maxRoundId := 0, hs_page := 0\<rparr>)"

text \<open>The silent refresh of the current page.\<close>

definition refresh_page :: "('w, 'pk, 'alt) front_env \<Rightarrow> int \<Rightarrow> ('w history, unit result) state" where
  "refresh_page c newMax =
     doE State_Monad.get (\<lambda>s.
     let maxId = hs_maxRoundId s; effectiveMax = max maxId newMax in
     doE (State_Monad.update (\<lambda>s. if maxId < newMax then s\<lparr>hs_maxRoundId := newMax, hs_totalPages := page_count newMax\<rparr> else s)) (\<lambda>_.
     if effectiveMax - hs_page s * PAGE_SIZE < 1 then returnE ()
     else bindE (load_page c effectiveMax (hs_page s)) (\<lambda>batch.
       doE (State_Monad.update (\<lambda>s. s\<lparr>hs_rounds := batch\<rparr>)) (\<lambda>_. returnE ()))))"

definition history_tick :: "('w, 'pk, 'alt) front_env \<Rightarrow> 'w history \<Rightarrow> 'w history option" where
  "history_tick c s =
     (if hs_maxRoundId s \<le> 0 then Some s
      else case findMaxRoundId c (hs_world s) of
          None \<Rightarrow> None
        | Some (Inl _, w) \<Rightarrow> Some (s\<lparr>hs_world := w\<rparr>)
        | Some (Inr newMax, w) \<Rightarrow> Some (snd (run_state (refresh_page c newMax) (s\<lparr>hs_world := w\<rparr>))))"

end
