(* ===== verification/Jupiter.thy ===== *)
theory Jupiter
  imports Front
begin

text \<open>
  The Jupiter client of the front end: \<open>src/lib/jupiterApi.ts\<close>, the request with its retries, and
  \<open>src/lib/jupiterClient.ts\<close>, which assembles the instructions of several swaps and a deposit into one transaction.
\<close>

section \<open>Requests\<close>

record JupiterApiError =
  je_message :: string
  je_status :: int
  je_code :: api_code
  je_retryable :: bool

definition MAX_RETRIES :: int where "MAX_RETRIES = 2"

definition computeBackoffMs :: "('w, 'pk, 'alt) front_env \<Rightarrow> nat \<Rightarrow> ('w, int) state" where
  "computeBackoffMs c attempt =
     do { r \<leftarrow> fe_random c; State_Monad.return (min (250 * 2 ^ attempt + \<lfloor>r * 250\<rfloor>) 2500) }"

definition isRetryableStatus :: "int \<Rightarrow> bool" where
  "isRetryableStatus status \<longleftrightarrow> status \<in> {408, 429, 500, 502, 503, 504}"

definition parseErrorPayload :: "('w, 'pk, 'alt) front_env \<Rightarrow> string \<Rightarrow> string \<times> api_code option" where
  "parseErrorPayload c raw =
     (if raw = [] then (''Unknown Jupiter error'', None)
      else case fe_errorBody c raw of
          None \<Rightarrow> (raw, None)
        | Some (msg, error, code) \<Rightarrow> (or_string msg (or_string error raw), code))"

definition code_or_status :: "api_code option \<Rightarrow> int \<Rightarrow> api_code" where
  "code_or_status code status =
     (case code of None \<Rightarrow> CodeNum status
      | Some k \<Rightarrow> if k = CodeStr [] \<or> k = CodeNum 0 then CodeNum status else k)"

text \<open>One attempt: the value, or the error with whether it is tried again.\<close>

definition fetch_outcome :: "('w, 'pk, 'alt) front_env \<Rightarrow> int \<Rightarrow> 'a fetched \<Rightarrow> (bool \<times> JupiterApiError) + 'a" where
  "fetch_outcome c timeoutMs r =
     (case r of
        Response response \<Rightarrow>
          if \<not> rs_ok response then
            let (msg, code) = parseErrorPayload c (rs_text response); retryable = isRetryableStatus (rs_status response) in
            Inl (retryable, \<lparr>je_message = ''Jupiter API error '' @ js_string (rs_status response) @ '': '' @ msg,
              je_status = rs_status response, je_code = code_or_status code (rs_status response), je_retryable = retryable\<rparr>)
          else (case rs_json response of
              Inr x \<Rightarrow> Inr x
            | Inl msg \<Rightarrow> Inl (False, \<lparr>je_message = msg, je_status = 0, je_code = CodeStr ''NETWORK_ERROR'', je_retryable = True\<rparr>))
      | AbortError \<Rightarrow> Inl (True, \<lparr>je_message = ''Jupiter API timeout after '' @ js_string timeoutMs @ ''ms'', je_status = 408,
            je_code = CodeStr ''TIMEOUT'', je_retryable = True\<rparr>)
      | NetworkTypeError msg \<Rightarrow> Inl (True, \<lparr>je_message = msg, je_status = 0, je_code = CodeStr ''NETWORK_ERROR'', je_retryable = True\<rparr>)
      | OtherError msg \<Rightarrow> Inl (False, \<lparr>je_message = msg, je_status = 0, je_code = CodeStr ''NETWORK_ERROR'', je_retryable = True\<rparr>))"

fun jupiter_attempts :: "('w, 'pk, 'alt) front_env \<Rightarrow> ('w, 'a fetched) state \<Rightarrow> int \<Rightarrow> nat \<Rightarrow> nat \<Rightarrow> ('w, JupiterApiError + 'a) state" where
  "jupiter_attempts c request timeoutMs left attempt =
     doE request (\<lambda>r. case fetch_outcome c timeoutMs r of
         Inr x \<Rightarrow> returnE x
       | Inl (retry, e) \<Rightarrow> (case left of
             0 \<Rightarrow> throwE e
           | Suc n \<Rightarrow> if retry then
                 doE (computeBackoffMs c attempt) (\<lambda>ms. doE (fe_sleep c ms) (\<lambda>_.
                 jupiter_attempts c request timeoutMs n (Suc attempt)))
               else throwE e))"

declare jupiter_attempts.simps [simp del]

definition jupiterFetchJson :: "('w, 'pk, 'alt) front_env \<Rightarrow> ('w, 'a fetched) state \<Rightarrow> int option \<Rightarrow> int \<Rightarrow> ('w, JupiterApiError + 'a) state" where
  "jupiterFetchJson c request retries timeoutMs =
     (if fe_apiKey c = [] then
        throwE \<lparr>je_message = ''Missing VITE_JUPITER_API_KEY. Create API key on portal.jup.ag and set it in env.'', je_status = 401,
          je_code = CodeStr ''MISSING_API_KEY'', je_retryable = False\<rparr>
      else jupiter_attempts c request timeoutMs
        (nat (max 0 (min (case retries of None \<Rightarrow> MAX_RETRIES | Some n \<Rightarrow> n) 5))) 0)"

text \<open>The callers only use the message of an error.\<close>

definition with_message :: "('w, JupiterApiError + 'a) state \<Rightarrow> ('w, 'a result) state" where
  "with_message m = do { r \<leftarrow> m; State_Monad.return (map_sum je_message id r) }"

definition getJupiterQuote :: "('w, 'pk, 'alt) front_env \<Rightarrow> string \<Rightarrow> string \<Rightarrow> string \<Rightarrow> int \<Rightarrow> string \<Rightarrow> ('w, FrontQuote result) state" where
  "getJupiterQuote c inputMint outputMint amount slippageBps swapMode =
     with_message (jupiterFetchJson c (fe_quote c
       [(''inputMint'', inputMint), (''outputMint'', outputMint), (''amount'', amount),
        (''slippageBps'', js_string slippageBps), (''swapMode'', swapMode), (''restrictIntermediateTokens'', ''true'')]) None 5000)"

definition getJupiterSwapInstructions :: "('w, 'pk, 'alt) front_env \<Rightarrow> string \<Rightarrow> FrontQuote \<Rightarrow>
    ('w, JupiterSwapInstructions result) state" where
  "getJupiterSwapInstructions c userPublicKey quote =
     with_message (jupiterFetchJson c (fe_swap c userPublicKey quote) None 10000)"

section \<open>Assembling the instructions\<close>

definition DEPOSIT_ANY_CU_BUFFER :: int where "DEPOSIT_ANY_CU_BUFFER = 150000"
definition MIN_CU :: int where "MIN_CU = 400000"
definition MAX_CU :: int where "MAX_CU = 1400000"

definition clamp :: "int \<Rightarrow> int \<Rightarrow> int \<Rightarrow> int" where
  "clamp n lo hi = min (max n lo) hi"

text \<open>\<open>xs.map(f)\<close> where \<open>f\<close> may throw.\<close>

fun map_result :: "('x \<Rightarrow> 'e + 'a) \<Rightarrow> 'x list \<Rightarrow> 'e + 'a list" where
  "map_result f [] = Inr []"
| "map_result f (x # xs) = and_then (f x) (\<lambda>y. and_then (map_result f xs) (\<lambda>ys. Inr (y # ys)))"

definition new_key :: "('w, 'pk, 'alt) front_env \<Rightarrow> string \<Rightarrow> 'pk result" where
  "new_key c s = (case parsePublicKey (fe_sdk c) s of None \<Rightarrow> Inl ''Invalid public key input'' | Some k \<Rightarrow> Inr k)"

definition deserializeInstruction_front :: "('w, 'pk, 'alt) front_env \<Rightarrow> SerializedInstruction \<Rightarrow> 'pk instruction result" where
  "deserializeInstruction_front c ix =
     and_then (new_key c (si_programId ix)) (\<lambda>programId.
     and_then (map_result (\<lambda>(pubkey, isSigner, isWritable). and_then (new_key c pubkey) (\<lambda>k.
        Inr \<lparr>am_pubkey = k, am_isSigner = isSigner, am_isWritable = isWritable\<rparr>)) (si_accounts ix)) (\<lambda>keys.
     Inr \<lparr>ix_programId = programId, ix_keys = keys, ix_data = fe_decodeBase64 c (si_data ix)\<rparr>))"

text \<open>The compute budget instructions of Jupiter are merged: the limits add up, the highest price wins, anything else passes through.\<close>

record 'pk budget =
  bg_cu :: int
  bg_saw :: bool
  bg_price :: "int option"
  bg_passthrough :: "'pk instruction list"

definition budget_step :: "'pk \<Rightarrow> 'pk instruction \<Rightarrow> 'pk budget \<Rightarrow> 'pk budget" where
  "budget_step program ix b =
     (let data = ix_data ix; kind = (case data of [] \<Rightarrow> None | k # _ \<Rightarrow> Some (uint k)) in
      if ix_programId ix \<noteq> program then b\<lparr>bg_passthrough := bg_passthrough b @ [ix]\<rparr>
      else if kind = Some 2 \<and> 5 \<le> length data then b\<lparr>bg_cu := bg_cu b + le_uint (subarray data 1 5), bg_saw := True\<rparr>
      else if kind = Some 3 \<and> 9 \<le> length data then
        let price = le_uint (subarray data 1 9) in
        (case bg_price b of
           None \<Rightarrow> b\<lparr>bg_price := Some price\<rparr>
         | Some p \<Rightarrow> if p < price then b\<lparr>bg_price := Some price\<rparr> else b)
      else b\<lparr>bg_passthrough := bg_passthrough b @ [ix]\<rparr>)"

definition body_of :: "JupiterSwapInstructions \<Rightarrow> SerializedInstruction list" where
  "body_of swapIxs = sw_setupInstructions swapIxs @ [sw_swapInstruction swapIxs] @
     (case sw_cleanupInstruction swapIxs of None \<Rightarrow> [] | Some ix \<Rightarrow> [ix])"

definition boosted_cu :: "'pk budget \<Rightarrow> nat \<Rightarrow> int" where
  "boosted_cu b swaps = clamp ((if bg_saw b then bg_cu b else 200000 * int swaps) + DEPOSIT_ANY_CU_BUFFER) MIN_CU MAX_CU"

definition splitJupiterInstructions :: "('w, 'pk, 'alt) front_env \<Rightarrow> JupiterSwapInstructions list \<Rightarrow>
    ('pk instruction list \<times> 'pk instruction list) result" where
  "splitJupiterInstructions c swapIxSets =
     and_then (map_result (deserializeInstruction_front c) (concat (map sw_computeBudgetInstructions swapIxSets))) (\<lambda>budgetIxs.
     let b = fold (budget_step (fe_COMPUTE_BUDGET_PROGRAM c)) budgetIxs
           \<lparr>bg_cu = 0, bg_saw = False, bg_price = None, bg_passthrough = []\<rparr>;
         computeBudgetIxs = setComputeUnitLimit (fe_sv c) (boosted_cu b (length swapIxSets)) #
           (case bg_price b of None \<Rightarrow> [] | Some p \<Rightarrow> [setComputeUnitPrice (fe_sv c) p]) @ bg_passthrough b
     in and_then (map_result (deserializeInstruction_front c) (concat (map body_of swapIxSets))) (\<lambda>bodyIxs.
        Inr (computeBudgetIxs, bodyIxs)))"

definition resolveAddressLookupTables :: "('w, 'pk, 'alt) front_env \<Rightarrow> string list \<Rightarrow> ('w, 'alt list result) state" where
  "resolveAddressLookupTables c addresses =
     (if addresses = [] then returnE []
      else bindE (liftE (map_result (new_key c) addresses)) (\<lambda>keys.
        bindE (getMultipleAccountsInfo (fe_sv c) keys) (\<lambda>accounts.
        liftE (map_result (\<lambda>(key, data). fe_newLookupTable c key data)
          (List.map_filter (\<lambda>(key, account). map_option (Pair key) account) (zip keys accounts))))))"

definition buildMultiJupiterInstructions :: "('w, 'pk, 'alt) front_env \<Rightarrow> JupiterSwapInstructions list \<Rightarrow> 'pk instruction list result" where
  "buildMultiJupiterInstructions c swapIxSets =
     (if swapIxSets = [] then Inr []
      else and_then (splitJupiterInstructions c swapIxSets) (\<lambda>(computeBudgetIxs, bodyIxs). Inr (computeBudgetIxs @ bodyIxs)))"

definition buildJupiterInstructions :: "('w, 'pk, 'alt) front_env \<Rightarrow> JupiterSwapInstructions \<Rightarrow> 'pk instruction list result" where
  "buildJupiterInstructions c swapIxs = buildMultiJupiterInstructions c [swapIxs]"

text \<open>The addresses of the lookup tables without duplicates, in the order of their first use.\<close>

definition mergeAltAddresses :: "JupiterSwapInstructions list \<Rightarrow> string list" where
  "mergeAltAddresses swapIxSets =
     fold (\<lambda>addr merged. if addr \<in> set merged then merged else merged @ [addr])
       (concat (map sw_addressLookupTableAddresses swapIxSets)) []"

definition versioned :: "('w, 'pk, 'alt) front_env \<Rightarrow> 'pk \<Rightarrow> string list \<Rightarrow> 'pk instruction list \<Rightarrow> ('w, ('pk, 'alt) vtx result) state" where
  "versioned c payer addresses ixs =
     bindE (resolveAddressLookupTables c addresses) (\<lambda>alts.
     bindE (getLatestBlockhash (fe_sv c)) (\<lambda>blockhash.
     let tx = \<lparr>vt_payer = payer, vt_blockhash = blockhash, vt_ixs = ixs, vt_alts = alts\<rparr> in
     bindE (liftE (fe_compile c tx)) (\<lambda>_. returnE tx)))"

definition buildMultiSwapAndDepositTx :: "('w, 'pk, 'alt) front_env \<Rightarrow> 'pk \<Rightarrow> JupiterSwapInstructions list \<Rightarrow> 'pk instruction \<Rightarrow>
    'pk instruction list \<Rightarrow> ('w, ('pk, 'alt) vtx result) state" where
  "buildMultiSwapAndDepositTx c payer jupiterSwapIxSets depositIx prefixInstructions =
     bindE (liftE (buildMultiJupiterInstructions c jupiterSwapIxSets)) (\<lambda>jupIxs.
     versioned c payer (mergeAltAddresses jupiterSwapIxSets) (prefixInstructions @ jupIxs @ [depositIx]))"

definition buildSwapAndDepositTx :: "('w, 'pk, 'alt) front_env \<Rightarrow> 'pk \<Rightarrow> JupiterSwapInstructions \<Rightarrow> 'pk instruction \<Rightarrow>
    'pk instruction list \<Rightarrow> ('w, ('pk, 'alt) vtx result) state" where
  "buildSwapAndDepositTx c payer jupiterSwapIxs depositIx prefixInstructions =
     buildMultiSwapAndDepositTx c payer [jupiterSwapIxs] depositIx prefixInstructions"

definition buildClaimAndSwapTx :: "('w, 'pk, 'alt) front_env \<Rightarrow> 'pk \<Rightarrow> 'pk instruction \<Rightarrow> JupiterSwapInstructions \<Rightarrow>
    ('w, ('pk, 'alt) vtx result) state" where
  "buildClaimAndSwapTx c payer claimIx jupiterSwapIxs =
     bindE (liftE (splitJupiterInstructions c [jupiterSwapIxs])) (\<lambda>(computeBudgetIxs, bodyIxs).
     versioned c payer (sw_addressLookupTableAddresses jupiterSwapIxs) (computeBudgetIxs @ [claimIx] @ bodyIxs))"

section \<open>Lemmas\<close>

text \<open>Of a request at most \<open>retries + 1\<close> copies are sent; \<open>n\<close> counts them in the world.\<close>

lemma jupiter_attempts_bound:
  assumes "\<And>w r w'. run_state request w = (r, w') \<Longrightarrow> n w' \<le> Suc (n w)"
    and "\<And>w r w'. run_state (fe_random c) w = (r, w') \<Longrightarrow> n w' = n w"
    and "\<And>ms w r w'. run_state (fe_sleep c ms) w = (r, w') \<Longrightarrow> n w' = (n w :: nat)"
    and "run_state (jupiter_attempts c request timeoutMs left attempt) w = (r, w')"
  shows "n w' \<le> n w + Suc left"
  using assms(4)
proof (induction left arbitrary: attempt w)
  case 0
  then show ?case using assms(1)
    by (subst (asm) jupiter_attempts.simps) (fastforce split: prod.splits sum.splits)
next
  case (Suc left)
  obtain x w1 where x: "run_state request w = (x, w1)" by fastforce
  obtain q w2 where q: "run_state (fe_random c) w1 = (q, w2)" by fastforce
  let ?ms = "min (250 * 2 ^ attempt + \<lfloor>q * 250\<rfloor>) 2500"
  obtain u w3 where u: "run_state (fe_sleep c ?ms) w2 = (u, w3)" by (cases "run_state (fe_sleep c ?ms) w2")
  have n: "n w1 \<le> Suc (n w)" "n w2 = n w1" "n w3 = n w2" using assms(1-3) x q u by blast+
  have "w' = w1 \<or> run_state (jupiter_attempts c request timeoutMs left (Suc attempt)) w3 = (r, w')"
    using Suc.prems x q u
    by (subst (asm) jupiter_attempts.simps) (auto simp: computeBackoffMs_def split: sum.splits prod.splits if_splits)
  then show ?case using Suc.IH n by fastforce
qed

lemma backoff_bounds:
  assumes "run_state (computeBackoffMs c attempt) w = (ms, w')" and "\<And>w. 0 \<le> fst (run_state (fe_random c) w) \<and> fst (run_state (fe_random c) w) < 1"
  shows "min (250 * 2 ^ attempt) 2500 \<le> ms \<and> ms \<le> 2500"
proof -
  obtain q u where q: "run_state (fe_random c) w = (q, u)" by fastforce
  then have "0 \<le> q" using assms(2) [of w] by simp
  then have "0 \<le> \<lfloor>q * 250\<rfloor>" by simp
  then have "min (250 * 2 ^ attempt) 2500 \<le> min (250 * 2 ^ attempt + \<lfloor>q * 250\<rfloor>) 2500" by (intro min.mono) simp_all
  then show ?thesis using assms(1) q by (auto simp: computeBackoffMs_def)
qed

lemma boosted_cu_bounds: "MIN_CU \<le> boosted_cu b n \<and> boosted_cu b n \<le> MAX_CU"
  by (auto simp: boosted_cu_def clamp_def MIN_CU_def MAX_CU_def)

lemma mergeAltAddresses_distinct:
  "distinct (mergeAltAddresses sets) \<and> set (mergeAltAddresses sets) = (\<Union>s\<in>set sets. set (sw_addressLookupTableAddresses s))"
proof -
  have "distinct (fold (\<lambda>addr merged. if addr \<in> set merged then merged else merged @ [addr]) xs ys) \<and>
      set (fold (\<lambda>addr merged. if addr \<in> set merged then merged else merged @ [addr]) xs ys) = set xs \<union> set ys"
    if "distinct ys" for xs ys :: "string list"
    using that by (induction xs arbitrary: ys) auto
  from this [of "[]"] show ?thesis by (simp add: mergeAltAddresses_def)
qed

text \<open>A deposit transaction starts with the given instructions and ends with the deposit.\<close>

lemma versioned_ixs:
  "run_state (versioned c payer addresses ixs) w = (Inr tx, w') \<Longrightarrow> vt_ixs tx = ixs \<and> vt_payer tx = payer"
  by (auto simp: versioned_def Let_def split: prod.splits sum.splits)

lemma deposit_tx_shape:
  assumes "run_state (buildMultiSwapAndDepositTx c payer swaps depositIx prefix) w = (Inr tx, w')"
  shows "\<exists>jup. buildMultiJupiterInstructions c swaps = Inr jup \<and> vt_ixs tx = prefix @ jup @ [depositIx]"
  using assms by (auto simp: buildMultiSwapAndDepositTx_def dest!: versioned_ixs split: sum.splits prod.splits)

end
