(* ===== verification/Token_Meta.thy ===== *)
theory Token_Meta
  imports Jupiter
begin

text \<open>
  Names, symbols and pictures of tokens: \<open>src/lib/tokenMetadata.ts\<close> and \<open>fetchDegenTokenMeta\<close> of \<open>src/lib/degenClaim.ts\<close>. The
  caches of the two modules are the record \<open>token_meta\<close>; the computations pass it along with the outside world. Requests that
  the sources run in parallel are run one after the other, so that there is never a request in flight to wait for.
\<close>

record TokenMetadataResult =
  tk_name :: string
  tk_symbol :: string
  tk_image :: string
  tk_uri :: string

record DegenToken =
  dt_mint :: string
  dt_symbol :: string
  dt_name :: "string option"
  dt_logoURI :: "string option"

record token_meta =
  tm_cache :: "string \<Rightarrow> TokenMetadataResult option"
  tm_logos :: "string \<Rightarrow> string option"
  tm_degen :: "string \<Rightarrow> DegenToken option"

type_synonym ('w, 'a) meta = "(token_meta \<times> 'w, 'a) state"

definition meta_out :: "('w, 'a) state \<Rightarrow> ('w, 'a) meta" where
  "meta_out m = State (\<lambda>(t, w). case run_state m w of (x, w') \<Rightarrow> (x, (t, w')))"

abbreviation set_meta :: "(token_meta \<Rightarrow> token_meta) \<Rightarrow> ('w, unit) meta" where
  "set_meta f \<equiv> State_Monad.update (\<lambda>(t, w). (f t, w))"

section \<open>The account of the token metadata program\<close>

text \<open>A string with its length before it; reading the length past the end of the buffer throws.\<close>

definition read_string :: "('w, 'pk, 'alt) front_env \<Rightarrow> buffer \<Rightarrow> nat \<Rightarrow> (string \<times> nat) option" where
  "read_string c data offset =
     (if length data < offset + 4 then None
      else let len = nat (le_uint (subarray data offset (offset + 4))) in
        Some (js_trim (filter (\<lambda>ch. ch \<noteq> CHR 0x00) (fe_utf8 c (subarray data (offset + 4) (offset + 4 + len)))), offset + 4 + len))"

definition parseMetadataAccount :: "('w, 'pk, 'alt) front_env \<Rightarrow> buffer \<Rightarrow> (string \<times> string \<times> string) option" where
  "parseMetadataAccount c data =
     do { (name, o1) \<leftarrow> read_string c data (1 + 32 + 32);
          (symbol, o2) \<leftarrow> read_string c data o1;
          (uri, _) \<leftarrow> read_string c data o2;
          Some (name, symbol, uri) }"

definition getMetadataPda :: "('w, 'pk, 'alt) front_env \<Rightarrow> 'pk \<Rightarrow> 'pk" where
  "getMetadataPda c mint =
     findProgramAddress (fe_sdk c)
       [buffer_from ''metadata'', toBuffer (fe_sdk c) (fe_TOKEN_METADATA_PROGRAM_ID c), toBuffer (fe_sdk c) mint]
       (fe_TOKEN_METADATA_PROGRAM_ID c)"

section \<open>The token search of Jupiter\<close>

text \<open>\<open>v || dflt\<close> where both may be missing, and the row that belongs to a mint.\<close>

definition or_else :: "string option \<Rightarrow> string option \<Rightarrow> string option" where
  "or_else v dflt = (case v of None \<Rightarrow> dflt | Some s \<Rightarrow> if s = [] then dflt else v)"

definition row_of :: "string \<Rightarrow> token_row list option \<Rightarrow> token_row option" where
  "row_of mint rows = (case rows of None \<Rightarrow> None
     | Some rs \<Rightarrow> find (\<lambda>r. or_else (tr_id r) (or_else (tr_address r) (tr_mint r)) = Some mint) rs)"

definition fetchTokenLogoViaJupiter :: "('w, 'pk, 'alt) front_env \<Rightarrow> string \<Rightarrow> ('w, string) meta" where
  "fetchTokenLogoViaJupiter c mint =
     do { (t, _) \<leftarrow> State_Monad.get;
          (case tm_logos t mint of
             Some logo \<Rightarrow> State_Monad.return logo
           | None \<Rightarrow> do {
               rows \<leftarrow> meta_out (jupiterFetchJson c (fe_search c mint) (Some 1) 4000);
               let logo = (case rows of
                   Inl _ \<Rightarrow> []
                 | Inr rs \<Rightarrow> (case row_of mint rs of None \<Rightarrow> [] | Some r \<Rightarrow> or_string (tr_logoURI r) (or_string (tr_icon r) [])));
               set_meta (\<lambda>t. t\<lparr>tm_logos := (tm_logos t)(mint \<mapsto> logo)\<rparr>);
               State_Monad.return logo }) }"

fun logos_of :: "('w, 'pk, 'alt) front_env \<Rightarrow> string list \<Rightarrow> (string \<Rightarrow> string option) \<Rightarrow> ('w, (string \<Rightarrow> string option)) meta" where
  "logos_of c [] results = State_Monad.return results"
| "logos_of c (m # ms) results =
     do { logo \<leftarrow> fetchTokenLogoViaJupiter c m; logos_of c ms (results(m \<mapsto> logo)) }"

definition fetchTokenLogosBatchViaJupiter :: "('w, 'pk, 'alt) front_env \<Rightarrow> string list \<Rightarrow> ('w, (string \<Rightarrow> string option)) meta" where
  "fetchTokenLogosBatchViaJupiter c mints =
     do { (t, _) \<leftarrow> State_Monad.get;
          logos_of c [m \<leftarrow> mints. tm_logos t m = None] (\<lambda>m. if m \<in> set mints then tm_logos t m else None) }"

definition normalizeTokenMetadata :: "string \<Rightarrow> token_row option \<Rightarrow> DegenToken" where
  "normalizeTokenMetadata mint payload =
     (let field = (\<lambda>f. case payload of None \<Rightarrow> None | Some r \<Rightarrow> or_else (f r) None) in
      \<lparr>dt_mint = mint,
       dt_symbol = or_string (field tr_symbol) (take 4 mint @ [CHR 0xE2, CHR 0x80, CHR 0xA6]),
       dt_name = field tr_name,
       dt_logoURI = or_else (field tr_logoURI) (field tr_icon)\<rparr>)"

definition fetchDegenTokenMeta :: "('w, 'pk, 'alt) front_env \<Rightarrow> string \<Rightarrow> ('w, DegenToken) meta" where
  "fetchDegenTokenMeta c mint =
     do { (t, _) \<leftarrow> State_Monad.get;
          (case tm_degen t mint of
             Some token \<Rightarrow> State_Monad.return token
           | None \<Rightarrow> do {
               rows \<leftarrow> meta_out (jupiterFetchJson c (fe_search c mint) None 5000);
               let token = normalizeTokenMetadata mint (case rows of Inl _ \<Rightarrow> None | Inr rs \<Rightarrow> row_of mint rs);
               set_meta (\<lambda>t. t\<lparr>tm_degen := (tm_degen t)(mint \<mapsto> token)\<rparr>);
               State_Monad.return token }) }"

section \<open>Metadata\<close>

text \<open>The picture: the one of Jupiter, else the one that the metadata document names.\<close>

definition token_image :: "('w, 'pk, 'alt) front_env \<Rightarrow> string \<Rightarrow> string \<Rightarrow> ('w, string) meta" where
  "token_image c mint uri =
     do { jupImage \<leftarrow> fetchTokenLogoViaJupiter c mint;
          doc \<leftarrow> meta_out (fe_fetchImage c uri);
          let metaplexImage = (case doc of Inl _ \<Rightarrow> [] | Inr (ok, img) \<Rightarrow> if ok then or_string img [] else []);
          State_Monad.return (if jupImage = [] then metaplexImage else jupImage) }"

definition store_metadata :: "('w, 'pk, 'alt) front_env \<Rightarrow> string \<Rightarrow> string \<times> string \<times> string \<Rightarrow> ('w, TokenMetadataResult) meta" where
  "store_metadata c mintStr parsed =
     (let (name, symbol, uri) = parsed in
      do { img \<leftarrow> token_image c mintStr uri;
           let result = \<lparr>tk_name = name, tk_symbol = symbol, tk_image = img, tk_uri = uri\<rparr>;
           set_meta (\<lambda>t. t\<lparr>tm_cache := (tm_cache t)(mintStr \<mapsto> result)\<rparr>);
           State_Monad.return result })"

definition usable_metadata :: "('w, 'pk, 'alt) front_env \<Rightarrow> buffer option \<Rightarrow> (string \<times> string \<times> string) option" where
  "usable_metadata c info =
     do { data \<leftarrow> info; (name, symbol, uri) \<leftarrow> parseMetadataAccount c data; if uri = [] then None else Some (name, symbol, uri) }"

definition fetchTokenMetadata :: "('w, 'pk, 'alt) front_env \<Rightarrow> 'pk \<Rightarrow> ('w, TokenMetadataResult option) meta" where
  "fetchTokenMetadata c mint =
     (let mintStr = toBase58 (fe_sdk c) mint in
      do { (t, _) \<leftarrow> State_Monad.get;
           (case tm_cache t mintStr of
              Some cached \<Rightarrow> State_Monad.return (Some cached)
            | None \<Rightarrow> do {
                info \<leftarrow> meta_out (getAccountInfo (fe_sv c) (getMetadataPda c mint));
                (case info of
                   Inl _ \<Rightarrow> State_Monad.return None
                 | Inr i \<Rightarrow> (case usable_metadata c i of
                     None \<Rightarrow> State_Monad.return None
                   | Some parsed \<Rightarrow> do { result \<leftarrow> store_metadata c mintStr parsed; State_Monad.return (Some result) })) }) })"

fun metadata_of :: "('w, 'pk, 'alt) front_env \<Rightarrow> ('pk \<times> buffer option) list \<Rightarrow> (string \<Rightarrow> TokenMetadataResult option) \<Rightarrow>
    ('w, (string \<Rightarrow> TokenMetadataResult option)) meta" where
  "metadata_of c [] results = State_Monad.return results"
| "metadata_of c ((mint, info) # rest) results =
     (case usable_metadata c info of
        None \<Rightarrow> metadata_of c rest results
      | Some parsed \<Rightarrow> do {
          result \<leftarrow> store_metadata c (toBase58 (fe_sdk c) mint) parsed;
          metadata_of c rest (results(toBase58 (fe_sdk c) mint \<mapsto> result)) })"

definition fetchTokenMetadataBatch :: "('w, 'pk, 'alt) front_env \<Rightarrow> 'pk list \<Rightarrow> ('w, (string \<Rightarrow> TokenMetadataResult option) result) meta" where
  "fetchTokenMetadataBatch c mints =
     do { (t, _) \<leftarrow> State_Monad.get;
          let known = (\<lambda>m. tm_cache t (toBase58 (fe_sdk c) m));
          let results = (\<lambda>s. if s \<in> set (map (toBase58 (fe_sdk c)) mints) then tm_cache t s else None);
          let uncachedMints = [m \<leftarrow> mints. known m = None];
          (if uncachedMints = [] then State_Monad.return (Inr results)
           else do {
             accounts \<leftarrow> meta_out (getMultipleAccountsInfo (fe_sv c) (map (getMetadataPda c) uncachedMints));
             (case accounts of
                Inl e \<Rightarrow> State_Monad.return (Inl e)
              | Inr infos \<Rightarrow> do { rs \<leftarrow> metadata_of c (zip uncachedMints infos) results; State_Monad.return (Inr rs) }) }) }"

definition clearMetadataCache :: "('w, unit) meta" where
  "clearMetadataCache = set_meta (\<lambda>t. t\<lparr>tm_cache := Map.empty, tm_logos := Map.empty\<rparr>)"

section \<open>What a fetch returns and remembers\<close>

text \<open>A string as the token metadata program stores it, and what the reader makes of its bytes.\<close>

definition borsh_string :: "buffer \<Rightarrow> buffer" where
  "borsh_string bs = le_bytes 4 (int (length bs)) @ bs"

definition shown_text :: "('w, 'pk, 'alt) front_env \<Rightarrow> buffer \<Rightarrow> string" where
  "shown_text c bs = js_trim (filter (\<lambda>ch. ch \<noteq> CHR 0x00) (fe_utf8 c bs))"

lemma read_string_borsh:
  assumes "length bs < 2 ^ 32" and "offset = length pre"
  shows "read_string c (pre @ borsh_string bs @ rest) offset = Some (shown_text c bs, offset + 4 + length bs)"
proof -
  have "le_uint (le_bytes 4 (int (length bs))) = int (length bs)"
    using assms(1) by (intro le_uint_le_bytes) (simp_all add: nat_less_iff [symmetric])
  then show ?thesis using assms(2) by (simp add: read_string_def borsh_string_def shown_text_def subarray_def)
qed

lemma parseMetadataAccount_borsh:
  assumes "length hdr = 65" and "length n < 2 ^ 32" and "length s < 2 ^ 32" and "length u < 2 ^ 32"
  shows "parseMetadataAccount c (hdr @ borsh_string n @ borsh_string s @ borsh_string u @ rest) =
    Some (shown_text c n, shown_text c s, shown_text c u)"
proof -
  have "read_string c (hdr @ borsh_string n @ borsh_string s @ borsh_string u @ rest) 65 = Some (shown_text c n, 65 + 4 + length n)"
    using read_string_borsh [OF assms(2), of 65 hdr] assms(1) by simp
  moreover have "read_string c (hdr @ borsh_string n @ borsh_string s @ borsh_string u @ rest) (65 + 4 + length n) =
      Some (shown_text c s, 65 + 4 + length n + 4 + length s)"
    using read_string_borsh [OF assms(3), of "65 + 4 + length n" "hdr @ borsh_string n"] assms(1) by (simp add: borsh_string_def)
  moreover have "\<exists>o3. read_string c (hdr @ borsh_string n @ borsh_string s @ borsh_string u @ rest) (65 + 4 + length n + 4 + length s) =
      Some (shown_text c u, o3)"
    using read_string_borsh [OF assms(4), of "65 + 4 + length n + 4 + length s" "hdr @ borsh_string n @ borsh_string s" c rest] assms(1)
    by (auto simp: borsh_string_def)
  ultimately show ?thesis by (auto simp: parseMetadataAccount_def)
qed

text \<open>
  The contract of a fetch that remembers: what is known is returned without a request, a result worth keeping is known afterwards, and
  nothing that was known is lost. The three fetches of the two modules keep it, each on its own cache.
\<close>

fun fetch_all :: "('k \<Rightarrow> ('w, 'a) meta) \<Rightarrow> 'k list \<Rightarrow> ('w, unit) meta" where
  "fetch_all fetch [] = State_Monad.return ()"
| "fetch_all fetch (k # ks) = do { _ \<leftarrow> fetch k; fetch_all fetch ks }"

locale remembering_fetch =
  fixes fetch :: "'k \<Rightarrow> ('w, 'a) meta" and known :: "token_meta \<Rightarrow> 'k \<Rightarrow> 'a option" and kept :: "'a \<Rightarrow> bool"
  assumes hit: "known t k = Some r \<Longrightarrow> run_state (fetch k) (t, w) = (r, (t, w))"
    and learn: "run_state (fetch k) (t, w) = (r, (t', w')) \<Longrightarrow> kept r \<Longrightarrow> known t' k = Some r"
    and grow: "run_state (fetch k) (t, w) = (r, (t', w')) \<Longrightarrow> known t j = Some x \<Longrightarrow> known t' j = Some x"
begin

lemma all_grow: "run_state (fetch_all fetch ks) (t, w) = (u, (t', w')) \<Longrightarrow> known t j = Some x \<Longrightarrow> known t' j = Some x"
proof (induction ks arbitrary: t w)
  case (Cons k ks)
  obtain r t1 w1 where k: "run_state (fetch k) (t, w) = (r, (t1, w1))" by (metis prod_cases3)
  with Cons.prems Cons.IH [of t1 w1] grow [OF k] show ?case by (simp add: run_state_bind)
qed (simp add: State_Monad.return_def)

lemma fetched_once:
  assumes "run_state (fetch k) (t, w) = (r, (t', w'))" "kept r" "run_state (fetch_all fetch ks) (t', w1) = (u, (t2, w2))"
  shows "run_state (fetch k) (t2, w3) = (r, (t2, w3))"
  using hit [OF all_grow [OF assms(3) learn [OF assms(1,2)]]] .

end

lemmas meta_runs = run_state_bind State_Monad.update_def State_Monad.get_def State_Monad.set_def State_Monad.return_def meta_out_def Let_def

lemma logo_caches:
  assumes "run_state (fetchTokenLogoViaJupiter c m) (t, w) = (logo, (t', w'))"
  shows "tm_cache t' = tm_cache t" and "tm_degen t' = tm_degen t" and "tm_logos t' = (tm_logos t)(m \<mapsto> logo)"
    and "tm_logos t m = Some l \<Longrightarrow> t' = t \<and> w' = w \<and> logo = l"
  using assms by (auto simp: fetchTokenLogoViaJupiter_def meta_runs split: option.splits prod.splits)

interpretation logos: remembering_fetch "fetchTokenLogoViaJupiter c" tm_logos "\<lambda>_. True" for c
proof unfold_locales
  show "run_state (fetchTokenLogoViaJupiter c k) (t, w) = (r, (t, w))" if "tm_logos t k = Some r" for t k r w
    using that by (simp add: fetchTokenLogoViaJupiter_def meta_runs)
  show "tm_logos t' k = Some r" if "run_state (fetchTokenLogoViaJupiter c k) (t, w) = (r, (t', w'))" for t t' k r w w'
    using logo_caches(3) [OF that] by simp
  show "tm_logos t' j = Some x" if "run_state (fetchTokenLogoViaJupiter c k) (t, w) = (r, (t', w'))" "tm_logos t j = Some x" for t t' k j r w w' x
    using logo_caches(3,4) [OF that(1)] that(2) by (cases "j = k") auto
qed

lemma degen_caches:
  assumes "run_state (fetchDegenTokenMeta c m) (t, w) = (token, (t', w'))"
  shows "tm_degen t' = (tm_degen t)(m \<mapsto> token)" and "tm_degen t m = Some l \<Longrightarrow> t' = t \<and> w' = w \<and> token = l"
  using assms by (auto simp: fetchDegenTokenMeta_def meta_runs split: option.splits prod.splits)

interpretation degens: remembering_fetch "fetchDegenTokenMeta c" tm_degen "\<lambda>_. True" for c
proof unfold_locales
  show "run_state (fetchDegenTokenMeta c k) (t, w) = (r, (t, w))" if "tm_degen t k = Some r" for t k r w
    using that by (simp add: fetchDegenTokenMeta_def meta_runs)
  show "tm_degen t' k = Some r" if "run_state (fetchDegenTokenMeta c k) (t, w) = (r, (t', w'))" for t t' k r w w'
    using degen_caches(1) [OF that] by simp
  show "tm_degen t' j = Some x" if "run_state (fetchDegenTokenMeta c k) (t, w) = (r, (t', w'))" "tm_degen t j = Some x" for t t' k j r w w' x
    using degen_caches [OF that(1)] that(2) by (cases "j = k") auto
qed

lemma run_store_metadata:
  assumes "run_state (store_metadata c m (name, symbol, uri)) (t, w) = (r, (t', w'))"
  shows "tk_name r = name \<and> tk_symbol r = symbol \<and> tk_uri r = uri \<and> tm_cache t' = (tm_cache t)(m \<mapsto> r)"
proof -
  obtain l t1 w1 where logo: "run_state (fetchTokenLogoViaJupiter c m) (t, w) = (l, (t1, w1))" by (metis prod_cases3)
  show ?thesis using assms logo_caches(1) [OF logo]
    by (auto simp: store_metadata_def token_image_def logo meta_runs split: prod.splits)
qed

lemma fetchTokenMetadata_cases:
  assumes "run_state (fetchTokenMetadata c mint) (t, w) = (res, (t', w'))"
  shows "tm_cache t (toBase58 (fe_sdk c) mint) = Some x \<Longrightarrow> res = Some x \<and> t' = t \<and> w' = w"
    and "tm_cache t (toBase58 (fe_sdk c) mint) = None \<Longrightarrow>
      (case res of None \<Rightarrow> t' = t | Some r \<Rightarrow> tm_cache t' = (tm_cache t)(toBase58 (fe_sdk c) mint \<mapsto> r))"
  using assms run_store_metadata [of c "toBase58 (fe_sdk c) mint"]
  by (fastforce simp: fetchTokenMetadata_def meta_runs split: prod.splits sum.splits option.splits)+

interpretation metadata: remembering_fetch "fetchTokenMetadata c" "\<lambda>t mint. map_option Some (tm_cache t (toBase58 (fe_sdk c) mint))" "\<lambda>r. r \<noteq> None" for c
proof unfold_locales
  show "run_state (fetchTokenMetadata c k) (t, w) = (r, (t, w))" if "map_option Some (tm_cache t (toBase58 (fe_sdk c) k)) = Some r" for t k r w
    using that by (auto simp: fetchTokenMetadata_def meta_runs)
  show "map_option Some (tm_cache t' (toBase58 (fe_sdk c) k)) = Some r"
    if "run_state (fetchTokenMetadata c k) (t, w) = (r, (t', w'))" "r \<noteq> None" for t t' k r w w'
    using fetchTokenMetadata_cases [OF that(1)] that(2) by (cases "tm_cache t (toBase58 (fe_sdk c) k)") auto
  show "map_option Some (tm_cache t' (toBase58 (fe_sdk c) j)) = Some x"
    if "run_state (fetchTokenMetadata c k) (t, w) = (r, (t', w'))" "map_option Some (tm_cache t (toBase58 (fe_sdk c) j)) = Some x"
    for t t' k j r w w' x
    using fetchTokenMetadata_cases [OF that(1)] that(2)
    by (cases "tm_cache t (toBase58 (fe_sdk c) k)"; cases r; cases "toBase58 (fe_sdk c) j = toBase58 (fe_sdk c) k") auto
qed

text \<open>
  C38. Token metadata is read back and remembered. For a mint that is not cached and whose metadata account holds the three strings that the
  token metadata program writes after the 65 bytes of its header, the fetch returns these strings, without padding and surrounding blanks;
  after any further fetches, a fetch of the mint returns the same result without a request, whatever has happened outside since.
\<close>

theorem metadata_read_and_cached:
  assumes "length hdr = 65" and "length n < 2 ^ 32" and "length s < 2 ^ 32" and "length u < 2 ^ 32"
    and "tm_cache t (toBase58 (fe_sdk c) mint) = None"
    and "run_state (getAccountInfo (fe_sv c) (getMetadataPda c mint)) w =
      (Inr (Some (hdr @ borsh_string n @ borsh_string s @ borsh_string u @ rest)), w1)"
    and "shown_text c u \<noteq> []"
  shows "\<exists>r t' w'. run_state (fetchTokenMetadata c mint) (t, w) = (Some r, (t', w')) \<and>
    tk_name r = shown_text c n \<and> tk_symbol r = shown_text c s \<and> tk_uri r = shown_text c u \<and>
    (\<forall>mints w2 t3 w3 w4. run_state (fetch_all (fetchTokenMetadata c) mints) (t', w2) = ((), (t3, w3)) \<longrightarrow>
      run_state (fetchTokenMetadata c mint) (t3, w4) = (Some r, (t3, w4)))"
proof -
  have use: "usable_metadata c (Some (hdr @ borsh_string n @ borsh_string s @ borsh_string u @ rest)) =
      Some (shown_text c n, shown_text c s, shown_text c u)"
    using assms(7) by (simp add: usable_metadata_def parseMetadataAccount_borsh [OF assms(1-4)])
  obtain r t' w' where st: "run_state (store_metadata c (toBase58 (fe_sdk c) mint) (shown_text c n, shown_text c s, shown_text c u)) (t, w1) =
      (r, (t', w'))" by (metis prod_cases3)
  have run: "run_state (fetchTokenMetadata c mint) (t, w) = (Some r, (t', w'))"
    using assms(5,6) st by (simp add: fetchTokenMetadata_def meta_runs use)
  from metadata.fetched_once [OF run] run_store_metadata [OF st] run show ?thesis by auto
qed

definition demo_metadata_account :: buffer where
  "demo_metadata_account = replicate 65 0 @ borsh_string [0x42, 0x6F, 0x6E, 0x6B, 0] @ borsh_string [0x42, 0] @ borsh_string [0x75, 0x72, 0x69] @ []"

theorem metadata_read_and_cached_witness:
  "\<exists>r t' w'. run_state (fetchTokenMetadata (demo_front (\<lambda>_. Some demo_metadata_account) (\<lambda>_. None)) 9)
      (\<lparr>tm_cache = Map.empty, tm_logos = Map.empty, tm_degen = Map.empty\<rparr>, ()) = (Some r, (t', w')) \<and>
    tk_name r = ''Bonk'' \<and> tk_symbol r = ''B'' \<and> tk_uri r = ''uri'' \<and>
    (\<forall>mints w2 t3 w3 w4. run_state (fetch_all (fetchTokenMetadata (demo_front (\<lambda>_. Some demo_metadata_account) (\<lambda>_. None))) mints) (t', w2) =
        ((), (t3, w3)) \<longrightarrow>
      run_state (fetchTokenMetadata (demo_front (\<lambda>_. Some demo_metadata_account) (\<lambda>_. None)) 9) (t3, w4) = (Some r, (t3, w4)))"
proof -
  have shown: "shown_text (demo_front (\<lambda>_. Some demo_metadata_account) (\<lambda>_. None)) [0x42, 0x6F, 0x6E, 0x6B, 0] = ''Bonk''"
    "shown_text (demo_front (\<lambda>_. Some demo_metadata_account) (\<lambda>_. None)) [0x42, 0] = ''B''"
    "shown_text (demo_front (\<lambda>_. Some demo_metadata_account) (\<lambda>_. None)) [0x75, 0x72, 0x69] = ''uri''"
    unfolding shown_text_def demo_front_def front_env.simps by code_simp+
  have acct: "run_state (getAccountInfo (fe_sv (demo_front (\<lambda>_. Some demo_metadata_account) (\<lambda>_. None)))
      (getMetadataPda (demo_front (\<lambda>_. Some demo_metadata_account) (\<lambda>_. None)) 9)) () = (Inr (Some demo_metadata_account), ())"
    by (simp add: demo_front_def demo_services_def State_Monad.return_def)
  show ?thesis
    unfolding shown [symmetric]
    by (rule metadata_read_and_cached [where hdr = "replicate 65 0" and rest = "[]" and ?w1.0 = "()"])
      (simp_all only: acct demo_metadata_account_def [symmetric], simp_all add: shown)
qed

end
