(* ===== verification/Web_App.thy ===== *)
theory Web_App
  imports Round_History Token_Meta
begin

text \<open>
  The game hook of the front end, \<open>src/hooks/useJackpot.ts\<close>: its state variables, references and the stored prizes as the record
  \<open>hook\<close>, and its effects, timers and callbacks as computations on it. A callback is given the wallet and the round id that it
  closes over. What React does is to run them, in any order.

  The cache of deposit tokens is an object that callbacks hold on to across requests while the reference is set to a new one:
  the objects are the values of \<open>hk_caches\<close> at their addresses, and the reference is the address \<open>hk_cache\<close>. A call that is not
  awaited is a job of \<open>hk_jobs\<close>, to be run later by \<open>run_job\<close>. The ghost field \<open>hk_sent\<close> is the list of transactions the
  wallet has accepted, newest first.
\<close>

section \<open>State\<close>

datatype GamePhase = PWaiting | POpen | PCountdown | PSpinning | PSettled | PClaimed | PCancelled

record Participant =
  pt_address :: string
  pt_displayName :: string
  pt_color :: string
  pt_usdcAmount :: rat
  pt_tickets :: int
  pt_tokens :: "(string \<times> rat \<times> string) list"

text \<open>The tokens a participant has deposited, each with its symbol and icon.\<close>

type_synonym token_tag = "string \<times> string"

record token_cache =
  tc_roundId :: int
  tc_map :: "string \<Rightarrow> token_tag list option"
  tc_processedSigs :: "string list"
  tc_resolving :: bool
  tc_lastResolveTs :: int

record prepared_swap =
  ps_minOut :: int
  ps_swapIxs :: JupiterSwapInstructions

datatype ('pk, 'alt) sent =
    SentDeposit int bool "prepared_swap list" int int "('pk, 'alt) wallet_tx"
  | SentClaim int | SentDegenVrf int | SentCancel int | SentRefund int

record ('w, 'pk, 'alt) hook =
  hk_roundId :: int
  hk_roundData :: "'pk FrontRoundData option"
  hk_participants :: "Participant list"
  hk_phase :: GamePhase
  hk_timeLeft :: int
  hk_balance :: rat
  hk_loading :: bool
  hk_error :: "string option"
  hk_autoStatus :: "string option"
  hk_unclaimed :: "UnclaimedPrize list"
  hk_initialized :: bool
  hk_pendingSettled :: "(int \<times> string \<times> rat) list"
  hk_lastWs :: int
  hk_paused :: bool
  hk_storage :: "string option"
  hk_sentChunks :: int
  hk_caches :: "nat \<Rightarrow> token_cache"
  hk_cache :: nat
  hk_nextCache :: nat
  hk_jobs :: "(nat \<times> 'pk \<times> string list) list"
  hk_meta :: token_meta
  hk_sent :: "('pk, 'alt) sent list"
  hk_world :: 'w

type_synonym ('w, 'pk, 'alt, 'a) app = "(('w, 'pk, 'alt) hook, 'a) state"

definition reach_out :: "('w, 'a) state \<Rightarrow> ('w, 'pk, 'alt, 'a) app" where
  "reach_out m = State (\<lambda>s. case run_state m (hk_world s) of (x, w) \<Rightarrow> (x, s\<lparr>hk_world := w\<rparr>))"

definition with_meta :: "('w, 'a) meta \<Rightarrow> ('w, 'pk, 'alt, 'a) app" where
  "with_meta m = State (\<lambda>s. case run_state m (hk_meta s, hk_world s) of (x, (t, w)) \<Rightarrow> (x, s\<lparr>hk_meta := t, hk_world := w\<rparr>))"

abbreviation set_hook :: "(('w, 'pk, 'alt) hook \<Rightarrow> ('w, 'pk, 'alt) hook) \<Rightarrow> ('w, 'pk, 'alt, unit) app" where
  "set_hook \<equiv> State_Monad.update"

text \<open>\<open>Number(n) / 10 ** USDC_DECIMALS\<close> of a \<open>BigInt\<close>.\<close>

definition usdc_number :: "('w, 'pk, 'alt) front_env \<Rightarrow> int \<Rightarrow> rat" where
  "usdc_number c n = fe_fl c (fe_fl c (of_int n) / 1000000)"

section \<open>Stored prizes\<close>

definition setItem :: "('w, 'pk, 'alt) front_env \<Rightarrow> UnclaimedPrize list \<Rightarrow> ('w, 'pk, 'alt, unit result) app" where
  "setItem c ps = (let v = fe_showPrizes c ps in
     if fe_canStore c v then doE (set_hook (\<lambda>s. s\<lparr>hk_storage := Some v\<rparr>)) (\<lambda>_. returnE ()) else throwE ''QuotaExceededError'')"

definition loadUnclaimedPrizes :: "('w, 'pk, 'alt) front_env \<Rightarrow> ('w, 'pk, 'alt, UnclaimedPrize list result) app" where
  "loadUnclaimedPrizes c =
     tryE (doE State_Monad.get (\<lambda>s.
       case hk_storage s of
         None \<Rightarrow> returnE []
       | Some raw \<Rightarrow> if raw = [] then returnE [] else
           bindE (liftE (fe_parsePrizes c raw)) (\<lambda>parsed.
           case parsed of
             PrizeArray ps \<Rightarrow> returnE ps
           | PrizeObject p \<Rightarrow> bindE (setItem c [p]) (\<lambda>_. returnE [p])
           | OtherValue \<Rightarrow> returnE [])))
       (\<lambda>_. returnE [])"

fun upsert_prize :: "UnclaimedPrize \<Rightarrow> UnclaimedPrize list \<Rightarrow> UnclaimedPrize list" where
  "upsert_prize prize [] = [prize]"
| "upsert_prize prize (p # ps) = (if up_roundId p = up_roundId prize then prize # ps else p # upsert_prize prize ps)"

definition saveUnclaimedPrize :: "('w, 'pk, 'alt) front_env \<Rightarrow> UnclaimedPrize \<Rightarrow> ('w, 'pk, 'alt, unit result) app" where
  "saveUnclaimedPrize c prize =
     tryE (bindE (loadUnclaimedPrizes c) (\<lambda>existing. setItem c (upsert_prize prize existing))) (\<lambda>_. returnE ())"

abbreviation without_round :: "int \<Rightarrow> UnclaimedPrize list \<Rightarrow> UnclaimedPrize list" where
  "without_round r ps \<equiv> filter (\<lambda>p. up_roundId p \<noteq> r) ps"

definition clearUnclaimedPrize :: "('w, 'pk, 'alt) front_env \<Rightarrow> int \<Rightarrow> ('w, 'pk, 'alt, unit result) app" where
  "clearUnclaimedPrize c roundId =
     tryE (bindE (loadUnclaimedPrizes c) (\<lambda>ps.
       let existing = without_round roundId ps in
       if existing = [] then doE (set_hook (\<lambda>s. s\<lparr>hk_storage := None\<rparr>)) (\<lambda>_. returnE ()) else setItem c existing))
       (\<lambda>_. returnE ())"

text \<open>Removing a prize from the store and from the state.\<close>

definition forget_prize :: "('w, 'pk, 'alt) front_env \<Rightarrow> int \<Rightarrow> ('w, 'pk, 'alt, unit result) app" where
  "forget_prize c roundId =
     bindE (clearUnclaimedPrize c roundId) (\<lambda>_.
     doE (set_hook (\<lambda>s. s\<lparr>hk_unclaimed := without_round roundId (hk_unclaimed s)\<rparr>)) (\<lambda>_. returnE ()))"

section \<open>Finding the round\<close>

record startup_scan =
  st_active :: int
  st_maxExisting :: int
  st_nullStreak :: int
  st_settled :: "(int \<times> string \<times> rat) list"

definition startup_round :: "('w, 'pk, 'alt) front_env \<Rightarrow> int \<Rightarrow> 'pk FrontRoundData \<Rightarrow> startup_scan \<Rightarrow> startup_scan" where
  "startup_round c i data v =
     (let st = rd_status data;
          v1 = v\<lparr>st_nullStreak := 0, st_maxExisting := i\<rparr>;
          v2 = (if st = Open \<or> st = Locked \<or> st = VrfRequested \<or> st = Settled then v1\<lparr>st_active := i\<rparr> else v1)
      in if st = Settled \<and> rd_winner data \<noteq> pk_default (fe_sdk c)
         then v2\<lparr>st_settled := st_settled v2 @ [(i, toBase58 (fe_sdk c) (rd_winner data), usdc_number c (rd_totalUsdc data))]\<rparr>
         else v2)"

fun startup_loop :: "('w, 'pk, 'alt) front_env \<Rightarrow> int list \<Rightarrow> startup_scan \<Rightarrow> ('w, startup_scan result) state" where
  "startup_loop c [] v = returnE v"
| "startup_loop c (i # is) v =
     bindE (fetchRound_front c i) (\<lambda>d.
     case d of
       None \<Rightarrow> let v' = v\<lparr>st_nullStreak := st_nullStreak v + 1\<rparr> in
         if 0 < st_maxExisting v \<and> 5 \<le> st_nullStreak v' then returnE v' else startup_loop c is v'
     | Some data \<Rightarrow> startup_loop c is (startup_round c i data v))"

definition startup_start :: "int \<Rightarrow> int" where
  "startup_start archivedMax = (if 0 < archivedMax then max 1 (archivedMax - 2) else 1)"

definition startup_scan_round :: "startup_scan \<Rightarrow> int" where
  "startup_scan_round v = (if 0 < st_active v then st_active v else st_maxExisting v + 1)"

definition detectRound :: "('w, 'pk, 'alt) front_env \<Rightarrow> ('w, 'pk, 'alt, unit) app" where
  "detectRound c =
     do { s \<leftarrow> State_Monad.get;
          if hk_initialized s then State_Monad.return ()
          else do {
            r \<leftarrow> reach_out (bindE (tryE (getMaxArchivedRoundId_front c) (\<lambda>_. returnE 0)) (\<lambda>archivedMax.
                  let scanStart = startup_start archivedMax in
                  startup_loop c [scanStart..scanStart + 50] \<lparr>st_active = 0, st_maxExisting = 0, st_nullStreak = 0, st_settled = []\<rparr>));
            (case r of
               Inl (_ :: string) \<Rightarrow> State_Monad.return ()
             | Inr v \<Rightarrow> set_hook (\<lambda>s. s\<lparr>hk_pendingSettled := (if st_settled v \<noteq> [] then st_settled v else hk_pendingSettled s),
                   hk_roundId := startup_scan_round v\<rparr>));
            set_hook (\<lambda>s. s\<lparr>hk_initialized := True\<rparr>) } }"

section \<open>Reading a round\<close>

definition phaseFromStatus :: "int \<Rightarrow> int \<Rightarrow> int \<Rightarrow> GamePhase" where
  "phaseFromStatus status endTs nowSec =
     (if status = Cancelled then PCancelled
      else if status = Claimed then PClaimed
      else if status = Settled then PSettled
      else if status = VrfRequested \<or> status = Locked then PSpinning
      else if status = Open then
        if 0 < endTs \<and> endTs \<le> nowSec then PCountdown
        else if 0 < endTs \<and> endTs - nowSec \<le> 6 then PCountdown
        else POpen
      else PWaiting)"

definition time_left :: "int \<Rightarrow> int \<Rightarrow> int" where
  "time_left end_ts now_sec = (if 0 < end_ts then max 0 (end_ts - now_sec) else 0)"

definition TICKET_UNIT :: int where "TICKET_UNIT = 10000"

definition PARTICIPANT_COLORS :: "string list" where
  "PARTICIPANT_COLORS = [''#8b5cf6'', ''#06b6d4'', ''#f59e0b'', ''#ef4444'', ''#22c55e'', ''#ec4899'', ''#3b82f6'', ''#f97316'']"

definition short_address :: "string \<Rightarrow> string" where
  "short_address addr = take 4 addr @ ''...'' @ drop (length addr - 4) addr"

text \<open>A participant as it is shown: its number, its address and its account.\<close>

definition shown_participant :: "('w, 'pk, 'alt) front_env \<Rightarrow> 'pk option \<Rightarrow> 'pk FrontRoundData \<Rightarrow> (string \<Rightarrow> token_tag list option) \<Rightarrow> string \<Rightarrow>
    nat \<times> 'pk \<times> buffer option \<Rightarrow> Participant" where
  "shown_participant c publicKey data tokens usdcIcon entry =
     (let (i, addr, info) = entry; addrStr = toBase58 (fe_sdk c) addr;
          equal_split = fe_fl c (usdc_number c (rd_totalUsdc data) / of_int (rd_participantsCount data));
          fallback = (equal_split, \<lfloor>fe_fl c (fe_fl c (equal_split * 1000000) / of_int TICKET_UNIT)\<rfloor>);
          (usdcAmt, tickets) = (case info of
              None \<Rightarrow> fallback
            | Some bytes \<Rightarrow> (case parseParticipant_front (fe_sdk c) bytes of
                None \<Rightarrow> fallback
              | Some p \<Rightarrow> (usdc_number c (pd_usdcTotal p), pd_ticketsTotal p)));
          shown = (case tokens addrStr of None \<Rightarrow> [] | Some ts \<Rightarrow> map (\<lambda>(symbol, icon). (symbol, usdcAmt, icon)) ts)
      in \<lparr>pt_address = addrStr, pt_displayName = (if publicKey = Some addr then ''You'' else short_address addrStr),
          pt_color = PARTICIPANT_COLORS ! (i mod length PARTICIPANT_COLORS), pt_usdcAmount = usdcAmt, pt_tickets = tickets,
          pt_tokens = (if shown = [] then [(''USDC'', usdcAmt, usdcIcon)] else shown)\<rparr>)"

section \<open>Tokens of the deposits\<close>

definition WSOL_MINT_STR :: string where "WSOL_MINT_STR = ''So11111111111111111111111111111111111111112''"

definition fresh_cache :: "int \<Rightarrow> token_cache" where
  "fresh_cache roundId = \<lparr>tc_roundId = roundId, tc_map = Map.empty, tc_processedSigs = [], tc_resolving = False, tc_lastResolveTs = 0\<rparr>"

definition new_cache :: "int \<Rightarrow> ('w, 'pk, 'alt, unit) app" where
  "new_cache roundId = set_hook (\<lambda>s.
     if tc_roundId (hk_caches s (hk_cache s)) \<noteq> roundId
     then s\<lparr>hk_caches := (hk_caches s)(hk_nextCache s := fresh_cache roundId), hk_cache := hk_nextCache s, hk_nextCache := hk_nextCache s + 1\<rparr>
     else s)"

abbreviation set_cache :: "nat \<Rightarrow> (token_cache \<Rightarrow> token_cache) \<Rightarrow> ('w, 'pk, 'alt, unit) app" where
  "set_cache a f \<equiv> set_hook (\<lambda>s. s\<lparr>hk_caches := (hk_caches s)(a := f (hk_caches s a))\<rparr>)"

text \<open>\<open>resolveDepositTokens\<close> up to its first request, which the caller runs.\<close>

definition resolveDepositTokens :: "('w, 'pk, 'alt) front_env \<Rightarrow> 'pk \<Rightarrow> string list \<Rightarrow> ('w, 'pk, 'alt, unit) app" where
  "resolveDepositTokens c roundPda participantAddresses =
     do { s \<leftarrow> State_Monad.get;
          let a = hk_cache s; let cache = hk_caches s a;
          (if tc_resolving cache then State_Monad.return ()
           else do {
             t1 \<leftarrow> reach_out (dateNow (fe_sv c));
             (if t1 - tc_lastResolveTs cache < 30000 \<or> (\<forall>addr \<in> set participantAddresses. tc_map cache addr \<noteq> None)
              then State_Monad.return ()
              else do {
                t2 \<leftarrow> reach_out (dateNow (fe_sv c));
                set_cache a (\<lambda>cache. cache\<lparr>tc_resolving := True, tc_lastResolveTs := t2\<rparr>);
                set_hook (\<lambda>s. s\<lparr>hk_jobs := hk_jobs s @ [(a, roundPda, participantAddresses)]\<rparr>) }) }) }"

text \<open>What a transaction spent: the mints, other than USDC, of which its signer has less than before.\<close>

fun add_mint :: "string \<Rightarrow> string \<Rightarrow> (string \<times> string list) list \<Rightarrow> (string \<times> string list) list" where
  "add_mint user mint [] = [(user, [mint])]"
| "add_mint user mint ((u, ms) # rest) =
     (if u = user then (u, if mint \<in> set ms then ms else ms @ [mint]) # rest else (u, ms) # add_mint user mint rest)"

definition spent_mints :: "string \<Rightarrow> string \<Rightarrow> parsed_tx \<Rightarrow> string list" where
  "spent_mints usdcMint signer tx =
     [tb_mint preB. preB \<leftarrow> px_pre tx, tb_owner preB = Some signer \<and> tb_mint preB \<noteq> usdcMint \<and>
        (let postB = find (\<lambda>p. tb_mint p = tb_mint preB \<and> tb_owner p = Some signer) (px_post tx);
             amt = (\<lambda>b. case tb_uiAmount b of None \<Rightarrow> 0 | Some x \<Rightarrow> x) in
         (case postB of None \<Rightarrow> 0 | Some b \<Rightarrow> amt b) < amt preB)]"

definition depositor :: "string list \<Rightarrow> parsed_tx \<Rightarrow> string option" where
  "depositor participantAddresses tx =
     (case find (\<lambda>(_, signer, lookup). signer \<and> \<not> lookup) (px_keys tx) of
        None \<Rightarrow> None
      | Some (signer, _) \<Rightarrow> if signer \<noteq> [] \<and> signer \<in> set participantAddresses then Some signer else None)"

definition token_tag_of :: "(string \<Rightarrow> TokenMetadataResult option) \<Rightarrow> string \<Rightarrow> token_tag" where
  "token_tag_of metaMap mint =
     (let meta = metaMap mint in
      (if mint = WSOL_MINT_STR then ''SOL'' else or_string (map_option tk_symbol meta) (take 4 mint), or_string (map_option tk_image meta) []))"

definition merge_tags :: "token_tag list \<Rightarrow> token_tag list \<Rightarrow> token_tag list" where
  "merge_tags existing tokens = fold (\<lambda>t merged. if fst t \<in> fst ` set merged then merged else merged @ [t]) tokens existing"

definition add_tokens :: "nat \<Rightarrow> string \<Rightarrow> token_tag list \<Rightarrow> ('w, 'pk, 'alt, unit) app" where
  "add_tokens a addr tokens = set_cache a (\<lambda>cache. cache\<lparr>tc_map := (tc_map cache)(addr \<mapsto>
     merge_tags (case tc_map cache addr of None \<Rightarrow> [] | Some ts \<Rightarrow> ts) tokens)\<rparr>)"

definition scan_signature :: "('w, 'pk, 'alt) front_env \<Rightarrow> nat \<Rightarrow> string list \<Rightarrow> string \<Rightarrow> (string \<times> string list) list \<Rightarrow>
    ('w, 'pk, 'alt, (string \<times> string list) list result) app" where
  "scan_signature c a participantAddresses sig mintsByUser =
     doE (reach_out (fe_parsedTx c sig)) (\<lambda>tx.
     doE (set_cache a (\<lambda>cache. cache\<lparr>tc_processedSigs := sig # tc_processedSigs cache\<rparr>)) (\<lambda>_.
     returnE (case tx of
         Inr (Some t) \<Rightarrow> (case depositor participantAddresses t of
             None \<Rightarrow> mintsByUser
           | Some signer \<Rightarrow> fold (add_mint signer) (spent_mints (toBase58 (fe_sdk c) (usdc (fe_chain c))) signer t) mintsByUser)
       | _ \<Rightarrow> mintsByUser)))"

text \<open>The rest of \<open>resolveDepositTokens\<close>.\<close>

definition resolve_rest :: "('w, 'pk, 'alt) front_env \<Rightarrow> nat \<Rightarrow> 'pk \<Rightarrow> string list \<Rightarrow> ('w, 'pk, 'alt, unit result) app" where
  "resolve_rest c a roundPda participantAddresses =
     bindE (reach_out (fe_signatures c roundPda)) (\<lambda>sigs.
     doE State_Monad.get (\<lambda>s.
     bindE (foldE (scan_signature c a participantAddresses)
         [sig. (sig, err) \<leftarrow> sigs, sig \<notin> set (tc_processedSigs (hk_caches s a)) \<and> \<not> err] []) (\<lambda>mintsByUser.
     let allMints = remdups (concat (map snd mintsByUser)) in
     if allMints = [] then returnE ()
     else bindE (liftE (map_result (new_key c) allMints)) (\<lambda>mints.
       bindE (with_meta (fetchTokenMetadataBatch c mints)) (\<lambda>metaMap.
       for_eachE mintsByUser (\<lambda>(addr, ms). doE (add_tokens a addr (map (token_tag_of metaMap) ms)) (\<lambda>_. returnE ())))))))"

definition run_job :: "('w, 'pk, 'alt) front_env \<Rightarrow> ('w, 'pk, 'alt, unit) app" where
  "run_job c =
     do { s \<leftarrow> State_Monad.get;
          (case hk_jobs s of
             [] \<Rightarrow> State_Monad.return ()
           | (a, roundPda, participantAddresses) # jobs \<Rightarrow> do {
               set_hook (\<lambda>s. s\<lparr>hk_jobs := jobs\<rparr>);
               _ \<leftarrow> resolve_rest c a roundPda participantAddresses;
               set_cache a (\<lambda>cache. cache\<lparr>tc_resolving := False\<rparr>) }) }"

section \<open>Polling\<close>

definition processRoundData :: "('w, 'pk, 'alt) front_env \<Rightarrow> 'pk option \<Rightarrow> int \<Rightarrow> 'pk FrontRoundData \<Rightarrow> ('w, 'pk, 'alt, unit result) app" where
  "processRoundData c publicKey roundId data =
     (if rd_roundId data \<noteq> roundId then returnE ()
      else doE (reach_out (dateNow (fe_sv c))) (\<lambda>ms.
        let nowSec = ms div 1000 in
        doE (set_hook (\<lambda>s. s\<lparr>hk_roundData := Some data, hk_phase := phaseFromStatus (rd_status data) (rd_endTs data) nowSec,
          hk_timeLeft := time_left (rd_endTs data) nowSec\<rparr>)) (\<lambda>_.
        doE (new_cache roundId) (\<lambda>_.
        doE (with_meta (fetchTokenMetadata c (usdc (fe_chain c)))) (\<lambda>usdcMeta.
        let addrs = take (nat (rd_participantsCount data)) (rd_participants data); roundPda = round_pda (fe_chain c) roundId;
            pdas = map (participant_pda (fe_chain c) roundPda) addrs in
        bindE (if 0 < rd_participantsCount data
               then bindE (reach_out (getMultipleAccountsInfo (fe_sv c) pdas)) (\<lambda>infos.
                 doE State_Monad.get (\<lambda>s.
                 let parts = map (shown_participant c publicKey data (tc_map (hk_caches s (hk_cache s))) (or_string (map_option tk_image usdcMeta) []))
                       (zip [0..<length addrs] (zip addrs infos)) in
                 doE (resolveDepositTokens c roundPda (map pt_address parts)) (\<lambda>_. returnE parts)))
               else returnE []) (\<lambda>parts.
        doE (set_hook (\<lambda>s. s\<lparr>hk_participants := parts\<rparr>)) (\<lambda>_. returnE ())))))))"

definition pollRound :: "('w, 'pk, 'alt) front_env \<Rightarrow> 'pk option \<Rightarrow> int \<Rightarrow> ('w, 'pk, 'alt, unit result) app" where
  "pollRound c publicKey roundId =
     tryE (bindE (reach_out (fetchRound_front c roundId)) (\<lambda>d.
       case d of
         None \<Rightarrow> doE (set_hook (\<lambda>s. s\<lparr>hk_roundData := None, hk_phase := PWaiting, hk_participants := []\<rparr>)) (\<lambda>_. returnE ())
       | Some data \<Rightarrow> processRoundData c publicKey roundId data))
       (\<lambda>_. returnE ())"

definition pollBalance :: "('w, 'pk, 'alt) front_env \<Rightarrow> 'pk option \<Rightarrow> ('w, 'pk, 'alt, unit result) app" where
  "pollBalance c publicKey =
     (case publicKey of
        None \<Rightarrow> doE (set_hook (\<lambda>s. s\<lparr>hk_balance := 0\<rparr>)) (\<lambda>_. returnE ())
      | Some k \<Rightarrow>
          tryE (bindE (liftE (ata (fe_chain c) (usdc (fe_chain c)) k False)) (\<lambda>a.
            bindE (reach_out (fe_balance c a)) (\<lambda>(amount, _).
            doE (set_hook (\<lambda>s. s\<lparr>hk_balance := usdc_number c amount\<rparr>)) (\<lambda>_. returnE ()))))
          (\<lambda>_. doE (set_hook (\<lambda>s. s\<lparr>hk_balance := 0\<rparr>)) (\<lambda>_. returnE ())))"

definition handleRoundWs :: "('w, 'pk, 'alt) front_env \<Rightarrow> 'pk option \<Rightarrow> int \<Rightarrow> buffer \<Rightarrow> ('w, 'pk, 'alt, unit result) app" where
  "handleRoundWs c publicKey roundId bytes =
     doE (reach_out (dateNow (fe_sv c))) (\<lambda>ms.
     doE (set_hook (\<lambda>s. s\<lparr>hk_lastWs := ms\<rparr>)) (\<lambda>_.
     case parseRound_front (fe_sdk c) bytes of
       None \<Rightarrow> returnE ()
     | Some data \<Rightarrow> processRoundData c publicKey roundId data))"

text \<open>Decoding a token account throws on a buffer shorter than \<open>AccountLayout.span\<close>.\<close>

definition TOKEN_ACCOUNT_SPAN :: nat where "TOKEN_ACCOUNT_SPAN = 165"

definition handleBalanceWs :: "('w, 'pk, 'alt) front_env \<Rightarrow> buffer \<Rightarrow> ('w, 'pk, 'alt, unit) app" where
  "handleBalanceWs c bytes =
     (if length bytes < TOKEN_ACCOUNT_SPAN then State_Monad.return ()
      else set_hook (\<lambda>s. s\<lparr>hk_balance := usdc_number c (snd (fe_decodeAccount c bytes))\<rparr>))"

section \<open>Timers\<close>

definition poll_interval :: "bool \<Rightarrow> int \<Rightarrow> ('w, 'pk, 'alt) hook \<Rightarrow> int" where
  "poll_interval wsConnected nowMs s =
     (let fast = hk_phase s \<in> {POpen, PCountdown, PSpinning}; wsFresh = wsConnected \<and> nowMs - hk_lastWs s < 15000 in
      if wsFresh then 30000 else if fast then 3000 else 10000)"

definition countdown_tick :: "('w, 'pk, 'alt) front_env \<Rightarrow> ('w, 'pk, 'alt, unit) app" where
  "countdown_tick c =
     do { s \<leftarrow> State_Monad.get;
          (if hk_phase s \<notin> {POpen, PCountdown} then State_Monad.return ()
           else case hk_roundData s of
               None \<Rightarrow> State_Monad.return ()
             | Some data \<Rightarrow> do {
                 ms \<leftarrow> reach_out (dateNow (fe_sv c));
                 let left = time_left (rd_endTs data) (ms div 1000);
                 set_hook (\<lambda>s. s\<lparr>hk_timeLeft := left\<rparr>);
                 (if left \<le> 6 \<and> 0 < left \<and> hk_phase s = POpen then set_hook (\<lambda>s. s\<lparr>hk_phase := PCountdown\<rparr>)
                  else State_Monad.return ()) }) }"

definition auto_status_effect :: "('w, 'pk, 'alt) hook \<Rightarrow> ('w, 'pk, 'alt) hook" where
  "auto_status_effect s =
     (case hk_roundData s of
        None \<Rightarrow> s
      | Some data \<Rightarrow> if rd_status data = Locked \<or> rd_status data = VrfRequested
          then s\<lparr>hk_autoStatus := Some ''Waiting for randomness...''\<rparr> else s\<lparr>hk_autoStatus := None\<rparr>)"

definition nextRound :: "('w, 'pk, 'alt) hook \<Rightarrow> ('w, 'pk, 'alt) hook" where
  "nextRound s = s\<lparr>hk_roundId := hk_roundId s + 1, hk_roundData := None, hk_participants := [], hk_phase := PWaiting, hk_timeLeft := 0\<rparr>"

text \<open>The delay after which the hook moves on, and the timer that does it.\<close>

definition advance_delay :: "GamePhase \<Rightarrow> int option" where
  "advance_delay phase =
     (if phase \<notin> {PClaimed, PCancelled, PSettled} then None else if phase = PSettled then Some 10000 else Some 2000)"

definition auto_advance :: "('w, 'pk, 'alt) hook \<Rightarrow> ('w, 'pk, 'alt) hook" where
  "auto_advance s = (if hk_paused s then s else nextRound s)"

definition setPauseAutoAdvance :: "bool \<Rightarrow> ('w, 'pk, 'alt) hook \<Rightarrow> ('w, 'pk, 'alt) hook" where
  "setPauseAutoAdvance paused s = s\<lparr>hk_paused := paused\<rparr>"

section \<open>Unclaimed prizes\<close>

text \<open>The payout shown for a prize: the pot without a fee of 0.25%.\<close>

definition prize_of :: "('w, 'pk, 'alt) front_env \<Rightarrow> int \<Rightarrow> string \<Rightarrow> rat \<Rightarrow> int \<Rightarrow> UnclaimedPrize" where
  "prize_of c roundId winner pot t =
     \<lparr>up_roundId = roundId, up_winnerAddress = winner, up_payout = fe_fl c (pot - fe_fl c (pot * fe_fl c (25 / 10000))),
      up_totalUsdc = pot, up_timestamp = t\<rparr>"

definition check_saved :: "('w, 'pk, 'alt) front_env \<Rightarrow> UnclaimedPrize \<Rightarrow> UnclaimedPrize list \<Rightarrow> ('w, 'pk, 'alt, UnclaimedPrize list result) app" where
  "check_saved c prize result =
     tryE (bindE (reach_out (fetchRound_front c (up_roundId prize))) (\<lambda>d.
       case d of
         Some data \<Rightarrow> if rd_status data = Settled then returnE (result @ [prize])
           else bindE (clearUnclaimedPrize c (up_roundId prize)) (\<lambda>_. returnE result)
       | None \<Rightarrow> bindE (clearUnclaimedPrize c (up_roundId prize)) (\<lambda>_. returnE result)))
       (\<lambda>_. returnE (result @ [prize]))"

definition add_pending :: "('w, 'pk, 'alt) front_env \<Rightarrow> string \<Rightarrow> int \<times> string \<times> rat \<Rightarrow> UnclaimedPrize list \<Rightarrow>
    ('w, 'pk, 'alt, UnclaimedPrize list result) app" where
  "add_pending c walletAddr pending result =
     (let (r, winner, pot) = pending in
      if winner \<noteq> walletAddr \<or> r \<in> up_roundId ` set result then returnE result
      else doE (reach_out (dateNow (fe_sv c))) (\<lambda>t.
        let prize = prize_of c r winner pot t in
        bindE (saveUnclaimedPrize c prize) (\<lambda>_. returnE (result @ [prize]))))"

definition load_prizes_effect :: "('w, 'pk, 'alt) front_env \<Rightarrow> 'pk option \<Rightarrow> ('w, 'pk, 'alt, unit result) app" where
  "load_prizes_effect c publicKey =
     doE State_Monad.get (\<lambda>s.
     case publicKey of
       None \<Rightarrow> doE (set_hook (\<lambda>s. s\<lparr>hk_unclaimed := []\<rparr>)) (\<lambda>_. returnE ())
     | Some k \<Rightarrow>
         if \<not> hk_initialized s then doE (set_hook (\<lambda>s. s\<lparr>hk_unclaimed := []\<rparr>)) (\<lambda>_. returnE ())
         else let walletAddr = toBase58 (fe_sdk c) k in
           bindE (loadUnclaimedPrizes c) (\<lambda>stored.
           bindE (foldE (check_saved c) [p \<leftarrow> stored. up_winnerAddress p = walletAddr] []) (\<lambda>kept.
           doE State_Monad.get (\<lambda>s'.
           bindE (foldE (add_pending c walletAddr) (hk_pendingSettled s') kept) (\<lambda>result.
           doE (set_hook (\<lambda>s. s\<lparr>hk_pendingSettled := [], hk_unclaimed := result\<rparr>)) (\<lambda>_. returnE ()))))))"

text \<open>When a round settles and the user has won: the prize, revealed by a timer.\<close>

definition settled_prize :: "('w, 'pk, 'alt) front_env \<Rightarrow> 'pk option \<Rightarrow> ('w, 'pk, 'alt, UnclaimedPrize option) app" where
  "settled_prize c publicKey =
     do { s \<leftarrow> State_Monad.get;
          (case (publicKey, hk_roundData s) of
             (Some k, Some data) \<Rightarrow>
               if hk_phase s \<noteq> PSettled \<or> rd_roundId data \<noteq> hk_roundId s \<or> rd_winner data = pk_default (fe_sdk c) \<or>
                  toBase58 (fe_sdk c) (rd_winner data) \<noteq> toBase58 (fe_sdk c) k
               then State_Monad.return None
               else do { t \<leftarrow> reach_out (dateNow (fe_sv c));
                 State_Monad.return (Some (prize_of c (rd_roundId data) (toBase58 (fe_sdk c) (rd_winner data))
                   (usdc_number c (rd_totalUsdc data)) t)) }
           | _ \<Rightarrow> State_Monad.return None) }"

definition reveal_prize :: "('w, 'pk, 'alt) front_env \<Rightarrow> UnclaimedPrize \<Rightarrow> ('w, 'pk, 'alt, unit result) app" where
  "reveal_prize c prize =
     bindE (saveUnclaimedPrize c prize) (\<lambda>_.
     doE (set_hook (\<lambda>s. if up_roundId prize \<in> up_roundId ` set (hk_unclaimed s) then s
       else s\<lparr>hk_unclaimed := hk_unclaimed s @ [prize]\<rparr>)) (\<lambda>_. returnE ()))"

definition claimed_effect :: "('w, 'pk, 'alt) front_env \<Rightarrow> ('w, 'pk, 'alt, unit result) app" where
  "claimed_effect c =
     doE State_Monad.get (\<lambda>s.
     if hk_phase s = PClaimed \<and> hk_roundId s \<in> up_roundId ` set (hk_unclaimed s) then forget_prize c (hk_roundId s) else returnE ())"

definition stale_prize :: "('w, 'pk, 'alt) front_env \<Rightarrow> UnclaimedPrize \<Rightarrow> int list \<Rightarrow> ('w, 'pk, 'alt, int list result) app" where
  "stale_prize c prize toRemove =
     tryE (bindE (reach_out (fetchRound_front c (up_roundId prize))) (\<lambda>d.
       returnE (case d of Some data \<Rightarrow> if rd_status data = Settled then toRemove else toRemove @ [up_roundId prize]
                | None \<Rightarrow> toRemove @ [up_roundId prize])))
       (\<lambda>_. returnE toRemove)"

definition revalidate :: "('w, 'pk, 'alt) front_env \<Rightarrow> ('w, 'pk, 'alt, unit result) app" where
  "revalidate c =
     doE State_Monad.get (\<lambda>s.
     bindE (foldE (stale_prize c) (hk_unclaimed s) []) (\<lambda>toRemove.
     if toRemove = [] then returnE ()
     else bindE (for_eachE toRemove (clearUnclaimedPrize c)) (\<lambda>_.
       doE (set_hook (\<lambda>s. s\<lparr>hk_unclaimed := [p \<leftarrow> hk_unclaimed s. up_roundId p \<notin> set toRemove]\<rparr>)) (\<lambda>_. returnE ()))))"

section \<open>Claims\<close>

text \<open>
  What every callback does: it needs a wallet, shows that it is busy, and shows the error it
  throws.
\<close>

definition open_action :: "('w, 'pk, 'alt) hook \<Rightarrow> ('w, 'pk, 'alt) hook" where
  "open_action s = s\<lparr>hk_loading := True, hk_error := None\<rparr>"

definition close_action :: "'a result \<Rightarrow> ('w, 'pk, 'alt) hook \<Rightarrow> ('w, 'pk, 'alt) hook" where
  "close_action r s = s\<lparr>hk_loading := False, hk_error := (case r of Inl e \<Rightarrow> Some e | Inr _ \<Rightarrow> hk_error s)\<rparr>"

definition user_action :: "'pk option \<Rightarrow> ('pk \<Rightarrow> ('w, 'pk, 'alt, 'a result) app) \<Rightarrow> ('w, 'pk, 'alt, 'a result) app" where
  "user_action publicKey body =
     (case publicKey of
        None \<Rightarrow> throwE ''Wallet not connected''
      | Some k \<Rightarrow> doE (set_hook open_action) (\<lambda>_.
          doE (body k) (\<lambda>r.
          doE (set_hook (close_action r)) (\<lambda>_. liftE r))))"

definition send :: "('w, 'pk, 'alt) front_env \<Rightarrow> ('pk, 'alt) sent \<Rightarrow> ('pk, 'alt) wallet_tx \<Rightarrow> ('w, 'pk, 'alt, string result) app" where
  "send c ev tx =
     bindE (reach_out (fe_send c tx)) (\<lambda>sig.
     doE (set_hook (\<lambda>s. s\<lparr>hk_sent := ev # hk_sent s\<rparr>)) (\<lambda>_. returnE sig))"

definition poll_all :: "('w, 'pk, 'alt) front_env \<Rightarrow> 'pk option \<Rightarrow> int \<Rightarrow> ('w, 'pk, 'alt, unit result) app" where
  "poll_all c publicKey roundId = bindE (pollRound c publicKey roundId) (\<lambda>_. pollBalance c publicKey)"

text \<open>The archive entry of a claimed round; a failure is ignored.\<close>

definition archive_claim :: "('w, 'pk, 'alt) front_env \<Rightarrow> int \<Rightarrow> string \<Rightarrow> ('w, 'pk, 'alt, unit result) app" where
  "archive_claim c roundId sig =
     tryE (reach_out (bindE (fetchRound_front c roundId) (\<lambda>d.
       case d of
         None \<Rightarrow> returnE ()
       | Some data \<Rightarrow> bindE (toHistoryRoundWithDeposits c data roundId) (\<lambda>hist.
           doE (saveRoundToFirebase_front c (hist\<lparr>fh_status := Claimed, fh_claimTx := Some sig\<rparr>)) (\<lambda>r.
           liftE (map_sum snd id r))))))
       (\<lambda>_. returnE ())"

definition claim_gone :: "('w, 'pk, 'alt) front_env \<Rightarrow> int \<Rightarrow> ('w, 'pk, 'alt, unit result) app \<Rightarrow> ('w, 'pk, 'alt, 'a result) app" where
  "claim_gone c roundId polls =
     bindE (reach_out (tryE (fetchRoundFromFirebase c roundId) (\<lambda>_ :: string. returnE None))) (\<lambda>archived.
     bindE (forget_prize c roundId) (\<lambda>_.
     bindE polls (\<lambda>_.
     if (case archived of None \<Rightarrow> False | Some r \<Rightarrow> fh_claimTx r \<noteq> None \<and> fh_claimTx r \<noteq> Some [])
     then throwE ''Prize was already auto-claimed to your wallet''
     else throwE ''Round no longer exists on-chain (likely already claimed)'')))"

definition send_claim :: "('w, 'pk, 'alt) front_env \<Rightarrow> 'pk \<Rightarrow> int \<Rightarrow> ('w, 'pk, 'alt, string result) app" where
  "send_claim c k roundId =
     bindE (reach_out (fetchConfig c)) (\<lambda>treasuryUsdcAta.
     bindE (liftE (buildClaim_front (fe_chain c) k roundId (usdc (fe_chain c)) treasuryUsdcAta None)) (\<lambda>ix.
     send c (SentClaim roundId) (LegacyTx [ix])))"

definition claim_front :: "('w, 'pk, 'alt) front_env \<Rightarrow> 'pk option \<Rightarrow> int \<Rightarrow> ('w, 'pk, 'alt, string result) app" where
  "claim_front c publicKey roundId = user_action publicKey (\<lambda>k.
     doE State_Monad.get (\<lambda>s0.
     bindE (reach_out (fetchRound_front c roundId)) (\<lambda>freshRound.
     case freshRound of
       None \<Rightarrow> claim_gone c roundId (poll_all c publicKey roundId)
     | Some data \<Rightarrow>
         if rd_status data = Claimed then
           bindE (forget_prize c roundId) (\<lambda>_. bindE (poll_all c publicKey roundId) (\<lambda>_. throwE ''Prize already claimed''))
         else if rd_status data \<noteq> Settled then throwE ''Round is not in a claimable state''
         else bindE (send_claim c k roundId) (\<lambda>sig.
           bindE (if roundId \<in> up_roundId ` set (hk_unclaimed s0) then forget_prize c roundId else returnE ()) (\<lambda>_.
           bindE (archive_claim c roundId sig) (\<lambda>_.
           bindE (poll_all c publicKey roundId) (\<lambda>_. returnE sig)))))))"

definition claimUnclaimed :: "('w, 'pk, 'alt) front_env \<Rightarrow> 'pk option \<Rightarrow> int \<Rightarrow> int \<Rightarrow> ('w, 'pk, 'alt, string result) app" where
  "claimUnclaimed c publicKey roundId unclaimedRoundId = user_action publicKey (\<lambda>k.
     bindE (reach_out (fetchRound_front c unclaimedRoundId)) (\<lambda>oldRoundData.
     case oldRoundData of
       None \<Rightarrow> claim_gone c unclaimedRoundId (returnE ())
     | Some data \<Rightarrow>
         if rd_status data = Claimed then bindE (forget_prize c unclaimedRoundId) (\<lambda>_. throwE ''Prize already claimed'')
         else if rd_status data \<noteq> Settled then throwE ''Round is not in a claimable state''
         else bindE (send_claim c k unclaimedRoundId) (\<lambda>sig.
           bindE (forget_prize c unclaimedRoundId) (\<lambda>_.
           bindE (archive_claim c unclaimedRoundId sig) (\<lambda>_.
           bindE (poll_all c publicKey roundId) (\<lambda>_. returnE sig))))))"

record degen_result =
  dr_claimSig :: string
  dr_tokenMint :: "string option"
  dr_tokenIndex :: "int option"
  dr_tokenSymbol :: "string option"
  dr_fallback :: bool

definition pending_degen :: "string \<Rightarrow> bool \<Rightarrow> degen_result" where
  "pending_degen sig fallback =
     \<lparr>dr_claimSig = sig, dr_tokenMint = None, dr_tokenIndex = None, dr_tokenSymbol = None, dr_fallback = fallback\<rparr>"

text \<open>The VRF request of a degen claim, sent unless there is a claim already.\<close>

definition request_degen :: "('w, 'pk, 'alt) front_env \<Rightarrow> 'pk \<Rightarrow> int \<Rightarrow> int option \<Rightarrow> ('w, 'pk, 'alt, string result) app" where
  "request_degen c k roundId pause =
     bindE (reach_out (fetchDegenClaim c roundId k)) (\<lambda>current.
     if (case current of None \<Rightarrow> True | Some d \<Rightarrow> dd_status d = 0) then
       bindE (liftE (buildRequestDegenVrf_front (fe_chain c) k roundId)) (\<lambda>ix.
       bindE (send c (SentDegenVrf roundId) (LegacyTx [ix])) (\<lambda>sig.
       doE (case pause of None \<Rightarrow> State_Monad.return () | Some ms \<Rightarrow> reach_out (fe_sleep c ms)) (\<lambda>_. returnE sig)))
     else returnE [])"

definition swapped_result :: "('w, 'pk, 'alt) front_env \<Rightarrow> string \<Rightarrow> 'pk DegenClaimData \<Rightarrow> ('w, 'pk, 'alt, degen_result result) app" where
  "swapped_result c sig degen =
     (if dd_tokenMint degen = pk_default (fe_sdk c) then
        returnE \<lparr>dr_claimSig = sig, dr_tokenMint = None, dr_tokenIndex = Some (dd_tokenIndex degen), dr_tokenSymbol = None, dr_fallback = False\<rparr>
      else let mint = toBase58 (fe_sdk c) (dd_tokenMint degen) in
        doE (with_meta (fetchDegenTokenMeta c mint)) (\<lambda>token.
        returnE \<lparr>dr_claimSig = sig, dr_tokenMint = Some mint, dr_tokenIndex = Some (dd_tokenIndex degen),
          dr_tokenSymbol = Some (dt_symbol token), dr_fallback = False\<rparr>))"

text \<open>The loop that waits for the executor ends with the clock only: it is a partial function of the state.\<close>

partial_function (option) degen_poll :: "('w, 'pk, 'alt) front_env \<Rightarrow> 'pk \<Rightarrow> int \<Rightarrow> string \<Rightarrow> int \<Rightarrow> ('w, 'pk, 'alt) hook \<Rightarrow>
    (degen_result result \<times> ('w, 'pk, 'alt) hook) option" where
  "degen_poll c k roundId sig startTime s =
     (case run_state (reach_out (dateNow (fe_sv c))) s of (t, s1) \<Rightarrow>
      if t - startTime < 90000 then
        (case run_state (doE (reach_out (fe_sleep c 3000)) (\<lambda>_. reach_out (fetchDegenClaim c roundId k))) s1 of
           (Inl e, s2) \<Rightarrow> Some (Inl e, s2)
         | (Inr None, s2) \<Rightarrow> degen_poll c k roundId sig startTime s2
         | (Inr (Some degen), s2) \<Rightarrow>
             if dd_status degen = DC_ClaimedFallback then
               Some (run_state (bindE (poll_all c (Some k) roundId) (\<lambda>_. returnE (pending_degen sig True))) s2)
             else if dd_status degen = DC_ClaimedSwapped then
               Some (run_state (bindE (swapped_result c sig degen) (\<lambda>r. bindE (poll_all c (Some k) roundId) (\<lambda>_. returnE r))) s2)
             else degen_poll c k roundId sig startTime s2)
      else Some (run_state (bindE (poll_all c (Some k) roundId) (\<lambda>_. returnE (pending_degen sig False))) s1))"

definition begin_degen :: "('w, 'pk, 'alt) front_env \<Rightarrow> 'pk \<Rightarrow> int \<Rightarrow> ('w, 'pk, 'alt, (string \<times> int) result) app" where
  "begin_degen c k roundId =
     bindE (reach_out (fetchRound_front c roundId)) (\<lambda>freshRound.
     case freshRound of
       None \<Rightarrow> throwE ''Round no longer exists on-chain''
     | Some data \<Rightarrow>
         if rd_status data = Claimed then throwE ''Prize already claimed''
         else if rd_status data \<noteq> Settled then throwE ''Round is not in a claimable state''
         else bindE (request_degen c k roundId None) (\<lambda>sig.
           doE (reach_out (dateNow (fe_sv c))) (\<lambda>t. returnE (sig, t))))"

definition claimDegen :: "('w, 'pk, 'alt) front_env \<Rightarrow> 'pk option \<Rightarrow> int \<Rightarrow> ('w, 'pk, 'alt) hook \<Rightarrow>
    (degen_result result \<times> ('w, 'pk, 'alt) hook) option" where
  "claimDegen c publicKey roundId s =
     (case publicKey of
        None \<Rightarrow> Some (Inl ''Wallet not connected'', s)
      | Some k \<Rightarrow>
          (case run_state (begin_degen c k roundId) (open_action s) of
             (Inl e, s1) \<Rightarrow> Some (Inl e, close_action (Inl e :: unit result) s1)
           | (Inr (sig, startTime), s1) \<Rightarrow> map_option (\<lambda>(r, s2). (r, close_action r s2)) (degen_poll c k roundId sig startTime s1)))"

definition claimUnclaimedDegen :: "('w, 'pk, 'alt) front_env \<Rightarrow> 'pk option \<Rightarrow> int \<Rightarrow> int \<Rightarrow> ('w, 'pk, 'alt, degen_result result) app" where
  "claimUnclaimedDegen c publicKey roundId unclaimedRoundId = user_action publicKey (\<lambda>k.
     bindE (reach_out (fetchRound_front c unclaimedRoundId)) (\<lambda>oldRoundData.
     case oldRoundData of
       None \<Rightarrow> throwE ''Round no longer exists on-chain''
     | Some data \<Rightarrow>
         if rd_status data = Claimed then bindE (forget_prize c unclaimedRoundId) (\<lambda>_. throwE ''Prize already claimed'')
         else if rd_status data \<noteq> Settled then throwE ''Round is not in a claimable state''
         else bindE (request_degen c k unclaimedRoundId (Some 2000)) (\<lambda>sig.
           bindE (reach_out (fetchDegenClaim c unclaimedRoundId k)) (\<lambda>claim.
           case claim of
             None \<Rightarrow> throwE ''Degen VRF request was sent, but claim state is not available yet.''
           | Some degen \<Rightarrow> bindE (poll_all c publicKey roundId) (\<lambda>_.
               if dd_status degen = DC_ClaimedFallback then
                 bindE (forget_prize c unclaimedRoundId) (\<lambda>_. returnE (pending_degen sig True))
               else if dd_status degen = DC_ClaimedSwapped then
                 bindE (forget_prize c unclaimedRoundId) (\<lambda>_. swapped_result c sig degen)
               else if dd_status degen \<in> {DC_VrfRequested, DC_VrfReady, DC_Executing} then returnE (pending_degen sig False)
               else throwE ''Unexpected degen claim state'')))))"

definition cancelRound_front :: "('w, 'pk, 'alt) front_env \<Rightarrow> 'pk option \<Rightarrow> int \<Rightarrow> ('w, 'pk, 'alt, string result) app" where
  "cancelRound_front c publicKey roundId = user_action publicKey (\<lambda>k.
     bindE (liftE (buildCancelRound_front (fe_chain c) k roundId (usdc (fe_chain c)))) (\<lambda>ix.
     bindE (send c (SentCancel roundId) (LegacyTx [ix])) (\<lambda>sig.
     bindE (poll_all c publicKey roundId) (\<lambda>_. returnE sig))))"

definition claimRefund_front :: "('w, 'pk, 'alt) front_env \<Rightarrow> 'pk option \<Rightarrow> int \<Rightarrow> ('w, 'pk, 'alt, string result) app" where
  "claimRefund_front c publicKey roundId = user_action publicKey (\<lambda>k.
     bindE (liftE (buildClaimRefund_front (fe_chain c) k roundId (usdc (fe_chain c)))) (\<lambda>ix.
     bindE (send c (SentRefund roundId) (LegacyTx [ix])) (\<lambda>sig.
     bindE (poll_all c publicKey roundId) (\<lambda>_. returnE sig))))"

definition winner_shown :: "('w, 'pk, 'alt) front_env \<Rightarrow> ('w, 'pk, 'alt) hook \<Rightarrow> Participant option" where
  "winner_shown c s =
     (case hk_roundData s of
        None \<Rightarrow> None
      | Some data \<Rightarrow>
          if rd_status data < Settled \<or> rd_winner data = pk_default (fe_sdk c) then None
          else let addr = toBase58 (fe_sdk c) (rd_winner data) in
            (case List.find (\<lambda>p. pt_address p = addr) (hk_participants s) of
               Some p \<Rightarrow> Some p
             | None \<Rightarrow> Some \<lparr>pt_address = addr, pt_displayName = short_address addr, pt_color = hd PARTICIPANT_COLORS,
                 pt_usdcAmount = usdc_number c (rd_totalUsdc data), pt_tickets = rd_totalTickets data, pt_tokens = []\<rparr>))"

end
