(* ===== verification/Deposit.thy ===== *)
theory Deposit
  imports Web_App
begin

text \<open>
  \<open>depositMany\<close> of \<open>src/hooks/useJackpot.ts\<close>: a deposit of several tokens into one round. USDC of the user's other
  accounts is moved to the associated account, other tokens are swapped with Jupiter, and the whole is sent as one transaction, or
  split into several when it is too large.

  The swaps are prepared one after the other here and concurrently in the source; an amount is printed with all its digits, which
  \<open>Number.prototype.toString\<close> does below \<open>10\<^sup>21\<close>. Afterwards \<open>track_tokens\<close> notes the tokens
  that are shown beside the player.
\<close>

section \<open>The legs\<close>

record DepositLegInput =
  dl_amount :: js_number
  dl_mint :: "string option"
  dl_quote :: "FrontQuote option"

record deposit_leg =
  lg_amount :: js_number
  lg_mint :: string
  lg_quote :: "FrontQuote option"

definition MAX_MULTI_DEPOSIT_LEGS :: nat where "MAX_MULTI_DEPOSIT_LEGS = 3"

definition usdc_str :: "('w, 'pk, 'alt) front_env \<Rightarrow> string" where
  "usdc_str c = toBase58 (fe_sdk c) (usdc (fe_chain c))"

definition normalize_leg :: "('w, 'pk, 'alt) front_env \<Rightarrow> DepositLegInput \<Rightarrow> deposit_leg" where
  "normalize_leg c leg = \<lparr>lg_amount = dl_amount leg, lg_mint = js_trim (or_string (dl_mint leg) (usdc_str c)), lg_quote = dl_quote leg\<rparr>"

fun check_legs :: "string list \<Rightarrow> deposit_leg list \<Rightarrow> unit result" where
  "check_legs seen [] = Inr ()"
| "check_legs seen (leg # legs) =
     (if \<not> (case lg_amount leg of Finite a \<Rightarrow> 0 < a | _ \<Rightarrow> False) then Inl ''Deposit amount must be greater than 0.''
      else if lg_mint leg \<in> set seen then Inl (''Duplicate token in batch: '' @ lg_mint leg @ ''. Merge amounts and retry.'')
      else check_legs (lg_mint leg # seen) legs)"

definition validate_legs :: "('w, 'pk, 'alt) front_env \<Rightarrow> DepositLegInput list \<Rightarrow> deposit_leg list result" where
  "validate_legs c legs =
     (if legs = [] then Inl ''No deposit legs provided.''
      else let normalized = map (normalize_leg c) legs in
        if MAX_MULTI_DEPOSIT_LEGS < length normalized
        then Inl (''Too many tokens in one deposit (max '' @ js_string (int MAX_MULTI_DEPOSIT_LEGS) @ '').'')
        else and_then (check_legs [] normalized) (\<lambda>_.
          if 1 < length [leg \<leftarrow> normalized. lg_mint leg = WSOL_MINT_STR]
          then Inl ''Only one SOL/WSOL leg is supported per batch deposit.'' else Inr normalized))"

text \<open>\<open>Math.floor(amount * 10 ** decimals)\<close> of a finite amount.\<close>

definition raw_amount :: "('w, 'pk, 'alt) front_env \<Rightarrow> js_number \<Rightarrow> int \<Rightarrow> int" where
  "raw_amount c amount decimals = (case amount of Finite a \<Rightarrow> \<lfloor>fe_fl c (a * 10 ^ nat decimals)\<rfloor> | _ \<Rightarrow> 0)"

section \<open>The round\<close>

definition set_status :: "string option \<Rightarrow> ('w, 'pk, 'alt, unit) app" where
  "set_status msg = set_hook (\<lambda>s. s\<lparr>hk_autoStatus := msg\<rparr>)"

fun await_account :: "('w, 'pk, 'alt) front_env \<Rightarrow> 'pk \<Rightarrow> nat \<Rightarrow> ('w, buffer option result) state" where
  "await_account c k 0 = returnE None"
| "await_account c k (Suc n) =
     doE (fe_sleep c 2000) (\<lambda>_.
     bindE (getAccountInfo (fe_sv c) k) (\<lambda>info. case info of None \<Rightarrow> await_account c k n | Some _ \<Rightarrow> returnE info))"

fun find_open :: "('w, 'pk, 'alt) front_env \<Rightarrow> int list \<Rightarrow> ('w, int option result) state" where
  "find_open c [] = returnE None"
| "find_open c (i # is) =
     (if i < 1 then find_open c is
      else bindE (fetchRound_front c i) (\<lambda>d.
        if (case d of Some data \<Rightarrow> rd_status data = Open | None \<Rightarrow> False) then returnE (Some i) else find_open c is))"

definition resolve_round :: "('w, 'pk, 'alt) front_env \<Rightarrow> int \<Rightarrow> ('w, 'pk, 'alt, int result) app" where
  "resolve_round c roundId =
     (let roundPda = round_pda (fe_chain c) roundId in
      bindE (reach_out (getAccountInfo (fe_sv c) roundPda)) (\<lambda>roundInfo.
      case roundInfo of
        Some _ \<Rightarrow> returnE roundId
      | None \<Rightarrow> doE (set_status (Some ''Waiting for round to be created...'')) (\<lambda>_.
          bindE (reach_out (await_account c roundPda 6)) (\<lambda>info.
          case info of
            Some _ \<Rightarrow> returnE roundId
          | None \<Rightarrow> doE (set_status (Some ''Searching for open round...'')) (\<lambda>_.
              bindE (reach_out (find_open c [roundId - 1, roundId + 1, roundId - 2, roundId + 2, roundId + 3])) (\<lambda>found.
              case found of
                None \<Rightarrow> throwE ''Round not created yet. Please wait a moment and try again.''
              | Some i \<Rightarrow> doE (set_hook (\<lambda>s. s\<lparr>hk_roundId := i\<rparr>)) (\<lambda>_.
                  bindE (reach_out (getAccountInfo (fe_sv c) (round_pda (fe_chain c) i))) (\<lambda>_. returnE i))))))))"

definition require_open :: "('w, 'pk, 'alt) front_env \<Rightarrow> int \<Rightarrow> ('w, 'pk, 'alt, unit result) app" where
  "require_open c i =
     bindE (reach_out (fetchRound_front c i)) (\<lambda>d.
     if (case d of Some data \<Rightarrow> rd_status data = Open | None \<Rightarrow> False) then returnE ()
     else throwE ''Round is no longer accepting deposits.'')"

section \<open>Direct USDC\<close>

definition direct_usdc :: "('w, 'pk, 'alt) front_env \<Rightarrow> deposit_leg list \<Rightarrow> int result" where
  "direct_usdc c legs =
     foldl (\<lambda>acc leg. and_then acc (\<lambda>total_raw. and_then (fe_bn c (raw_amount c (lg_amount leg) 6)) (\<lambda>raw.
         if raw \<le> 0 then Inl ''USDC deposit amount is too small.'' else Inr (total_raw + raw)))) (Inr 0) legs"

definition usdc_accounts :: "('w, 'pk, 'alt) front_env \<Rightarrow> ('pk \<times> buffer option) list \<Rightarrow> ('pk \<times> int) list" where
  "usdc_accounts c accounts = List.map_filter (\<lambda>(k, data). case data of
       None \<Rightarrow> None
     | Some bytes \<Rightarrow> if length bytes < TOKEN_ACCOUNT_SPAN then None
         else let (mint, amount) = fe_decodeAccount c bytes in if mint = usdc (fe_chain c) then Some (k, amount) else None) accounts"

definition ata_amount :: "'pk \<Rightarrow> ('pk \<times> int) list \<Rightarrow> int" where
  "ata_amount usdcAta accounts = foldl (\<lambda>acc (k, raw). if k = usdcAta then raw else acc) 0 accounts"

definition topup_sources :: "'pk \<Rightarrow> ('pk \<times> int) list \<Rightarrow> ('pk \<times> int) list" where
  "topup_sources usdcAta accounts = sort_key (\<lambda>a. - snd a) [a \<leftarrow> accounts. fst a \<noteq> usdcAta \<and> 0 < snd a]"

fun topup :: "int \<Rightarrow> ('pk \<times> int) list \<Rightarrow> ('pk \<times> int) list" where
  "topup remaining [] = []"
| "topup remaining ((k, raw) # sources) =
     (if remaining \<le> 0 then []
      else let move = (if remaining \<le> raw then remaining else raw) in
        if move \<le> 0 then topup remaining sources else (k, move) # topup (remaining - move) sources)"

text \<open>The transfers to the associated account and the balance the deposit is counted from.\<close>

definition topup_plan :: "'pk \<Rightarrow> ('pk \<times> int) list \<Rightarrow> int \<Rightarrow> (('pk \<times> int) list \<times> int) result" where
  "topup_plan usdcAta accounts directUsdcRaw =
     (let ataRaw = ata_amount usdcAta accounts;
          moves = (if ataRaw < directUsdcRaw then topup (directUsdcRaw - ataRaw) (topup_sources usdcAta accounts) else []);
          ataAfterTopup = ataRaw + sum_list (map snd moves)
      in if ataAfterTopup < directUsdcRaw then Inl ''Insufficient USDC balance.'' else Inr (moves, ataAfterTopup - directUsdcRaw))"

definition prepare_direct :: "('w, 'pk, 'alt) front_env \<Rightarrow> 'pk \<Rightarrow> 'pk \<Rightarrow> int \<Rightarrow> int \<Rightarrow> ('w, ('pk instruction list \<times> int) result) state" where
  "prepare_direct c k usdcAta rawUsdcBalance directUsdcRaw =
     (if 0 < directUsdcRaw then
        bindE (fe_tokenAccounts c k) (\<lambda>v1.
        bindE (liftE (topup_plan usdcAta (usdc_accounts c v1) directUsdcRaw)) (\<lambda>(moves, usdcBalanceBefore).
        returnE (fe_createAta c k usdcAta k (usdc (fe_chain c)) #
          map (\<lambda>(src, amount). fe_createTransfer c src usdcAta k amount) moves, usdcBalanceBefore)))
      else returnE ([], rawUsdcBalance))"

section \<open>The swaps\<close>

definition leg_quote :: "('w, 'pk, 'alt) front_env \<Rightarrow> 'pk \<Rightarrow> deposit_leg \<Rightarrow> ('w, FrontQuote result) state" where
  "leg_quote c k leg =
     (case lg_quote leg of
        Some quote \<Rightarrow>
          if fq_inputMint quote \<noteq> lg_mint leg \<or> fq_outputMint quote \<noteq> usdc_str c
          then throwE (''Prefetched quote mint mismatch for '' @ lg_mint leg) else returnE quote
      | None \<Rightarrow>
          bindE (if lg_mint leg = WSOL_MINT_STR then returnE 9
                 else tryE (bindE (liftE (new_key c (lg_mint leg))) (\<lambda>mint.
                   bindE (liftE (ata (fe_chain c) mint k False)) (\<lambda>tokenAta.
                   bindE (fe_balance c tokenAta) (\<lambda>(_, decimals). returnE decimals)))) (\<lambda>_. returnE 6)) (\<lambda>tokenDecimals.
          let rawTokenAmount = js_string (raw_amount c (lg_amount leg) tokenDecimals) in
          if rawTokenAmount = ''0'' then throwE (''Deposit amount is too small for token '' @ lg_mint leg @ ''.'')
          else getJupiterQuote c (lg_mint leg) (usdc_str c) rawTokenAmount 100 ''ExactIn''))"

definition prepare_swap :: "('w, 'pk, 'alt) front_env \<Rightarrow> 'pk \<Rightarrow> deposit_leg \<Rightarrow> ('w, prepared_swap result) state" where
  "prepare_swap c k leg =
     bindE (leg_quote c k leg) (\<lambda>quote.
     bindE (liftE (fe_bnOfString c (or_string (Some (fq_otherAmountThreshold quote)) (fq_outAmount quote)))) (\<lambda>minOut.
     if minOut \<le> 0 then throwE (''Invalid Jupiter quote minOut for '' @ lg_mint leg)
     else bindE (getJupiterSwapInstructions c (toBase58 (fe_sdk c) k) quote) (\<lambda>swapIxs.
       returnE \<lparr>ps_minOut = minOut, ps_swapIxs = swapIxs\<rparr>)))"

section \<open>Sending\<close>

definition isTxTooLargeEncodingError :: "string \<Rightarrow> bool" where
  "isTxTooLargeEncodingError msg \<longleftrightarrow>
     js_includes msg ''encoding overruns Uint8Array'' \<or> js_includes msg ''Transaction too large'' \<or>
     js_includes msg ''VersionedTransaction too large''"

definition getCurrentUsdcAtaRaw :: "('w, 'pk, 'alt) front_env \<Rightarrow> 'pk \<Rightarrow> ('w, int result) state" where
  "getCurrentUsdcAtaRaw c usdcAta = tryE (bindE (fe_balance c usdcAta) (\<lambda>(amount, _). returnE amount)) (\<lambda>_. returnE 0)"

text \<open>What is fixed for all parts of a deposit.\<close>

record 'pk deposit_ctx =
  dx_user :: 'pk
  dx_usdcAta :: 'pk
  dx_roundId :: int
  dx_directUsdcRaw :: int
  dx_prefix :: "'pk instruction list"
  dx_usdcBalanceBefore :: int

definition chunk_min_out :: "'pk deposit_ctx \<Rightarrow> bool \<Rightarrow> prepared_swap list \<Rightarrow> int" where
  "chunk_min_out x includeDirect swapChunk =
     (if includeDirect then dx_directUsdcRaw x else 0) + sum_list (map ps_minOut swapChunk)"

definition send_chunk :: "('w, 'pk, 'alt) front_env \<Rightarrow> 'pk deposit_ctx \<Rightarrow> prepared_swap list \<Rightarrow> bool \<Rightarrow> int \<Rightarrow> 'pk instruction \<Rightarrow>
    ('w, 'pk, 'alt, string result) app" where
  "send_chunk c x swapChunk includeDirect balanceBefore depositIx =
     (let prefix = (if includeDirect then dx_prefix x else []);
          ev = SentDeposit (dx_roundId x) includeDirect swapChunk balanceBefore (chunk_min_out x includeDirect swapChunk) in
      doE (set_hook (\<lambda>s. s\<lparr>hk_sentChunks := hk_sentChunks s + 1,
        hk_autoStatus := Some (''Sending batch part '' @ js_string (hk_sentChunks s + 1) @ ''...'')\<rparr>)) (\<lambda>_.
      case swapChunk of
        [] \<Rightarrow> let tx = LegacyTx (prefix @ [depositIx]) in send c (ev tx) tx
      | swap1 # rest \<Rightarrow>
          bindE (reach_out (if rest = [] \<and> prefix = []
              then buildSwapAndDepositTx c (dx_user x) (ps_swapIxs swap1) depositIx []
              else buildMultiSwapAndDepositTx c (dx_user x) (map ps_swapIxs swapChunk) depositIx prefix)) (\<lambda>tx.
          send c (ev (VersionedTx tx)) (VersionedTx tx))))"

function sendDepositChunk :: "('w, 'pk, 'alt) front_env \<Rightarrow> 'pk deposit_ctx \<Rightarrow> prepared_swap list \<Rightarrow> bool \<Rightarrow>
    ('w, 'pk, 'alt, string list result) app" where
  "sendDepositChunk c x swapChunk includeDirect =
     (if chunk_min_out x includeDirect swapChunk \<le> 0 then throwE ''Total deposit amount is too small.''
      else bindE (if includeDirect then returnE (dx_usdcBalanceBefore x) else reach_out (getCurrentUsdcAtaRaw c (dx_usdcAta x))) (\<lambda>balanceBefore.
        bindE (liftE (buildDepositAny_front (fe_chain c) (dx_user x) (dx_roundId x) balanceBefore
            (chunk_min_out x includeDirect swapChunk) (usdc (fe_chain c)))) (\<lambda>depositIx.
        doE (send_chunk c x swapChunk includeDirect balanceBefore depositIx) (\<lambda>r.
        case r of
          Inr sig \<Rightarrow> returnE [sig]
        | Inl e \<Rightarrow>
            if \<not> isTxTooLargeEncodingError e then throwE e
            else if includeDirect \<and> length swapChunk = 1 \<and> (0 < dx_directUsdcRaw x \<or> dx_prefix x \<noteq> []) then
              bindE (sendDepositChunk c x [] True) (\<lambda>a.
              bindE (sendDepositChunk c x swapChunk False) (\<lambda>b. returnE (a @ b)))
            else if length swapChunk \<le> 1 then throwE ''Batch is too large for one transaction. Split into smaller deposits.''
            else let mid = (length swapChunk + 1) div 2 in
              bindE (sendDepositChunk c x (take mid swapChunk) includeDirect) (\<lambda>first.
              bindE (sendDepositChunk c x (drop mid swapChunk) False) (\<lambda>second. returnE (first @ second)))))))"
  by pat_completeness auto

termination by (relation "measure (\<lambda>(c, x, swapChunk, includeDirect). 2 * length swapChunk + (if includeDirect then 1 else 0))") auto

declare sendDepositChunk.simps [simp del]

definition deposit_progress :: "string \<Rightarrow> bool" where
  "deposit_progress msg \<longleftrightarrow> js_starts msg ''Preparing batch deposit'' \<or> js_starts msg ''Sending batch part'' \<or>
     js_starts msg ''Batch deposit complete''"

text \<open>The timer that clears the progress message.\<close>

definition clear_progress :: "('w, 'pk, 'alt) hook \<Rightarrow> ('w, 'pk, 'alt) hook" where
  "clear_progress s =
     (case hk_autoStatus s of
        Some msg \<Rightarrow> if deposit_progress msg then s\<lparr>hk_autoStatus := None\<rparr> else s
      | None \<Rightarrow> s)"

text \<open>The tokens of the deposit are added to the object that the cache reference pointed to, also when the reference has just been
  set to a new object.\<close>

definition track_tokens :: "('w, 'pk, 'alt) front_env \<Rightarrow> 'pk \<Rightarrow> int \<Rightarrow> deposit_leg list \<Rightarrow> ('w, 'pk, 'alt, unit result) app" where
  "track_tokens c k roundId normalized =
     doE State_Monad.get (\<lambda>s.
     doE (new_cache roundId) (\<lambda>_.
     let a = hk_cache s; nonUsdcMints = [lg_mint leg. leg \<leftarrow> normalized, lg_mint leg \<noteq> usdc_str c] in
     if nonUsdcMints = [] then returnE ()
     else tryE (bindE (liftE (map_result (new_key c) nonUsdcMints)) (\<lambda>mints.
         bindE (with_meta (fetchTokenMetadataBatch c mints)) (\<lambda>metaMap.
         doE (add_tokens a (toBase58 (fe_sdk c) k) (map (token_tag_of metaMap) nonUsdcMints)) (\<lambda>_. returnE ()))))
       (\<lambda>_. returnE ())))"

definition run_deposit :: "('w, 'pk, 'alt) front_env \<Rightarrow> 'pk \<Rightarrow> int \<Rightarrow> deposit_leg list \<Rightarrow> ('w, 'pk, 'alt, string result) app" where
  "run_deposit c k roundId normalized =
     doE (set_status (if 1 < length normalized then Some ''Preparing batch deposit...'' else None)) (\<lambda>_.
     bindE (liftE (ata (fe_chain c) (usdc (fe_chain c)) k False)) (\<lambda>usdcAta.
     bindE (reach_out (getCurrentUsdcAtaRaw c usdcAta)) (\<lambda>rawUsdcBalance.
     bindE (resolve_round c roundId) (\<lambda>effectiveRoundId.
     bindE (require_open c effectiveRoundId) (\<lambda>_.
     bindE (liftE (direct_usdc c [leg \<leftarrow> normalized. lg_mint leg = usdc_str c])) (\<lambda>directUsdcRaw.
     bindE (reach_out (prepare_direct c k usdcAta rawUsdcBalance directUsdcRaw)) (\<lambda>(prefix, usdcBalanceBefore).
     bindE (reach_out (mapE (prepare_swap c k) [leg \<leftarrow> normalized. lg_mint leg \<noteq> usdc_str c])) (\<lambda>preparedSwaps.
     doE (set_hook (\<lambda>s. s\<lparr>hk_sentChunks := 0\<rparr>)) (\<lambda>_.
     bindE (sendDepositChunk c \<lparr>dx_user = k, dx_usdcAta = usdcAta, dx_roundId = effectiveRoundId, dx_directUsdcRaw = directUsdcRaw,
         dx_prefix = prefix, dx_usdcBalanceBefore = usdcBalanceBefore\<rparr> preparedSwaps True) (\<lambda>chunkSigs.
     doE (set_status (if 1 < length chunkSigs
       then Some (''Batch deposit complete ('' @ js_string (int (length chunkSigs)) @ '' tx)'') else None)) (\<lambda>_.
     bindE (track_tokens c k roundId normalized) (\<lambda>_.
     bindE (poll_all c (Some k) roundId) (\<lambda>_. returnE (last chunkSigs))))))))))))))"

definition depositMany :: "('w, 'pk, 'alt) front_env \<Rightarrow> 'pk option \<Rightarrow> int \<Rightarrow> DepositLegInput list \<Rightarrow> ('w, 'pk, 'alt, string result) app" where
  "depositMany c publicKey roundId legs =
     (case publicKey of
        None \<Rightarrow> throwE ''Wallet not connected''
      | Some k \<Rightarrow> bindE (liftE (validate_legs c legs)) (\<lambda>normalized. user_action (Some k) (\<lambda>_. run_deposit c k roundId normalized)))"

definition deposit :: "('w, 'pk, 'alt) front_env \<Rightarrow> 'pk option \<Rightarrow> int \<Rightarrow> js_number \<Rightarrow> string option \<Rightarrow> FrontQuote option \<Rightarrow>
    ('w, 'pk, 'alt, string result) app" where
  "deposit c publicKey roundId amount mint quote = depositMany c publicKey roundId [\<lparr>dl_amount = amount, dl_mint = mint, dl_quote = quote\<rparr>]"

end
