(* ===== verification/Web_Props.thy ===== *)
theory Web_Props
  imports Web_App
begin

text \<open>
  What the callbacks of the game hook do to the transactions sent and to the prizes: reading and polling change neither
  (\<open>tally\<close>), and a claim sends one transaction and forgets the prize, or sends nothing.
\<close>

section \<open>Runs\<close>

lemma bindE_run:
  "run_state (bindE m f) s = (r, t) \<longleftrightarrow>
     (\<exists>x u. run_state m s = (x, u) \<and> (case x of Inl e \<Rightarrow> r = Inl e \<and> t = u | Inr y \<Rightarrow> run_state (f y) u = (r, t)))"
  by (auto split: prod.splits sum.splits)

lemma doE_run: "run_state (doE m f) s = (r, t) \<longleftrightarrow> (\<exists>x u. run_state m s = (x, u) \<and> run_state (f x) u = (r, t))"
  by (auto split: prod.splits)

lemma reach_out_sent: "run_state (reach_out m) s = (x, t) \<Longrightarrow> hk_sent t = hk_sent s"
  by (auto simp: reach_out_def split: prod.splits)

lemma reach_out_world: "run_state (reach_out m) s = (x, t) \<Longrightarrow> x = fst (run_state m (hk_world s))"
  by (auto simp: reach_out_def split: prod.splits)

lemma send_run:
  "run_state (send c ev tx) s = (r, t) \<Longrightarrow>
     case r of Inr _ \<Rightarrow> hk_sent t = ev # hk_sent s | Inl _ \<Rightarrow> hk_sent t = hk_sent s"
  by (auto simp: send_def reach_out_def split: prod.splits sum.splits)

section \<open>What reading leaves alone\<close>

definition tally :: "('w, 'pk, 'alt) hook \<Rightarrow> ('pk, 'alt) sent list \<times> UnclaimedPrize list \<times> string option" where
  "tally s = (hk_sent s, hk_unclaimed s, hk_storage s)"

lemma tally_update [simp]:
  "tally (hk_roundId_update f1 s) = tally s" "tally (hk_roundData_update f2 s) = tally s"
  "tally (hk_participants_update f3 s) = tally s" "tally (hk_phase_update f4 s) = tally s"
  "tally (hk_timeLeft_update f5 s) = tally s" "tally (hk_balance_update f6 s) = tally s"
  "tally (hk_loading_update f7 s) = tally s" "tally (hk_error_update f8 s) = tally s"
  "tally (hk_autoStatus_update f9 s) = tally s" "tally (hk_sentChunks_update f10 s) = tally s"
  "tally (hk_lastWs_update f11 s) = tally s" "tally (hk_caches_update f12 s) = tally s"
  "tally (hk_cache_update f13 s) = tally s" "tally (hk_nextCache_update f14 s) = tally s"
  "tally (hk_jobs_update f15 s) = tally s" "tally (hk_meta_update f16 s) = tally s"
  by (simp_all add: tally_def)

named_theorems calm \<open>computations that leave the transactions and the prizes alone\<close>

lemma reach_out_calm [calm]: "keeps (\<lambda>s. tally s = X) (reach_out m)"
  by (rule validI) (auto simp: reach_out_def tally_def split: prod.splits)

lemma with_meta_calm [calm]: "keeps (\<lambda>s. tally s = X) (with_meta m)"
  by (rule validI) (auto simp: with_meta_def tally_def split: prod.splits)

lemma new_cache_calm [calm]: "keeps (\<lambda>s. tally s = X) (new_cache roundId)"
  unfolding new_cache_def by (auto intro!: hoare)

lemma resolveDepositTokens_calm [calm]: "keeps (\<lambda>s. tally s = X) (resolveDepositTokens c roundPda addrs)"
  unfolding resolveDepositTokens_def Let_def by (auto intro!: hoare calm)

lemma processRoundData_calm [calm]: "keeps (\<lambda>s. tally s = X) (processRoundData c publicKey roundId data)"
  unfolding processRoundData_def by (auto intro!: hoare calm)

lemma pollRound_calm [calm]: "keeps (\<lambda>s. tally s = X) (pollRound c publicKey roundId)"
  unfolding pollRound_def by (auto intro!: hoare calm)

lemma pollBalance_calm [calm]: "keeps (\<lambda>s. tally s = X) (pollBalance c publicKey)"
  unfolding pollBalance_def by (auto intro!: hoare calm)

lemma poll_all_calm [calm]: "keeps (\<lambda>s. tally s = X) (poll_all c publicKey roundId)"
  unfolding poll_all_def by (auto intro!: hoare calm)

lemma archive_claim_calm [calm]: "keeps (\<lambda>s. tally s = X) (archive_claim c roundId sig)"
  unfolding archive_claim_def by (auto intro!: hoare calm)

lemma setItem_sent: "keeps (\<lambda>s. hk_sent s = X \<and> hk_unclaimed s = U) (setItem c ps)"
  unfolding setItem_def by (auto intro!: hoare)

lemma loadUnclaimedPrizes_sent: "keeps (\<lambda>s. hk_sent s = X \<and> hk_unclaimed s = U) (loadUnclaimedPrizes c)"
  unfolding loadUnclaimedPrizes_def
  by (auto intro!: hoare setItem_sent split: stored_prizes.splits)

lemma clearUnclaimedPrize_sent: "keeps (\<lambda>s. hk_sent s = X \<and> hk_unclaimed s = U) (clearUnclaimedPrize c r)"
  unfolding clearUnclaimedPrize_def by (auto intro!: hoare setItem_sent loadUnclaimedPrizes_sent)

text \<open>Forgetting a prize and polling never throw.\<close>

lemma tryE_never: "(\<And>e s. \<exists>y. fst (run_state (h e) s) = Inr y) \<Longrightarrow> \<exists>y. fst (run_state (tryE m h) s) = Inr y"
  by (auto split: prod.splits sum.splits)

lemma clear_never: "\<exists>y. fst (run_state (clearUnclaimedPrize c r) s) = Inr y"
  unfolding clearUnclaimedPrize_def by (rule tryE_never) simp

lemma pollRound_never: "\<exists>y. fst (run_state (pollRound c k r) s) = Inr y"
  unfolding pollRound_def by (rule tryE_never) simp

lemma pollBalance_never: "\<exists>y. fst (run_state (pollBalance c k) s) = Inr y"
proof (cases k)
  case (Some a)
  show ?thesis unfolding pollBalance_def Some option.case by (rule tryE_never) simp
qed (simp add: pollBalance_def)

lemma archive_never: "\<exists>y. fst (run_state (archive_claim c r sig) s) = Inr y"
  unfolding archive_claim_def by (rule tryE_never) simp

lemma forget_prize_run:
  assumes "run_state (forget_prize c r) s = (x, t)"
  shows "x = Inr () \<and> hk_sent t = hk_sent s \<and> hk_unclaimed t = without_round r (hk_unclaimed s)"
proof -
  obtain y u where y: "run_state (clearUnclaimedPrize c r) s = (y, u)" by fastforce
  moreover have "hk_sent u = hk_sent s \<and> hk_unclaimed u = hk_unclaimed s"
    by (rule validD [OF clearUnclaimedPrize_sent _ y]) simp
  moreover obtain z where "y = Inr z" using clear_never [of c r s] y by auto
  ultimately show ?thesis using assms by (auto simp: forget_prize_def)
qed

lemma calm_run: "keeps (\<lambda>s. tally s = tally a) m \<Longrightarrow> run_state m a = (x, t) \<Longrightarrow> tally t = tally a"
  by (erule validD) simp_all

lemma poll_all_run: "run_state (poll_all c k r) s = (x, t) \<Longrightarrow> x = Inr () \<and> tally t = tally s"
proof -
  assume run: "run_state (poll_all c k r) s = (x, t)"
  obtain y u where y: "run_state (pollRound c k r) s = (y, u)" by fastforce
  with pollRound_never [of c k r s] have "y = Inr ()" by auto
  with run y have "run_state (pollBalance c k) u = (x, t)" by (simp add: poll_all_def)
  with pollBalance_never [of c k u] have "x = Inr ()" by auto
  then show ?thesis using calm_run [OF poll_all_calm run] by simp
qed

lemma archive_run: "run_state (archive_claim c r sig) s = (x, t) \<Longrightarrow> x = Inr () \<and> tally t = tally s"
  using archive_never [of c r sig s] calm_run [OF archive_claim_calm, of c r sig s x t] by auto

lemma reach_out_run: "run_state (reach_out m) s = (x, t) \<Longrightarrow> x = fst (run_state m (hk_world s)) \<and> tally t = tally s"
  by (auto simp: reach_out_def tally_def split: prod.splits)

section \<open>Claims\<close>

lemma send_claim_run:
  assumes "run_state (send_claim c k r) s = (x, t)"
  shows "case x of Inr _ \<Rightarrow> hk_sent t = SentClaim r # hk_sent s \<and> hk_unclaimed t = hk_unclaimed s | Inl _ \<Rightarrow> tally t = tally s"
  using assms unfolding send_claim_def send_def
  by (auto simp: reach_out_def tally_def split: prod.splits sum.splits)

text \<open>The round as a callback reads it first.\<close>

definition read_first :: "('w, 'pk, 'alt) front_env \<Rightarrow> int \<Rightarrow> ('w, 'pk, 'alt) hook \<Rightarrow> 'pk FrontRoundData option result" where
  "read_first c r s = fst (run_state (fetchRound_front c r) (hk_world s))"

text \<open>
  A claim of round \<open>r\<close> that succeeds has sent one claim for a round just read as settled, and the prize is no longer listed. One that
  fails has sent nothing, and the list is as before unless the round was read as claimed or was gone.
\<close>

definition claim_done :: "('w, 'pk, 'alt) front_env \<Rightarrow> int \<Rightarrow> ('w, 'pk, 'alt) hook \<Rightarrow> 'a result \<Rightarrow> ('w, 'pk, 'alt) hook \<Rightarrow> bool" where
  "claim_done c r s x t \<longleftrightarrow>
     (case x of
        Inr _ \<Rightarrow> hk_sent t = SentClaim r # hk_sent s \<and> (\<exists>data. read_first c r s = Inr (Some data) \<and> rd_status data = Settled) \<and>
          r \<notin> up_roundId ` set (hk_unclaimed t)
      | Inl _ \<Rightarrow> hk_sent t = hk_sent s \<and>
          (hk_unclaimed t = hk_unclaimed s \<or>
           (read_first c r s = Inr None \<or> (\<exists>data. read_first c r s = Inr (Some data) \<and> rd_status data = Claimed)) \<and>
           hk_unclaimed t = without_round r (hk_unclaimed s)))"

lemma claim_gone_run:
  assumes "run_state (claim_gone c r polls) s = (x, t)"
    and "\<And>s y t. run_state polls s = (y, t) \<Longrightarrow> y = Inr () \<and> tally t = tally s"
  shows "\<exists>e. x = Inl e \<and> hk_sent t = hk_sent s \<and> hk_unclaimed t = without_round r (hk_unclaimed s)"
proof -
  obtain archived u where a: "run_state (reach_out (tryE (fetchRoundFromFirebase c r) (\<lambda>_ :: string. returnE None))) s =
      (archived :: FrontHistoryRound option result, u)"
    by fastforce
  have u: "tally u = tally s" using reach_out_run [OF a] by simp
  have "\<exists>y. archived = Inr y"
    using reach_out_run [OF a] by (auto split: prod.splits sum.splits)
  then obtain y where y: "archived = Inr y" ..
  obtain f v where f: "run_state (forget_prize c r) u = (f, v)" by fastforce
  obtain p w where p: "run_state polls v = (p, w)" by fastforce
  have "(\<exists>e. x = Inl e) \<and> t = w"
    using assms(1) a y f forget_prize_run [OF f] p assms(2) [OF p] by (auto simp: claim_gone_def split: if_splits)
  then show ?thesis using u forget_prize_run [OF f] assms(2) [OF p] by (auto simp: tally_def)
qed

lemma user_action_run:
  assumes "run_state (user_action publicKey body) s = (x, t)"
    and "\<And>k u. publicKey = Some k \<Longrightarrow> run_state (body k) (open_action s) = (x, u) \<Longrightarrow> P x u"
    and "P (Inl ''Wallet not connected'') s" and "\<And>u. P x u \<Longrightarrow> P x (close_action x u)"
  shows "P x t"
  using assms by (cases publicKey) (auto simp: user_action_def split: prod.splits)

lemma open_action_simps [simp]:
  "tally (open_action s) = tally s" "hk_world (open_action s) = hk_world s" "hk_sent (open_action s) = hk_sent s"
  "hk_unclaimed (open_action s) = hk_unclaimed s"
  by (simp_all add: open_action_def tally_def)

lemma close_action_simps [simp]: "hk_sent (close_action x s) = hk_sent s" "hk_unclaimed (close_action x s) = hk_unclaimed s"
  by (simp_all add: close_action_def)

lemma claim_tail_run:
  assumes "run_state (bindE f (\<lambda>_. bindE (archive_claim c r sig) (\<lambda>_. bindE (poll_all c publicKey q) (\<lambda>_. returnE sig)))) s = (x, t)"
    and "f = forget_prize c r \<or> f = returnE () \<and> r \<notin> up_roundId ` set (hk_unclaimed s)"
  shows "x = Inr sig \<and> hk_sent t = hk_sent s \<and> r \<notin> up_roundId ` set (hk_unclaimed t)"
proof -
  obtain y u where f: "run_state f s = (y, u)" by fastforce
  have u: "y = Inr () \<and> hk_sent u = hk_sent s \<and> r \<notin> up_roundId ` set (hk_unclaimed u)"
    using assms(2) f forget_prize_run [of c r s y u] by auto
  obtain a v where a: "run_state (archive_claim c r sig) u = (a, v)" by fastforce
  obtain p w where p: "run_state (poll_all c publicKey q) v = (p, w)" by fastforce
  have "x = Inr sig \<and> t = w"
    using assms(1) f u a archive_run [OF a] p poll_all_run [OF p] by simp
  then show ?thesis using u archive_run [OF a] poll_all_run [OF p] by (auto simp: tally_def)
qed

lemma send_then_tail:
  assumes "run_state (bindE (send_claim c k r) (\<lambda>sig. bindE f (\<lambda>_. bindE (archive_claim c r sig) (\<lambda>_.
      bindE (poll_all c publicKey q) (\<lambda>_. returnE sig))))) u = (x, t)"
    and "tally u = tally s" and "read_first c r s = Inr (Some data)" "rd_status data = Settled"
    and "f = forget_prize c r \<or> f = returnE () \<and> r \<notin> up_roundId ` set (hk_unclaimed s)"
  shows "claim_done c r s x t"
proof -
  obtain y v where y: "run_state (send_claim c k r) u = (y, v)" by fastforce
  show ?thesis
  proof (cases y)
    case (Inl e)
    then show ?thesis using assms(1,2) y send_claim_run [OF y] by (auto simp: claim_done_def tally_def)
  next
    case (Inr sig)
    with y send_claim_run [OF y] assms(2) have v: "hk_sent v = SentClaim r # hk_sent s" "hk_unclaimed v = hk_unclaimed s"
      by (auto simp: tally_def)
    have "run_state (bindE f (\<lambda>_. bindE (archive_claim c r sig) (\<lambda>_. bindE (poll_all c publicKey q) (\<lambda>_. returnE sig)))) v = (x, t)"
      using assms(1) y Inr by simp
    from claim_tail_run [OF this] assms(5) v(2) have "x = Inr sig \<and> hk_sent t = hk_sent v \<and> r \<notin> up_roundId ` set (hk_unclaimed t)"
      by auto
    then show ?thesis using v(1) assms(3,4) by (simp add: claim_done_def)
  qed
qed

text \<open>The body of a claim, once the round has been read.\<close>

lemma claim_body_run:
  assumes "run_state (case fresh of
       None \<Rightarrow> claim_gone c r polls
     | Some data \<Rightarrow>
         if rd_status data = Claimed then bindE (forget_prize c r) (\<lambda>_. bindE polls (\<lambda>_. throwE ''Prize already claimed''))
         else if rd_status data \<noteq> Settled then throwE ''Round is not in a claimable state''
         else bindE (send_claim c k r) (\<lambda>sig. bindE f (\<lambda>_. bindE (archive_claim c r sig) (\<lambda>_.
           bindE (poll_all c publicKey q) (\<lambda>_. returnE sig))))) u = (x, t)"
    and u: "tally u = tally s" and fresh: "read_first c r s = Inr fresh"
    and polls: "\<And>s y t. run_state polls s = (y, t) \<Longrightarrow> y = Inr () \<and> tally t = tally s"
    and "f = forget_prize c r \<or> f = returnE () \<and> r \<notin> up_roundId ` set (hk_unclaimed s)"
  shows "claim_done c r s x t"
proof (cases fresh)
  case None
  then have "run_state (claim_gone c r polls) u = (x, t)" using assms(1) by simp
  from claim_gone_run [OF this polls] show ?thesis using u fresh None by (auto simp: claim_done_def tally_def)
next
  case (Some data)
  consider "rd_status data = Claimed" | "rd_status data \<noteq> Claimed" "rd_status data \<noteq> Settled" | "rd_status data = Settled" "rd_status data \<noteq> Claimed"
    by (auto simp: RoundStatus_defs)
  then show ?thesis
  proof cases
    case 1
    obtain y v where y: "run_state (forget_prize c r) u = (y, v)" by fastforce
    obtain p w where p: "run_state polls v = (p, w)" by fastforce
    have "(\<exists>e. x = Inl e) \<and> t = w" using assms(1) Some 1 y forget_prize_run [OF y] p polls [OF p] by auto
    then show ?thesis using u fresh Some 1 forget_prize_run [OF y] polls [OF p] by (auto simp: claim_done_def tally_def)
  next
    case 2
    then show ?thesis using assms(1) Some u by (auto simp: claim_done_def tally_def)
  next
    case 3
    show ?thesis
      by (rule send_then_tail [OF _ u fresh [unfolded Some] 3(1) assms(5)]) (use assms(1) Some 3 in simp)
  qed
qed

lemma claim_done_errors:
  "claim_done c r s (Inl ''Wallet not connected'') s" "tally u = tally s \<Longrightarrow> claim_done c r s (Inl e) u"
  "claim_done c r s x u \<Longrightarrow> claim_done c r s x (close_action x u)"
  by (auto simp: claim_done_def tally_def split: sum.splits)

lemma read_first_run:
  "run_state (reach_out (fetchRound_front c r)) (open_action s) = (fr, u) \<Longrightarrow> read_first c r s = fr \<and> tally u = tally s"
  by (auto simp: read_first_def dest: reach_out_run)

lemma claim_front_run: "run_state (claim_front c publicKey r) s = (x, t) \<Longrightarrow> claim_done c r s x t"
proof (unfold claim_front_def, erule user_action_run)
  let ?f = "if r \<in> up_roundId ` set (hk_unclaimed (open_action s)) then forget_prize c r else returnE ()"
  fix k u
  assume body: "run_state (doE State_Monad.get (\<lambda>s0. bindE (reach_out (fetchRound_front c r)) (\<lambda>freshRound. case freshRound of
       None \<Rightarrow> claim_gone c r (poll_all c publicKey r)
     | Some data \<Rightarrow>
         if rd_status data = Claimed then
           bindE (forget_prize c r) (\<lambda>_. bindE (poll_all c publicKey r) (\<lambda>_. throwE ''Prize already claimed''))
         else if rd_status data \<noteq> Settled then throwE ''Round is not in a claimable state''
         else bindE (send_claim c k r) (\<lambda>sig.
           bindE (if r \<in> up_roundId ` set (hk_unclaimed s0) then forget_prize c r else returnE ()) (\<lambda>_.
           bindE (archive_claim c r sig) (\<lambda>_. bindE (poll_all c publicKey r) (\<lambda>_. returnE sig))))))) (open_action s) = (x, u)"
  obtain fr v where fr: "run_state (reach_out (fetchRound_front c r)) (open_action s) = (fr, v)" by fastforce
  show "claim_done c r s x u"
  proof (cases fr)
    case (Inl e)
    then show ?thesis using body fr read_first_run [OF fr] claim_done_errors(2) by auto
  next
    case (Inr fresh)
    then show ?thesis
      by (intro claim_body_run [OF _ _ _ poll_all_run [of c publicKey r], where fresh = fresh and u = v and k = k and f = ?f and
            publicKey = publicKey and q = r]) (use body fr read_first_run [OF fr] in simp_all)
  qed
qed (use claim_done_errors in auto)

lemma claimUnclaimed_run: "run_state (claimUnclaimed c publicKey q r) s = (x, t) \<Longrightarrow> claim_done c r s x t"
proof (unfold claimUnclaimed_def, erule user_action_run)
  fix k u
  assume body: "run_state (bindE (reach_out (fetchRound_front c r)) (\<lambda>oldRoundData. case oldRoundData of
       None \<Rightarrow> claim_gone c r (returnE ())
     | Some data \<Rightarrow>
         if rd_status data = Claimed then bindE (forget_prize c r) (\<lambda>_. throwE ''Prize already claimed'')
         else if rd_status data \<noteq> Settled then throwE ''Round is not in a claimable state''
         else bindE (send_claim c k r) (\<lambda>sig. bindE (forget_prize c r) (\<lambda>_.
           bindE (archive_claim c r sig) (\<lambda>_. bindE (poll_all c publicKey q) (\<lambda>_. returnE sig)))))) (open_action s) = (x, u)"
  obtain fr v where fr: "run_state (reach_out (fetchRound_front c r)) (open_action s) = (fr, v)" by fastforce
  show "claim_done c r s x u"
  proof (cases fr)
    case (Inl e)
    then show ?thesis using body fr read_first_run [OF fr] claim_done_errors(2) by auto
  next
    case (Inr fresh)
    then show ?thesis
      by (intro claim_body_run [where fresh = fresh and u = v and k = k and q = q and polls = "returnE ()" and
            publicKey = publicKey and f = "forget_prize c r", unfolded bindE_simps]) (use body fr read_first_run [OF fr] in auto)
  qed
qed (use claim_done_errors in auto)

text \<open>C27. Both claim callbacks of the front end send a claim transaction only for a round that they have just read as settled, and
  one only. Whatever fails, either nothing was sent and the error is reported, or the claim succeeds and its prize is no longer listed; a
  prize is dropped without a claim only when its round was read as claimed or was gone.\<close>

theorem front_claims_send_once:
  "list_all (\<lambda>m. case run_state m s of (x, t) \<Rightarrow> claim_done c r s x t) [claim_front c publicKey r, claimUnclaimed c publicKey q r]"
  by (auto dest: claim_front_run claimUnclaimed_run split: prod.splits)

end
