(* ===== verification/Deposit_Props.thy ===== *)
theory Deposit_Props
  imports Deposit Web_Props Jackpot_Demo "HOL-Library.Sublist"
begin

text \<open>
  What a deposit sends: the parts of a split deposit cover every token once and the direct USDC once, in order; the amounts are
  those the on-chain program counts.
\<close>

section \<open>The parts of a deposit\<close>

fun tx_ixs :: "('pk, 'alt) wallet_tx \<Rightarrow> 'pk instruction list" where
  "tx_ixs (LegacyTx ixs) = ixs"
| "tx_ixs (VersionedTx tx) = vt_ixs tx"

fun part_direct :: "('pk, 'alt) sent \<Rightarrow> bool" where
  "part_direct (SentDeposit _ d _ _ _ _) = d"
| "part_direct _ = False"

fun part_swaps :: "('pk, 'alt) sent \<Rightarrow> prepared_swap list" where
  "part_swaps (SentDeposit _ _ swaps _ _ _) = swaps"
| "part_swaps _ = []"

text \<open>
  A transaction of the deposit: into the round, with the minimum of its own part, starting with the
  preparation when it has the direct USDC, then the instructions of exactly its own swaps, ending with
  the deposit instruction; the balance is the planned one or the one just read.
\<close>

definition part_ok :: "('w, 'pk, 'alt) front_env \<Rightarrow> 'pk deposit_ctx \<Rightarrow> ('pk, 'alt) sent \<Rightarrow> bool" where
  "part_ok c x ev \<longleftrightarrow> (\<exists>d swaps bal tx ix mid.
     ev = SentDeposit (dx_roundId x) d swaps bal (chunk_min_out x d swaps) tx \<and> 0 < chunk_min_out x d swaps \<and>
     buildDepositAny_front (fe_chain c) (dx_user x) (dx_roundId x) bal (chunk_min_out x d swaps) (usdc (fe_chain c)) = Inr ix \<and>
     tx_ixs tx = (if d then dx_prefix x else []) @ mid @ [ix] \<and>
     buildMultiJupiterInstructions c (map ps_swapIxs swaps) = Inr mid \<and>
     (if d then bal = dx_usdcBalanceBefore x else \<exists>w. Inr bal = fst (run_state (getCurrentUsdcAtaRaw c (dx_usdcAta x)) w)))"

lemma send_chunk_run:
  assumes "run_state (send_chunk c x swapChunk d bal ix) s = (r, t)" and "0 < chunk_min_out x d swapChunk"
    and "buildDepositAny_front (fe_chain c) (dx_user x) (dx_roundId x) bal (chunk_min_out x d swapChunk) (usdc (fe_chain c)) = Inr ix"
    and "if d then bal = dx_usdcBalanceBefore x else \<exists>w. Inr bal = fst (run_state (getCurrentUsdcAtaRaw c (dx_usdcAta x)) w)"
  shows "case r of Inl _ \<Rightarrow> hk_sent t = hk_sent s
    | Inr _ \<Rightarrow> \<exists>ev. hk_sent t = ev # hk_sent s \<and> part_ok c x ev \<and> part_direct ev = d \<and> part_swaps ev = swapChunk"
proof -
  let ?prefix = "if d then dx_prefix x else []"
  let ?ev = "SentDeposit (dx_roundId x) d swapChunk bal (chunk_min_out x d swapChunk)"
  have ok: "part_ok c x (?ev tx)"
    if "tx_ixs tx = ?prefix @ mid @ [ix]" "buildMultiJupiterInstructions c (map ps_swapIxs swapChunk) = Inr mid" for tx mid
    using assms(2-4) that unfolding part_ok_def by blast
  obtain s1 where s1: "hk_sent s1 = hk_sent s" and
    run: "run_state (case swapChunk of [] \<Rightarrow> send c (?ev (LegacyTx (?prefix @ [ix]))) (LegacyTx (?prefix @ [ix]))
      | swap1 # rest \<Rightarrow> bindE (reach_out (if rest = [] \<and> ?prefix = []
          then buildSwapAndDepositTx c (dx_user x) (ps_swapIxs swap1) ix []
          else buildMultiSwapAndDepositTx c (dx_user x) (map ps_swapIxs swapChunk) ix ?prefix)) (\<lambda>tx.
        send c (?ev (VersionedTx tx)) (VersionedTx tx))) s1 = (r, t)"
    using assms(1) unfolding send_chunk_def Let_def doE_run
    by (elim exE conjE) (rule that [rotated], assumption, auto)
  show ?thesis
  proof (cases swapChunk)
    case Nil
    then show ?thesis using send_run [of c _ _ s1 r t] run s1 ok [of "LegacyTx (?prefix @ [ix])" "[]"]
      by (auto simp: buildMultiJupiterInstructions_def split: sum.splits)
  next
    case (Cons swap1 rest)
    have same: "(if rest = [] \<and> ?prefix = [] then buildSwapAndDepositTx c (dx_user x) (ps_swapIxs swap1) ix []
         else buildMultiSwapAndDepositTx c (dx_user x) (map ps_swapIxs swapChunk) ix ?prefix) =
        buildMultiSwapAndDepositTx c (dx_user x) (map ps_swapIxs swapChunk) ix ?prefix"
      by (simp add: Cons buildSwapAndDepositTx_def)
    have "run_state (bindE (reach_out (buildMultiSwapAndDepositTx c (dx_user x) (map ps_swapIxs swapChunk) ix ?prefix)) (\<lambda>tx.
        send c (?ev (VersionedTx tx)) (VersionedTx tx))) s1 = (r, t)"
      using run same unfolding Cons list.case by (simp only:)
    then obtain tx u where tx: "run_state (reach_out (buildMultiSwapAndDepositTx c (dx_user x) (map ps_swapIxs swapChunk) ix ?prefix)) s1 = (tx, u)"
      and sent: "case tx of Inl e \<Rightarrow> r = Inl e \<and> t = u | Inr y \<Rightarrow> run_state (send c (?ev (VersionedTx y)) (VersionedTx y)) u = (r, t)"
      unfolding bindE_run by blast
    have u: "hk_sent u = hk_sent s" using reach_out_sent [OF tx] s1 by simp
    show ?thesis
    proof (cases tx)
      case (Inl e)
      then show ?thesis using sent u by simp
    next
      case (Inr y)
      then obtain w' where "run_state (buildMultiSwapAndDepositTx c (dx_user x) (map ps_swapIxs swapChunk) ix ?prefix) (hk_world s1) = (Inr y, w')"
        using tx by (auto simp: reach_out_def split: prod.splits)
      from deposit_tx_shape [OF this] obtain jup where
        "vt_ixs y = ?prefix @ jup @ [ix]" "buildMultiJupiterInstructions c (map ps_swapIxs swapChunk) = Inr jup" by blast
      then show ?thesis using send_run [of c "?ev (VersionedTx y)" _ u r t] sent Inr u ok [of "VersionedTx y" jup]
        by (auto split: sum.splits)
    qed
  qed
qed

text \<open>
  The transactions of a deposit, oldest first. Only the first has the direct USDC; together they have every swap, in order and
  once; when the deposit fails halfway, they have the first ones.
\<close>

definition only_first :: "bool \<Rightarrow> bool list \<Rightarrow> bool" where
  "only_first d ds \<longleftrightarrow> ds = [] \<or> ds = d # replicate (length ds - 1) False"

definition parts :: "('w, 'pk, 'alt) front_env \<Rightarrow> 'pk deposit_ctx \<Rightarrow> prepared_swap list \<Rightarrow> bool \<Rightarrow> string list result \<Rightarrow>
    ('pk, 'alt) sent list \<Rightarrow> bool" where
  "parts c x swapChunk d r evs \<longleftrightarrow>
     list_all (part_ok c x) evs \<and> only_first d (map part_direct evs) \<and>
     (case r of
        Inr sigs \<Rightarrow> evs \<noteq> [] \<and> length sigs = length evs \<and> concat (map part_swaps evs) = swapChunk
      | Inl _ \<Rightarrow> prefix (concat (map part_swaps evs)) swapChunk)"

lemma only_first_append: "ds \<noteq> [] \<Longrightarrow> only_first d ds \<Longrightarrow> only_first False ds' \<Longrightarrow> only_first d (ds @ ds')"
proof -
  assume "ds \<noteq> []" "only_first d ds" "only_first False ds'"
  then obtain n where ds: "ds = d # replicate n False" by (auto simp: only_first_def)
  have "ds' = replicate (length ds') False"
    using \<open>only_first False ds'\<close> by (cases ds') (auto simp: only_first_def)
  then show ?thesis by (simp add: only_first_def ds replicate_add)
qed

lemma parts_nothing: "parts c x swapChunk d (Inl e) []"
  by (simp add: parts_def only_first_def)

lemma parts_append:
  assumes "parts c x xs d (Inr a) evs" and "parts c x ys False r evs'"
  shows "parts c x (xs @ ys) d (case r of Inl e \<Rightarrow> Inl e | Inr b \<Rightarrow> Inr (a @ b)) (evs @ evs')"
  using assms by (auto simp: parts_def intro: only_first_append split: sum.splits)

lemma parts_weaken: "parts c x xs d (Inl e) evs \<Longrightarrow> parts c x (xs @ ys) d (Inl e) evs"
  by (auto simp: parts_def prefix_def)

text \<open>Two parts sent one after the other.\<close>

lemma parts_seq:
  assumes "run_state (bindE m (\<lambda>a. bindE n (\<lambda>b. returnE (a @ b)))) s = (r, t)"
    and "\<And>s r t. run_state m s = (r, t) \<Longrightarrow> \<exists>evs. hk_sent t = rev evs @ hk_sent s \<and> parts c x xs d r evs"
    and "\<And>s r t. run_state n s = (r, t) \<Longrightarrow> \<exists>evs. hk_sent t = rev evs @ hk_sent s \<and> parts c x ys False r evs"
  shows "\<exists>evs. hk_sent t = rev evs @ hk_sent s \<and> parts c x (xs @ ys) d r evs"
proof -
  obtain r1 u where m: "run_state m s = (r1, u)" by fastforce
  from assms(2) [OF m] obtain evs where evs: "hk_sent u = rev evs @ hk_sent s" "parts c x xs d r1 evs" by blast
  show ?thesis
  proof (cases r1)
    case (Inl e)
    then show ?thesis using assms(1) m evs parts_weaken by (auto intro!: exI [of _ evs])
  next
    case (Inr a)
    obtain r2 v where n: "run_state n u = (r2, v)" by fastforce
    from assms(3) [OF n] obtain evs' where evs': "hk_sent v = rev evs' @ hk_sent u" "parts c x ys False r2 evs'" by blast
    have "r = (case r2 of Inl e \<Rightarrow> Inl e | Inr b \<Rightarrow> Inr (a @ b)) \<and> t = v"
      using assms(1) m n Inr by (auto split: sum.splits)
    then show ?thesis using evs evs' parts_append [of c x xs d a evs ys r2 evs'] Inr
      by (intro exI [of _ "evs @ evs'"]) simp
  qed
qed

text \<open>What is left to do after a failed attempt.\<close>

definition after_failure :: "('w, 'pk, 'alt) front_env \<Rightarrow> 'pk deposit_ctx \<Rightarrow> prepared_swap list \<Rightarrow> bool \<Rightarrow> string \<Rightarrow>
    ('w, 'pk, 'alt, string list result) app" where
  "after_failure c x swapChunk d e =
     (if \<not> isTxTooLargeEncodingError e then throwE e
      else if d \<and> length swapChunk = 1 \<and> (0 < dx_directUsdcRaw x \<or> dx_prefix x \<noteq> []) then
        bindE (sendDepositChunk c x [] True) (\<lambda>a. bindE (sendDepositChunk c x swapChunk False) (\<lambda>b. returnE (a @ b)))
      else if length swapChunk \<le> 1 then throwE ''Batch is too large for one transaction. Split into smaller deposits.''
      else let mid = (length swapChunk + 1) div 2 in
        bindE (sendDepositChunk c x (take mid swapChunk) d) (\<lambda>a. bindE (sendDepositChunk c x (drop mid swapChunk) False) (\<lambda>b. returnE (a @ b))))"

text \<open>One round of the recursion: nothing is sent, the whole chunk is sent, or an attempt has failed.\<close>

lemma sendDepositChunk_cases:
  assumes "run_state (sendDepositChunk c x swapChunk d) s = (r, t)"
  obtains (nothing) e where "r = Inl e" "hk_sent t = hk_sent s"
  | (whole) ev sig where "r = Inr [sig]" "hk_sent t = ev # hk_sent s" "part_ok c x ev" "part_direct ev = d" "part_swaps ev = swapChunk"
  | (failed) e v where "hk_sent v = hk_sent s" "run_state (after_failure c x swapChunk d e) v = (r, t)"
proof -
  let ?min = "chunk_min_out x d swapChunk"
  let ?read = "if d then returnE (dx_usdcBalanceBefore x) else reach_out (getCurrentUsdcAtaRaw c (dx_usdcAta x))"
  let ?ix = "\<lambda>bal. buildDepositAny_front (fe_chain c) (dx_user x) (dx_roundId x) bal ?min (usdc (fe_chain c))"
  note run = assms [unfolded sendDepositChunk.simps [of c x swapChunk d], folded after_failure_def]
  obtain rb u where read: "run_state ?read s = (rb, u)" by fastforce
  have sent_u: "hk_sent u = hk_sent s" using read by (auto split: if_splits dest: reach_out_sent)
  consider e where "r = Inl e" "hk_sent t = hk_sent s"
    | bal ix where "0 < ?min" "rb = Inr bal" "?ix bal = Inr ix"
  proof (cases "?min \<le> 0")
    case True
    then show ?thesis using run that(1) by auto
  next
    case False
    then show ?thesis using run read sent_u that by (cases rb; cases "?ix (projr rb)") (auto simp: bindE_run)
  qed
  then show ?thesis
  proof cases
    case (2 bal ix)
    obtain rs v where sent: "run_state (send_chunk c x swapChunk d bal ix) u = (rs, v)" by fastforce
    have bal: "if d then bal = dx_usdcBalanceBefore x else \<exists>w. Inr bal = fst (run_state (getCurrentUsdcAtaRaw c (dx_usdcAta x)) w)"
      using read 2(2) by (auto dest: reach_out_world split: if_splits)
    have "\<not> ?min \<le> 0" using 2(1) by simp
    with run have "run_state (case rs of Inr sig \<Rightarrow> returnE [sig] | Inl e \<Rightarrow> after_failure c x swapChunk d e) v = (r, t)"
      by (simp only: read 2 sent run_effects if_False prod.case sum.case)
    then show ?thesis using send_chunk_run [OF sent 2(1) 2(3) bal] sent_u whole failed by (cases rs) auto
  qed (rule nothing)
qed

lemma sendDepositChunk_parts:
  assumes "run_state (sendDepositChunk c x swapChunk d) s = (r, t)"
  shows "\<exists>evs. hk_sent t = rev evs @ hk_sent s \<and> parts c x swapChunk d r evs"
  using assms
proof (induction "2 * length swapChunk + (if d then 1 else 0)" arbitrary: swapChunk d s r t rule: less_induct)
  case less
  from less.prems show ?case
  proof (cases rule: sendDepositChunk_cases)
    case (nothing e)
    then show ?thesis using parts_nothing [of c x swapChunk d e] by (intro exI [of _ "[]"]) simp
  next
    case (whole ev sig)
    then show ?thesis by (intro exI [of _ "[ev]"]) (simp add: parts_def only_first_def)
  next
    case (failed e v)
    let ?mid = "(length swapChunk + 1) div 2"
    consider e' where "r = Inl e'" "t = v"
      | "d" "length swapChunk = 1" "run_state (bindE (sendDepositChunk c x [] True) (\<lambda>a.
           bindE (sendDepositChunk c x swapChunk False) (\<lambda>b. returnE (a @ b)))) v = (r, t)"
      | "1 < length swapChunk" "run_state (bindE (sendDepositChunk c x (take ?mid swapChunk) d) (\<lambda>a.
           bindE (sendDepositChunk c x (drop ?mid swapChunk) False) (\<lambda>b. returnE (a @ b)))) v = (r, t)"
      using failed(2) unfolding after_failure_def Let_def by (auto simp del: run_effects(4) split: if_splits)
    then have "\<exists>evs. hk_sent t = rev evs @ hk_sent v \<and> parts c x swapChunk d r evs"
    proof cases
      case (1 e')
      then show ?thesis using parts_nothing [of c x swapChunk d e'] by (intro exI [of _ "[]"]) simp
    next
      case 2
      have "\<exists>evs. hk_sent t = rev evs @ hk_sent v \<and> parts c x ([] @ swapChunk) True r evs"
        by (rule parts_seq [OF 2(3)]) (rule less.hyps, use 2(1,2) in simp_all)+
      then show ?thesis using 2(1) by simp
    next
      case 3
      have "\<exists>evs. hk_sent t = rev evs @ hk_sent v \<and> parts c x (take ?mid swapChunk @ drop ?mid swapChunk) d r evs"
        by (rule parts_seq [OF 3(2)]) (rule less.hyps, use 3(1) in simp_all)+
      then show ?thesis by simp
    qed
    then show ?thesis using failed(1) by simp
  qed
qed

section \<open>A whole deposit\<close>

fun part_min :: "('pk, 'alt) sent \<Rightarrow> int" where
  "part_min (SentDeposit _ _ _ _ m _) = m"
| "part_min _ = 0"

lemma parts_min:
  assumes "list_all (part_ok c x) evs" and "only_first d (map part_direct evs)" and "evs \<noteq> []"
  shows "sum_list (map part_min evs) = (if d then dx_directUsdcRaw x else 0) + sum_list (map ps_minOut (concat (map part_swaps evs)))"
proof -
  have part: "part_min ev = chunk_min_out x (part_direct ev) (part_swaps ev)" if "part_ok c x ev" for ev
    using that by (auto simp: part_ok_def)
  have rest: "sum_list (map part_min es) = sum_list (map ps_minOut (concat (map part_swaps es)))"
    if "list_all (part_ok c x) es" "map part_direct es = replicate n False" for es n
    using that
  proof (induction es arbitrary: n)
    case (Cons e es)
    then show ?case by (cases n) (auto simp: part chunk_min_out_def)
  qed simp
  obtain e es where evs: "evs = e # es" using assms(3) by (cases evs) auto
  with assms(2) have "map part_direct es = replicate (length es) False" "part_direct e = d" by (auto simp: only_first_def)
  then show ?thesis using assms(1) rest [of es "length es"] by (simp add: evs part chunk_min_out_def)
qed

text \<open>
  The swap of a token: for the quote that came with it, which must be for this token and USDC, or for
  one that Jupiter gave for its amount. The minimum is that of the quote, and the instructions are
  those that Jupiter returned for this quote and this user.
\<close>

definition swap_of :: "('w, 'pk, 'alt) front_env \<Rightarrow> 'pk \<Rightarrow> deposit_leg \<Rightarrow> prepared_swap \<Rightarrow> bool" where
  "swap_of c k leg swap \<longleftrightarrow> (\<exists>quote.
     (case lg_quote leg of
        Some q \<Rightarrow> quote = q \<and> fq_inputMint q = lg_mint leg \<and> fq_outputMint q = usdc_str c
      | None \<Rightarrow> \<exists>decimals w. fst (run_state (getJupiterQuote c (lg_mint leg) (usdc_str c)
          (js_string (raw_amount c (lg_amount leg) decimals)) 100 ''ExactIn'') w) = Inr quote) \<and>
     fe_bnOfString c (or_string (Some (fq_otherAmountThreshold quote)) (fq_outAmount quote)) = Inr (ps_minOut swap) \<and>
     0 < ps_minOut swap \<and>
     (\<exists>w. fst (run_state (getJupiterSwapInstructions c (toBase58 (fe_sdk c) k) quote) w) = Inr (ps_swapIxs swap)))"

lemma prepare_swap_of: "valid (\<lambda>_. True) (prepare_swap c k leg) (returns (swap_of c k leg))"
proof -
  have quote: "valid (\<lambda>_. True) (leg_quote c k leg) (returns (\<lambda>quote. case lg_quote leg of
        Some q \<Rightarrow> quote = q \<and> fq_inputMint q = lg_mint leg \<and> fq_outputMint q = usdc_str c
      | None \<Rightarrow> \<exists>decimals w. fst (run_state (getJupiterQuote c (lg_mint leg) (usdc_str c)
          (js_string (raw_amount c (lg_amount leg) decimals)) 100 ''ExactIn'') w) = Inr quote))"
    unfolding leg_quote_def Let_def
    by (intro returns_option returns_if returns_throw returns_ret returns_bind [OF returns_any] returns_weaken [OF returns_answer])
      auto
  show ?thesis
    unfolding prepare_swap_def
    by (rule returns_bind [OF quote], intro returns_bind [OF returns_lift] returns_if returns_throw
        returns_bind [OF returns_answer] returns_ret) (auto simp: swap_of_def)
qed

lemma prepared_swaps:
  "fst (run_state (mapE (prepare_swap c k) legs) w) = Inr swaps \<Longrightarrow> list_all2 (swap_of c k) legs swaps"
  by (rule returnsD [OF returns_mapE [OF prepare_swap_of]])

text \<open>
  What is fixed for a deposit: its user and associated account, a round that was read as open, the
  amount of the direct USDC, and the transfers that bring it to the associated account.
\<close>

definition deposit_context :: "('w, 'pk, 'alt) front_env \<Rightarrow> 'pk \<Rightarrow> deposit_leg list \<Rightarrow> 'pk deposit_ctx \<Rightarrow> bool" where
  "deposit_context c k legs x \<longleftrightarrow>
     dx_user x = k \<and> ata (fe_chain c) (usdc (fe_chain c)) k False = Inr (dx_usdcAta x) \<and>
     (\<exists>w data. fst (run_state (fetchRound_front c (dx_roundId x)) w) = Inr (Some data) \<and> rd_status data = Open) \<and>
     direct_usdc c [leg \<leftarrow> legs. lg_mint leg = usdc_str c] = Inr (dx_directUsdcRaw x) \<and>
     (if 0 < dx_directUsdcRaw x then \<exists>accounts moves w. fst (run_state (fe_tokenAccounts c k) w) = Inr accounts \<and>
        topup_plan (dx_usdcAta x) (usdc_accounts c accounts) (dx_directUsdcRaw x) = Inr (moves, dx_usdcBalanceBefore x) \<and>
        dx_prefix x = fe_createAta c k (dx_usdcAta x) k (usdc (fe_chain c)) #
          map (\<lambda>(src, amount). fe_createTransfer c src (dx_usdcAta x) k amount) moves
      else dx_prefix x = [] \<and> (\<exists>w. fst (run_state (getCurrentUsdcAtaRaw c (dx_usdcAta x)) w) = Inr (dx_usdcBalanceBefore x)))"

lemma prepared_direct:
  assumes "fst (run_state (prepare_direct c k usdcAta raw direct) w) = Inr (pre, before)"
  shows "if 0 < direct then \<exists>accounts moves w. fst (run_state (fe_tokenAccounts c k) w) = Inr accounts \<and>
        topup_plan usdcAta (usdc_accounts c accounts) direct = Inr (moves, before) \<and>
        pre = fe_createAta c k usdcAta k (usdc (fe_chain c)) # map (\<lambda>(src, amount). fe_createTransfer c src usdcAta k amount) moves
      else pre = [] \<and> before = raw"
proof -
  have "valid (\<lambda>_. True) (prepare_direct c k usdcAta raw direct) (returns (\<lambda>(pre, before).
      if 0 < direct then \<exists>accounts moves w. fst (run_state (fe_tokenAccounts c k) w) = Inr accounts \<and>
        topup_plan usdcAta (usdc_accounts c accounts) direct = Inr (moves, before) \<and>
        pre = fe_createAta c k usdcAta k (usdc (fe_chain c)) # map (\<lambda>(src, amount). fe_createTransfer c src usdcAta k amount) moves
      else pre = [] \<and> before = raw))"
    unfolding prepare_direct_def
    by (intro returns_if returns_bind [OF returns_answer] returns_bind [OF returns_lift] returns_prod returns_ret) auto
  from returnsD [OF this assms] show ?thesis by simp
qed

lemma resolve_round_calm [calm]: "keeps (\<lambda>s. tally s = X) (resolve_round c roundId)"
  unfolding resolve_round_def set_status_def by (auto intro!: hoare calm)

lemma require_open_calm [calm]: "keeps (\<lambda>s. tally s = X) (require_open c i)"
  unfolding require_open_def by (auto intro!: hoare calm)

lemma require_open_read:
  assumes "run_state (require_open c i) s = (Inr u, t)"
  shows "\<exists>w data. fst (run_state (fetchRound_front c i) w) = Inr (Some data) \<and> rd_status data = Open"
  using assms by (cases "run_state (fetchRound_front c i) (hk_world s)")
    (auto simp: require_open_def reach_out_def split: sum.splits option.splits if_splits intro!: exI [of _ "hk_world s"])

text \<open>A first step that leaves the tally alone, and a pure one.\<close>

lemma calm_then:
  assumes "keeps (\<lambda>s. tally s = X) m" and "\<And>e s. tally s = X \<Longrightarrow> Q (Inl e) s"
    and "\<And>s t y. run_state m s = (Inr y, t) \<Longrightarrow> valid (\<lambda>s. tally s = X) (f y) Q"
  shows "valid (\<lambda>s. tally s = X) (bindE m f) Q"
  by (rule valid_bindE [where R = "\<lambda>y s. tally s = X \<and> (\<exists>u t. run_state m u = (Inr y, t))"])
    (use assms in \<open>fastforce simp: valid_def split: sum.splits\<close>)+

lemma lift_then:
  assumes "\<And>e s. P s \<Longrightarrow> Q (Inl e) s" and "\<And>y. r = Inr y \<Longrightarrow> valid P (f y) Q"
  shows "valid P (bindE (liftE r) f) Q"
  using assms by (cases r) (auto intro: valid_throwE)

definition deposit_done :: "('w, 'pk, 'alt) front_env \<Rightarrow> 'pk \<Rightarrow> deposit_leg list \<Rightarrow> ('pk, 'alt) sent list \<Rightarrow> 'a result \<Rightarrow>
    ('w, 'pk, 'alt) hook \<Rightarrow> bool" where
  "deposit_done c k legs before r t \<longleftrightarrow> (case r of Inl _ \<Rightarrow> hk_sent t = before | Inr _ \<Rightarrow> False) \<or>
     (\<exists>evs x swaps. hk_sent t = rev evs @ before \<and> deposit_context c k legs x \<and>
       list_all2 (swap_of c k) [leg \<leftarrow> legs. lg_mint leg \<noteq> usdc_str c] swaps \<and>
       list_all (part_ok c x) evs \<and> only_first True (map part_direct evs) \<and>
       (case r of
          Inl _ \<Rightarrow> prefix (concat (map part_swaps evs)) swaps
        | Inr _ \<Rightarrow> evs \<noteq> [] \<and> concat (map part_swaps evs) = swaps \<and>
            sum_list (map part_min evs) = dx_directUsdcRaw x + sum_list (map ps_minOut swaps)))"

lemma deposit_nothing: "hk_sent t = before \<Longrightarrow> deposit_done c k legs before (Inl e) t"
  by (simp add: deposit_done_def)

text \<open>Recording the tokens of a deposit never throws and sends nothing.\<close>

lemma track_tokens_calm: "keeps (\<lambda>s. tally s = X) (track_tokens c k roundId legs)"
  unfolding track_tokens_def add_tokens_def Let_def by (auto intro!: hoare calm)

lemma track_tokens_run:
  assumes "run_state (track_tokens c k roundId legs) s = (x, t)"
  shows "x = Inr () \<and> tally t = tally s"
proof -
  have doE_never: "\<exists>y. fst (run_state (doE m f) u) = Inr y" if "\<And>z v. \<exists>y. fst (run_state (f z) v) = Inr y"
    for m :: "(_, 'z) state" and f :: "'z \<Rightarrow> (_, string + unit) state" and u
    using that by (auto split: prod.splits)
  have "\<exists>y. fst (run_state (track_tokens c k roundId legs) s) = Inr y"
    unfolding track_tokens_def Let_def
    by (rule doE_never)+ (cases "[lg_mint leg. leg \<leftarrow> legs, lg_mint leg \<noteq> usdc_str c] = []"; simp only: if_True if_False; (rule tryE_never)?; simp)
  with assms have "x = Inr ()" by auto
  then show ?thesis using calm_run [OF track_tokens_calm assms] by simp
qed

text \<open>From the prepared swaps to the end.\<close>

lemma send_all_done:
  assumes "deposit_context c k legs x" and "list_all2 (swap_of c k) [leg \<leftarrow> legs. lg_mint leg \<noteq> usdc_str c] swaps"
  shows "valid (\<lambda>s. tally s = X) (bindE (sendDepositChunk c x swaps True) (\<lambda>sigs.
      doE (set_status (st sigs)) (\<lambda>_. bindE (track_tokens c a q ls) (\<lambda>_. bindE (poll_all c a' q) (\<lambda>_. returnE (last sigs))))))
      (deposit_done c k legs (fst X))"
proof (rule validI)
  fix s r t
  assume X: "tally s = X" and run: "run_state (bindE (sendDepositChunk c x swaps True) (\<lambda>sigs.
      doE (set_status (st sigs)) (\<lambda>_. bindE (track_tokens c a q ls) (\<lambda>_. bindE (poll_all c a' q) (\<lambda>_. returnE (last sigs)))))) s = (r, t)"
  obtain rs u where rs: "run_state (sendDepositChunk c x swaps True) s = (rs, u)" by fastforce
  from sendDepositChunk_parts [OF rs] obtain evs where evs: "hk_sent u = rev evs @ hk_sent s" "parts c x swaps True rs evs" by blast
  show "deposit_done c k legs (fst X) r t"
  proof (cases rs)
    case (Inl e)
    then show ?thesis using run rs evs X assms unfolding deposit_done_def
      by (intro disjI2 exI [of _ evs] exI [of _ x] exI [of _ swaps]) (auto simp: parts_def tally_def)
  next
    case (Inr sigs)
    obtain v where v: "run_state (set_status (st sigs)) u = ((), v)" "hk_sent v = hk_sent u" by (simp add: set_status_def)
    obtain y v' where y: "run_state (track_tokens c a q ls) v = (y, v')" by fastforce
    obtain p w where p: "run_state (poll_all c a' q) v' = (p, w)" by fastforce
    have "r = Inr (last sigs) \<and> t = w" using run rs Inr v y track_tokens_run [OF y] p poll_all_run [OF p] by simp
    then show ?thesis using evs X v track_tokens_run [OF y] poll_all_run [OF p] Inr assms parts_min [of c x evs True] unfolding deposit_done_def
      by (intro disjI2 exI [of _ evs] exI [of _ x] exI [of _ swaps]) (auto simp: parts_def tally_def)
  qed
qed

lemma run_deposit_done: "valid (\<lambda>s. tally s = X) (run_deposit c k roundId legs) (deposit_done c k legs (fst X))"
proof -
  have none: "deposit_done c k legs (fst X) (Inl e) s" if "tally s = X" for s and e :: string
    using that deposit_nothing [of s "fst X" c k legs e] by (auto simp: tally_def)
  have step: "valid (\<lambda>s. tally s = X) (bindE m f) (deposit_done c k legs (fst X))"
    if "keeps (\<lambda>s. tally s = X) m" "\<And>s t y. run_state m s = (Inr y, t) \<Longrightarrow> valid (\<lambda>s. tally s = X) (f y) (deposit_done c k legs (fst X))"
    for m and f :: "_ \<Rightarrow> (_, string + string) state"
    by (rule calm_then [OF that(1) none that(2)])
  have ask: "valid (\<lambda>s. tally s = X) (bindE (reach_out m) f) (deposit_done c k legs (fst X))"
    if "\<And>w y. fst (run_state m w) = Inr y \<Longrightarrow> valid (\<lambda>s. tally s = X) (f y) (deposit_done c k legs (fst X))"
    for m and f :: "_ \<Rightarrow> (_, string + string) state"
    by (rule step [OF reach_out_calm that]) (rule reach_out_world [symmetric])
  have pure_step: "valid (\<lambda>s. tally s = X) (bindE (liftE r) f) (deposit_done c k legs (fst X))"
    if "\<And>y. r = Inr y \<Longrightarrow> valid (\<lambda>s. tally s = X) (f y) (deposit_done c k legs (fst X))" for r and f :: "_ \<Rightarrow> (_, string + string) state"
    by (rule lift_then [OF none that])
  have set_step: "valid (\<lambda>s. tally s = X) (doE (set_hook g) f) Q"
    if "\<And>s. tally (g s) = tally s" "\<And>y. valid (\<lambda>s. tally s = X) (f y) Q" for g f Q
    by (rule valid_doE [OF valid_update that(2)]) (simp add: that(1))
  have ctx: "deposit_context c k legs \<lparr>dx_user = k, dx_usdcAta = usdcAta, dx_roundId = i, dx_directUsdcRaw = direct,
      dx_prefix = pre, dx_usdcBalanceBefore = before\<rparr>"
    if "ata (fe_chain c) (usdc (fe_chain c)) k False = Inr usdcAta" "fst (run_state (getCurrentUsdcAtaRaw c usdcAta) w) = Inr raw"
      "run_state (require_open c i) s = (Inr u, t)" "direct_usdc c [leg \<leftarrow> legs. lg_mint leg = usdc_str c] = Inr direct"
      "fst (run_state (prepare_direct c k usdcAta raw direct) w') = Inr (pre, before)"
    for usdcAta w raw i s u t direct w' pre before
    using that(1,2,4) require_open_read [OF that(3)] prepared_direct [OF that(5)]
    by (auto simp: deposit_context_def split: if_splits)
  show ?thesis
    unfolding run_deposit_def set_status_def
    apply (rule set_step, simp)
    apply (rule pure_step, rule ask, rule step [OF resolve_round_calm], rule step [OF require_open_calm], rule pure_step, rule ask)
    apply (rule valid_case_prod, rule ask, rule set_step, simp)
    by (rule send_all_done [unfolded set_status_def], rule ctx) (auto dest: prepared_swaps)
qed

lemma check_legs_distinct: "check_legs seen legs = Inr () \<Longrightarrow> distinct (map lg_mint legs) \<and> lg_mint ` set legs \<inter> set seen = {}"
  by (induction seen legs rule: check_legs.induct) (auto split: if_splits)

lemma validate_legs_Inr:
  "validate_legs c legs = Inr normalized \<Longrightarrow> normalized = map (normalize_leg c) legs \<and> distinct (map lg_mint normalized)"
  using check_legs_distinct [of "[]" "map (normalize_leg c) legs"]
  by (auto simp: validate_legs_def Let_def and_then_Inr_iff split: if_splits)


section \<open>Direct USDC on chain\<close>

lemma topup_moves:
  assumes "\<forall>a\<in>set sources. 0 < snd a" and "0 \<le> remaining"
  shows "sum_list (map snd (topup remaining sources)) = min remaining (sum_list (map snd sources))"
    and "\<forall>m\<in>set (topup remaining sources). 0 < snd m \<and> (\<exists>raw. (fst m, raw) \<in> set sources \<and> snd m \<le> raw)"
proof -
  show "sum_list (map snd (topup remaining sources)) = min remaining (sum_list (map snd sources))"
    using assms
  proof (induction remaining sources rule: topup.induct)
    case (2 remaining k raw sources)
    then have "0 \<le> sum_list (map snd sources)" by (intro sum_list_nonneg) auto
    with 2 show ?case by (auto simp: Let_def min_def)
  qed simp
  show "\<forall>m\<in>set (topup remaining sources). 0 < snd m \<and> (\<exists>raw. (fst m, raw) \<in> set sources \<and> snd m \<le> raw)"
    using assms by (induction remaining sources rule: topup.induct) (fastforce simp: Let_def split: if_splits)+
qed

lemma topup_plan_balance:
  assumes "topup_plan usdcAta accounts direct = Inr (moves, before)"
  shows "before = max 0 (ata_amount usdcAta accounts - direct)"
    and "before + direct = ata_amount usdcAta accounts + sum_list (map snd moves)"
    and "\<forall>m\<in>set moves. 0 < snd m \<and> (\<exists>raw. (fst m, raw) \<in> set accounts \<and> fst m \<noteq> usdcAta \<and> snd m \<le> raw)"
proof -
  let ?ata = "ata_amount usdcAta accounts"
  have pos: "\<forall>a\<in>set (topup_sources usdcAta accounts). 0 < snd a" by (auto simp: topup_sources_def)
  have sub: "a \<in> set accounts \<and> fst a \<noteq> usdcAta" if "a \<in> set (topup_sources usdcAta accounts)" for a
    using that by (auto simp: topup_sources_def)
  note moves = topup_moves [OF pos, of "direct - ?ata"]
  show "before + direct = ?ata + sum_list (map snd moves)"
    using assms by (auto simp: topup_plan_def Let_def split: if_splits)
  show "before = max 0 (?ata - direct)"
    using assms moves(1) by (auto simp: topup_plan_def Let_def split: if_splits)
  show "\<forall>m\<in>set moves. 0 < snd m \<and> (\<exists>raw. (fst m, raw) \<in> set accounts \<and> fst m \<noteq> usdcAta \<and> snd m \<le> raw)"
  proof (cases "?ata < direct")
    case True
    then have "moves = topup (direct - ?ata) (topup_sources usdcAta accounts)"
      using assms by (auto simp: topup_plan_def Let_def split: if_splits)
    then show ?thesis using moves(2) True sub by fastforce
  qed (use assms in \<open>auto simp: topup_plan_def Let_def split: if_splits\<close>)
qed

lemma word_div_nonzero: "u \<noteq> 0 \<Longrightarrow> u \<le> x \<Longrightarrow> x div u \<noteq> 0" for x u :: "64 word"
  by (simp add: word_unat_eq_iff unat_div div_eq_0_iff word_le_nat_alt)

lemma uint_of_small_int: "0 \<le> n \<Longrightarrow> n \<le> uint (w :: 64 word) \<Longrightarrow> uint (of_int n :: 64 word) = n"
  using uint_lt2p [of w] by (simp add: uint_word_of_int)

text \<open>C26. The planned transfers and the balance of a direct USDC deposit are right: once the transfers are done, the on-chain program counts exactly
  the amount of the deposit, whatever the user had before. Transfers come from other USDC accounts of the user and take no more than they
  hold, and only what the associated account lacks.\<close>

theorem topup_deposits_exactly:
  assumes "topup_plan usdcAta accounts direct = Inr (moves, before)" and "0 < direct"
    and "uint (tk_amount ua) = ata_amount usdcAta accounts + sum_list (map snd moves)"
    and "cv_ticket_unit config \<noteq> 0" and "uint (cv_ticket_unit config) \<le> direct"
  shows "deposit_amounts config ua (of_int before) (of_int direct) = Inr (of_int direct, of_int direct div cv_ticket_unit config) \<and>
    before = max 0 (ata_amount usdcAta accounts - direct) \<and>
    (\<forall>m\<in>set moves. 0 < snd m \<and> (\<exists>raw. (fst m, raw) \<in> set accounts \<and> fst m \<noteq> usdcAta \<and> snd m \<le> raw))"
proof -
  note plan = topup_plan_balance [OF assms(1)]
  have total: "uint (tk_amount ua) = before + direct" using assms(3) plan(2) by simp
  have before: "0 \<le> before" using plan(1) by simp
  have b: "uint (of_int before :: 64 word) = before" and d: "uint (of_int direct :: 64 word) = direct"
    using total before assms(2) uint_of_small_int [of before "tk_amount ua"] uint_of_small_int [of direct "tk_amount ua"] by auto
  have "\<not> tk_amount ua < of_int before" using b total assms(2) by (simp add: word_less_def)
  moreover have "tk_amount ua - of_int before = of_int direct"
    using total by (metis add_diff_cancel_left' of_int_add word_of_int_uint)
  moreover have "(of_int direct :: 64 word) div cv_ticket_unit config \<noteq> 0"
    using assms(4,5) d by (intro word_div_nonzero) (simp_all add: word_le_def)
  ultimately have "deposit_amounts config ua (of_int before) (of_int direct) = Inr (of_int direct, of_int direct div cv_ticket_unit config)"
    using assms(4) by (simp add: deposit_amounts_def checked_sub_u64_def checked_div_u64_def and_then_def ok_or_def)
  then show ?thesis using plan by blast
qed

section \<open>The balance of a later part\<close>

text \<open>
  What the RPC node reports as the balance of the account is the confirmed one, \<open>confirmed\<close>, a function of the outside world. Handing a
  transaction to the wallet returns its signature and does not wait for its confirmation; while nothing is confirmed, neither that nor the
  reads in between change the confirmed balance.
\<close>

definition unconfirmed_meanwhile :: "('w, 'pk, 'alt) front_env \<Rightarrow> 'pk \<Rightarrow> ('w \<Rightarrow> int) \<Rightarrow> bool" where
  "unconfirmed_meanwhile c usdcAta confirmed \<longleftrightarrow>
     (\<forall>w. \<exists>decimals w'. run_state (fe_balance c usdcAta) w = (Inr (confirmed w, decimals), w') \<and> confirmed w' = confirmed w) \<and>
     (\<forall>tx w. confirmed (snd (run_state (fe_send c tx) w)) = confirmed w) \<and>
     (\<forall>keys w. confirmed (snd (run_state (getMultipleAccountsInfo (fe_sv c) keys) w)) = confirmed w) \<and>
     (\<forall>w. confirmed (snd (run_state (getLatestBlockhash (fe_sv c)) w)) = confirmed w)"

text \<open>The parts without the direct USDC carry the balance \<open>b\<close>.\<close>

fun carries :: "int \<Rightarrow> ('pk, 'alt) sent \<Rightarrow> bool" where
  "carries b (SentDeposit _ d _ bal _ _) \<longleftrightarrow> d \<or> bal = b"
| "carries b _ \<longleftrightarrow> True"

definition reads_same :: "('w \<Rightarrow> int) \<Rightarrow> int \<Rightarrow> ('pk, 'alt) sent list \<Rightarrow> ('w, 'pk, 'alt) hook \<Rightarrow> bool" where
  "reads_same confirmed b before s \<longleftrightarrow> confirmed (hk_world s) = b \<and> (\<exists>evs. hk_sent s = evs @ before \<and> list_all (carries b) evs)"

lemma reads_same_out:
  assumes "keeps (\<lambda>w. confirmed w = b) m"
  shows "keeps (reads_same confirmed b before) (reach_out m)"
proof (rule validI)
  fix s r t assume I: "reads_same confirmed b before s" and "run_state (reach_out m) s = (r, t)"
  then obtain w where w: "run_state m (hk_world s) = (r, w)" "t = s\<lparr>hk_world := w\<rparr>"
    by (auto simp: reach_out_def split: prod.splits)
  with validD [OF assms _ w(1)] I show "reads_same confirmed b before t" by (simp add: reads_same_def)
qed

lemma keeps_snd: "(\<And>w. confirmed (snd (run_state m w)) = confirmed w) \<Longrightarrow> keeps (\<lambda>w. confirmed w = b) m"
  by (rule validI) (metis snd_conv)

lemma build_unconfirmed:
  assumes "unconfirmed_meanwhile c usdcAta confirmed"
  shows "keeps (\<lambda>w. confirmed w = b) (buildMultiSwapAndDepositTx c payer swaps ix pre)"
    and "keeps (\<lambda>w. confirmed w = b) (buildSwapAndDepositTx c payer swap ix pre)"
proof -
  have rpc: "keeps (\<lambda>w. confirmed w = b) (getMultipleAccountsInfo (fe_sv c) keys)" "keeps (\<lambda>w. confirmed w = b) (getLatestBlockhash (fe_sv c))" for keys
    using assms by (auto intro: keeps_snd simp: unconfirmed_meanwhile_def)
  show multi: "keeps (\<lambda>w. confirmed w = b) (buildMultiSwapAndDepositTx c payer swaps ix pre)" for swaps
    unfolding buildMultiSwapAndDepositTx_def versioned_def resolveAddressLookupTables_def Let_def by (intro hoare rpc)
  show "keeps (\<lambda>w. confirmed w = b) (buildSwapAndDepositTx c payer swap ix pre)"
    unfolding buildSwapAndDepositTx_def by (rule multi)
qed

lemma send_chunk_same:
  assumes "unconfirmed_meanwhile c usdcAta confirmed" and "d \<or> bal = b"
  shows "keeps (reads_same confirmed b before) (send_chunk c x swaps d bal ix)"
proof -
  have wallet: "keeps (\<lambda>w. confirmed w = b) (fe_send c tx)" for tx
    using assms(1) by (auto intro: keeps_snd simp: unconfirmed_meanwhile_def)
  have sent: "keeps (reads_same confirmed b before) (set_hook (\<lambda>s. s\<lparr>hk_sent := ev # hk_sent s\<rparr>))" if "carries b ev" for ev
    by (rule valid_update) (use that in \<open>auto simp: reads_same_def intro: exI [of _ "ev # _"]\<close>)
  have send: "keeps (reads_same confirmed b before) (send c (SentDeposit i d swaps' bal m tx') tx)" for i swaps' m tx tx'
    unfolding send_def by (intro hoare sent reads_same_out wallet) (use assms(2) in auto)
  show ?thesis
    unfolding send_chunk_def Let_def
  proof (rule keeps_doE)
    show "keeps (reads_same confirmed b before) (set_hook (\<lambda>s. s\<lparr>hk_sentChunks := hk_sentChunks s + 1,
        hk_autoStatus := Some (''Sending batch part '' @ js_string (hk_sentChunks s + 1) @ ''...'')\<rparr>))"
      by (rule valid_update) (simp add: reads_same_def)
  qed (cases swaps; simp only: list.case; intro keeps_bindE send reads_same_out valid_if build_unconfirmed [OF assms(1)])
qed

lemma sendDepositChunk_same:
  assumes "unconfirmed_meanwhile c (dx_usdcAta x) confirmed"
  shows "keeps (reads_same confirmed b before) (sendDepositChunk c x swapChunk d)"
proof (induction "2 * length swapChunk + (if d then 1 else 0)" arbitrary: swapChunk d rule: less_induct)
  case less
  let ?I = "reads_same confirmed b before"
  let ?read = "if d then returnE (dx_usdcBalanceBefore x) else reach_out (getCurrentUsdcAtaRaw c (dx_usdcAta x))"
  have read: "valid ?I ?read (\<lambda>r s. case r of Inl e \<Rightarrow> ?I s | Inr bal \<Rightarrow> ?I s \<and> (d \<or> bal = b))"
  proof (cases d)
    case False
    have known: "\<exists>w'. run_state (getCurrentUsdcAtaRaw c (dx_usdcAta x)) w = (Inr (confirmed w), w') \<and> confirmed w' = confirmed w" for w
      using assms unfolding unconfirmed_meanwhile_def getCurrentUsdcAtaRaw_def by (auto dest!: spec [of _ w])
    show ?thesis
    proof (rule validI)
      fix s r t assume I: "?I s" and run: "run_state ?read s = (r, t)"
      obtain w' where "run_state (getCurrentUsdcAtaRaw c (dx_usdcAta x)) (hk_world s) = (Inr (confirmed (hk_world s)), w')"
        "confirmed w' = confirmed (hk_world s)" using known by blast
      with I run False show "case r of Inl e \<Rightarrow> ?I t | Inr bal \<Rightarrow> ?I t \<and> (d \<or> bal = b)"
        by (auto simp: reach_out_def reads_same_def)
    qed
  qed (auto intro!: hoare)
  have rest: "keeps ?I (after_failure c x swapChunk d e)" for e
    unfolding after_failure_def Let_def by (intro hoare less.hyps) (auto simp: Suc_le_eq)
  have attempt: "keeps ?I (doE (send_chunk c x swapChunk d bal ix) (\<lambda>r. case r of Inr sig \<Rightarrow> returnE [sig] | Inl e \<Rightarrow> after_failure c x swapChunk d e))"
    if "d \<or> bal = b" for bal ix
    by (intro hoare rest send_chunk_same [OF assms that])
  have pull: "valid (\<lambda>s. ?I s \<and> Q) m (\<lambda>_. ?I)" if "Q \<Longrightarrow> keeps ?I m" for Q and m :: "(_, string list result) state"
    using that by (auto simp: valid_def)
  show ?case
    unfolding sendDepositChunk.simps [of c x swapChunk d] after_failure_def [symmetric]
    by (rule valid_if, rule valid_throwE, assumption, rule valid_bindE [OF read], rule pull, intro keeps_bindE hoare attempt)
qed

lemma stale_rejected:
  assumes first: "deposit_amounts config ua1 (of_int before) m1 = Inr (delta, n)"
    and plan: "before = b - direct" "0 \<le> before" "b < 2 ^ 64" "0 < direct"
    and now: "uint (tk_amount ua) = uint (tk_amount ua1 - delta) + out" "out < direct + m" "0 < m" "m < 2 ^ 64"
  shows "deposit_amounts config ua (of_int b) (of_int m) \<in> {fail InvalidUsdcBalanceBefore, fail SlippageExceeded}"
proof -
  have "tk_amount ua1 - delta = of_int before"
    using first by (auto simp: deposit_amounts_def checked_sub_u64_def and_then_Inr_iff ok_or_def split: option.splits if_splits)
  moreover have small: "uint (of_int y :: 64 word) = y" if "0 \<le> y" "y < 2 ^ 64" for y
    using that by (simp add: uint_word_of_int)
  moreover have "0 \<le> b" "before < 2 ^ 64" using plan by simp_all
  ultimately have "uint (tk_amount ua) = before + out" "uint (of_int b :: 64 word) = b" "uint (of_int m :: 64 word) = m"
    using plan(2,3) now by simp_all
  with plan(1,4) now(2) show ?thesis
    by (auto simp: deposit_amounts_def checked_sub_u64_def and_then_def ok_or_def word_less_def word_le_def uint_sub_if')
qed

text \<open>C28. A deposit that is split reads the balance for its later parts right after the first part was sent, without waiting for its confirmation.
  As long as the first part is not confirmed by then, every later part carries the balance from before the deposit. When the associated account
  holds the direct USDC itself, the first part, once executed, leaves that balance less the direct USDC, so the chain rejects a later
  part unless its swaps bring in the direct USDC on top of their minimum.\<close>

theorem split_deposit_stale:
  assumes "run_state (sendDepositChunk c x swaps True) s = (Inr sigs, t)"
    and "unconfirmed_meanwhile c (dx_usdcAta x) confirmed" and "b = confirmed (hk_world s)"
    and "0 < dx_directUsdcRaw x" and "dx_usdcBalanceBefore x = b - dx_directUsdcRaw x" and "0 \<le> dx_usdcBalanceBefore x" and "b < 2 ^ 64"
  shows "\<exists>evs. hk_sent t = rev evs @ hk_sent s \<and> length sigs = length evs \<and>
    list_all (\<lambda>ev. \<exists>r swaps m tx. ev = SentDeposit r False swaps b m tx \<and> 0 < m \<and>
      (\<forall>config ua1 m1 delta n ua out. deposit_amounts config ua1 (of_int (dx_usdcBalanceBefore x)) m1 = Inr (delta, n) \<and>
         uint (tk_amount ua) = uint (tk_amount ua1 - delta) + out \<and> out < dx_directUsdcRaw x + m \<and> m < 2 ^ 64 \<longrightarrow>
         deposit_amounts config ua (of_int b) (of_int m) \<in> {fail InvalidUsdcBalanceBefore, fail SlippageExceeded})) (tl evs)"
proof -
  from sendDepositChunk_parts [OF assms(1)] obtain evs where evs: "hk_sent t = rev evs @ hk_sent s" "parts c x swaps True (Inr sigs) evs"
    by blast
  have "reads_same confirmed b (hk_sent s) s" by (simp add: reads_same_def assms(3))
  from validD [OF sendDepositChunk_same [OF assms(2)] this assms(1)] evs(1) have carries: "list_all (carries b) evs"
    by (auto simp: reads_same_def)
  have part: "\<exists>r swaps m tx. ev = SentDeposit r False swaps b m tx \<and> 0 < m \<and>
      (\<forall>config ua1 m1 delta n ua out. deposit_amounts config ua1 (of_int (dx_usdcBalanceBefore x)) m1 = Inr (delta, n) \<and>
         uint (tk_amount ua) = uint (tk_amount ua1 - delta) + out \<and> out < dx_directUsdcRaw x + m \<and> m < 2 ^ 64 \<longrightarrow>
         deposit_amounts config ua (of_int b) (of_int m) \<in> {fail InvalidUsdcBalanceBefore, fail SlippageExceeded})"
    if "ev \<in> set (tl evs)" for ev
  proof -
    have "map part_direct (tl evs) = replicate (length evs - 1) False"
      using evs(2) by (cases evs) (auto simp: parts_def only_first_def)
    then have "part_direct ev = False" using that by (metis image_eqI image_set in_set_replicate)
    moreover have "part_ok c x ev" "carries b ev" using that evs(2) carries by (cases evs; auto simp: parts_def list_all_iff)+
    ultimately obtain r swaps m tx where "ev = SentDeposit r False swaps b m tx" "0 < m" by (auto simp: part_ok_def)
    then show ?thesis using stale_rejected [OF _ assms(5,6,7,4)] by blast
  qed
  show ?thesis
    by (rule exI [of _ evs], intro conjI) (use evs part in \<open>auto simp only: list_all_iff parts_def sum.case\<close>)
qed

section \<open>Witnesses\<close>

theorem topup_deposits_exactly_witness:
  "deposit_amounts demo_config \<lparr>tk_mint = [], tk_owner = [], tk_amount = 1000000\<rparr> 0 1000000 =
     Inr (1000000, 1000000 div cv_ticket_unit demo_config)"
proof -
  let ?accounts = "[(10, 300000), (11, 500000), (12, 900000)] :: (nat \<times> int) list"
  have "topup_plan 10 ?accounts 1000000 = Inr ([(12, 700000)], 0)"
    by (simp add: topup_plan_def ata_amount_def topup_sources_def Let_def)
  moreover have "ata_amount 10 ?accounts = 300000" by (simp add: ata_amount_def)
  moreover have "cv_ticket_unit demo_config \<noteq> 0" "uint (cv_ticket_unit demo_config) \<le> 1000000" by (simp_all add: demo_config_def)
  ultimately show ?thesis
    using topup_deposits_exactly [of 10 ?accounts 1000000 "[(12, 700000)]" 0 "\<lparr>tk_mint = [], tk_owner = [], tk_amount = 1000000\<rparr>" demo_config]
    by simp
qed

text \<open>A wallet that accepts at most three instructions in a transaction.\<close>

definition demo_wallet :: "(unit, 256 word, unit) front_env" where
  "demo_wallet = (demo_front (\<lambda>_. None) (\<lambda>_. None))\<lparr>fe_send := (\<lambda>tx. State_Monad.return
     (if 3 < length (tx_ixs tx) then Inl ''Transaction too large'' else Inr ''sig''))\<rparr>"

definition demo_hook :: "(unit, 256 word, unit) hook" where
  "demo_hook = \<lparr>hk_roundId = 7, hk_roundData = None, hk_participants = [], hk_phase = PWaiting, hk_timeLeft = 0, hk_balance = 0,
     hk_loading = False, hk_error = None, hk_autoStatus = None, hk_unclaimed = [], hk_initialized = True, hk_pendingSettled = [],
     hk_lastWs = 0, hk_paused = False, hk_storage = None, hk_sentChunks = 0,
     hk_caches = (\<lambda>_. fresh_cache 7), hk_cache = 0, hk_nextCache = 1, hk_jobs = [],
     hk_meta = \<lparr>tm_cache = Map.empty, tm_logos = Map.empty, tm_degen = Map.empty\<rparr>, hk_sent = [], hk_world = ()\<rparr>"

definition demo_ctx :: "(256 word) deposit_ctx" where
  "demo_ctx = \<lparr>dx_user = 1, dx_usdcAta = 2, dx_roundId = 7, dx_directUsdcRaw = 2000000, dx_prefix = [demo_ix], dx_usdcBalanceBefore = 3000000\<rparr>"

definition demo_swap :: prepared_swap where
  "demo_swap = \<lparr>ps_minOut = 1000000, ps_swapIxs = \<lparr>sw_computeBudgetInstructions = [], sw_setupInstructions = [],
     sw_swapInstruction = \<lparr>si_programId = ''p'', si_accounts = [], si_data = []\<rparr>, sw_cleanupInstruction = None,
     sw_addressLookupTableAddresses = []\<rparr>\<rparr>"

lemmas demo_deposit_defs = demo_wallet_def demo_front_def demo_services_def demo_ctx_def demo_swap_def

lemma demo_swap_ixs:
  "\<exists>ixs. length ixs = 2 \<and> buildMultiJupiterInstructions demo_wallet [ps_swapIxs demo_swap] = Inr ixs"
  by (simp add: demo_deposit_defs buildMultiJupiterInstructions_def splitJupiterInstructions_def deserializeInstruction_front_def
      new_key_def demo_env_def demo_sdk_def body_of_def Let_def)

lemma demo_swap_tx:
  "\<exists>tx. length (vt_ixs tx) = length pre + 3 \<and>
     run_state (buildMultiSwapAndDepositTx demo_wallet k [ps_swapIxs demo_swap] ix pre) w = (Inr tx, w)"
proof -
  obtain ixs where ixs: "length ixs = 2" "buildMultiJupiterInstructions demo_wallet [ps_swapIxs demo_swap] = Inr ixs"
    using demo_swap_ixs by blast
  have "mergeAltAddresses [ps_swapIxs demo_swap] = []" by (simp add: demo_swap_def mergeAltAddresses_def)
  with ixs show ?thesis
    by (simp add: buildMultiSwapAndDepositTx_def versioned_def resolveAddressLookupTables_def Let_def)
      (simp add: demo_deposit_defs)
qed

lemma demo_send_chunk:
  "\<exists>t. run_state (send_chunk demo_wallet demo_ctx [demo_swap] True b ix) s = (Inl ''Transaction too large'', t)"
  "\<exists>t. run_state (send_chunk demo_wallet demo_ctx [] True b ix) s = (Inr ''sig'', t)"
  "\<exists>t. run_state (send_chunk demo_wallet demo_ctx [demo_swap] False b ix) s = (Inr ''sig'', t)"
proof -
  have prefix: "dx_prefix demo_ctx = [demo_ix]" by (simp add: demo_ctx_def)
  have wallet: "run_state (fe_send demo_wallet tx) w = (if 3 < length (tx_ixs tx) then Inl ''Transaction too large'' else Inr ''sig'', w)" for tx w
    by (simp add: demo_wallet_def)
  obtain tx where tx: "length (vt_ixs tx) = 4"
      "run_state (buildMultiSwapAndDepositTx demo_wallet (dx_user demo_ctx) [ps_swapIxs demo_swap] ix [demo_ix]) (hk_world s) = (Inr tx, ())"
    using demo_swap_tx [of "[demo_ix]" "dx_user demo_ctx" ix "hk_world s"] by auto
  then show "\<exists>t. run_state (send_chunk demo_wallet demo_ctx [demo_swap] True b ix) s = (Inl ''Transaction too large'', t)"
    by (simp add: send_chunk_def send_def reach_out_def prefix wallet)
  show "\<exists>t. run_state (send_chunk demo_wallet demo_ctx [] True b ix) s = (Inr ''sig'', t)"
    by (simp add: send_chunk_def send_def reach_out_def prefix wallet)
  obtain tx' where "length (vt_ixs tx') = 3"
      "run_state (buildMultiSwapAndDepositTx demo_wallet (dx_user demo_ctx) [ps_swapIxs demo_swap] ix []) (hk_world s) = (Inr tx', ())"
    using demo_swap_tx [of "[]" "dx_user demo_ctx" ix "hk_world s"] by auto
  then show "\<exists>t. run_state (send_chunk demo_wallet demo_ctx [demo_swap] False b ix) s = (Inr ''sig'', t)"
    by (simp add: send_chunk_def send_def reach_out_def buildSwapAndDepositTx_def wallet)
qed

lemma demo_deposit_ix:
  "\<exists>ix. buildDepositAny_front demo_env 1 7 3000000 3000000 (usdc demo_env) = Inr ix"
  "\<exists>ix. buildDepositAny_front demo_env 1 7 3000000 2000000 (usdc demo_env) = Inr ix"
  "\<exists>ix. buildDepositAny_front demo_env 1 7 5000000 1000000 (usdc demo_env) = Inr ix"
proof -
  have "case buildDepositAny_front demo_env 1 7 b m (usdc demo_env) of Inr _ \<Rightarrow> True | Inl _ \<Rightarrow> False"
    if "(b, m) \<in> {(3000000, 3000000), (3000000, 2000000), (5000000, 1000000)}" for b m
    using that by (elim insertE emptyE; simp only: prod.inject; elim conjE; hypsubst) (code_simp+)
  then show "\<exists>ix. buildDepositAny_front demo_env 1 7 3000000 3000000 (usdc demo_env) = Inr ix"
    "\<exists>ix. buildDepositAny_front demo_env 1 7 3000000 2000000 (usdc demo_env) = Inr ix"
    "\<exists>ix. buildDepositAny_front demo_env 1 7 5000000 1000000 (usdc demo_env) = Inr ix"
    by (fastforce split: sum.splits)+
qed

lemma demo_chunks:
  "\<exists>t. run_state (sendDepositChunk demo_wallet demo_ctx [] True) s = (Inr [''sig''], t)"
  "\<exists>t. run_state (sendDepositChunk demo_wallet demo_ctx [demo_swap] False) s = (Inr [''sig''], t)"
proof -
  have ctx: "fe_chain demo_wallet = demo_env" "dx_user demo_ctx = 1" "dx_roundId demo_ctx = 7" "dx_usdcBalanceBefore demo_ctx = 3000000"
      "chunk_min_out demo_ctx True [] = 2000000" "chunk_min_out demo_ctx False [demo_swap] = 1000000"
    by (simp_all add: demo_deposit_defs chunk_min_out_def)
  have read: "run_state (reach_out (getCurrentUsdcAtaRaw demo_wallet k)) s = (Inr 5000000, s)" for k
    by (simp add: reach_out_def getCurrentUsdcAtaRaw_def demo_wallet_def demo_front_def)
  obtain ix t where "buildDepositAny_front demo_env 1 7 3000000 2000000 (usdc demo_env) = Inr ix"
      "run_state (send_chunk demo_wallet demo_ctx [] True 3000000 ix) s = (Inr ''sig'', t)"
    using demo_deposit_ix(2) demo_send_chunk(2) by blast
  then show "\<exists>t. run_state (sendDepositChunk demo_wallet demo_ctx [] True) s = (Inr [''sig''], t)"
    by (subst sendDepositChunk.simps) (simp add: ctx)
  obtain ix' t' where "buildDepositAny_front demo_env 1 7 5000000 1000000 (usdc demo_env) = Inr ix'"
      "run_state (send_chunk demo_wallet demo_ctx [demo_swap] False 5000000 ix') s = (Inr ''sig'', t')"
    using demo_deposit_ix(3) demo_send_chunk(3) by blast
  then show "\<exists>t. run_state (sendDepositChunk demo_wallet demo_ctx [demo_swap] False) s = (Inr [''sig''], t)"
    by (subst sendDepositChunk.simps) (simp add: ctx read)
qed

lemma demo_split: "\<exists>t. run_state (sendDepositChunk demo_wallet demo_ctx [demo_swap] True) s = (Inr [''sig'', ''sig''], t)"
proof -
  have ctx: "fe_chain demo_wallet = demo_env" "dx_user demo_ctx = 1" "dx_roundId demo_ctx = 7" "dx_usdcBalanceBefore demo_ctx = 3000000"
      "chunk_min_out demo_ctx True [demo_swap] = 3000000" "0 < dx_directUsdcRaw demo_ctx"
    by (simp_all add: demo_deposit_defs chunk_min_out_def)
  have large: "isTxTooLargeEncodingError ''Transaction too large''" by code_simp
  obtain ix t1 where ix: "buildDepositAny_front demo_env 1 7 3000000 3000000 (usdc demo_env) = Inr ix"
      "run_state (send_chunk demo_wallet demo_ctx [demo_swap] True 3000000 ix) s = (Inl ''Transaction too large'', t1)"
    using demo_deposit_ix(1) demo_send_chunk(1) by blast
  obtain t2 where t2: "run_state (sendDepositChunk demo_wallet demo_ctx [] True) t1 = (Inr [''sig''], t2)" using demo_chunks(1) by blast
  obtain t3 where "run_state (sendDepositChunk demo_wallet demo_ctx [demo_swap] False) t2 = (Inr [''sig''], t3)" using demo_chunks(2) by blast
  with ix t2 show ?thesis by (subst sendDepositChunk.simps) (simp add: ctx large)
qed

theorem split_deposit_stale_witness:
  "case run_state (sendDepositChunk demo_wallet demo_ctx [demo_swap] True) demo_hook of
     (Inr sigs, t) \<Rightarrow> \<exists>evs. hk_sent t = rev evs \<and> length evs = 2 \<and>
       list_all (\<lambda>ev. \<exists>r swaps m tx. ev = SentDeposit r False swaps 5000000 m tx) (tl evs)
   | _ \<Rightarrow> False"
proof -
  obtain a b t where run: "run_state (sendDepositChunk demo_wallet demo_ctx [demo_swap] True) demo_hook = (Inr [a, b], t)"
    using demo_split by blast
  have rpc: "unconfirmed_meanwhile demo_wallet (dx_usdcAta demo_ctx) (\<lambda>_. 5000000)"
    by (simp add: unconfirmed_meanwhile_def demo_wallet_def demo_front_def demo_services_def)
  have "0 < dx_directUsdcRaw demo_ctx" "dx_usdcBalanceBefore demo_ctx = 5000000 - dx_directUsdcRaw demo_ctx" "0 \<le> dx_usdcBalanceBefore demo_ctx"
    by (simp_all add: demo_ctx_def)
  from split_deposit_stale [OF run rpc refl this]
  have "\<exists>evs. hk_sent t = rev evs @ hk_sent demo_hook \<and> length [a, b] = length evs \<and>
      list_all (\<lambda>ev. \<exists>r swaps m tx. ev = SentDeposit r False swaps 5000000 m tx) (tl evs)"
    by (fastforce simp: list_all_iff)
  moreover have "hk_sent demo_hook = []" by (simp add: demo_hook_def)
  ultimately show ?thesis using run by (auto simp: numeral_2_eq_2)
qed

section \<open>Tokens of a deposit\<close>

lemma with_meta_caches:
  "run_state (with_meta m) s = (x, t) \<Longrightarrow> hk_caches t = hk_caches s \<and> hk_cache t = hk_cache s"
  by (auto simp: with_meta_def split: prod.splits)

lemma add_tokens_run:
  "run_state (add_tokens a addr tags) s = ((), s\<lparr>hk_caches := (hk_caches s)(a := (hk_caches s a)\<lparr>tc_map := (tc_map (hk_caches s a))(addr \<mapsto>
     merge_tags (case tc_map (hk_caches s a) addr of None \<Rightarrow> [] | Some ts \<Rightarrow> ts) tags)\<rparr>)\<rparr>)"
  by (simp add: add_tokens_def)

lemma merge_tags_symbols: "fst ` set (merge_tags existing tags) = fst ` set existing \<union> fst ` set tags"
  unfolding merge_tags_def by (induction tags arbitrary: existing) (auto simp: image_iff)

text \<open>C31. The tokens of a deposit are shown next to the player only when the cache already belonged to the round. Then every one
  of them is in the cache afterwards, whose metadata could be read. Otherwise they are written into the object that has just been
  replaced: the cache that is shown is empty.\<close>

theorem deposit_tokens_kept_or_lost:
  assumes "hk_cache s < hk_nextCache s" "map_result (new_key c) ms = Inr keys" "ms = [lg_mint leg. leg \<leftarrow> legs, lg_mint leg \<noteq> usdc_str c]" "ms \<noteq> []"
    and "run_state (with_meta (fetchTokenMetadataBatch c keys)) (snd (run_state (new_cache roundId) s)) = (Inr metaMap, u)"
    and "run_state (track_tokens c k roundId legs) s = (x, t)"
  shows "(if tc_roundId (hk_caches s (hk_cache s)) = roundId
      then \<exists>ts. tc_map (hk_caches t (hk_cache t)) (toBase58 (fe_sdk c) k) = Some ts \<and> fst ` token_tag_of metaMap ` set ms \<subseteq> fst ` set ts
      else tc_map (hk_caches t (hk_cache t)) = Map.empty)"
proof -
  define s1 where "s1 = snd (run_state (new_cache roundId) s)"
  have s1: "run_state (new_cache roundId) s = ((), s1)" by (simp add: s1_def new_cache_def)
  note u = with_meta_caches [OF assms(5) [folded s1_def]]
  have t: "t = snd (run_state (add_tokens (hk_cache s) (toBase58 (fe_sdk c) k) (map (token_tag_of metaMap) ms)) u)"
    using assms(6) assms(2,4,5) [folded s1_def] unfolding track_tokens_def Let_def assms(3) [symmetric]
    by (simp add: s1 s1_def [symmetric] add_tokens_run)
  show ?thesis
  proof (cases "tc_roundId (hk_caches s (hk_cache s)) = roundId")
    case True
    then have "s1 = s" by (simp add: s1_def new_cache_def)
    with u True show ?thesis by (auto simp: t add_tokens_run merge_tags_symbols image_iff)
  next
    case False
    then have "hk_cache s1 = hk_nextCache s" "hk_caches s1 = (hk_caches s)(hk_nextCache s := fresh_cache roundId)"
      by (simp_all add: s1_def new_cache_def)
    with u False assms(1) show ?thesis by (simp add: t add_tokens_run fresh_cache_def)
  qed
qed

definition demo_leg :: deposit_leg where
  "demo_leg = \<lparr>lg_amount = Finite 1, lg_mint = WSOL_MINT_STR, lg_quote = None\<rparr>"

lemma demo_metadata:
  "\<exists>u. run_state (with_meta (fetchTokenMetadataBatch demo_wallet [key])) (snd (run_state (new_cache r) demo_hook)) = (Inr Map.empty, u)"
proof -
  have "getMultipleAccountsInfo (fe_sv demo_wallet) ks = State_Monad.return (Inr (map (\<lambda>_. None) ks))" for ks
    by (simp add: demo_wallet_def demo_front_def demo_services_def)
  moreover have "tm_cache (hk_meta (snd (run_state (new_cache r) demo_hook))) x = None" for x by (simp add: new_cache_def demo_hook_def)
  ultimately show ?thesis
    by (simp add: with_meta_def fetchTokenMetadataBatch_def meta_out_def usable_metadata_def Let_def fun_eq_iff)
qed

theorem deposit_tokens_kept_or_lost_witness:
  "\<exists>s t. run_state (track_tokens demo_wallet 1 7 [demo_leg]) demo_hook = (Inr (), s) \<and>
     (\<exists>ts. tc_map (hk_caches s (hk_cache s)) (toBase58 (fe_sdk demo_wallet) 1) = Some ts \<and> ''SOL'' \<in> fst ` set ts) \<and>
     run_state (track_tokens demo_wallet 1 8 [demo_leg]) demo_hook = (Inr (), t) \<and> tc_map (hk_caches t (hk_cache t)) = Map.empty"
proof -
  let ?ms = "[WSOL_MINT_STR]"
  have "\<exists>key. parsePublicKey (fe_sdk demo_wallet) m = Some key" for m
    by (simp add: demo_wallet_def demo_front_def demo_env_def demo_sdk_def)
  then obtain key where "parsePublicKey (fe_sdk demo_wallet) WSOL_MINT_STR = Some key" by blast
  then have key: "map_result (new_key demo_wallet) ?ms = Inr [key]" by (simp add: new_key_def and_then_def)
  have digits: "js_string 2000003 = ''2000003''" by (simp add: js_string_def nat_digits.simps) code_simp
  have legs: "?ms = [lg_mint leg. leg \<leftarrow> [demo_leg], lg_mint leg \<noteq> usdc_str demo_wallet]"
    using digits by (simp add: demo_leg_def usdc_str_def WSOL_MINT_STR_def demo_wallet_def demo_front_def demo_env_def demo_sdk_def)
  have cache: "hk_cache demo_hook < hk_nextCache demo_hook" "tc_roundId (hk_caches demo_hook (hk_cache demo_hook)) = 7"
    by (simp_all add: demo_hook_def fresh_cache_def)
  have sol: "token_tag_of Map.empty WSOL_MINT_STR = (''SOL'', [])" by (simp add: token_tag_of_def or_string_def)
  obtain x s y t where xy: "run_state (track_tokens demo_wallet 1 7 [demo_leg]) demo_hook = (x, s)"
    "run_state (track_tokens demo_wallet 1 8 [demo_leg]) demo_hook = (y, t)" by fastforce
  then have st: "run_state (track_tokens demo_wallet 1 7 [demo_leg]) demo_hook = (Inr (), s)"
    "run_state (track_tokens demo_wallet 1 8 [demo_leg]) demo_hook = (Inr (), t)"
    using track_tokens_run [OF xy(1)] track_tokens_run [OF xy(2)] by simp_all
  obtain u v where uv: "run_state (with_meta (fetchTokenMetadataBatch demo_wallet [key])) (snd (run_state (new_cache 7) demo_hook)) = (Inr Map.empty, u)"
    "run_state (with_meta (fetchTokenMetadataBatch demo_wallet [key])) (snd (run_state (new_cache 8) demo_hook)) = (Inr Map.empty, v)"
    using demo_metadata by blast
  from deposit_tokens_kept_or_lost [OF cache(1) key legs _ uv(1) st(1)] deposit_tokens_kept_or_lost [OF cache(1) key legs _ uv(2) st(2)]
  show ?thesis using st cache(2) by (auto simp: sol)
qed

end
