(* ===== verification/History_Props.thy ===== *)
theory History_Props
  imports Round_History
begin

text \<open>
  The history page finds the highest round, lists every round once and in order, and reads back from the archive what
  was written there.
\<close>

section \<open>The highest round\<close>

text \<open>The chain does not change during the search: \<open>acct\<close> gives the account of every key.\<close>

definition front_snapshot :: "('w, 'pk, 'alt) front_env \<Rightarrow> ('pk \<Rightarrow> buffer option) \<Rightarrow> bool" where
  "front_snapshot c acct \<longleftrightarrow>
     (\<forall>k w. run_state (getAccountInfo (fe_sv c) k) w = (Inr (acct k), w)) \<and>
     (\<forall>ks w. run_state (getMultipleAccountsInfo (fe_sv c) ks) w = (Inr (map acct ks), w))"

definition round_exists :: "('w, 'pk, 'alt) front_env \<Rightarrow> ('pk \<Rightarrow> buffer option) \<Rightarrow> int \<Rightarrow> bool" where
  "round_exists c acct i \<longleftrightarrow> acct (round_pda (fe_chain c) i) \<noteq> None"

definition batch_empty :: "('w, 'pk, 'alt) front_env \<Rightarrow> ('pk \<Rightarrow> buffer option) \<Rightarrow> int \<Rightarrow> bool" where
  "batch_empty c acct from_id \<longleftrightarrow> (\<forall>i. from_id \<le> i \<and> i < from_id + int PROBE_BATCH \<longrightarrow> \<not> round_exists c acct i)"

lemma find_rev_upt:
  "List.find P (rev [0..<n]) = Some i \<longleftrightarrow> i < n \<and> P i \<and> (\<forall>j. i < j \<and> j < n \<longrightarrow> \<not> P j)"
proof (induction n)
  case (Suc n)
  then show ?case by (auto simp: less_Suc_eq)
qed simp

lemma last_existing_Some:
  "last_existing infos = Some i \<longleftrightarrow>
     i < length infos \<and> infos ! i \<noteq> None \<and> (\<forall>j. i < j \<and> j < length infos \<longrightarrow> infos ! j = None)"
  unfolding last_existing_def find_rev_upt by simp

lemma last_existing_None: "last_existing infos = None \<longleftrightarrow> (\<forall>j < length infos. infos ! j = None)"
  by (auto simp: last_existing_def find_None_iff)

lemma probe_step:
  assumes "front_snapshot c acct"
  shows "batch_empty c acct high \<Longrightarrow> probe c low high w = Some (Inr (low, high), w)"
    and "\<not> batch_empty c acct high \<Longrightarrow> \<exists>i. high \<le> i \<and> i < high + int PROBE_BATCH \<and> round_exists c acct i \<and>
      (\<forall>j. i < j \<and> j < high + int PROBE_BATCH \<longrightarrow> \<not> round_exists c acct j) \<and>
      probe c low high w = probe c i (high + int PROBE_BATCH) w"
proof -
  let ?infos = "map acct (map (\<lambda>i. round_pda (fe_chain c) (high + int i)) [0..<PROBE_BATCH])"
  have at: "?infos ! j \<noteq> None \<longleftrightarrow> round_exists c acct (high + int j)" if "j < PROBE_BATCH" for j
    using that by (simp add: round_exists_def)
  have probe: "probe c low high w = (case last_existing ?infos of None \<Rightarrow> Some (Inr (low, high), w)
      | Some i \<Rightarrow> probe c (high + int i) (high + int PROBE_BATCH) w)"
    using assms by (subst probe.simps) (simp add: front_snapshot_def)
  have shift: "\<exists>j < PROBE_BATCH. i = high + int j" if "high \<le> i" "i < high + int PROBE_BATCH" for i
    using that by (intro exI [of _ "nat (i - high)"]) auto
  have none: "last_existing ?infos = None \<longleftrightarrow> batch_empty c acct high"
    unfolding last_existing_None batch_empty_def using at shift by (auto simp: round_exists_def) force
  show "batch_empty c acct high \<Longrightarrow> probe c low high w = Some (Inr (low, high), w)"
    by (simp only: probe none [symmetric] option.case)
  assume "\<not> batch_empty c acct high"
  then obtain i where i: "last_existing ?infos = Some i" using none by blast
  then have "i < PROBE_BATCH" "round_exists c acct (high + int i)"
    by (auto simp: last_existing_Some round_exists_def)
  moreover have "\<not> round_exists c acct j" if j: "high + int i < j" "j < high + int PROBE_BATCH" for j
  proof -
    obtain k where "k < PROBE_BATCH" "j = high + int k" using shift [of j] j by auto
    then show ?thesis using i j at [of k] by (auto simp: last_existing_Some)
  qed
  moreover have "probe c low high w = probe c (high + int i) (high + int PROBE_BATCH) w"
    unfolding probe i by simp
  ultimately show "\<exists>i. high \<le> i \<and> i < high + int PROBE_BATCH \<and> round_exists c acct i \<and>
      (\<forall>j. i < j \<and> j < high + int PROBE_BATCH \<longrightarrow> \<not> round_exists c acct j) \<and>
      probe c low high w = probe c i (high + int PROBE_BATCH) w"
    by (intro exI [of _ "high + int i"]) simp
qed

lemma probe_result:
  assumes snap: "front_snapshot c acct"
    and "batch_empty c acct (high + int (k * PROBE_BATCH))"
    and "\<And>j. j < k \<Longrightarrow> \<not> batch_empty c acct (high + int (j * PROBE_BATCH))"
    and "low \<le> high" and "\<And>i. low < i \<Longrightarrow> i < high \<Longrightarrow> \<not> round_exists c acct i"
  shows "\<exists>low'. probe c low high w = Some (Inr (low', high + int (k * PROBE_BATCH)), w) \<and> low \<le> low' \<and>
    low' \<le> high + int (k * PROBE_BATCH) \<and> (low' = low \<or> round_exists c acct low') \<and>
    (\<forall>i. low' < i \<and> i < high + int (k * PROBE_BATCH) \<longrightarrow> \<not> round_exists c acct i)"
  using assms(2-)
proof (induction k arbitrary: low high)
  case 0
  then show ?case using probe_step(1) [OF snap] by (intro exI [of _ low]) auto
next
  case (Suc k)
  have "\<not> batch_empty c acct high" using Suc.prems(2) [of 0] by simp
  then obtain l where l: "high \<le> l" "l < high + int PROBE_BATCH" "round_exists c acct l"
      "\<forall>j. l < j \<and> j < high + int PROBE_BATCH \<longrightarrow> \<not> round_exists c acct j"
      "probe c low high w = probe c l (high + int PROBE_BATCH) w"
    using probe_step(2) [OF snap] by blast
  have shift: "high + int (Suc j * PROBE_BATCH) = high + int PROBE_BATCH + int (j * PROBE_BATCH)" for j by simp
  have "\<not> batch_empty c acct (high + int PROBE_BATCH + int (j * PROBE_BATCH))" if "j < k" for j
    using Suc.prems(2) [of "Suc j"] that unfolding shift by simp
  with Suc.IH [of "high + int PROBE_BATCH" l] Suc.prems(1) l
  obtain low' where "probe c l (high + int PROBE_BATCH) w = Some (Inr (low', high + int (Suc k * PROBE_BATCH)), w)"
      "l \<le> low'" "low' \<le> high + int (Suc k * PROBE_BATCH)" "low' = l \<or> round_exists c acct low'"
      "\<forall>i. low' < i \<and> i < high + int (Suc k * PROBE_BATCH) \<longrightarrow> \<not> round_exists c acct i"
    unfolding shift by auto
  then show ?case using l Suc.prems(3) by (intro exI [of _ low']) auto
qed

lemma bisect_result:
  assumes "front_snapshot c acct" and "\<And>i. low < i \<Longrightarrow> i \<le> high \<Longrightarrow> \<not> round_exists c acct i" and "low \<le> high"
  shows "run_state (bisect c low high) w = (Inr low, w)"
  using assms
proof (induction c low high rule: bisect.induct)
  case (1 c low high)
  show ?case
  proof (cases "low < high")
    case True
    let ?mid = "(low + high + 1) div 2"
    have mid: "low < ?mid" "?mid \<le> high" using True by auto
    then have "acct (round_pda (fe_chain c) ?mid) = None" using "1.prems"(2) by (simp add: round_exists_def)
    moreover have "run_state (bisect c low (?mid - 1)) w = (Inr low, w)"
      using "1.IH"(2) [OF True refl, of None] "1.prems" mid by auto
    ultimately show ?thesis using "1.prems"(1) True by (simp add: bisect.simps [of c low] Let_def front_snapshot_def)
  qed (use "1.prems" in \<open>simp add: bisect.simps [of c high]\<close>)
qed

text \<open>C32. The search for the highest round ends as soon as one of its batches of twenty ids, counted from the newest archived
  round, is empty, and returns the highest round before that batch (the archived one, or 1, when there is none).\<close>

theorem max_round_found:
  assumes snap: "front_snapshot c acct" and archived: "run_state (getMaxArchivedRoundId_front c) w = (Inr archivedMax, w)"
    and start: "start = (if 0 < archivedMax then archivedMax else 1)"
    and "batch_empty c acct (start + int (k * PROBE_BATCH))"
    and "\<forall>j. j < k \<longrightarrow> \<not> batch_empty c acct (start + int (j * PROBE_BATCH))"
  shows "\<exists>r. findMaxRoundId c w = Some (Inr r, w) \<and> start \<le> r \<and> (r = start \<or> round_exists c acct r) \<and>
    (\<forall>i. r < i \<and> i < start + int (Suc k * PROBE_BATCH) \<longrightarrow> \<not> round_exists c acct i)"
proof -
  let ?high = "start + int (k * PROBE_BATCH)"
  obtain r where probe: "probe c start start w = Some (Inr (r, ?high), w)" and r: "start \<le> r" "r \<le> ?high"
      "r = start \<or> round_exists c acct r" "\<forall>i. r < i \<and> i < ?high \<longrightarrow> \<not> round_exists c acct i"
    using probe_result [OF snap, of start k start w] assms(4,5) by auto
  have gone: "\<not> round_exists c acct i" if "r < i" "i < start + int (Suc k * PROBE_BATCH)" for i
    using that r(4) assms(4) by (cases "i < ?high") (auto simp: batch_empty_def)
  have "run_state (bisect c r ?high) w = (Inr r, w)"
    by (rule bisect_result [OF snap]) (use gone r(2) in \<open>auto simp: PROBE_BATCH_def\<close>)
  moreover have "max r archivedMax = r" using r(1) start by (auto split: if_splits)
  ultimately have "findMaxRoundId c w = Some (Inr r, w)"
    by (simp add: findMaxRoundId_def archived start [symmetric] probe)
  then show ?thesis using r gone by blast
qed

section \<open>The archive\<close>

lemma js_BigInt_string: "js_BigInt (js_string n) = Inr n"
proof -
  have digits: "js_BigInt (nat_digits m) = Inr (int m) \<and> js_BigInt (CHR ''-'' # nat_digits m) = Inr (- int m)" for m
  proof -
    let ?s = "nat_digits m"
    have all: "list_all (is_digit 10) ?s" and val: "digits_value 10 ?s = m" and ne: "?s \<noteq> []"
      and nsp: "list_all (\<lambda>ch. \<not> js_space ch) ?s"
      using nat_digits_props [of m] by (auto simp: list_all_iff)
    obtain ch r where s: "?s = ch # r" using ne by (cases ?s) auto
    have "is_digit 10 ch" and r: "list_all (is_digit 10) r" using all by (simp_all add: s)
    then have ch: "ch \<noteq> CHR ''-''" "ch \<noteq> CHR ''+''" using digit_not_letter by auto
    have hd: "hd r \<notin> {CHR ''x'', CHR ''X'', CHR ''o'', CHR ''O'', CHR ''b'', CHR ''B''}" if "r \<noteq> []"
      using r digit_not_letter [of "hd r"] that by (cases r) auto
    have trim: "js_trim ?s = ?s" "js_trim (CHR ''-'' # ?s) = CHR ''-'' # ?s"
      using nsp by (auto intro!: trim_digits simp: js_space_def)
    have "js_BigInt (CHR ''-'' # ?s) = Inr (- int m)"
      unfolding js_BigInt_def Let_def trim(2) using ne all val by simp
    moreover have "js_BigInt ?s = Inr (int m)"
    proof -
      have pre: "\<not> (ch = CHR ''0'' \<and> r \<noteq> [] \<and> hd r \<in> {CHR ''x'', CHR ''X''})"
          "\<not> (ch = CHR ''0'' \<and> r \<noteq> [] \<and> hd r \<in> {CHR ''o'', CHR ''O''})"
          "\<not> (ch = CHR ''0'' \<and> r \<noteq> [] \<and> hd r \<in> {CHR ''b'', CHR ''B''})"
        using hd by blast+
      have ok: "ch # r \<noteq> [] \<and> list_all (is_digit 10) (ch # r)" using all by (simp add: s)
      show ?thesis
        unfolding s js_BigInt_def Let_def trim(1) [unfolded s] list.case if_not_P [OF pre(1)] if_not_P [OF pre(2)]
          if_not_P [OF pre(3)] if_not_P [OF ch(1)] if_not_P [OF ch(2)] if_P [OF ok] val [unfolded s] ..
    qed
    ultimately show ?thesis by simp
  qed
  show ?thesis
    using digits [of "nat n"] digits [of "nat (- n)"] by (simp add: js_string_def)
qed

text \<open>A round saved in the archive is read back as it was, with an empty list for deposits that were not known.\<close>

theorem archive_reads_back:
  assumes "fh_claimTx r \<noteq> Some []" and "run_state (fe_get c (fh_roundId r)) w = (Inr (Some (stored_round r t)), w)" and "fe_db c"
  shows "run_state (fetchRoundFromFirebase c (fh_roundId r)) w =
    (Inr (Some (r\<lparr>fh_participantDeposits := Some (case fh_participantDeposits r of None \<Rightarrow> [] | Some ds \<Rightarrow> ds)\<rparr>)), w)"
proof -
  have ne: "js_string n \<noteq> []" for n using nat_digits_props by (auto simp: js_string_def)
  have "read_stored (stored_round r t) =
      Inr (r\<lparr>fh_participantDeposits := Some (case fh_participantDeposits r of None \<Rightarrow> [] | Some ds \<Rightarrow> ds)\<rparr>)"
    using assms(1) by (simp add: read_stored_def stored_round_def or_string_def ne js_BigInt_string)
  then show ?thesis using assms(2,3) by (simp add: fetchRoundFromFirebase_def)
qed

section \<open>The pages\<close>

lemma upto_cons_shift: "0 \<le> n \<Longrightarrow> [0..n] = 0 # map (\<lambda>i. i + 1) [0..n - 1]"
proof -
  assume "0 \<le> n"
  have "map (\<lambda>i. i + 1) [0..m] = [1..m + 1]" for m :: int
    by (rule nth_equalityI) auto
  from this [of "n - 1"] show ?thesis using upto_rec1 [OF \<open>0 \<le> n\<close>] by simp
qed

lemma upto_append: "i \<le> j \<Longrightarrow> j \<le> k \<Longrightarrow> [i..j] @ [j + 1..k] = [i..k]" for i j k :: int
  using upto_split2 [of i j k] by simp

text \<open>The pages list every round once, the newest first.\<close>

lemma pages_partition: "0 < m \<Longrightarrow> concat (map (page_ids m) [0..page_count m - 1]) = rev [1..m]"
proof (induction "nat m" arbitrary: m rule: less_induct)
  case less
  show ?case
  proof (cases "m \<le> 10")
    case True
    then have "page_count m = 1" using less.prems by (simp add: page_count_def PAGE_SIZE_def)
    then show ?thesis using True by (simp add: page_ids_def PAGE_SIZE_def Let_def)
  next
    case False
    have count: "page_count m - 1 = page_count (m - 10)"
      using div_add_self2 [of 10 "m - 1"] by (simp add: page_count_def PAGE_SIZE_def)
    have pos: "0 \<le> page_count (m - 10)" using False by (simp add: page_count_def PAGE_SIZE_def)
    have next_page: "page_ids m (p + 1) = page_ids (m - 10) p" for p by (simp add: page_ids_def PAGE_SIZE_def algebra_simps)
    have "concat (map (page_ids m) [0..page_count m - 1]) =
        page_ids m 0 @ concat (map (page_ids (m - 10)) [0..page_count (m - 10) - 1])"
      unfolding count upto_cons_shift [OF pos] by (simp add: comp_def next_page)
    also have "\<dots> = rev [m - 9..m] @ rev [1..m - 10]"
      using less.hyps [of "m - 10"] False by (simp add: page_ids_def PAGE_SIZE_def Let_def)
    also have "\<dots> = rev [1..m]" using upto_append [of 1 "m - 10" m] False by (simp add: rev_append [symmetric])
    finally show ?thesis .
  qed
qed

section \<open>Witnesses\<close>

text \<open>A chain without rounds and an archive without documents: the search returns 1.\<close>

theorem max_round_found_witness:
  "\<exists>r. findMaxRoundId (demo_front (\<lambda>_. None) (\<lambda>_. None)) () = Some (Inr r, ()) \<and> 1 \<le> r \<and> (\<forall>i. r < i \<and> i < 21 \<longrightarrow> \<not> round_exists (demo_front (\<lambda>_. None) (\<lambda>_. None)) (\<lambda>_. None) i)"
proof -
  let ?c = "demo_front (\<lambda>_. None) (\<lambda>_. None)"
  have "front_snapshot ?c (\<lambda>_. None)" by (simp add: front_snapshot_def demo_front_def demo_services_def)
  moreover have "run_state (getMaxArchivedRoundId_front ?c) () = (Inr 0, ())" by (simp add: getMaxArchivedRoundId_front_def demo_front_def)
  moreover have "batch_empty ?c (\<lambda>_. None) (1 + int (0 * PROBE_BATCH))" by (simp add: batch_empty_def round_exists_def)
  ultimately have "\<exists>r. findMaxRoundId ?c () = Some (Inr r, ()) \<and> 1 \<le> r \<and> (r = 1 \<or> round_exists ?c (\<lambda>_. None) r) \<and>
      (\<forall>i. r < i \<and> i < 1 + int (Suc 0 * PROBE_BATCH) \<longrightarrow> \<not> round_exists ?c (\<lambda>_. None) i)"
    by (intro max_round_found [where archivedMax = 0 and k = 0]) auto
  then show ?thesis by (auto simp: PROBE_BATCH_def)
qed

definition demo_archived :: FrontHistoryRound where
  "demo_archived = \<lparr>fh_roundId = 7, fh_status = 4, fh_totalUsdc = Quot 5000000 1000000, fh_totalTickets = 500, fh_participantsCount = 2,
     fh_winner = ''w'', fh_winningTicket = 123, fh_randomness = ''00'', fh_startTs = 10, fh_endTs = 70, fh_claimTx = Some ''tx'',
     fh_vaultUsdcAta = ''v'', fh_participants = [''w'', ''u''], fh_participantDeposits = None\<rparr>"

theorem archive_reads_back_witness:
  "run_state (fetchRoundFromFirebase (demo_front (\<lambda>_. None) (\<lambda>_. Some (stored_round demo_archived 99))) 7) () =
     (Inr (Some (demo_archived\<lparr>fh_participantDeposits := Some []\<rparr>)), ())"
  using archive_reads_back [of demo_archived "demo_front (\<lambda>_. None) (\<lambda>_. Some (stored_round demo_archived 99))" "()" 99]
  by (simp add: demo_archived_def demo_front_def)

end
