(* ===== verification/Deposit_Panel.thy ===== *)
theory Deposit_Panel
  imports Deposit
begin

text \<open>
  The deposit panel of the front end (\<open>src/components/DepositPanel.tsx\<close>): the amount that is typed, the quote that is shown and
  the batch of legs, with the handlers of its buttons. A handler returns the new state and, where it calls back, the legs it hands to
  \<open>deposit\<close> or \<open>depositMany\<close>. The layout, the texts and the slippage menu are not modelled.

  Amounts are rounded by \<open>fe_fl\<close>, and the amounts of a quote are decimal numerals. The printed form of a number is a parameter.
\<close>

section \<open>Numbers of the form\<close>

text \<open>\<open>parseFloat\<close>: the longest prefix that is a number.\<close>

definition exponent_prefix :: "string \<Rightarrow> int" where
  "exponent_prefix s =
     (case s of
        [] \<Rightarrow> 0
      | e # r \<Rightarrow>
          let (neg, r') = (case r of ch # t \<Rightarrow> if ch = CHR ''-'' then (True, t) else if ch = CHR ''+'' then (False, t) else (False, r)
                           | [] \<Rightarrow> (False, []));
              ds = takeWhile (is_digit 10) r' in
          if e \<in> {CHR ''e'', CHR ''E''} \<and> ds \<noteq> [] then (if neg then - int (digits_value 10 ds) else int (digits_value 10 ds)) else 0)"

definition js_parseFloat :: "(rat \<Rightarrow> rat) \<Rightarrow> string \<Rightarrow> js_number" where
  "js_parseFloat fl str =
     (let s = dropWhile js_space str;
          (neg, r) = (case s of ch # t \<Rightarrow> if ch = CHR ''-'' then (True, t) else if ch = CHR ''+'' then (False, t) else (False, s)
                      | [] \<Rightarrow> (False, [])) in
      if js_starts r ''Infinity'' then (if neg then NegInf else PosInf)
      else let ip = takeWhile (is_digit 10) r; r1 = dropWhile (is_digit 10) r;
               (fp, r2) = (case r1 of ch # t \<Rightarrow> if ch = CHR ''.'' then (takeWhile (is_digit 10) t, dropWhile (is_digit 10) t) else ([], r1)
                           | [] \<Rightarrow> ([], [])) in
        if ip = [] \<and> fp = [] then NaN
        else Finite (fl ((if neg then - 1 else 1) * of_nat (digits_value 10 (ip @ fp)) * power10 (exponent_prefix r2 - int (length fp)))))"

text \<open>\<open>x > r\<close>, \<open>x < r\<close> and \<open>x + y\<close>.\<close>

definition num_gt :: "js_number \<Rightarrow> rat \<Rightarrow> bool" where
  "num_gt x r = (case x of PosInf \<Rightarrow> True | Finite a \<Rightarrow> r < a | _ \<Rightarrow> False)"

definition num_lt :: "js_number \<Rightarrow> rat \<Rightarrow> bool" where
  "num_lt x r = (case x of NegInf \<Rightarrow> True | Finite a \<Rightarrow> a < r | _ \<Rightarrow> False)"

definition num_add :: "(rat \<Rightarrow> rat) \<Rightarrow> js_number \<Rightarrow> js_number \<Rightarrow> js_number" where
  "num_add fl x y =
     (case (x, y) of
        (Finite a, Finite b) \<Rightarrow> Finite (fl (a + b))
      | (PosInf, Finite _) \<Rightarrow> PosInf | (Finite _, PosInf) \<Rightarrow> PosInf | (PosInf, PosInf) \<Rightarrow> PosInf
      | (NegInf, Finite _) \<Rightarrow> NegInf | (Finite _, NegInf) \<Rightarrow> NegInf | (NegInf, NegInf) \<Rightarrow> NegInf
      | _ \<Rightarrow> NaN)"

definition normalizeDecimalInput :: "string \<Rightarrow> string" where
  "normalizeDecimalInput v = map (\<lambda>ch. if ch = CHR '','' then CHR ''.'' else ch) v"

definition floorToDecimals :: "(rat \<Rightarrow> rat) \<Rightarrow> rat \<Rightarrow> nat \<Rightarrow> rat" where
  "floorToDecimals fl v decimals = fl (of_int \<lfloor>fl (v * 10 ^ decimals)\<rfloor> / 10 ^ decimals)"

text \<open>\<open>v.toFixed(decimals)\<close> of a number that is not negative, and \<open>replace(/\.?0+$/, '')\<close>.\<close>

definition toFixed :: "rat \<Rightarrow> nat \<Rightarrow> string" where
  "toFixed v decimals =
     (let n = nat \<lfloor>v * 10 ^ decimals + 1 / 2\<rfloor>;
          ds = nat_digits n; padded = replicate (decimals + 1 - length ds) CHR ''0'' @ ds in
      if decimals = 0 then padded
      else take (length padded - decimals) padded @ ''.'' @ drop (length padded - decimals) padded)"

definition strip_zeros :: "string \<Rightarrow> string" where
  "strip_zeros s =
     (let r = dropWhile (\<lambda>ch. ch = CHR ''0'') (rev s) in
      if length r = length s then s
      else rev (case r of ch # t \<Rightarrow> if ch = CHR ''.'' then t else r | [] \<Rightarrow> []))"

definition formatQuickFillAmount :: "(rat \<Rightarrow> rat) \<Rightarrow> rat \<Rightarrow> nat \<Rightarrow> string" where
  "formatQuickFillAmount fl v decimals = strip_zeros (toFixed (floorToDecimals fl v decimals) decimals)"

section \<open>State\<close>

datatype input_mode = TokenMode | UsdcMode

record WalletToken =
  wt_mint :: string
  wt_symbol :: string
  wt_balance :: rat
  wt_decimals :: int

record QuotePreview =
  qp_outAmount :: rat
  qp_minReceived :: rat
  qp_tickets :: int
  qp_inAmount :: rat
  qp_quote :: FrontQuote

record BatchLeg =
  bl_amount :: js_number
  bl_mint :: string
  bl_quote :: "FrontQuote option"
  bl_symbol :: string
  bl_estimatedUsdc :: rat

record panel =
  pn_amount :: string
  pn_selectedMint :: string
  pn_quotePreview :: "QuotePreview option"
  pn_inputMode :: input_mode
  pn_slippageBps :: int
  pn_batchLegs :: "BatchLeg list"

record DepositPanelProps =
  pp_usdcBalance :: rat
  pp_tokens :: "WalletToken list"
  pp_batchEnabled :: bool

definition panel_start :: "('w, 'pk, 'alt) front_env \<Rightarrow> panel" where
  "panel_start c = \<lparr>pn_amount = [], pn_selectedMint = usdc_str c, pn_quotePreview = None, pn_inputMode = TokenMode,
     pn_slippageBps = 100, pn_batchLegs = []\<rparr>"

definition selectedToken :: "DepositPanelProps \<Rightarrow> panel \<Rightarrow> WalletToken option" where
  "selectedToken pp p = find (\<lambda>t. wt_mint t = pn_selectedMint p) (pp_tokens pp)"

abbreviation isUsdc :: "('w, 'pk, 'alt) front_env \<Rightarrow> panel \<Rightarrow> bool" where
  "isUsdc c p \<equiv> pn_selectedMint p = usdc_str c"

definition panel_balance :: "('w, 'pk, 'alt) front_env \<Rightarrow> DepositPanelProps \<Rightarrow> panel \<Rightarrow> rat" where
  "panel_balance c pp p = (case selectedToken pp p of Some t \<Rightarrow> wt_balance t | None \<Rightarrow> if isUsdc c p then pp_usdcBalance pp else 0)"

definition panel_symbol :: "('w, 'pk, 'alt) front_env \<Rightarrow> DepositPanelProps \<Rightarrow> panel \<Rightarrow> string" where
  "panel_symbol c pp p = (case selectedToken pp p of None \<Rightarrow> ''USDC'' | Some t \<Rightarrow> if wt_mint t = usdc_str c then ''USDC'' else wt_symbol t)"

definition numAmount :: "('w, 'pk, 'alt) front_env \<Rightarrow> panel \<Rightarrow> js_number" where
  "numAmount c p = (case js_parseFloat (fe_fl c) (normalizeDecimalInput (pn_amount p)) of NaN \<Rightarrow> Finite 0 | x \<Rightarrow> x)"

definition MIN_DEPOSIT_USDC :: rat where "MIN_DEPOSIT_USDC = 1"

definition belowMinimum :: "('w, 'pk, 'alt) front_env \<Rightarrow> panel \<Rightarrow> bool" where
  "belowMinimum c p \<longleftrightarrow> num_gt (numAmount c p) 0 \<and>
     (if isUsdc c p then num_lt (numAmount c p) MIN_DEPOSIT_USDC
      else case pn_quotePreview p of Some q \<Rightarrow> qp_outAmount q < MIN_DEPOSIT_USDC | None \<Rightarrow> False)"

section \<open>Quotes\<close>

definition number_of :: "('w, 'pk, 'alt) front_env \<Rightarrow> string \<Rightarrow> rat" where
  "number_of c s = (case js_Number (\<lambda>r. Finite (fe_fl c r)) s of Finite x \<Rightarrow> x | _ \<Rightarrow> 0)"

definition preview_of :: "('w, 'pk, 'alt) front_env \<Rightarrow> int \<Rightarrow> FrontQuote \<Rightarrow> QuotePreview" where
  "preview_of c decimals quote =
     (let outUsdc = fe_fl c (number_of c (fq_outAmount quote) / 1000000) in
      \<lparr>qp_outAmount = outUsdc, qp_minReceived = fe_fl c (number_of c (fq_otherAmountThreshold quote) / 1000000),
       qp_tickets = \<lfloor>fe_fl c (fe_fl c (outUsdc * 1000000) / of_int TICKET_UNIT)\<rfloor>,
       qp_inAmount = fe_fl c (number_of c (fq_inAmount quote) / 10 ^ nat decimals), qp_quote = quote\<rparr>)"

text \<open>The preview that \<open>fetchQuote\<close> sets.\<close>

definition fetchQuote :: "('w, 'pk, 'alt) front_env \<Rightarrow> int \<Rightarrow> js_number \<Rightarrow> string \<Rightarrow> input_mode \<Rightarrow> int \<Rightarrow> ('w, QuotePreview option) state" where
  "fetchQuote c slippageBps amt mint mode decimals =
     (if \<not> num_gt amt 0 \<or> mint = usdc_str c then State_Monad.return None
      else let rawAmount = (if amt = PosInf then ''Infinity'' else js_string (raw_amount c amt (if mode = TokenMode then decimals else 6))) in
        do { r \<leftarrow> getJupiterQuote c mint (usdc_str c) rawAmount slippageBps (if mode = TokenMode then ''ExactIn'' else ''ExactOut'');
             State_Monad.return (case r of Inl _ \<Rightarrow> None | Inr quote \<Rightarrow> Some (preview_of c decimals quote)) })"

section \<open>Handlers\<close>

text \<open>The balance check that both buttons share.\<close>

definition over_balance :: "('w, 'pk, 'alt) front_env \<Rightarrow> DepositPanelProps \<Rightarrow> panel \<Rightarrow> bool" where
  "over_balance c pp p \<longleftrightarrow>
     (case pn_inputMode p of
        TokenMode \<Rightarrow> num_gt (numAmount c p) (panel_balance c pp p)
      | UsdcMode \<Rightarrow> (case pn_quotePreview p of Some q \<Rightarrow> panel_balance c pp p < qp_inAmount q | None \<Rightarrow> False))"

definition handleDeposit :: "('w, 'pk, 'alt) front_env \<Rightarrow> DepositPanelProps \<Rightarrow> panel \<Rightarrow> panel \<times> DepositLegInput option" where
  "handleDeposit c pp p =
     (if \<not> num_gt (numAmount c p) 0 \<or> belowMinimum c p \<or> over_balance c pp p then (p, None)
      else (p\<lparr>pn_amount := [], pn_quotePreview := None\<rparr>,
        Some \<lparr>dl_amount = numAmount c p, dl_mint = Some (pn_selectedMint p), dl_quote = map_option qp_quote (pn_quotePreview p)\<rparr>))"

definition handleSelectToken :: "string \<Rightarrow> panel \<Rightarrow> panel" where
  "handleSelectToken mint p = p\<lparr>pn_selectedMint := mint, pn_amount := [], pn_quotePreview := None, pn_inputMode := TokenMode\<rparr>"

text \<open>A leg of a mint that is in the batch already is merged: the amounts add up, and the quote is the latest one.\<close>

fun upsertBatchLeg :: "(rat \<Rightarrow> rat) \<Rightarrow> BatchLeg \<Rightarrow> BatchLeg list \<Rightarrow> BatchLeg list" where
  "upsertBatchLeg fl nextLeg [] = [nextLeg]"
| "upsertBatchLeg fl nextLeg (current # rest) =
     (if bl_mint current = bl_mint nextLeg then
        current\<lparr>bl_amount := num_add fl (bl_amount current) (bl_amount nextLeg),
          bl_estimatedUsdc := fl (bl_estimatedUsdc current + bl_estimatedUsdc nextLeg),
          bl_quote := (case bl_quote nextLeg of Some q \<Rightarrow> Some q | None \<Rightarrow> bl_quote current)\<rparr> # rest
      else current # upsertBatchLeg fl nextLeg rest)"

text \<open>The leg that the form stands for, when it may be added.\<close>

definition batch_leg :: "('w, 'pk, 'alt) front_env \<Rightarrow> DepositPanelProps \<Rightarrow> panel \<Rightarrow> BatchLeg option" where
  "batch_leg c pp p =
     (if \<not> pp_batchEnabled pp \<or> \<not> num_gt (numAmount c p) 0 \<or> over_balance c pp p \<or> (\<not> isUsdc c p \<and> pn_quotePreview p = None) \<or>
         (pn_selectedMint p \<notin> bl_mint ` set (pn_batchLegs p) \<and> MAX_MULTI_DEPOSIT_LEGS \<le> length (pn_batchLegs p))
      then None
      else Some \<lparr>bl_amount = (case pn_quotePreview p of
            Some q \<Rightarrow> if \<not> isUsdc c p \<and> pn_inputMode p = UsdcMode then Finite (qp_inAmount q) else numAmount c p
          | None \<Rightarrow> numAmount c p),
        bl_mint = pn_selectedMint p, bl_quote = map_option qp_quote (pn_quotePreview p), bl_symbol = panel_symbol c pp p,
        bl_estimatedUsdc = (if isUsdc c p then (case numAmount c p of Finite a \<Rightarrow> a | _ \<Rightarrow> 0)
          else case pn_quotePreview p of Some q \<Rightarrow> qp_outAmount q | None \<Rightarrow> 0)\<rparr>)"

definition handleAddToBatch :: "('w, 'pk, 'alt) front_env \<Rightarrow> DepositPanelProps \<Rightarrow> panel \<Rightarrow> panel" where
  "handleAddToBatch c pp p =
     (case batch_leg c pp p of
        None \<Rightarrow> p
      | Some leg \<Rightarrow> p\<lparr>pn_batchLegs := upsertBatchLeg (fe_fl c) leg (pn_batchLegs p), pn_amount := [], pn_quotePreview := None,
          pn_inputMode := TokenMode\<rparr>)"

definition removeBatchLeg :: "string \<Rightarrow> panel \<Rightarrow> panel" where
  "removeBatchLeg mint p = p\<lparr>pn_batchLegs := [l \<leftarrow> pn_batchLegs p. bl_mint l \<noteq> mint]\<rparr>"

definition editBatchLeg :: "(js_number \<Rightarrow> string) \<Rightarrow> string \<Rightarrow> panel \<Rightarrow> panel" where
  "editBatchLeg show mint p =
     (case find (\<lambda>l. bl_mint l = mint) (pn_batchLegs p) of
        None \<Rightarrow> p
      | Some leg \<Rightarrow> removeBatchLeg mint (p\<lparr>pn_selectedMint := bl_mint leg, pn_amount := show (bl_amount leg), pn_inputMode := TokenMode,
          pn_quotePreview := None\<rparr>))"

definition leg_input :: "BatchLeg \<Rightarrow> DepositLegInput" where
  "leg_input leg = \<lparr>dl_amount = bl_amount leg, dl_mint = Some (bl_mint leg), dl_quote = bl_quote leg\<rparr>"

definition handleDepositBatch :: "DepositPanelProps \<Rightarrow> panel \<Rightarrow> panel \<times> DepositLegInput list option" where
  "handleDepositBatch pp p =
     (if \<not> pp_batchEnabled pp \<or> pn_batchLegs p = [] then (p, None)
      else (p\<lparr>pn_batchLegs := [], pn_amount := [], pn_quotePreview := None\<rparr>, Some (map leg_input (pn_batchLegs p))))"

definition toggleInputMode :: "panel \<Rightarrow> panel" where
  "toggleInputMode p = p\<lparr>pn_inputMode := (if pn_inputMode p = TokenMode then UsdcMode else TokenMode), pn_amount := [], pn_quotePreview := None\<rparr>"

end
