(* ===== verification/Panel_Props.thy ===== *)
theory Panel_Props
  imports Deposit_Panel Deposit_Props
begin

text \<open>
  What the deposit panel hands to \<open>depositMany\<close>: every batch it can build passes the checks there, but a leg that was added twice is
  swapped for its latest quote only, and a quote for an exact output sets a minimum that the chain does not accept.
\<close>

section \<open>Reachable panels\<close>

definition valid_mint :: "string \<Rightarrow> bool" where
  "valid_mint m \<longleftrightarrow> m \<noteq> [] \<and> js_trim m = m"

text \<open>What is assumed of a quote that arrives: its input is positive. It may be a quote for an earlier state of the form.\<close>

definition valid_preview :: "('w, 'pk, 'alt) front_env \<Rightarrow> QuotePreview \<Rightarrow> bool" where
  "valid_preview c q \<longleftrightarrow> 0 < qp_inAmount q \<and> fe_fl c (qp_inAmount q) = qp_inAmount q"

inductive panel_reach :: "('w, 'pk, 'alt) front_env \<Rightarrow> panel \<Rightarrow> bool" for c where
  opened: "panel_reach c (panel_start c)"
| typed: "panel_reach c p \<Longrightarrow> panel_reach c (p\<lparr>pn_amount := text\<rparr>)"
| quoted: "panel_reach c p \<Longrightarrow> (\<And>q. preview = Some q \<Longrightarrow> valid_preview c q) \<Longrightarrow> panel_reach c (p\<lparr>pn_quotePreview := preview\<rparr>)"
| slipped: "panel_reach c p \<Longrightarrow> panel_reach c (p\<lparr>pn_slippageBps := bps\<rparr>)"
| selected: "panel_reach c p \<Longrightarrow> valid_mint mint \<Longrightarrow> panel_reach c (handleSelectToken mint p)"
| toggled: "panel_reach c p \<Longrightarrow> \<not> isUsdc c p \<Longrightarrow> panel_reach c (toggleInputMode p)"
| added: "panel_reach c p \<Longrightarrow> panel_reach c (handleAddToBatch c pp p)"
| removed: "panel_reach c p \<Longrightarrow> panel_reach c (removeBatchLeg mint p)"
| edited: "panel_reach c p \<Longrightarrow> panel_reach c (editBatchLeg show mint p)"
| deposited: "panel_reach c p \<Longrightarrow> panel_reach c (fst (handleDeposit c pp p))"
| batched: "panel_reach c p \<Longrightarrow> panel_reach c (fst (handleDepositBatch pp p))"

text \<open>A positive number that the rounding leaves alone.\<close>

definition amount_ok :: "('w, 'pk, 'alt) front_env \<Rightarrow> js_number \<Rightarrow> bool" where
  "amount_ok c x \<longleftrightarrow> (\<exists>a. x = Finite a \<and> 0 < a \<and> fe_fl c a = a)"

definition legs_ok :: "('w, 'pk, 'alt) front_env \<Rightarrow> BatchLeg list \<Rightarrow> bool" where
  "legs_ok c ls \<longleftrightarrow> distinct (map bl_mint ls) \<and> length ls \<le> MAX_MULTI_DEPOSIT_LEGS \<and>
     (\<forall>l \<in> set ls. amount_ok c (bl_amount l) \<and> valid_mint (bl_mint l))"

definition panel_ok :: "('w, 'pk, 'alt) front_env \<Rightarrow> panel \<Rightarrow> bool" where
  "panel_ok c p \<longleftrightarrow> legs_ok c (pn_batchLegs p) \<and> valid_mint (pn_selectedMint p) \<and> (isUsdc c p \<longrightarrow> pn_inputMode p = TokenMode) \<and>
     (\<forall>q. pn_quotePreview p = Some q \<longrightarrow> valid_preview c q)"

text \<open>Rounding: monotone, and idle on what is rounded already.\<close>

definition rounding :: "(rat \<Rightarrow> rat) \<Rightarrow> bool" where
  "rounding fl \<longleftrightarrow> mono fl \<and> (\<forall>x. fl (fl x) = fl x)"

lemma add_amounts:
  assumes "rounding (fe_fl c)" "amount_ok c x" "amount_ok c y"
  shows "amount_ok c (num_add (fe_fl c) x y)"
proof -
  obtain a b where ab: "x = Finite a" "0 < a" "fe_fl c a = a" "y = Finite b" "0 < b" using assms(2,3) by (auto simp: amount_ok_def)
  have "fe_fl c a \<le> fe_fl c (a + b)" using assms(1) ab(5) by (auto simp: rounding_def intro: monoD)
  then show ?thesis using ab assms(1) by (auto simp: amount_ok_def num_add_def rounding_def)
qed

lemma upsert_mints: "set (map bl_mint (upsertBatchLeg fl l ls)) = insert (bl_mint l) (set (map bl_mint ls))"
  by (induction ls) auto

lemma upsert_distinct: "distinct (map bl_mint ls) \<Longrightarrow> distinct (map bl_mint (upsertBatchLeg fl l ls))"
  using upsert_mints by (induction ls) (auto simp flip: set_map)

lemma upsert_length: "length (upsertBatchLeg fl l ls) = (if bl_mint l \<in> set (map bl_mint ls) then length ls else Suc (length ls))"
  by (induction ls) auto

lemma upsert_ok:
  assumes "rounding (fe_fl c)" "legs_ok c ls" "amount_ok c (bl_amount l)" "valid_mint (bl_mint l)"
    and "bl_mint l \<in> bl_mint ` set ls \<or> length ls < MAX_MULTI_DEPOSIT_LEGS"
  shows "legs_ok c (upsertBatchLeg (fe_fl c) l ls)"
proof -
  have "\<forall>m \<in> set (upsertBatchLeg (fe_fl c) l ls). amount_ok c (bl_amount m) \<and> valid_mint (bl_mint m)"
    if "\<forall>m \<in> set ls. amount_ok c (bl_amount m) \<and> valid_mint (bl_mint m)"
    using that assms(1,3,4) by (induction ls) (auto simp: add_amounts)
  then show ?thesis using assms(2,5) upsert_distinct [of ls] upsert_length [of "fe_fl c" l ls] by (auto simp: legs_ok_def)
qed

lemma parse_rounded:
  assumes "rounding (fe_fl c)" "num_gt (numAmount c p) 0" "\<not> num_gt (numAmount c p) r"
  shows "amount_ok c (numAmount c p)"
proof -
  have "fl x = x" if "js_parseFloat fl s = Finite x" "rounding fl" for fl :: "rat \<Rightarrow> rat" and s x
    using that by (auto simp: js_parseFloat_def rounding_def Let_def split: if_splits prod.splits)
  then show ?thesis using assms
    by (cases "js_parseFloat (fe_fl c) (normalizeDecimalInput (pn_amount p))") (auto simp: amount_ok_def numAmount_def num_gt_def)
qed

lemma batch_leg_ok:
  assumes "rounding (fe_fl c)" "panel_ok c p" "batch_leg c pp p = Some l"
  shows "amount_ok c (bl_amount l)" "bl_mint l = pn_selectedMint p"
    "bl_mint l \<in> bl_mint ` set (pn_batchLegs p) \<or> length (pn_batchLegs p) < MAX_MULTI_DEPOSIT_LEGS"
proof -
  have guard: "num_gt (numAmount c p) 0" "\<not> over_balance c pp p" using assms(3) by (auto simp: batch_leg_def split: if_splits)
  show "amount_ok c (bl_amount l)"
  proof (cases "pn_inputMode p")
    case TokenMode
    then have "bl_amount l = numAmount c p" using assms(3) by (auto simp: batch_leg_def split: if_splits option.splits)
    moreover have "\<not> num_gt (numAmount c p) (panel_balance c pp p)" using guard TokenMode by (simp add: over_balance_def)
    ultimately show ?thesis using parse_rounded [OF assms(1) guard(1)] by simp
  next
    case UsdcMode
    then have "\<not> isUsdc c p" using assms(2) by (auto simp: panel_ok_def)
    then obtain q where "pn_quotePreview p = Some q" "bl_amount l = Finite (qp_inAmount q)"
      using UsdcMode assms(3) by (auto simp: batch_leg_def split: if_splits option.splits)
    then show ?thesis using assms(2) by (auto simp: amount_ok_def panel_ok_def valid_preview_def)
  qed
  show "bl_mint l = pn_selectedMint p"
    "bl_mint l \<in> bl_mint ` set (pn_batchLegs p) \<or> length (pn_batchLegs p) < MAX_MULTI_DEPOSIT_LEGS"
    using assms(3) by (auto simp: batch_leg_def split: if_splits)
qed

lemma legs_ok_filter: "legs_ok c ls \<Longrightarrow> legs_ok c (filter P ls)"
  by (auto simp: legs_ok_def distinct_map_filter intro: order_trans [OF length_filter_le])

lemma panel_reach_ok:
  assumes "panel_reach c p" "rounding (fe_fl c)" "valid_mint (usdc_str c)"
  shows "panel_ok c p"
  using assms(1)
proof (induction rule: panel_reach.induct)
  case (added p pp)
  show ?case
  proof (cases "batch_leg c pp p")
    case (Some l)
    note ok = batch_leg_ok [OF assms(2) added.IH Some]
    have "legs_ok c (upsertBatchLeg (fe_fl c) l (pn_batchLegs p))"
      by (rule upsert_ok) (use added.IH assms(2) ok in \<open>auto simp: panel_ok_def\<close>)
    then show ?thesis using added.IH Some by (simp add: panel_ok_def handleAddToBatch_def)
  qed (use added.IH in \<open>simp add: handleAddToBatch_def\<close>)
next
  case (edited p sh mint)
  show ?case
  proof (cases "find (\<lambda>l. bl_mint l = mint) (pn_batchLegs p)")
    case (Some leg)
    then have "leg \<in> set (pn_batchLegs p)" by (auto simp: find_Some_iff)
    then show ?thesis using edited.IH Some by (auto simp: panel_ok_def editBatchLeg_def removeBatchLeg_def legs_ok_filter legs_ok_def [of c "pn_batchLegs p"])
  qed (use edited.IH in \<open>simp add: editBatchLeg_def\<close>)
qed (use assms(3) in \<open>auto simp: panel_ok_def panel_start_def legs_ok_def handleSelectToken_def toggleInputMode_def removeBatchLeg_def
    handleDeposit_def handleDepositBatch_def legs_ok_filter distinct_map_filter intro: order_trans [OF length_filter_le]\<close>)

section \<open>Batches\<close>

lemma check_ok:
  assumes "\<forall>l \<in> set ls. amount_ok c (lg_amount l)" "distinct (map lg_mint ls)" "set (map lg_mint ls) \<inter> set seen = {}"
  shows "check_legs seen ls = Inr ()"
  using assms by (induction ls arbitrary: seen) (auto simp: amount_ok_def)

lemma count_distinct: "distinct (map f xs) \<Longrightarrow> length [x \<leftarrow> xs. f x = a] \<le> 1"
  by (induction xs) (auto simp: image_iff filter_empty_conv)

lemma normalize_input: "valid_mint (bl_mint l) \<Longrightarrow> lg_mint (normalize_leg c (leg_input l)) = bl_mint l"
  by (simp add: normalize_leg_def leg_input_def or_string_def valid_mint_def)

text \<open>C25. Every batch that the panel can build passes the checks of a deposit. Whatever is typed, selected, quoted, added, edited and
  removed, in any order and with quotes that arrive late: the batch has at most three legs, no token twice and only positive amounts,
  and \<open>depositMany\<close> takes its legs as they are.\<close>

theorem panel_batch_accepted:
  assumes "panel_reach c p" "rounding (fe_fl c)" "valid_mint (usdc_str c)" "snd (handleDepositBatch pp p) = Some legs"
  shows "validate_legs c legs = Inr (map (normalize_leg c) legs)"
proof -
  have ok: "legs_ok c (pn_batchLegs p)" using panel_reach_ok [OF assms(1-3)] by (simp add: panel_ok_def)
  have legs: "legs = map leg_input (pn_batchLegs p)" "legs \<noteq> []" using assms(4) by (auto simp: handleDepositBatch_def split: if_splits)
  let ?ls = "map (normalize_leg c) legs"
  have mints: "map lg_mint ?ls = map bl_mint (pn_batchLegs p)" using ok by (auto simp: legs normalize_input legs_ok_def)
  have "check_legs [] ?ls = Inr ()"
  proof (rule check_ok)
    show "\<forall>l \<in> set ?ls. amount_ok c (lg_amount l)" using ok by (auto simp: legs_ok_def legs normalize_leg_def leg_input_def)
    show "distinct (map lg_mint ?ls)" unfolding mints using ok by (simp add: legs_ok_def)
  qed simp
  moreover have "length [leg \<leftarrow> ?ls. lg_mint leg = WSOL_MINT_STR] \<le> 1"
    by (rule count_distinct) (unfold mints, use ok in \<open>simp add: legs_ok_def\<close>)
  ultimately show ?thesis using legs ok by (simp add: validate_legs_def Let_def legs_ok_def and_then_def not_less)
qed

definition demo_panel_props :: DepositPanelProps where
  "demo_panel_props = \<lparr>pp_usdcBalance = 10, pp_tokens = [\<lparr>wt_mint = ''m'', wt_symbol = ''M'', wt_balance = 10, wt_decimals = 9\<rparr>], pp_batchEnabled = True\<rparr>"

lemma demo_usdc: "usdc_str demo_wallet = ''2000003''"
proof -
  have "js_string 2000003 = ''2000003''" by (simp add: js_string_def nat_digits.simps) code_simp
  then show ?thesis by (simp add: usdc_str_def demo_wallet_def demo_front_def demo_env_def demo_sdk_def)
qed

lemma demo_fl: "fe_fl demo_wallet = id" by (simp add: demo_wallet_def demo_front_def)

lemma demo_number: "js_parseFloat id ''5'' = Finite 5" "js_parseFloat id ''2'' = Finite 2" by code_simp+

theorem panel_batch_accepted_witness:
  "\<exists>legs. snd (handleDepositBatch demo_panel_props (handleAddToBatch demo_wallet demo_panel_props ((panel_start demo_wallet)\<lparr>pn_amount := ''5''\<rparr>))) = Some legs \<and>
     length legs = 1 \<and> validate_legs demo_wallet legs = Inr (map (normalize_leg demo_wallet) legs)"
proof -
  let ?p = "(panel_start demo_wallet)\<lparr>pn_amount := ''5''\<rparr>"
  have reach: "panel_reach demo_wallet (handleAddToBatch demo_wallet demo_panel_props ?p)" by (intro panel_reach.added panel_reach.typed panel_reach.opened)
  have "rounding (fe_fl demo_wallet)" by (simp add: rounding_def demo_fl mono_def)
  moreover have "valid_mint (usdc_str demo_wallet)" by (simp add: valid_mint_def demo_usdc js_trim_def js_space_def)
  moreover have "\<exists>legs. snd (handleDepositBatch demo_panel_props (handleAddToBatch demo_wallet demo_panel_props ?p)) = Some legs \<and> length legs = 1"
    by (simp add: handleDepositBatch_def handleAddToBatch_def batch_leg_def over_balance_def panel_balance_def selectedToken_def
        panel_start_def demo_panel_props_def numAmount_def normalizeDecimalInput_def demo_fl demo_number num_gt_def demo_usdc MAX_MULTI_DEPOSIT_LEGS_def)
  ultimately show ?thesis using panel_batch_accepted [OF reach, of demo_panel_props] by blast
qed

text \<open>A swap with a prefetched quote does not depend on the amount of its leg.\<close>

lemma quoted_swap: "lg_quote leg = Some q \<Longrightarrow> prepare_swap c k (leg\<lparr>lg_amount := a\<rparr>) = prepare_swap c k leg"
  by (simp add: prepare_swap_def leg_quote_def cong: if_cong)

lemma upsert_present:
  assumes "l \<in> set ls" "bl_mint l = bl_mint n" "distinct (map bl_mint ls)"
  shows "l\<lparr>bl_amount := num_add fl (bl_amount l) (bl_amount n), bl_estimatedUsdc := fl (bl_estimatedUsdc l + bl_estimatedUsdc n),
    bl_quote := (case bl_quote n of Some q \<Rightarrow> Some q | None \<Rightarrow> bl_quote l)\<rparr> \<in> set (upsertBatchLeg fl n ls)"
  using assms by (induction ls) (auto simp: image_iff)

text \<open>C29. A token that is added to the batch twice is deposited once. The leg shows the sum of both amounts and of both estimates, but it
  carries the quote of the second only, and the swap that \<open>depositMany\<close> prepares for it is the one for the second amount alone.\<close>

theorem merged_leg_swaps_last:
  assumes "batch_leg c pp p = Some n" "l \<in> set (pn_batchLegs p)" "bl_mint l = pn_selectedMint p" "\<not> isUsdc c p"
    and "distinct (map bl_mint (pn_batchLegs p))"
  shows "\<exists>l' \<in> set (pn_batchLegs (handleAddToBatch c pp p)). bl_mint l' = pn_selectedMint p \<and>
    bl_amount l' = num_add (fe_fl c) (bl_amount l) (bl_amount n) \<and> bl_estimatedUsdc l' = fe_fl c (bl_estimatedUsdc l + bl_estimatedUsdc n) \<and>
    prepare_swap c k (normalize_leg c (leg_input l')) = prepare_swap c k (normalize_leg c (leg_input n))"
proof -
  obtain q where q: "pn_quotePreview p = Some q" "bl_quote n = Some (qp_quote q)" and n: "bl_mint n = pn_selectedMint p"
    using assms(1,4) by (auto simp: batch_leg_def split: if_splits)
  let ?l = "l\<lparr>bl_amount := num_add (fe_fl c) (bl_amount l) (bl_amount n), bl_estimatedUsdc := fe_fl c (bl_estimatedUsdc l + bl_estimatedUsdc n),
    bl_quote := Some (qp_quote q)\<rparr>"
  have "?l \<in> set (pn_batchLegs (handleAddToBatch c pp p))"
    using upsert_present [OF assms(2), of n "fe_fl c"] assms(1,3,5) q n by (simp add: handleAddToBatch_def)
  moreover have "normalize_leg c (leg_input ?l) = (normalize_leg c (leg_input n))\<lparr>lg_amount := bl_amount ?l\<rparr>"
    using q n assms(3) by (simp add: normalize_leg_def leg_input_def)
  moreover have "lg_quote (normalize_leg c (leg_input n)) = Some (qp_quote q)" using q by (simp add: normalize_leg_def leg_input_def)
  ultimately show ?thesis using quoted_swap assms(3) by (intro bexI [of _ ?l]) simp_all
qed

definition demo_quote :: FrontQuote where
  "demo_quote = \<lparr>fq_inputMint = ''m'', fq_outputMint = ''2000003'', fq_inAmount = ''690'', fq_outAmount = ''100'', fq_otherAmountThreshold = ''700''\<rparr>"

definition demo_batch_panel :: panel where
  "demo_batch_panel = \<lparr>pn_amount = ''2'', pn_selectedMint = ''m'',
     pn_quotePreview = Some \<lparr>qp_outAmount = 4, qp_minReceived = 4, qp_tickets = 400, qp_inAmount = 2, qp_quote = demo_quote\<rparr>,
     pn_inputMode = TokenMode, pn_slippageBps = 100,
     pn_batchLegs = [\<lparr>bl_amount = Finite 3, bl_mint = ''m'', bl_quote = None, bl_symbol = ''M'', bl_estimatedUsdc = 6\<rparr>]\<rparr>"

definition demo_second_leg :: BatchLeg where
  "demo_second_leg = \<lparr>bl_amount = Finite 2, bl_mint = ''m'', bl_quote = Some demo_quote, bl_symbol = ''M'', bl_estimatedUsdc = 4\<rparr>"

theorem merged_leg_swaps_last_witness:
  "\<exists>l \<in> set (pn_batchLegs (handleAddToBatch demo_wallet demo_panel_props demo_batch_panel)). bl_amount l = Finite 5 \<and> bl_estimatedUsdc l = 10 \<and>
     prepare_swap demo_wallet 1 (normalize_leg demo_wallet (leg_input l)) = prepare_swap demo_wallet 1 (normalize_leg demo_wallet (leg_input demo_second_leg))"
proof -
  have "batch_leg demo_wallet demo_panel_props demo_batch_panel = Some demo_second_leg"
    by (simp add: batch_leg_def over_balance_def panel_balance_def panel_symbol_def selectedToken_def demo_second_leg_def
        demo_batch_panel_def demo_panel_props_def numAmount_def normalizeDecimalInput_def demo_fl demo_number num_gt_def demo_usdc)
  from merged_leg_swaps_last [OF this, of "hd (pn_batchLegs demo_batch_panel)" 1] show ?thesis
    by (simp add: demo_batch_panel_def demo_second_leg_def demo_usdc num_add_def demo_fl) blast
qed

section \<open>Exact output\<close>

lemma outcome_answer:
  "fetch_outcome c timeoutMs f = Inr x \<Longrightarrow> \<exists>r. f = Response r \<and> rs_ok r \<and> rs_json r = Inr x"
  by (auto simp: fetch_outcome_def Let_def split: fetched.splits if_splits sum.splits prod.splits)

lemma with_message_answer:
  "run_state (with_message m) w = (Inr x, w') \<Longrightarrow> run_state m w = (Inr x, w')"
  by (cases "run_state m w"; cases "fst (run_state m w)") (auto simp: with_message_def)

lemma attempts_answer:
  assumes "run_state (jupiter_attempts c request timeoutMs left attempt) w = (Inr x, w')"
  shows "\<exists>v v' r. run_state request v = (Response r, v') \<and> rs_ok r \<and> rs_json r = Inr x"
  using assms
proof (induction left arbitrary: attempt w)
  case (Suc left)
  obtain f u where f: "run_state request w = (f, u)" by fastforce
  show ?case
  proof (cases "fetch_outcome c timeoutMs f")
    case (Inr y)
    then have "y = x" using Suc.prems f by (simp add: jupiter_attempts.simps [of c request timeoutMs "Suc left"])
    then show ?thesis using outcome_answer [OF Inr] f by blast
  next
    case (Inl e)
    then obtain b ms u' t where "run_state (computeBackoffMs c attempt) u = (ms, u')" "run_state (fe_sleep c ms) u' = (b, t)"
      "run_state (jupiter_attempts c request timeoutMs left (Suc attempt)) t = (Inr x, w')"
      using Suc.prems f by (auto simp: jupiter_attempts.simps [of c request timeoutMs "Suc left"] split: prod.splits if_splits)
    then show ?thesis using Suc.IH by blast
  qed
next
  case 0
  obtain f u where f: "run_state request w = (f, u)" by fastforce
  then have "fetch_outcome c timeoutMs f = Inr x"
    using 0 by (auto simp: jupiter_attempts.simps [of c request timeoutMs 0] split: sum.splits prod.splits)
  from outcome_answer [OF this] f show ?case by blast
qed

text \<open>What the Jupiter API documents for a quote with an exact output: its threshold is the maximal input.\<close>

definition exact_out_threshold :: "('w, 'pk, 'alt) front_env \<Rightarrow> bool" where
  "exact_out_threshold c \<longleftrightarrow> (\<forall>params v v' r q. (''swapMode'', ''ExactOut'') \<in> set params \<and> run_state (fe_quote c params) v = (Response r, v') \<and>
     rs_ok r \<and> rs_json r = Inr q \<longrightarrow> fq_otherAmountThreshold q \<noteq> [] \<and>
     (\<exists>maxIn inRaw. fe_bnOfString c (fq_otherAmountThreshold q) = Inr maxIn \<and> fe_bnOfString c (fq_inAmount q) = Inr inRaw \<and> inRaw \<le> maxIn))"

lemma exact_out_preview:
  assumes "exact_out_threshold c" "run_state (fetchQuote c slippageBps amt mint UsdcMode decimals) w = (Some preview, w')"
  shows "fq_otherAmountThreshold (qp_quote preview) \<noteq> [] \<and> (\<exists>maxIn inRaw. fe_bnOfString c (fq_otherAmountThreshold (qp_quote preview)) = Inr maxIn \<and>
    fe_bnOfString c (fq_inAmount (qp_quote preview)) = Inr inRaw \<and> inRaw \<le> maxIn)"
proof -
  let ?raw = "if amt = PosInf then ''Infinity'' else js_string (raw_amount c amt 6)"
  let ?params = "[(''inputMint'', mint), (''outputMint'', usdc_str c), (''amount'', ?raw), (''slippageBps'', js_string slippageBps),
    (''swapMode'', ''ExactOut''), (''restrictIntermediateTokens'', ''true'')]"
  from assms(2) obtain r where r: "run_state (getJupiterQuote c mint (usdc_str c) ?raw slippageBps ''ExactOut'') w = (r, w')"
    "(case r of Inl _ \<Rightarrow> None | Inr quote \<Rightarrow> Some (preview_of c decimals quote)) = Some preview"
    by (auto simp: fetchQuote_def Let_def split: if_splits prod.splits)
  then obtain q where q: "r = Inr q" "qp_quote preview = q" by (auto simp: preview_of_def Let_def split: sum.splits)
  then have "run_state (jupiterFetchJson c (fe_quote c ?params) None 5000) w = (Inr q, w')"
    by (intro with_message_answer) (use r(1) in \<open>simp only: getJupiterQuote_def\<close>)
  then obtain left where "run_state (jupiter_attempts c (fe_quote c ?params) 5000 left 0) w = (Inr q, w')"
    by (auto simp: jupiterFetchJson_def split: if_splits)
  from attempts_answer [OF this] obtain v v' rs where "run_state (fe_quote c ?params) v = (Response rs, v')" "rs_ok rs" "rs_json rs = Inr q" by blast
  moreover have "(''swapMode'', ''ExactOut'') \<in> set ?params" by simp
  ultimately show ?thesis using assms(1) [unfolded exact_out_threshold_def, rule_format, of ?params v rs v' q] q(2) by blast
qed

text \<open>C30. A deposit for an exact amount of USDC is rejected by the chain. The panel asks Jupiter for a quote with an exact output, and
  \<open>depositMany\<close> takes its threshold for the minimum to receive. That threshold is the maximal input, in units of the token that is paid:
  where this is a larger number than the USDC that come out, as for a token of nine decimals, the deposit is below its minimum.\<close>

theorem exact_out_deposit_rejected:
  assumes "exact_out_threshold c" "run_state (fetchQuote c slippageBps amt mint UsdcMode decimals) w = (Some preview, w')"
    and "lg_quote leg = Some (qp_quote preview)" "run_state (prepare_swap c k leg) v = (Inr ps, v')"
    and "fe_bnOfString c (fq_inAmount (qp_quote preview)) = Inr inRaw" "dx_directUsdcRaw x = 0"
    and "uint (tk_amount ua) = before + out" "0 \<le> before" "0 \<le> out" "out < inRaw" "ps_minOut ps < 2 ^ 64"
  shows "inRaw \<le> chunk_min_out x True [ps] \<and>
    deposit_amounts config ua (of_int before) (of_int (chunk_min_out x True [ps])) = fail SlippageExceeded"
proof -
  from exact_out_preview [OF assms(1,2)] assms(5) obtain maxIn where t: "fq_otherAmountThreshold (qp_quote preview) \<noteq> []"
    "fe_bnOfString c (fq_otherAmountThreshold (qp_quote preview)) = Inr maxIn" "inRaw \<le> maxIn" by auto
  then have ps: "ps_minOut ps = maxIn"
    using assms(3,4) by (auto simp: prepare_swap_def leg_quote_def or_string_def split: if_splits prod.splits sum.splits)
  then have m: "chunk_min_out x True [ps] = maxIn" using assms(6) by (simp add: chunk_min_out_def)
  have "uint (of_int before :: 64 word) = before" using assms(7-9) uint_of_small_int [of before "tk_amount ua"] by auto
  moreover have "uint (of_int maxIn :: 64 word) = maxIn"
    using t(3) assms(9-11) ps by (simp add: uint_word_of_int take_bit_eq_mod)
  ultimately show ?thesis using m t(3) assms(7-10)
    by (auto simp: deposit_amounts_def checked_sub_u64_def and_then_def ok_or_def word_less_def word_le_def uint_sub_if')
qed

definition demo_exact :: "(unit, 256 word, unit) front_env" where
  "demo_exact = demo_wallet\<lparr>fe_bnOfString := js_BigInt,
     fe_quote := (\<lambda>_. State_Monad.return (Response \<lparr>rs_ok = True, rs_status = 200, rs_text = [], rs_json = Inr demo_quote\<rparr>)),
     fe_swap := (\<lambda>_ _. State_Monad.return (Response \<lparr>rs_ok = True, rs_status = 200, rs_text = [], rs_json = Inr (ps_swapIxs demo_swap)\<rparr>))\<rparr>"

lemma demo_exact_numbers: "js_BigInt ''700'' = Inr 700" "js_BigInt ''690'' = Inr 690" by code_simp+

lemma demo_exact_fields:
  "fe_bnOfString demo_exact = js_BigInt" "fe_sdk demo_exact = fe_sdk demo_wallet" "usdc_str demo_exact = ''2000003''" "fe_apiKey demo_exact = ''key''"
  using demo_usdc by (simp_all add: demo_exact_def usdc_str_def) (simp add: demo_wallet_def demo_front_def)

theorem exact_out_deposit_rejected_witness:
  "\<exists>ps. ps_minOut ps = 700 \<and> deposit_amounts demo_config \<lparr>tk_mint = [], tk_owner = [], tk_amount = 1100\<rparr> 1000
     (of_int (chunk_min_out (demo_ctx\<lparr>dx_directUsdcRaw := 0\<rparr>) True [ps])) = fail SlippageExceeded"
proof -
  let ?leg = "\<lparr>lg_amount = Finite 1, lg_mint = ''m'', lg_quote = Some demo_quote\<rparr>"
  let ?ps = "\<lparr>ps_minOut = 700, ps_swapIxs = ps_swapIxs demo_swap\<rparr>"
  have api: "exact_out_threshold demo_exact"
    by (auto simp: exact_out_threshold_def demo_exact_def demo_quote_def demo_exact_numbers)
  have fetch: "jupiterFetchJson demo_exact (fe_quote demo_exact ps) None t = returnE demo_quote"
      "jupiterFetchJson demo_exact (fe_swap demo_exact a b) None t = returnE (ps_swapIxs demo_swap)" for ps t a b
    by (simp_all add: jupiterFetchJson_def demo_exact_fields jupiter_attempts.simps, simp_all add: demo_exact_def fetch_outcome_def doE_def)
  have quote: "run_state (fetchQuote demo_exact 100 (Finite 1) ''m'' UsdcMode 9) () = (Some (preview_of demo_exact 9 demo_quote), ())"
    by (simp add: fetchQuote_def num_gt_def demo_exact_fields getJupiterQuote_def fetch with_message_def)
  have preview: "qp_quote (preview_of demo_exact 9 demo_quote) = demo_quote" by (simp add: preview_of_def Let_def)
  have inRaw: "js_BigInt (fq_inAmount demo_quote) = Inr 690" by (simp add: demo_quote_def demo_exact_numbers)
  have swap_ixs: "getJupiterSwapInstructions demo_exact u q = returnE (ps_swapIxs demo_swap)" for u q
    by (simp add: getJupiterSwapInstructions_def fetch with_message_def returnE_def)
  have swap: "run_state (prepare_swap demo_exact 1 ?leg) () = (Inr ?ps, ())"
    by (simp add: prepare_swap_def leg_quote_def demo_exact_fields or_string_def) (simp add: demo_quote_def demo_exact_numbers swap_ixs)
  show ?thesis
    using exact_out_deposit_rejected [OF api quote, of ?leg 1 "()" ?ps "()" 690 "demo_ctx\<lparr>dx_directUsdcRaw := 0\<rparr>"
        "\<lparr>tk_mint = [], tk_owner = [], tk_amount = 1100\<rparr>" 1000 100 demo_config]
    by (intro exI [of _ ?ps]) (simp add: preview swap demo_exact_fields inRaw)
qed

section \<open>Quick amounts\<close>

text \<open>The buttons that fill in a share of the balance cut off the zeros at the end. For a token without decimals these are digits of the
  number: the whole of a balance of 10 is filled in as 1.\<close>

lemma quick_fill_without_decimals: "formatQuickFillAmount id 10 0 = ''1''" and "formatQuickFillAmount id 10 1 = ''10''"
  by code_simp+

end
