(* ===== verification/Fairness.thy ===== *)
theory Fairness
  imports History_Props Jackpot_Draw
begin

text \<open>
  The check of a draw that the fairness page offers (\<open>src/pages/Fairness.tsx\<close>): from the randomness and the number of tickets, as
  they are printed, it recomputes the winning ticket.
\<close>

section \<open>The page\<close>

definition strip_0x :: "string \<Rightarrow> string" where
  "strip_0x s = (case s of a # b # r \<Rightarrow> if a = CHR ''0'' \<and> b \<in> {CHR ''x'', CHR ''X''} then r else s | _ \<Rightarrow> s)"

text \<open>The bytes of pairs of hexadecimal digits, and the loop \<open>r |= byte << 8 i\<close>.\<close>

fun hex_bytes :: "string \<Rightarrow> int list" where
  "hex_bytes (a # b # r) = int (digits_value 16 [a, b]) # hex_bytes r"
| "hex_bytes _ = []"

fun or_bytes :: "nat \<Rightarrow> int list \<Rightarrow> int \<Rightarrow> int" where
  "or_bytes i [] r = r"
| "or_bytes i (b # bs) r = or_bytes (Suc i) bs (or r (push_bit (8 * i) b))"

definition deriveWinningTicket :: "string \<Rightarrow> string \<Rightarrow> string \<times> string option" where
  "deriveWinningTicket randomnessHex totalTickets =
     (let hex = filter (\<lambda>ch. \<not> js_space ch) (strip_0x randomnessHex) in
      if length hex \<noteq> 64 \<or> \<not> list_all (is_digit 16) hex then ([], Some ''Randomness must be exactly 64 hex characters (32 bytes)'')
      else case js_BigInt totalTickets of
          Inl _ \<Rightarrow> ([], Some ''Invalid input'')
        | Inr totalBig \<Rightarrow>
            if totalBig \<le> 0 then ([], Some ''Total tickets must be > 0'')
            else (js_string (or_bytes 0 (hex_bytes (take 32 hex)) 0 mod totalBig + 1), None))"

section \<open>Bytes\<close>

lemma space_code: "js_space ch \<Longrightarrow> (of_char ch :: nat) \<in> {9, 10, 11, 12, 13, 32, 160}"
  by (auto simp: js_space_def)

lemma hex_digit_code: "0 \<le> n \<Longrightarrow> n < 16 \<Longrightarrow> (of_char (hex_digit n) :: nat) = (if n < 10 then 48 + nat n else 87 + nat n)"
  by (simp add: hex_digit_def)

lemma hex_digit_ok:
  assumes "0 \<le> n" "n < 16"
  shows "digit_value (hex_digit n) = Some (nat n)" "is_digit 16 (hex_digit n)" "\<not> js_space (hex_digit n)"
proof -
  note code = hex_digit_code [OF assms]
  show v: "digit_value (hex_digit n) = Some (nat n)" using assms by (auto simp: digit_value_def code Let_def)
  then show "is_digit 16 (hex_digit n)" using assms by (simp add: is_digit_def)
  show "\<not> js_space (hex_digit n)"
  proof
    assume "js_space (hex_digit n)"
    from space_code [OF this] show False using assms by (auto simp: code split: if_splits)
  qed
qed

lemma byte_digits: "0 \<le> uint (b :: 8 word) div 16" "uint b div 16 < 16" "0 \<le> uint b mod 16" "uint b mod 16 < 16"
  using uint_lt2p [of b] by (auto simp: pos_imp_zdiv_nonneg_iff)

lemma hex_string_digits:
  "list_all (is_digit 16) (hex_string bs)" "length (hex_string bs) = 2 * length bs" "filter (\<lambda>ch. \<not> js_space ch) (hex_string bs) = hex_string bs"
  by (induction bs) (simp_all add: hex_string_def hex_digit_ok byte_digits)

lemma hex_bytes_string: "hex_bytes (hex_string bs) = map uint bs"
proof (induction bs)
  case (Cons b bs)
  have "int (digits_value 16 [hex_digit (uint b div 16), hex_digit (uint b mod 16)]) = uint b"
    using byte_digits [of b] by (simp add: digits_value_def hex_digit_ok)
  with Cons show ?case by (simp add: hex_string_def)
qed (simp add: hex_string_def)

lemma take_hex: "take (2 * n) (hex_string bs) = hex_string (take n bs)"
proof (induction bs arbitrary: n)
  case (Cons b bs)
  then show ?case by (cases n) (simp_all add: hex_string_def)
qed (simp add: hex_string_def)

lemma or_disjoint:
  fixes r b :: int
  assumes "0 \<le> r" "r < 2 ^ n"
  shows "or r (push_bit n b) = r + push_bit n b"
proof (rule disjunctive_add [symmetric])
  fix k
  have "\<not> bit r k" if "n \<le> k"
  proof -
    have "take_bit n r = r" using assms by (simp add: take_bit_int_eq_self)
    then show ?thesis using that by (metis bit_take_bit_iff not_le)
  qed
  then show "\<not> bit r k \<or> \<not> bit (push_bit n b) k" by (auto simp: bit_push_bit_iff)
qed

lemma or_bytes_le:
  assumes "0 \<le> r" "r < 256 ^ i"
  shows "or_bytes i (map uint bs) r = r + 256 ^ i * le_uint bs"
  using assms
proof (induction bs arbitrary: i r)
  case (Cons b bs)
  have p: "(256 :: int) ^ i = 2 ^ (8 * i)" by (simp add: power_mult)
  have r: "or r (push_bit (8 * i) (uint b)) = r + 256 ^ i * uint b"
    using or_disjoint [of r "8 * i" "uint b"] Cons.prems by (simp add: p push_bit_eq_mult)
  have b: "0 \<le> uint b" "uint b \<le> 255" using uint_lt2p [of b] by auto
  then have "256 ^ i * uint b \<le> 256 ^ i * 255" by (intro mult_left_mono) auto
  then have "r + 256 ^ i * uint b < 256 ^ i + 256 ^ i * 255" using Cons.prems(2) by linarith
  then have "r + 256 ^ i * uint b < 256 ^ Suc i" by simp
  moreover have "0 \<le> r + 256 ^ i * uint b" using Cons.prems b by simp
  ultimately have "or_bytes (Suc i) (map uint bs) (r + 256 ^ i * uint b) = r + 256 ^ i * uint b + 256 ^ Suc i * le_uint bs"
    using Cons.IH by blast
  moreover have "or_bytes i (map uint (b # bs)) r = or_bytes (Suc i) (map uint bs) (r + 256 ^ i * uint b)" by (simp add: r)
  ultimately show ?case by (simp add: algebra_simps)
qed simp

text \<open>C16. The check of the fairness page agrees with the chain. For every round that the randomness settles, the page computes from the printed
  randomness and the printed number of tickets exactly the winning ticket that the program has stored.\<close>

theorem page_agrees_with_draw:
  assumes "vrf_callback config r randomness = Some (Inr r')" "length randomness = 32"
  shows "deriveWinningTicket (hex_string (ra_randomness r')) (js_string (uint (rl_total_tickets r))) =
    (js_string (uint (ra_winning_ticket r')), None)"
proof -
  from assms(1) have draw: "draw_ticket randomness (rl_total_tickets r) = Some (ra_winning_ticket r')" and rnd: "ra_randomness r' = randomness"
    by (auto simp: vrf_callback_def split: if_splits option.splits sum.splits)
  let ?t = "rl_total_tickets r"
  from draw have t: "?t \<noteq> 0" and k: "ra_winning_ticket r' = of_int (le_uint (take 16 randomness) mod uint ?t) + 1"
    by (auto simp: draw_ticket_def split: if_splits)
  have pos: "0 < uint ?t" using t uint_0_iff uint_ge_0 by (metis order_le_less)
  let ?n = "le_uint (take 16 randomness) mod uint ?t"
  have n: "0 \<le> ?n" "?n < uint ?t" using pos by simp_all
  then have "?n + 1 < 2 ^ 64" using uint_lt2p [of ?t] by simp
  then have ticket: "uint (ra_winning_ticket r') = ?n + 1"
    using n(1) unfolding k by (simp add: uint_word_ariths take_bit_eq_mod uint_word_of_int)
  have plain: "strip_0x (hex_string randomness) = hex_string randomness"
  proof -
    have "ch \<noteq> CHR ''x'' \<and> ch \<noteq> CHR ''X''" if "ch \<in> set (hex_string randomness)" for ch
      using hex_string_digits(1) [of randomness] that by (auto simp: list_all_iff is_digit_def digit_value_def)
    then show ?thesis by (auto simp: strip_0x_def split: list.splits)
  qed
  have "or_bytes 0 (hex_bytes (take 32 (hex_string randomness))) 0 = le_uint (take 16 randomness)"
    using take_hex [of 16 randomness] or_bytes_le [of 0 0 "take 16 randomness"] by (simp add: hex_bytes_string)
  then show ?thesis using assms(2) pos ticket hex_string_digits [of randomness] plain
    by (simp add: rnd deriveWinningTicket_def Let_def js_BigInt_string)
qed

definition demo_randomness :: buffer where "demo_randomness = replicate 32 7"

theorem page_agrees_with_draw_witness:
  "\<exists>r r'. lg_round (played demo_locked) = Some r \<and> vrf_callback (lg_config (played demo_locked)) r demo_randomness = Some (Inr r') \<and>
     deriveWinningTicket (hex_string demo_randomness) (js_string (uint (rl_total_tickets r))) = (js_string (uint (ra_winning_ticket r')), None)"
proof (rule standsE [OF demo_locked_stands], elim conjE)
  let ?s = "played demo_locked"
  fix r
  assume h: "reach spl_transfer round_key vault_key Clean ?s" "lg_round ?s = Some r" "rl_status r = ROUND_STATUS_VRF_REQUESTED"
    "cv_min_participants (lg_config ?s) \<le> rl_participants_count r" "cv_min_total_tickets (lg_config ?s) \<le> rl_total_tickets r"
  have books: "books round_key r (lg_parts ?s)" using reach_books(1) [OF spl_transfer h(1,2)] h(3) by (simp add: live_def)
  have one: "1 \<le> cv_min_total_tickets (lg_config ?s)"
    using soundD(1) [OF reach_sound [OF spl_transfer h(1)] h(2)] by (simp add: config_ok_def)
  let ?rnd = demo_randomness
  obtain k i where cb: "vrf_callback (lg_config ?s) r ?rnd = Some (Inr (r\<lparr>ra_randomness := ?rnd, ra_winning_ticket := k,
      ra_winner := ra_participants r ! (i - 1), rl_status := ROUND_STATUS_SETTLED\<rparr>))" (is "_ = Some (Inr ?r)")
    by (rule vrf_callback_settles [OF books h(3) one h(4,5), of ?rnd])
  have "deriveWinningTicket (hex_string ?rnd) (js_string (uint (rl_total_tickets r))) = (js_string (uint (ra_winning_ticket ?r)), None)"
    using page_agrees_with_draw [OF cb] by (simp add: demo_randomness_def [THEN arg_cong, of length])
  with h(2) cb show ?thesis by blast
qed

end
