(* ===== verification/Wheel.thy ===== *)
theory Wheel
  imports Web_App
begin

text \<open>
  The wheel that shows the draw (\<open>src/components/JackpotWheel.tsx\<close>, \<open>src/lib/wheelUtils.ts\<close>): the segments, the states of the
  animation, and where it stops. \<open>Math.PI\<close> and the easing power are parameters, and the arithmetic is exact: the wheel stops at least a
  tenth of a segment away from its borders. Drawing, sound and the motion of the confetti are not modelled; of a particle there is its life.
\<close>

section \<open>Segments\<close>

record SegmentData =
  sg_startAngle :: rat
  sg_endAngle :: rat
  sg_color :: string
  sg_label :: string
  sg_pct :: rat

definition SEGMENT_COLORS :: "string list" where
  "SEGMENT_COLORS = [''#4f46e5'', ''#0d59f2'', ''#0891b2'', ''#059669'', ''#d97706'', ''#dc2626'', ''#9333ea'', ''#e11d48'',
     ''#2563eb'', ''#0d9488'', ''#ca8a04'', ''#7c3aed'']"

definition total_or_1 :: "Participant list \<Rightarrow> rat" where
  "total_or_1 ps = (let t = sum_list (map pt_usdcAmount ps) in if t = 0 then 1 else t)"

fun segments_from :: "rat \<Rightarrow> rat \<Rightarrow> nat \<Rightarrow> rat \<Rightarrow> Participant list \<Rightarrow> SegmentData list" where
  "segments_from pi' tot i angle [] = []"
| "segments_from pi' tot i angle (p # ps) =
     (let sweep = pt_usdcAmount p / tot * pi' * 2 in
      \<lparr>sg_startAngle = angle, sg_endAngle = angle + sweep,
       sg_color = (if pt_color p = [] then SEGMENT_COLORS ! (i mod length SEGMENT_COLORS) else pt_color p),
       sg_label = pt_displayName p, sg_pct = pt_usdcAmount p / tot * 100\<rparr> # segments_from pi' tot (Suc i) (angle + sweep) ps)"

definition buildSegments :: "rat \<Rightarrow> Participant list \<Rightarrow> SegmentData list" where
  "buildSegments pi' ps = segments_from pi' (total_or_1 ps) 0 0 ps"

section \<open>Animation\<close>

datatype WheelPhase = Idle | Spinning | Landing | Celebration

record AnimState =
  an_phase :: WheelPhase
  an_angle :: rat
  an_velocity :: rat
  an_targetAngle :: rat
  an_startAngle :: rat
  an_landingStart :: rat
  an_celebrationStart :: rat
  an_particles :: "rat list"

record wheel = AnimState +
  wh_prevWinnerIndex :: "nat option"
  wh_wasSpinning :: bool
  wh_frozen :: "SegmentData list option"

definition LANDING_DURATION :: rat where "LANDING_DURATION = 6000"
definition EASE_EXPONENT :: rat where "EASE_EXPONENT = 7 / 2"

text \<open>The remainder \<open>x % y\<close>, and an angle brought into one turn.\<close>

definition js_fmod :: "rat \<Rightarrow> rat \<Rightarrow> rat" where
  "js_fmod x y = (let q = x / y in x - y * of_int (if q < 0 then \<lceil>q\<rceil> else \<lfloor>q\<rfloor>))"

definition in_turn :: "rat \<Rightarrow> rat \<Rightarrow> rat" where
  "in_turn pi' x = js_fmod (js_fmod x (pi' * 2) + pi' * 2) (pi' * 2)"

text \<open>The point of the wheel that is to stop under the pointer, and the turn that brings it there.\<close>

definition target_point :: "rat \<Rightarrow> rat \<Rightarrow> nat \<Rightarrow> Participant list \<Rightarrow> rat" where
  "target_point pi' rnd winnerIndex parts =
     (let tot = total_or_1 parts;
          accAngle = sum_list (map (\<lambda>p. pt_usdcAmount p / tot * pi' * 2) (take winnerIndex parts));
          segAngle = pt_usdcAmount (parts ! winnerIndex) / tot * pi' * 2;
          randomT = 1 / 10 + rnd * (1 - 2 * (1 / 10))
      in accAngle + segAngle * randomT)"

definition landing_turn :: "rat \<Rightarrow> rat \<Rightarrow> rat \<Rightarrow> rat \<Rightarrow> rat" where
  "landing_turn pi' point angle velocity =
     (let desiredAngle = - pi' / 2 - point;
          delta0 = in_turn pi' desiredAngle - in_turn pi' angle;
          delta = (if delta0 < 0 then delta0 + pi' * 2 else delta0);
          naturalTotal = velocity * 60 * (LANDING_DURATION / 1000) / EASE_EXPONENT;
          rawSpins = (naturalTotal - delta) / (pi' * 2)
      in of_int (max \<lceil>rawSpins\<rceil> 4) * pi' * 2 + delta)"

text \<open>The effect that starts the landing; \<open>rnd\<close> and \<open>now\<close> are what \<open>Math.random\<close> and \<open>performance.now\<close> return. With an
  index outside the participants the effect throws, which is \<open>None\<close>.\<close>

definition trigger_landing :: "rat \<Rightarrow> rat \<Rightarrow> rat \<Rightarrow> bool \<Rightarrow> nat option \<Rightarrow> Participant list \<Rightarrow> wheel \<Rightarrow> wheel option" where
  "trigger_landing pi' rnd now spinning winnerIndex parts w =
     (let prev = wh_prevWinnerIndex w; w1 = w\<lparr>wh_prevWinnerIndex := winnerIndex\<rparr> in
      case winnerIndex of
        None \<Rightarrow> Some w1
      | Some i \<Rightarrow>
          if wh_wasSpinning w \<and> (prev = None \<or> prev = winnerIndex \<and> \<not> spinning) \<and> an_phase w \<noteq> Landing then
            if length parts \<le> i then None
            else Some (w1\<lparr>wh_wasSpinning := False, wh_frozen := Some (buildSegments pi' parts),
              an_targetAngle := an_angle w + landing_turn pi' (target_point pi' rnd i parts) (an_angle w) (an_velocity w),
              an_startAngle := an_angle w, an_landingStart := now, an_phase := Landing\<rparr>)
          else Some w1)"

definition start_spinning :: "bool \<Rightarrow> wheel \<Rightarrow> wheel" where
  "start_spinning spinning w =
     (if \<not> spinning then w
      else let w1 = w\<lparr>wh_wasSpinning := True\<rparr> in
        case an_phase w of
          Idle \<Rightarrow> w1\<lparr>an_phase := Spinning, an_velocity := 2 / 100\<rparr>
        | Spinning \<Rightarrow> w1
        | _ \<Rightarrow> w1\<lparr>an_phase := Spinning, an_velocity := 2 / 100, an_particles := [], wh_frozen := None\<rparr>)"

text \<open>One frame: the update, with whether it calls \<open>onSpinComplete\<close>, and the confetti.\<close>

definition update_frame :: "(rat \<Rightarrow> rat) \<Rightarrow> rat \<Rightarrow> bool \<Rightarrow> wheel \<Rightarrow> wheel \<times> bool" where
  "update_frame landingEase now spinning w =
     (case an_phase w of
        Idle \<Rightarrow> (w\<lparr>an_angle := an_angle w + 1 / 1000\<rparr>, False)
      | Spinning \<Rightarrow>
          if \<not> spinning then
            let v = an_velocity w * (98 / 100) in
            if v < 1 / 1000 then (w\<lparr>an_phase := Idle, an_velocity := 0\<rparr>, False)
            else (w\<lparr>an_velocity := v, an_angle := an_angle w + v\<rparr>, False)
          else let v = min (an_velocity w + 8 / 1000 * (1 / 60) * 60) (25 / 100) in
            (w\<lparr>an_velocity := v, an_angle := an_angle w + v\<rparr>, False)
      | Landing \<Rightarrow>
          let t = min ((now - an_landingStart w) / LANDING_DURATION) 1 in
          if 1 \<le> t then (w\<lparr>an_angle := an_startAngle w + (an_targetAngle w - an_startAngle w), an_phase := Celebration,
            an_celebrationStart := now, an_velocity := 0, an_particles := replicate 70 1\<rparr>, True)
          else (w\<lparr>an_angle := an_startAngle w + (an_targetAngle w - an_startAngle w) * landingEase t\<rparr>, False)
      | Celebration \<Rightarrow>
          if an_particles w = [] \<and> 3000 < now - an_celebrationStart w then (w\<lparr>an_phase := Idle, wh_frozen := None\<rparr>, False) else (w, False))"

definition updateConfetti :: "wheel \<Rightarrow> wheel" where
  "updateConfetti w = w\<lparr>an_particles := [l. l \<leftarrow> map (\<lambda>l. l - 12 / 1000) (an_particles w), 0 < l]\<rparr>"

definition frame :: "(rat \<Rightarrow> rat) \<Rightarrow> rat \<Rightarrow> bool \<Rightarrow> wheel \<Rightarrow> wheel \<times> bool" where
  "frame landingEase now spinning w = (let (w1, complete) = update_frame landingEase now spinning w in (updateConfetti w1, complete))"

text \<open>A sequence of frames and how often they call \<open>onSpinComplete\<close>.\<close>

fun frames :: "(rat \<Rightarrow> rat) \<Rightarrow> bool \<Rightarrow> rat list \<Rightarrow> wheel \<Rightarrow> wheel \<times> nat" where
  "frames landingEase spinning [] w = (w, 0)"
| "frames landingEase spinning (now # ts) w =
     (let (w1, complete) = frame landingEase now spinning w; (w2, n) = frames landingEase spinning ts w1 in
      (w2, if complete then Suc n else n))"

section \<open>Where the wheel stops\<close>

lemma segments_nth:
  assumes "i < length ps"
  shows "sg_startAngle (segments_from pi' tot k angle ps ! i) = angle + sum_list (map (\<lambda>p. pt_usdcAmount p / tot * pi' * 2) (take i ps)) \<and>
    sg_endAngle (segments_from pi' tot k angle ps ! i) =
      sg_startAngle (segments_from pi' tot k angle ps ! i) + pt_usdcAmount (ps ! i) / tot * pi' * 2"
  using assms
proof (induction ps arbitrary: i k angle)
  case (Cons p ps)
  then show ?case by (cases i) (simp_all add: Let_def)
qed simp

lemma fmod_congruent: "\<exists>m :: int. js_fmod x y = x + of_int m * y"
  unfolding js_fmod_def Let_def
  by (intro exI [of _ "- (if x / y < 0 then \<lceil>x / y\<rceil> else \<lfloor>x / y\<rfloor>)"]) (simp add: algebra_simps)

lemma in_turn_congruent: "\<exists>m :: int. in_turn pi' x = x + of_int m * (pi' * 2)"
proof -
  obtain m n :: int where "js_fmod x (pi' * 2) = x + of_int m * (pi' * 2)"
    "in_turn pi' x = js_fmod x (pi' * 2) + pi' * 2 + of_int n * (pi' * 2)"
    using fmod_congruent unfolding in_turn_def by metis
  then have "in_turn pi' x = x + of_int (m + n + 1) * (pi' * 2)" by (simp add: algebra_simps)
  then show ?thesis by blast
qed

lemma fmod_bounds:
  assumes "0 < y"
  shows "- y < js_fmod x y" "js_fmod x y < y" "0 \<le> x \<Longrightarrow> 0 \<le> js_fmod x y"
proof -
  define q where "q = x / y"
  have x: "x = q * y" using assms by (simp add: q_def)
  have m: "js_fmod x y = (q - of_int (if q < 0 then \<lceil>q\<rceil> else \<lfloor>q\<rfloor>)) * y" by (simp add: js_fmod_def Let_def q_def [symmetric] x algebra_simps)
  have "- 1 < q - of_int (if q < 0 then \<lceil>q\<rceil> else \<lfloor>q\<rfloor>)" "q - of_int (if q < 0 then \<lceil>q\<rceil> else \<lfloor>q\<rfloor>) < 1" by (simp_all add: ceiling_correct) linarith+
  then show "- y < js_fmod x y" "js_fmod x y < y" unfolding m using assms by (metis minus_mult_left mult.left_neutral mult_less_cancel_right_disj)+
  assume "0 \<le> x"
  then have "0 \<le> q" using assms by (simp add: q_def)
  then show "0 \<le> js_fmod x y" unfolding m using assms by simp
qed


lemma in_turn_bounds:
  assumes "0 < pi'"
  shows "0 \<le> in_turn pi' x" "in_turn pi' x < pi' * 2"
  using fmod_bounds [of "pi' * 2" x] fmod_bounds [of "pi' * 2" "js_fmod x (pi' * 2) + pi' * 2"] assms by (simp_all add: in_turn_def)

text \<open>The landing makes at least four full turns and brings the target point under the pointer at \<open>- PI / 2\<close>.\<close>

lemma landing_turn_hits:
  assumes "0 < pi'"
  shows "4 * (pi' * 2) \<le> landing_turn pi' point angle velocity"
    and "\<exists>m :: int. - pi' / 2 - (angle + landing_turn pi' point angle velocity) = point + of_int m * (pi' * 2)"
proof -
  define delta0 where "delta0 = in_turn pi' (- pi' / 2 - point) - in_turn pi' angle"
  define d where "d = (if delta0 < 0 then delta0 + pi' * 2 else delta0)"
  define s where "s = max \<lceil>(velocity * 60 * (LANDING_DURATION / 1000) / EASE_EXPONENT - d) / (pi' * 2)\<rceil> 4"
  have turn: "landing_turn pi' point angle velocity = of_int s * (pi' * 2) + d"
    by (simp add: landing_turn_def Let_def delta0_def d_def s_def)
  have "0 \<le> d"
    using in_turn_bounds [OF assms, of "- pi' / 2 - point"] in_turn_bounds [OF assms, of angle] by (auto simp: d_def delta0_def)
  moreover have "(4 :: rat) \<le> of_int s" by (simp add: s_def)
  ultimately show "4 * (pi' * 2) \<le> landing_turn pi' point angle velocity"
    unfolding turn using mult_right_mono [of 4 "of_int s" "pi' * 2"] assms by linarith
  obtain m n :: int where mn: "in_turn pi' (- pi' / 2 - point) = - pi' / 2 - point + of_int m * (pi' * 2)"
    "in_turn pi' angle = angle + of_int n * (pi' * 2)" using in_turn_congruent by metis
  define k :: int where "k = (if delta0 < 0 then 1 else 0)"
  have d: "d = delta0 + of_int k * (pi' * 2)" by (simp add: d_def k_def)
  have "- pi' / 2 - (angle + (of_int s * (pi' * 2) + d)) = point + of_int (n - m - s - k) * (pi' * 2)"
    unfolding d delta0_def mn by (simp add: algebra_simps)
  then show "\<exists>m :: int. - pi' / 2 - (angle + landing_turn pi' point angle velocity) = point + of_int m * (pi' * 2)"
    unfolding turn by blast
qed

lemma frames_landing:
  assumes "an_phase w = Landing" and "\<forall>t \<in> set ts. t - an_landingStart w < LANDING_DURATION"
  shows "\<exists>w'. frames ease spinning ts w = (w', 0) \<and> an_phase w' = Landing \<and> an_landingStart w' = an_landingStart w \<and>
    an_startAngle w' = an_startAngle w \<and> an_targetAngle w' = an_targetAngle w \<and> wh_frozen w' = wh_frozen w"
  using assms
proof (induction ts arbitrary: w)
  case (Cons t ts)
  define w1 where "w1 = fst (frame ease t spinning w)"
  have "(t - an_landingStart w) / LANDING_DURATION < 1" using Cons.prems(2) by (simp add: LANDING_DURATION_def)
  then have f: "frame ease t spinning w = (w1, False)" and keep: "an_phase w1 = Landing" "an_landingStart w1 = an_landingStart w"
    "an_startAngle w1 = an_startAngle w" "an_targetAngle w1 = an_targetAngle w" "wh_frozen w1 = wh_frozen w"
    using Cons.prems(1) by (simp_all add: w1_def frame_def update_frame_def updateConfetti_def Let_def min_def)
  show ?case using Cons.IH [of w1] Cons.prems(2) keep by (auto simp: f)
qed simp

lemma frame_lands:
  assumes "an_phase w = Landing" and "LANDING_DURATION \<le> now - an_landingStart w"
  shows "\<exists>w'. frame ease now spinning w = (w', True) \<and> an_phase w' = Celebration \<and> an_angle w' = an_targetAngle w \<and> wh_frozen w' = wh_frozen w"
proof -
  have "1 \<le> (now - an_landingStart w) / LANDING_DURATION" using assms(2) by (simp add: LANDING_DURATION_def)
  then show ?thesis using assms(1) by (simp add: frame_def update_frame_def updateConfetti_def Let_def min_def)
qed

lemma frames_snoc:
  "frames ease spinning (ts @ [t]) w =
     (let (w1, n) = frames ease spinning ts w; (w2, c) = frame ease t spinning w1 in (w2, if c then Suc n else n))"
  by (induction ts arbitrary: w) (auto simp: Let_def split: prod.splits)

lemma target_point_inside:
  assumes "0 < pi'" and "i < length parts" and "\<forall>p \<in> set parts. 0 \<le> pt_usdcAmount p" and "0 < pt_usdcAmount (parts ! i)"
    and "0 \<le> rnd" and "rnd < 1"
  defines "seg \<equiv> buildSegments pi' parts ! i"
  shows "sg_startAngle seg < target_point pi' rnd i parts" and "target_point pi' rnd i parts < sg_endAngle seg"
proof -
  define sweep where "sweep = pt_usdcAmount (parts ! i) / total_or_1 parts * pi' * 2"
  have "pt_usdcAmount (parts ! i) \<le> sum_list (map pt_usdcAmount parts)"
    using assms(2,3) by (intro member_le_sum_list) auto
  then have "0 < total_or_1 parts" using assms(4) by (simp add: total_or_1_def Let_def)
  then have "0 < sweep" using assms(1,4) by (simp add: sweep_def)
  then have "0 < sweep * (1 / 10 + rnd * (1 - 2 * (1 / 10)))" "sweep * (1 / 10 + rnd * (1 - 2 * (1 / 10))) < sweep * 1"
    using assms(5,6) by (intro mult_pos_pos mult_strict_left_mono; simp)+
  then show "sg_startAngle seg < target_point pi' rnd i parts" "target_point pi' rnd i parts < sg_endAngle seg"
    using segments_nth [OF assms(2), of pi' "total_or_1 parts" 0 0]
    by (simp_all add: seg_def buildSegments_def target_point_def Let_def sweep_def)
qed

text \<open>
  C17. The wheel shows the draw. When the winner appears while the wheel spins, the landing starts; every frame within the next six seconds
  keeps it going, and the first frame after them ends it: \<open>onSpinComplete\<close> has then been called exactly once, the wheel has made at least
  four turns, and the point under the pointer, seen from the wheel, lies strictly inside the winner's own segment of the wheel that was
  frozen when the landing started.
\<close>

theorem wheel_shows_winner:
  assumes "0 < pi'" and "0 \<le> rnd" and "rnd < 1"
    and "i < length parts" and "\<forall>p \<in> set parts. 0 \<le> pt_usdcAmount p" and "0 < pt_usdcAmount (parts ! i)"
    and "wh_wasSpinning w" and "wh_prevWinnerIndex w = None" and "an_phase w \<noteq> Landing"
    and "\<forall>t \<in> set ts. t - now < LANDING_DURATION" and "LANDING_DURATION \<le> end_time - now"
  shows "\<exists>w1 w2 point m :: int.
    trigger_landing pi' rnd now spinning (Some i) parts w = Some w1 \<and>
    frames ease spinning (ts @ [end_time]) w1 = (w2, 1) \<and> an_phase w2 = Celebration \<and>
    an_angle w + 4 * (pi' * 2) \<le> an_angle w2 \<and>
    wh_frozen w2 = Some (buildSegments pi' parts) \<and>
    - pi' / 2 - an_angle w2 = point + of_int m * (pi' * 2) \<and>
    sg_startAngle (buildSegments pi' parts ! i) < point \<and> point < sg_endAngle (buildSegments pi' parts ! i)"
proof -
  obtain w1 where w1: "trigger_landing pi' rnd now spinning (Some i) parts w = Some w1" "an_phase w1 = Landing" "an_landingStart w1 = now"
    "wh_frozen w1 = Some (buildSegments pi' parts)"
    "an_targetAngle w1 = an_angle w + landing_turn pi' (target_point pi' rnd i parts) (an_angle w) (an_velocity w)"
    using assms(4,7-9) by (simp add: trigger_landing_def Let_def)
  obtain w' where w': "frames ease spinning ts w1 = (w', 0)" "an_phase w' = Landing" "an_landingStart w' = now"
    "an_targetAngle w' = an_targetAngle w1" "wh_frozen w' = wh_frozen w1"
    using frames_landing [OF w1(2), of ts ease spinning] assms(10) w1(3) by auto
  obtain w2 where w2: "frame ease end_time spinning w' = (w2, True)" "an_phase w2 = Celebration" "an_angle w2 = an_targetAngle w'"
    "wh_frozen w2 = wh_frozen w'" using frame_lands [OF w'(2), of end_time ease spinning] assms(11) w'(3) by auto
  have "frames ease spinning (ts @ [end_time]) w1 = (w2, 1)" by (simp add: frames_snoc w'(1) w2(1))
  moreover obtain m :: int where "- pi' / 2 - an_angle w2 = target_point pi' rnd i parts + of_int m * (pi' * 2)"
    using landing_turn_hits(2) [OF assms(1)] w1(5) w'(4) w2(3) by metis
  moreover have "an_angle w + 4 * (pi' * 2) \<le> an_angle w2" using landing_turn_hits(1) [OF assms(1)] w1(5) w'(4) w2(3) by simp
  ultimately show ?thesis using w1(1,4) w'(5) w2(2,4) target_point_inside [OF assms(1,4,5,6,2,3)] by metis
qed

definition demo_wheel :: wheel where
  "demo_wheel = \<lparr>an_phase = Spinning, an_angle = 1, an_velocity = 25 / 100, an_targetAngle = 0, an_startAngle = 0, an_landingStart = 0,
     an_celebrationStart = 0, an_particles = [], wh_prevWinnerIndex = None, wh_wasSpinning = True, wh_frozen = None\<rparr>"

definition demo_players :: "Participant list" where
  "demo_players = map (\<lambda>(name, usdc). \<lparr>pt_address = name, pt_displayName = name, pt_color = [], pt_usdcAmount = usdc, pt_tickets = 1, pt_tokens = []\<rparr>)
     [(''a'', 10), (''b'', 5), (''c'', 25)]"

theorem wheel_shows_winner_witness:
  "\<exists>w1 w2 point m :: int.
    trigger_landing (22 / 7) (1 / 2) 100 True (Some 1) demo_players demo_wheel = Some w1 \<and>
    frames (\<lambda>t. t) True ([116, 132] @ [6116]) w1 = (w2, 1) \<and> an_phase w2 = Celebration \<and>
    an_angle demo_wheel + 4 * (22 / 7 * 2) \<le> an_angle w2 \<and>
    wh_frozen w2 = Some (buildSegments (22 / 7) demo_players) \<and>
    - (22 / 7) / 2 - an_angle w2 = point + of_int m * (22 / 7 * 2) \<and>
    sg_startAngle (buildSegments (22 / 7) demo_players ! 1) < point \<and> point < sg_endAngle (buildSegments (22 / 7) demo_players ! 1)"
  by (rule wheel_shows_winner) (simp_all add: demo_players_def demo_wheel_def LANDING_DURATION_def)

end
