(* ===== verification/Missions.thy ===== *)
theory Missions
  imports Complex_Main Prelude
begin

text \<open>
  The missions of a player (\<open>src/hooks/useMissions.ts\<close>): progress, claims, levels and the streak, kept in the storage of
  the browser under the address of the wallet.

  A calendar date \<open>YYYY-MM-DD\<close> is its day number in UTC, counted from 1970-01-01, and the empty string is \<open>None\<close>. The
  time zone is the function from an instant to the number of its local day: the local midnights that \<open>getMonday\<close> returns are
  equal exactly when their local days are. Amounts are rationals, rounded by \<open>fl\<close>. The texts and icons of the missions
  are left out.
\<close>

section \<open>Data\<close>

datatype mission_type = Daily | Weekly | Achievement

record Mission =
  mi_id :: string
  mi_type :: mission_type
  mi_requirement :: rat
  mi_progress :: rat
  mi_xp :: int
  mi_completed :: bool
  mi_claimed :: bool

record MissionsData =
  md_walletAddress :: string
  md_missions :: "Mission list"
  md_totalJup :: int
  md_level :: int
  md_streak :: int
  md_lastPlayDate :: "int option"
  md_jupiterSwapCount :: int
  md_totalDeposits :: int
  md_totalVolume :: rat
  md_roundsPlayed :: int
  md_wins :: int

record mission_env =
  me_fl :: "rat \<Rightarrow> rat"
  me_localDay :: "int \<Rightarrow> int"
  me_canStore :: bool

text \<open>The state of the hook and the storage.\<close>

record missions_hook =
  mh_data :: "MissionsData option"
  mh_storage :: "string \<Rightarrow> MissionsData option"

abbreviation new_mission :: "string \<Rightarrow> mission_type \<Rightarrow> rat \<Rightarrow> int \<Rightarrow> Mission" where
  "new_mission i t requirement xp \<equiv> \<lparr>mi_id = i, mi_type = t, mi_requirement = requirement, mi_progress = 0, mi_xp = xp,
     mi_completed = False, mi_claimed = False\<rparr>"

definition getDefaultMissions :: "Mission list" where
  "getDefaultMissions =
     [new_mission ''daily_deposit'' Daily 1 25, new_mission ''daily_3rounds'' Daily 3 50,
      new_mission ''daily_jupiter_swap'' Daily 1 40, new_mission ''weekly_volume'' Weekly 100 200,
      new_mission ''weekly_5_rounds'' Weekly 5 150, new_mission ''achievement_first_win'' Achievement 1 100,
      new_mission ''achievement_3day_streak'' Achievement 3 150, new_mission ''achievement_10_swaps'' Achievement 10 300]"

section \<open>Loading\<close>

text \<open>\<open>today\<close> of an instant in milliseconds, and \<open>new Date\<close> of a date: its midnight in UTC.\<close>

definition today :: "int \<Rightarrow> int" where
  "today now = now div 86400000"

definition getMonday :: "mission_env \<Rightarrow> int \<Rightarrow> int" where
  "getMonday c t =
     (let local = me_localDay c t; day = (local + 4) mod 7 in local - day + (if day = 0 then - 6 else 1))"

definition reset_missions :: "mission_type \<Rightarrow> Mission list \<Rightarrow> Mission list" where
  "reset_missions t = map (\<lambda>m. if mi_type m = t then m\<lparr>mi_progress := 0, mi_completed := False, mi_claimed := False\<rparr> else m)"

definition new_streak :: "int \<Rightarrow> int option \<Rightarrow> int \<Rightarrow> int" where
  "new_streak t lastDate streak =
     (case lastDate of None \<Rightarrow> streak
      | Some d \<Rightarrow> if t - d = 1 then streak + 1 else if 1 < t - d then 0 else streak)"

definition merge_missions :: "Mission list \<Rightarrow> Mission list" where
  "merge_missions ms =
     [m \<leftarrow> ms @ [dm \<leftarrow> getDefaultMissions. mi_id dm \<notin> mi_id ` set ms]. mi_id m \<in> mi_id ` set getDefaultMissions]"

definition fresh_data :: "string \<Rightarrow> MissionsData" where
  "fresh_data walletAddress = \<lparr>md_walletAddress = walletAddress, md_missions = getDefaultMissions, md_totalJup = 0, md_level = 1,
     md_streak = 0, md_lastPlayDate = None, md_jupiterSwapCount = 0, md_totalDeposits = 0, md_totalVolume = 0,
     md_roundsPlayed = 0, md_wins = 0\<rparr>"

definition loadMissionsData :: "mission_env \<Rightarrow> int \<Rightarrow> (string \<Rightarrow> MissionsData option) \<Rightarrow> string \<Rightarrow> MissionsData" where
  "loadMissionsData c now storage walletAddress =
     (case storage walletAddress of
        None \<Rightarrow> fresh_data walletAddress
      | Some d0 \<Rightarrow>
          let t = today now; lastDate = md_lastPlayDate d0;
              d1 = (if lastDate \<noteq> Some t
                then d0\<lparr>md_missions := reset_missions Daily (md_missions d0), md_streak := new_streak t lastDate (md_streak d0)\<rparr> else d0);
              sameWeek = (case lastDate of None \<Rightarrow> False | Some d \<Rightarrow> getMonday c now = getMonday c (d * 86400000));
              d2 = (if sameWeek then d1 else d1\<lparr>md_missions := reset_missions Weekly (md_missions d1)\<rparr>)
          in d2\<lparr>md_missions := merge_missions (md_missions d2)\<rparr>)"

section \<open>Events\<close>

definition saveMissionsData :: "mission_env \<Rightarrow> MissionsData \<Rightarrow> (string \<Rightarrow> MissionsData option) \<Rightarrow> (string \<Rightarrow> MissionsData option)" where
  "saveMissionsData c d storage = (if me_canStore c then storage(md_walletAddress d \<mapsto> d) else storage)"

definition select_wallet :: "mission_env \<Rightarrow> int \<Rightarrow> string option \<Rightarrow> missions_hook \<Rightarrow> missions_hook" where
  "select_wallet c now walletAddress s =
     s\<lparr>mh_data := map_option (loadMissionsData c now (mh_storage s)) walletAddress\<rparr>"

definition updateAndSave :: "mission_env \<Rightarrow> (MissionsData \<Rightarrow> MissionsData) \<Rightarrow> missions_hook \<Rightarrow> missions_hook" where
  "updateAndSave c updater s =
     (case mh_data s of
        None \<Rightarrow> s
      | Some prev \<Rightarrow>
          let next = updater prev;
              next = next\<lparr>md_missions := map (\<lambda>m. m\<lparr>mi_completed := mi_requirement m \<le> mi_progress m\<rparr>) (md_missions next)\<rparr>
          in \<lparr>mh_data = Some next, mh_storage = saveMissionsData c next (mh_storage s)\<rparr>)"

text \<open>An update of the first mission with an id, and the step of its progress.\<close>

fun update_first :: "string \<Rightarrow> (Mission \<Rightarrow> Mission) \<Rightarrow> Mission list \<Rightarrow> Mission list" where
  "update_first i f [] = []"
| "update_first i f (m # ms) = (if mi_id m = i then f m # ms else m # update_first i f ms)"

definition progress_to :: "(rat \<Rightarrow> rat) \<Rightarrow> Mission \<Rightarrow> Mission" where
  "progress_to v m = (if mi_completed m then m else m\<lparr>mi_progress := min (v (mi_progress m)) (mi_requirement m)\<rparr>)"

abbreviation advance :: "string \<Rightarrow> (rat \<Rightarrow> rat) \<Rightarrow> MissionsData \<Rightarrow> MissionsData" where
  "advance i v d \<equiv> d\<lparr>md_missions := update_first i (progress_to v) (md_missions d)\<rparr>"

definition trackDeposit :: "mission_env \<Rightarrow> int \<Rightarrow> rat \<Rightarrow> bool \<Rightarrow> missions_hook \<Rightarrow> missions_hook" where
  "trackDeposit c now amount isJupiterSwap = updateAndSave c (\<lambda>d.
     let d = d\<lparr>md_lastPlayDate := Some (today now), md_totalDeposits := md_totalDeposits d + 1,
           md_totalVolume := me_fl c (md_totalVolume d + amount)\<rparr>;
         d = advance ''daily_deposit'' (\<lambda>p. me_fl c (p + 1)) d;
         d = advance ''weekly_volume'' (\<lambda>p. me_fl c (p + amount)) d
     in if isJupiterSwap then
          let d = d\<lparr>md_jupiterSwapCount := md_jupiterSwapCount d + 1\<rparr>;
              d = advance ''daily_jupiter_swap'' (\<lambda>p. me_fl c (p + 1)) d
          in advance ''achievement_10_swaps'' (\<lambda>_. of_int (md_jupiterSwapCount d)) d
        else d)"

definition trackRoundPlayed :: "mission_env \<Rightarrow> int \<Rightarrow> missions_hook \<Rightarrow> missions_hook" where
  "trackRoundPlayed c now = updateAndSave c (\<lambda>d.
     let d = d\<lparr>md_lastPlayDate := Some (today now), md_roundsPlayed := md_roundsPlayed d + 1\<rparr>;
         d = advance ''daily_3rounds'' (\<lambda>p. me_fl c (p + 1)) d;
         d = advance ''weekly_5_rounds'' (\<lambda>p. me_fl c (p + 1)) d
     in advance ''achievement_3day_streak'' (\<lambda>_. of_int (md_streak d + 1)) d)"

definition trackWin :: "mission_env \<Rightarrow> missions_hook \<Rightarrow> missions_hook" where
  "trackWin c = updateAndSave c (\<lambda>d.
     let d = d\<lparr>md_wins := md_wins d + 1\<rparr> in advance ''achievement_first_win'' (\<lambda>_. of_int (md_wins d)) d)"

definition jupForLevel :: "int \<Rightarrow> int" where
  "jupForLevel level = level * 100"

text \<open>The loop that takes a player up the levels. It ends: a level from 1 on costs something, and a lower one leads to 1.\<close>

function level_up :: "int \<Rightarrow> int \<Rightarrow> int \<times> int" where
  "level_up totalJup level =
     (if jupForLevel level \<le> totalJup then level_up (totalJup - jupForLevel level) (level + 1) else (totalJup, level))"
  by pat_completeness auto
termination
  by (relation "measures [\<lambda>(_, level). nat (1 - level), \<lambda>(totalJup, _). nat totalJup]")
    (auto simp: jupForLevel_def)

declare level_up.simps [simp del]

definition claimMission :: "mission_env \<Rightarrow> string \<Rightarrow> missions_hook \<Rightarrow> missions_hook" where
  "claimMission c missionId = updateAndSave c (\<lambda>d.
     case find (\<lambda>m. mi_id m = missionId) (md_missions d) of
       None \<Rightarrow> d
     | Some m \<Rightarrow>
         if \<not> mi_completed m \<or> mi_claimed m then d
         else let (totalJup, level) = level_up (md_totalJup d + mi_xp m) (md_level d) in
           d\<lparr>md_missions := update_first missionId (\<lambda>m. m\<lparr>mi_claimed := True\<rparr>) (md_missions d),
             md_totalJup := totalJup, md_level := level\<rparr>)"

text \<open>What the hook shows.\<close>

definition claimableCount :: "missions_hook \<Rightarrow> nat" where
  "claimableCount s = (case mh_data s of None \<Rightarrow> 0 | Some d \<Rightarrow> length [m \<leftarrow> md_missions d. mi_completed m \<and> \<not> mi_claimed m])"

section \<open>Invariant\<close>

text \<open>A mission while an update runs, and a mission at rest.\<close>

definition mission_pre :: "Mission \<Rightarrow> bool" where
  "mission_pre m \<longleftrightarrow> (mi_claimed m \<longrightarrow> mi_completed m) \<and> (mi_completed m \<longrightarrow> mi_requirement m \<le> mi_progress m) \<and>
     mi_progress m \<le> mi_requirement m \<and> 0 < mi_requirement m \<and> 0 \<le> mi_xp m"

definition mission_ok :: "Mission \<Rightarrow> bool" where
  "mission_ok m \<longleftrightarrow> mission_pre m \<and> (mi_completed m \<longleftrightarrow> mi_progress m = mi_requirement m)"

definition default_ids :: "string list" where
  "default_ids = map mi_id getDefaultMissions"

definition data_with :: "(Mission \<Rightarrow> bool) \<Rightarrow> MissionsData \<Rightarrow> bool" where
  "data_with P d \<longleftrightarrow> list_all P (md_missions d) \<and> map mi_id (md_missions d) = default_ids \<and> 1 \<le> md_level d \<and>
     0 \<le> md_totalJup d \<and> md_totalJup d < jupForLevel (md_level d)"

abbreviation data_ok :: "MissionsData \<Rightarrow> bool" where "data_ok \<equiv> data_with mission_ok"

text \<open>All the JUP a player has earned: what the levels cost and what is left.\<close>

definition earned :: "MissionsData \<Rightarrow> int" where
  "earned d = md_totalJup d + 50 * md_level d * (md_level d - 1)"

lemma level_up_earns:
  assumes "1 \<le> level" "0 \<le> totalJup" "level_up totalJup level = (j, l)"
  shows "1 \<le> l \<and> 0 \<le> j \<and> j < jupForLevel l \<and> j + 50 * l * (l - 1) = totalJup + 50 * level * (level - 1)"
  using assms
proof (induction totalJup level rule: level_up.induct)
  case (1 totalJup level)
  show ?case
  proof (cases "jupForLevel level \<le> totalJup")
    case True
    with 1 have "1 \<le> l \<and> 0 \<le> j \<and> j < jupForLevel l \<and>
        j + 50 * l * (l - 1) = totalJup - jupForLevel level + 50 * (level + 1) * (level + 1 - 1)"
      by (simp add: level_up.simps [of totalJup level])
    then show ?thesis by (simp add: jupForLevel_def algebra_simps)
  qed (use 1 in \<open>simp add: level_up.simps [of totalJup level]\<close>)
qed

lemma ids_update_first [simp]:
  "(\<And>m. mi_id (f m) = mi_id m) \<Longrightarrow> map mi_id (update_first i f ms) = map mi_id ms"
  by (induction ms) auto

lemma all_update_first:
  "list_all P ms \<Longrightarrow> (\<And>m. P m \<Longrightarrow> P (f m)) \<Longrightarrow> list_all P (update_first i f ms)"
  by (induction ms) auto

lemma progress_to_id [simp]: "mi_id (progress_to v m) = mi_id m"
  by (simp add: progress_to_def)

lemma progress_to_pre: "mission_pre m \<Longrightarrow> mission_pre (progress_to v m)"
  by (auto simp: mission_pre_def progress_to_def)

lemma ok_pre: "data_ok d \<Longrightarrow> data_with mission_pre d"
  by (auto simp: data_with_def mission_ok_def list_all_iff)

lemma recompute_ok:
  "data_with mission_pre d \<Longrightarrow>
   data_ok (d\<lparr>md_missions := map (\<lambda>m. m\<lparr>mi_completed := mi_requirement m \<le> mi_progress m\<rparr>) (md_missions d)\<rparr>)"
  by (auto simp: data_with_def mission_ok_def mission_pre_def list_all_iff comp_def)

text \<open>The missions of a state and of its storage.\<close>

definition hook_ok :: "missions_hook \<Rightarrow> bool" where
  "hook_ok s \<longleftrightarrow> (\<forall>d. mh_data s = Some d \<longrightarrow> data_ok d) \<and> (\<forall>w d. mh_storage s w = Some d \<longrightarrow> data_ok d \<and> md_walletAddress d = w)"

lemma updateAndSave_ok:
  assumes "hook_ok s" and "\<And>d. data_ok d \<Longrightarrow> data_with mission_pre (f d)"
  shows "hook_ok (updateAndSave c f s)"
  using assms recompute_ok
  by (auto simp: updateAndSave_def hook_ok_def saveMissionsData_def Let_def split: option.splits)

lemma reset_ok:
  "list_all mission_ok ms \<Longrightarrow> list_all mission_ok (reset_missions t ms)"
  "map mi_id (reset_missions t ms) = map mi_id ms"
  by (auto simp: reset_missions_def list_all_iff mission_ok_def mission_pre_def comp_def)

lemma merge_default: "map mi_id ms = default_ids \<Longrightarrow> merge_missions ms = ms"
proof -
  assume h: "map mi_id ms = default_ids"
  then have "mi_id ` set ms = mi_id ` set getDefaultMissions" by (metis default_ids_def list.set_map)
  then show ?thesis by (auto simp: merge_missions_def intro!: filter_True)
qed

lemma fresh_ok: "data_ok (fresh_data w)"
  by (simp add: data_with_def fresh_data_def default_ids_def getDefaultMissions_def mission_ok_def mission_pre_def jupForLevel_def)

lemma load_ok:
  assumes "\<And>w d. storage w = Some d \<Longrightarrow> data_ok d"
  shows "data_ok (loadMissionsData c now storage w)"
proof (cases "storage w")
  case (Some d)
  then have "data_ok d" by (rule assms)
  then show ?thesis using Some
    by (auto simp: loadMissionsData_def Let_def data_with_def merge_default reset_ok split: option.splits)
qed (simp add: loadMissionsData_def fresh_ok)

inductive missions_run :: "mission_env \<Rightarrow> missions_hook \<Rightarrow> bool" for c where
  first_visit: "missions_run c \<lparr>mh_data = None, mh_storage = Map.empty\<rparr>"
| wallet: "missions_run c s \<Longrightarrow> missions_run c (select_wallet c now w s)"
| deposit: "missions_run c s \<Longrightarrow> missions_run c (trackDeposit c now amount isSwap s)"
| played: "missions_run c s \<Longrightarrow> missions_run c (trackRoundPlayed c now s)"
| won: "missions_run c s \<Longrightarrow> missions_run c (trackWin c s)"
| claim: "missions_run c s \<Longrightarrow> missions_run c (claimMission c i s)"

lemma find_mission:
  assumes "find (\<lambda>m. mi_id m = i) ms = Some m" and "P m" and "list_all P ms" and "P (f m)"
  shows "list_all P (update_first i f ms)"
  using assms by (induction ms) (auto split: if_splits)

lemma claim_pre:
  assumes "data_ok d" "find (\<lambda>m. mi_id m = i) (md_missions d) = Some m" "mi_completed m" "\<not> mi_claimed m"
    and "level_up (md_totalJup d + mi_xp m) (md_level d) = (j, l)"
  shows "data_with mission_pre (d\<lparr>md_missions := update_first i (\<lambda>m. m\<lparr>mi_claimed := True\<rparr>) (md_missions d), md_totalJup := j, md_level := l\<rparr>)"
    and "j + 50 * l * (l - 1) = earned d + mi_xp m"
proof -
  have "m \<in> set (md_missions d)" using assms(2) by (auto simp: find_Some_iff)
  with assms(1) have m: "mission_pre m" by (auto simp: data_with_def list_all_iff mission_ok_def)
  have "1 \<le> l \<and> 0 \<le> j \<and> j < jupForLevel l \<and> j + 50 * l * (l - 1) = md_totalJup d + mi_xp m + 50 * md_level d * (md_level d - 1)"
    by (rule level_up_earns [OF _ _ assms(5)]) (use assms(1) m in \<open>auto simp: data_with_def mission_pre_def\<close>)
  moreover have "list_all mission_pre (update_first i (\<lambda>m. m\<lparr>mi_claimed := True\<rparr>) (md_missions d))"
    by (rule find_mission [where P = mission_pre, OF assms(2) m]) (use ok_pre [OF assms(1)] m assms(3) in \<open>auto simp: data_with_def mission_pre_def\<close>)
  ultimately show "data_with mission_pre (d\<lparr>md_missions := update_first i (\<lambda>m. m\<lparr>mi_claimed := True\<rparr>) (md_missions d), md_totalJup := j, md_level := l\<rparr>)"
    and "j + 50 * l * (l - 1) = earned d + mi_xp m"
    using assms(1) by (auto simp: data_with_def earned_def)
qed

lemma run_ok: "missions_run c s \<Longrightarrow> hook_ok s"
proof (induction rule: missions_run.induct)
  case first_visit
  then show ?case by (simp add: hook_ok_def)
next
  case (wallet s now w)
  then show ?case using load_ok [of "mh_storage s" c now] by (auto simp: hook_ok_def select_wallet_def)
next
  case (deposit s now amount isSwap)
  show ?case unfolding trackDeposit_def
    by (rule updateAndSave_ok [OF deposit.IH], drule ok_pre) (auto simp: Let_def data_with_def all_update_first progress_to_pre)
next
  case (played s now)
  show ?case unfolding trackRoundPlayed_def
    by (rule updateAndSave_ok [OF played.IH], drule ok_pre) (auto simp: Let_def data_with_def all_update_first progress_to_pre)
next
  case (won s)
  show ?case unfolding trackWin_def
    by (rule updateAndSave_ok [OF won.IH], drule ok_pre) (auto simp: Let_def data_with_def all_update_first progress_to_pre)
next
  case (claim s i)
  show ?case unfolding claimMission_def
    by (rule updateAndSave_ok [OF claim.IH]) (auto simp: ok_pre claim_pre(1) split: option.split prod.split)
qed

text \<open>The reward that a claim would pay.\<close>

definition reward :: "string \<Rightarrow> MissionsData \<Rightarrow> int" where
  "reward i d = (\<Sum>m \<leftarrow> md_missions d. if mi_id m = i \<and> mi_completed m \<and> \<not> mi_claimed m then mi_xp m else 0)"

lemma reward_find:
  assumes "distinct (map mi_id ms)"
  shows "(\<Sum>m \<leftarrow> ms. if mi_id m = i \<and> mi_completed m \<and> \<not> mi_claimed m then mi_xp m else 0) =
    (case find (\<lambda>m. mi_id m = i) ms of None \<Rightarrow> 0 | Some m \<Rightarrow> if mi_completed m \<and> \<not> mi_claimed m then mi_xp m else 0)"
  using assms
proof (induction ms)
  case (Cons m ms)
  have "(\<Sum>m \<leftarrow> ms. if mi_id m = i \<and> mi_completed m \<and> \<not> mi_claimed m then mi_xp m else 0) = 0" if "mi_id m = i"
    using that Cons.prems by (induction ms) auto
  with Cons show ?case by auto
qed simp

lemma updateAndSave_data:
  "mh_data (updateAndSave c f s) = map_option (\<lambda>d. let d' = f d in
     d'\<lparr>md_missions := map (\<lambda>m. m\<lparr>mi_completed := mi_requirement m \<le> mi_progress m\<rparr>) (md_missions d')\<rparr>) (mh_data s)"
  by (simp add: updateAndSave_def Let_def split: option.split)

lemma claimed_first:
  assumes "distinct (map mi_id ms)"
  shows "\<forall>m \<in> set (update_first i (\<lambda>m. m\<lparr>mi_claimed := True\<rparr>) ms). mi_id m = i \<longrightarrow> mi_claimed m"
  using assms
proof (induction ms)
  case (Cons a ms)
  show ?case
  proof (cases "mi_id a = i")
    case True
    with Cons.prems have "\<forall>m \<in> set ms. mi_id m \<noteq> i" by (metis distinct.simps(2) image_eqI list.set_map list.simps(9))
    with True show ?thesis by simp
  qed (use Cons in simp)
qed simp

lemma distinct_ids: "distinct default_ids"
  by (simp add: default_ids_def getDefaultMissions_def)

section \<open>Properties\<close>

text \<open>C36. In every state that visits, deposits, rounds, wins and claims can lead to, at any times and for any wallets: a claimed
  mission is completed, a mission is completed exactly when its progress is at its goal and no progress is beyond it, and the
  JUP that are left do not pay for the next level. A claim of a mission pays its reward once: everything the player has earned
  grows by exactly that, and nothing is left to claim for it.\<close>

theorem missions_pay_once:
  assumes "missions_run c s" and "mh_data s = Some d"
  shows "data_ok d \<and> (\<exists>d'. mh_data (claimMission c i s) = Some d' \<and> data_ok d' \<and> earned d' = earned d + reward i d \<and> reward i d' = 0)"
proof -
  have ok: "data_ok d" using run_ok [OF assms(1)] assms(2) by (auto simp: hook_ok_def)
  then have ids: "distinct (map mi_id (md_missions d))" by (simp add: data_with_def distinct_ids)
  obtain d' where d': "mh_data (claimMission c i s) = Some d'" using assms(2) by (simp add: claimMission_def updateAndSave_data)
  have ok': "data_ok d'" using run_ok [OF missions_run.claim [OF assms(1)], of i] d' by (auto simp: hook_ok_def)
  then have ids': "distinct (map mi_id (md_missions d'))" by (simp add: data_with_def distinct_ids)
  let ?c = "map (\<lambda>m. m\<lparr>mi_completed := mi_requirement m \<le> mi_progress m\<rparr>)"
  have same: "?c (md_missions d) = md_missions d"
    using ok by (auto simp: data_with_def mission_ok_def mission_pre_def list_all_iff intro!: map_idI)
  show ?thesis
  proof (cases "\<exists>m. find (\<lambda>m. mi_id m = i) (md_missions d) = Some m \<and> mi_completed m \<and> \<not> mi_claimed m")
    case True
    then obtain m j l where m: "find (\<lambda>m. mi_id m = i) (md_missions d) = Some m" "mi_completed m" "\<not> mi_claimed m"
      and jl: "level_up (md_totalJup d + mi_xp m) (md_level d) = (j, l)" by (meson surj_pair)
    then have e: "d' = d\<lparr>md_totalJup := j, md_level := l, md_missions := ?c (update_first i (\<lambda>m. m\<lparr>mi_claimed := True\<rparr>) (md_missions d))\<rparr>"
      using d' assms(2) by (auto simp: claimMission_def updateAndSave_data)
    have "mi_claimed n" if "n \<in> set (md_missions d')" "mi_id n = i" for n
      using that claimed_first [OF ids] by (auto simp: e)
    then have "reward i d' = 0" unfolding reward_def by (intro sum_list_nonneg_eq_0_iff [THEN iffD2]) auto
    then show ?thesis using ok ok' d' claim_pre(2) [OF ok m jl] m
      by (simp add: e earned_def reward_def reward_find [OF ids])
  next
    case False
    then have "d' = d\<lparr>md_missions := ?c (md_missions d)\<rparr>"
      using d' assms(2) by (auto simp: claimMission_def updateAndSave_data split: option.splits)
    with same have "d' = d" by simp
    with False ok d' show ?thesis by (auto simp: reward_def reward_find [OF ids] split: option.splits)
  qed
qed

definition demo_missions :: mission_env where
  "demo_missions = \<lparr>me_fl = (\<lambda>x. x), me_localDay = today, me_canStore = True\<rparr>"

definition demo_missions_hook :: missions_hook where
  "demo_missions_hook = trackWin demo_missions (select_wallet demo_missions 0 (Some ''w'') \<lparr>mh_data = None, mh_storage = Map.empty\<rparr>)"

lemma demo_hook_data:
  "\<exists>d. mh_data demo_missions_hook = Some d \<and> reward ''achievement_first_win'' d = 100 \<and> earned d = 0"
  by (simp add: demo_missions_hook_def demo_missions_def trackWin_def select_wallet_def updateAndSave_data loadMissionsData_def fresh_data_def
      getDefaultMissions_def progress_to_def reward_def earned_def)

theorem missions_pay_once_witness:
  "\<exists>d. mh_data (claimMission demo_missions ''achievement_first_win'' demo_missions_hook) = Some d \<and> earned d = 100 \<and>
     reward ''achievement_first_win'' d = 0"
proof -
  obtain d where d: "mh_data demo_missions_hook = Some d" "reward ''achievement_first_win'' d = 100" "earned d = 0"
    using demo_hook_data by blast
  have "missions_run demo_missions demo_missions_hook"
    unfolding demo_missions_hook_def by (intro missions_run.intros)
  from missions_pay_once [OF this d(1), of "''achievement_first_win''"] d(2,3) show ?thesis by auto
qed

abbreviation visit_and_win :: "mission_env \<Rightarrow> int \<Rightarrow> string \<Rightarrow> missions_hook \<Rightarrow> missions_hook" where
  "visit_and_win c now w s \<equiv> trackWin c (select_wallet c now (Some w) s)"

lemma load_day_after:
  assumes "storage w = Some d" "md_lastPlayDate d = Some (today now - 1)"
  shows "md_streak (loadMissionsData c now storage w) = md_streak d + 1"
    "md_lastPlayDate (loadMissionsData c now storage w) = Some (today now - 1)"
    "md_walletAddress (loadMissionsData c now storage w) = md_walletAddress d"
  using assms by (simp_all add: loadMissionsData_def Let_def new_streak_def)

lemma visit_and_win_streak:
  assumes "me_canStore c" "mh_storage s w = Some d" "md_walletAddress d = w" "md_lastPlayDate d = Some (today now - 1)"
  shows "\<exists>d'. mh_storage (visit_and_win c now w s) w = Some d' \<and> md_walletAddress d' = w \<and>
    md_lastPlayDate d' = Some (today now - 1) \<and> md_streak d' = md_streak d + 1"
  using assms load_day_after [of "mh_storage s" w, OF assms(2,4)]
  by (simp add: trackWin_def select_wallet_def updateAndSave_def saveMissionsData_def Let_def)

text \<open>C37. The streak counts visits instead of days. A visit on the day after the last play adds one to the streak, and a win (or a
  claim) saves that without the date: the next visit of the same day adds one again. After \<open>n\<close> visits with a win on one day the
  streak is \<open>n\<close> higher, and the date of the last play is still the day before.\<close>

theorem streak_counts_visits:
  assumes "me_canStore c" "mh_storage s w = Some d" "md_walletAddress d = w" "md_lastPlayDate d = Some (today now - 1)"
  shows "\<exists>d'. mh_storage ((visit_and_win c now w ^^ n) s) w = Some d' \<and> md_lastPlayDate d' = Some (today now - 1) \<and>
    md_streak d' = md_streak d + int n"
proof -
  have "\<exists>d'. mh_storage ((visit_and_win c now w ^^ n) s) w = Some d' \<and> md_walletAddress d' = w \<and>
      md_lastPlayDate d' = Some (today now - 1) \<and> md_streak d' = md_streak d + int n"
  proof (induction n)
    case 0
    show ?case using assms by simp
  next
    case (Suc n)
    then obtain d' where "mh_storage ((visit_and_win c now w ^^ n) s) w = Some d'" "md_walletAddress d' = w"
      "md_lastPlayDate d' = Some (today now - 1)" "md_streak d' = md_streak d + int n" by blast
    with visit_and_win_streak [OF assms(1) this(1-3)] show ?case by auto
  qed
  then show ?thesis by blast
qed

definition demo_player :: missions_hook where
  "demo_player = \<lparr>mh_data = None, mh_storage = [''w'' \<mapsto> (fresh_data ''w'')\<lparr>md_lastPlayDate := Some 9\<rparr>]\<rparr>"

theorem streak_counts_visits_witness:
  "\<exists>d. mh_storage ((visit_and_win demo_missions 864000000 ''w'' ^^ 3) demo_player) ''w'' = Some d \<and> md_streak d = 3 \<and>
     md_lastPlayDate d = Some 9"
  using streak_counts_visits [of demo_missions demo_player "''w''" "(fresh_data ''w'')\<lparr>md_lastPlayDate := Some 9\<rparr>" 864000000 3]
  by (auto simp: demo_missions_def demo_player_def fresh_data_def today_def)

text \<open>West of Greenwich the midnight in UTC of a Monday is still Sunday: a player who has already played on a Monday loses the
  progress of the weekly missions with every visit of that day.\<close>

lemma west_monday_resets:
  assumes "me_localDay c = (\<lambda>t. (t - 5 * 3600000) div 86400000)" "now = (7 * k + 4) * 86400000 + 12 * 3600000"
    and "storage w = Some d" "md_lastPlayDate d = Some (today now)" "data_ok d"
  shows "\<forall>m \<in> set (md_missions (loadMissionsData c now storage w)). mi_type m = Weekly \<longrightarrow> mi_progress m = 0"
proof -
  have t: "today now = 7 * k + 4" using assms(2) by (simp add: today_def)
  have "now - 5 * 3600000 = 25200000 + (7 * k + 4) * 86400000" "today now * 86400000 - 5 * 3600000 = 68400000 + (7 * k + 3) * 86400000"
    unfolding t using assms(2) by simp_all
  then have now: "me_localDay c now = 7 * k + 4" and last: "me_localDay c (today now * 86400000) = 7 * k + 3"
    by (simp_all add: assms(1) div_mult_self1 del: distrib_right_numeral)
  have "(7 * k + 8) mod 7 = 1" "(7 * k + 7) mod 7 = 0" by presburger+
  then have "getMonday c now \<noteq> getMonday c (today now * 86400000)" by (simp add: getMonday_def Let_def now last)
  moreover have "map mi_id (md_missions d) = default_ids" using assms(5) by (simp add: data_with_def)
  ultimately show ?thesis using assms(3,4)
    by (auto simp: loadMissionsData_def Let_def merge_default reset_ok) (auto simp: reset_missions_def)
qed

end
