(* ===== verification/Rpc_Proxy.thy ===== *)
theory Rpc_Proxy
  imports Solana Effects "HOL-Library.AList"
begin

text \<open>
  The RPC proxy (\<open>rpc-proxy/src/index.ts\<close>), a worker between the browsers and Helius. Plain requests go through
  \<open>handleHttp\<close>; a web socket is a bridge between two sockets, whose listeners are the cases of \<open>on_event\<close>.

  The platform is a parameter: \<open>fetch\<close>, the close codes that \<open>WebSocket.close\<close> accepts and whether \<open>send\<close> throws on
  a socket that is closed.
\<close>

section \<open>Origins\<close>

record proxy_env =
  HELIUS_API_KEY :: string
  ALLOWED_ORIGINS :: string

fun js_split :: "char \<Rightarrow> string \<Rightarrow> string list" where
  "js_split sep [] = [[]]"
| "js_split sep (x # xs) =
     (if x = sep then [] # js_split sep xs else (case js_split sep xs of [] \<Rightarrow> [[x]] | y # ys \<Rightarrow> (x # y) # ys))"

definition getAllowedOrigins :: "proxy_env \<Rightarrow> string list" where
  "getAllowedOrigins env = [origin \<leftarrow> map js_trim (js_split CHR '','' (ALLOWED_ORIGINS env)). origin \<noteq> []]"

definition isOriginAllowed :: "string option \<Rightarrow> proxy_env \<Rightarrow> bool" where
  "isOriginAllowed origin env =
     (case origin of None \<Rightarrow> False | Some o' \<Rightarrow> o' \<noteq> [] \<and> o' \<in> set (getAllowedOrigins env))"

text \<open>Header names are kept in lower case, as \<open>Headers\<close> keeps them.\<close>

type_synonym headers = "(string \<times> string) list"

definition corsHeaders :: "string \<Rightarrow> headers" where
  "corsHeaders origin =
     [(''access-control-allow-origin'', origin),
      (''access-control-allow-methods'', ''GET, POST, OPTIONS''),
      (''access-control-allow-headers'', ''Content-Type, solana-client'')]"

definition set_header :: "string \<times> string \<Rightarrow> headers \<Rightarrow> headers" where
  "set_header kv hs = AList.update (fst kv) (snd kv) hs"

section \<open>HTTP\<close>

record proxy_request =
  pq_method :: string
  pq_origin :: "string option"
  pq_upgrade :: "string option"
  pq_body :: string

record proxy_response =
  pr_status :: int
  pr_body :: "string option"
  pr_headers :: headers

abbreviation plain_response :: "int \<Rightarrow> string \<Rightarrow> proxy_response" where
  "plain_response status body \<equiv> \<lparr>pr_status = status, pr_body = Some body, pr_headers = []\<rparr>"

definition HELIUS_RPC :: string where "HELIUS_RPC = ''https://mainnet.helius-rpc.com''"
definition HELIUS_WS :: string where "HELIUS_WS = ''wss://mainnet.helius-rpc.com''"

text \<open>A header is absent, or truthy unless it is empty.\<close>

definition foreign_origin :: "string option \<Rightarrow> proxy_env \<Rightarrow> bool" where
  "foreign_origin origin env \<longleftrightarrow> (case origin of None \<Rightarrow> False | Some o' \<Rightarrow> o' \<noteq> []) \<and> \<not> isOriginAllowed origin env"

definition handleHttp :: "(string \<Rightarrow> string \<Rightarrow> ('w, proxy_response result) state) \<Rightarrow> proxy_env \<Rightarrow> proxy_request \<Rightarrow>
    ('w, proxy_response result) state" where
  "handleHttp fetch env request =
     (let origin = pq_origin request in
      if pq_method request = ''OPTIONS'' then
        (if \<not> isOriginAllowed origin env then returnE \<lparr>pr_status = 403, pr_body = None, pr_headers = []\<rparr>
         else returnE \<lparr>pr_status = 204, pr_body = None, pr_headers = corsHeaders (the origin)\<rparr>)
      else if pq_method request \<noteq> ''POST'' then returnE (plain_response 405 ''Method Not Allowed'')
      else if foreign_origin origin env then returnE (plain_response 403 ''Origin not allowed'')
      else bindE (fetch (HELIUS_RPC @ ''/?api-key='' @ HELIUS_API_KEY env) (pq_body request)) (\<lambda>rpcResponse.
        returnE (case origin of
            None \<Rightarrow> rpcResponse
          | Some o' \<Rightarrow> if o' = [] then rpcResponse
              else rpcResponse\<lparr>pr_headers := fold set_header (corsHeaders o') (pr_headers rpcResponse)\<rparr>)))"

section \<open>The bridge of two web sockets\<close>

datatype socket = Connecting | Running | Gone

text \<open>What goes up to Helius: a message of the client, or a keepalive ping.\<close>

datatype 'm upstream = Relay 'm | Ping

record 'm bridge =
  br_heliusReady :: bool
  br_bufferedMessages :: "'m list"
  br_helius :: socket
  br_up :: "'m upstream list"
  br_clientOpen :: bool
  br_down :: "'m list"
  br_closeFrame :: "(int \<times> string) option"
  br_keepalive :: bool

record platform =
  pl_closeCode :: "int \<Rightarrow> bool"
  pl_sendThrows :: bool

datatype 'm ws_event = HeliusOpen | HeliusMessage 'm | HeliusClose int string | HeliusError
  | ClientMessage 'm | ClientClose | KeepaliveTick

text \<open>\<open>heliusWs.send\<close>: on a socket that is closing or closed nothing is sent. \<open>serverSideWs.close\<close>: with a code that the
  platform refuses it throws, and the listeners drop that error.\<close>

definition heliusSend :: "'m upstream \<Rightarrow> 'm bridge \<Rightarrow> 'm bridge" where
  "heliusSend m s = (if br_helius s = Running then s\<lparr>br_up := br_up s @ [m]\<rparr> else s)"

definition clientClose :: "platform \<Rightarrow> int \<Rightarrow> string \<Rightarrow> 'm bridge \<Rightarrow> 'm bridge" where
  "clientClose pl code reason s =
     (if br_clientOpen s \<and> pl_closeCode pl code then s\<lparr>br_clientOpen := False, br_closeFrame := Some (code, reason)\<rparr> else s)"

definition bridge_start :: "'m bridge" where
  "bridge_start = \<lparr>br_heliusReady = False, br_bufferedMessages = [], br_helius = Connecting, br_up = [], br_clientOpen = True,
     br_down = [], br_closeFrame = None, br_keepalive = True\<rparr>"

fun on_event :: "platform \<Rightarrow> 'm ws_event \<Rightarrow> 'm bridge \<Rightarrow> 'm bridge" where
  "on_event pl HeliusOpen s =
     (let s1 = s\<lparr>br_helius := Running, br_heliusReady := True\<rparr> in
      (fold (\<lambda>msg. heliusSend (Relay msg)) (br_bufferedMessages s1) s1)\<lparr>br_bufferedMessages := []\<rparr>)"
| "on_event pl (HeliusMessage m) s = (if br_clientOpen s then s\<lparr>br_down := br_down s @ [m]\<rparr> else s)"
| "on_event pl (HeliusClose code reason) s = (clientClose pl code reason (s\<lparr>br_helius := Gone\<rparr>))\<lparr>br_keepalive := False\<rparr>"
| "on_event pl HeliusError s = clientClose pl 1011 ''Upstream error'' s"
| "on_event pl (ClientMessage m) s =
     (if br_heliusReady s then heliusSend (Relay m) s else s\<lparr>br_bufferedMessages := br_bufferedMessages s @ [m]\<rparr>)"
| "on_event pl ClientClose s = s\<lparr>br_clientOpen := False, br_helius := Gone, br_keepalive := False\<rparr>"
| "on_event pl KeepaliveTick s =
     (if br_keepalive s \<and> br_heliusReady s then
        if br_helius s \<noteq> Running \<and> pl_sendThrows pl then s\<lparr>br_keepalive := False\<rparr> else heliusSend Ping s
      else s)"

text \<open>The upgrade request: an error response, or a bridge with the upstream address.\<close>

definition handleWs :: "proxy_env \<Rightarrow> proxy_request \<Rightarrow> proxy_response + string \<times> 'm bridge" where
  "handleWs env request =
     (if foreign_origin (pq_origin request) env then Inl (plain_response 403 ''Origin not allowed'')
      else if map_option js_lower (pq_upgrade request) \<noteq> Some ''websocket'' then Inl (plain_response 426 ''Expected WebSocket upgrade'')
      else Inr (HELIUS_WS @ ''/?api-key='' @ HELIUS_API_KEY env, bridge_start))"

definition fetch_worker :: "(string \<Rightarrow> string \<Rightarrow> ('w, proxy_response result) state) \<Rightarrow> proxy_env \<Rightarrow> proxy_request \<Rightarrow>
    ('w, (proxy_response + string \<times> 'm bridge) result) state" where
  "fetch_worker fetch env request =
     (if HELIUS_API_KEY env = [] then returnE (Inl (plain_response 500 ''HELIUS_API_KEY not configured''))
      else if map_option js_lower (pq_upgrade request) = Some ''websocket'' then returnE (handleWs env request)
      else bindE (handleHttp fetch env request) (\<lambda>r. returnE (Inl r)))"

section \<open>Runs of a bridge\<close>

text \<open>The events of a connection. All that is assumed of their order is that the upstream socket opens only while it is connecting.\<close>

inductive bridge_run :: "platform \<Rightarrow> 'm ws_event list \<Rightarrow> 'm bridge \<Rightarrow> bool" for pl where
  run_start: "bridge_run pl [] bridge_start"
| run_event: "bridge_run pl (es @ [e]) (on_event pl e s)"
    if "bridge_run pl es s" "e = HeliusOpen \<longrightarrow> br_helius s = Connecting"

inductive_cases run_snocE: "bridge_run pl (es @ [e]) s"

fun client_messages :: "'m ws_event list \<Rightarrow> 'm list" where
  "client_messages [] = []"
| "client_messages (ClientMessage m # es) = m # client_messages es"
| "client_messages (_ # es) = client_messages es"

fun helius_messages :: "'m ws_event list \<Rightarrow> 'm list" where
  "helius_messages [] = []"
| "helius_messages (HeliusMessage m # es) = m # helius_messages es"
| "helius_messages (_ # es) = helius_messages es"

fun relayed :: "'m upstream list \<Rightarrow> 'm list" where
  "relayed [] = []"
| "relayed (Relay m # ms) = m # relayed ms"
| "relayed (Ping # ms) = relayed ms"

fun ends_up :: "'m ws_event \<Rightarrow> bool" where
  "ends_up (HeliusClose _ _) = True"
| "ends_up ClientClose = True"
| "ends_up _ = False"

fun ends_down :: "platform \<Rightarrow> 'm ws_event \<Rightarrow> bool" where
  "ends_down pl (HeliusClose code _) = pl_closeCode pl code"
| "ends_down pl HeliusError = pl_closeCode pl 1011"
| "ends_down pl ClientClose = True"
| "ends_down pl _ = False"

lemma client_messages_append [simp]: "client_messages (xs @ ys) = client_messages xs @ client_messages ys"
  by (induction xs rule: client_messages.induct) auto

lemma helius_messages_append [simp]: "helius_messages (xs @ ys) = helius_messages xs @ helius_messages ys"
  by (induction xs rule: helius_messages.induct) auto

lemma relayed_append [simp]: "relayed (xs @ ys) = relayed xs @ relayed ys"
  by (induction xs rule: relayed.induct) auto

lemma flush_running:
  assumes "br_helius s = Running"
  shows "fold (\<lambda>msg. heliusSend (Relay msg)) ms s = s\<lparr>br_up := br_up s @ map Relay ms\<rparr>"
  using assms by (induction ms arbitrary: s) (simp_all add: heliusSend_def)

lemma relayed_map [simp]: "relayed (map Relay ms) = ms"
  by (induction ms) auto

text \<open>The part of a run before the first event that closes a side.\<close>

definition up_part :: "'m ws_event list \<Rightarrow> 'm ws_event list" where
  "up_part es = takeWhile (\<lambda>e. \<not> ends_up e) es"

definition down_part :: "platform \<Rightarrow> 'm ws_event list \<Rightarrow> 'm ws_event list" where
  "down_part pl es = takeWhile (\<lambda>e. \<not> ends_down pl e) es"

lemma takeWhile_snoc:
  "takeWhile P (xs @ [x]) = (if \<forall>y \<in> set xs. P y then xs @ takeWhile P [x] else takeWhile P xs)"
  by (induction xs) auto

lemma part_whole:
  "\<forall>e \<in> set es. \<not> ends_up e \<Longrightarrow> up_part es = es"
  "\<forall>e \<in> set es. \<not> ends_down pl e \<Longrightarrow> down_part pl es = es"
  by (simp_all add: up_part_def down_part_def)

lemma part_snoc:
  "up_part (es @ [e]) = (if \<forall>x \<in> set es. \<not> ends_up x then if ends_up e then es else es @ [e] else up_part es)"
  "down_part pl (es @ [e]) = (if \<forall>x \<in> set es. \<not> ends_down pl x then if ends_down pl e then es else es @ [e] else down_part pl es)"
  by (simp_all add: up_part_def down_part_def takeWhile_snoc)

lemma bridge_up:
  assumes "bridge_run pl es s"
  shows "(br_helius s = Gone \<longleftrightarrow> (\<exists>e \<in> set es. ends_up e)) \<and>
    (br_helius s = Running \<longrightarrow> br_heliusReady s) \<and> (br_helius s = Connecting \<longrightarrow> \<not> br_heliusReady s) \<and>
    (if br_heliusReady s then br_bufferedMessages s = [] \<and> relayed (br_up s) = client_messages (up_part es)
     else br_bufferedMessages s = client_messages es \<and> br_up s = [])"
  using assms
proof (induction rule: bridge_run.induct)
  case run_start
  then show ?case by (simp add: bridge_start_def)
next
  case (run_event es s e)
  then show ?case
    by (cases e; cases "br_helius s")
      (auto simp: flush_running heliusSend_def clientClose_def part_snoc part_whole split: if_splits)
qed

lemma bridge_down:
  assumes "bridge_run pl es s"
  shows "(br_clientOpen s \<longleftrightarrow> (\<forall>e \<in> set es. \<not> ends_down pl e)) \<and> br_down s = helius_messages (down_part pl es) \<and>
    (br_clientOpen s \<longrightarrow> br_closeFrame s = None)"
  using assms
proof (induction rule: bridge_run.induct)
  case run_start
  then show ?case by (simp add: bridge_start_def down_part_def)
next
  case (run_event es s e)
  have flush: "br_clientOpen (fold (\<lambda>msg. heliusSend (Relay msg)) ms t) = br_clientOpen t"
    "br_down (fold (\<lambda>msg. heliusSend (Relay msg)) ms t) = br_down t"
    "br_closeFrame (fold (\<lambda>msg. heliusSend (Relay msg)) ms t) = br_closeFrame t" for ms and t :: "'a bridge"
    by (induction ms arbitrary: t) (simp_all add: heliusSend_def)
  from run_event show ?case
    by (cases e) (auto simp: flush heliusSend_def clientClose_def part_snoc part_whole split: if_splits)
qed

text \<open>An executable check that a list of events is a run.\<close>

fun replay :: "platform \<Rightarrow> 'm ws_event list \<Rightarrow> 'm bridge \<Rightarrow> 'm bridge option" where
  "replay pl [] s = Some s"
| "replay pl (e # es) s = (if e = HeliusOpen \<and> br_helius s \<noteq> Connecting then None else replay pl es (on_event pl e s))"

lemma replay_run:
  assumes "bridge_run pl es0 s" and "replay pl es s = Some t"
  shows "bridge_run pl (es0 @ es) t"
  using assms
proof (induction es arbitrary: es0 s)
  case (Cons e es)
  then have "bridge_run pl (es0 @ [e]) (on_event pl e s)" "replay pl es (on_event pl e s) = Some t"
    by (auto intro!: run_event split: if_splits)
  from Cons.IH [OF this] show ?case by simp
qed simp

lemma replay_start: "replay pl es bridge_start = Some t \<Longrightarrow> bridge_run pl es t"
  using replay_run [OF run_start] by fastforce

section \<open>Properties\<close>

text \<open>A request that names an origin outside the list never reaches Helius: it gets an error of the proxy and the world is
  as it was. A request from the list gets the answer of Helius, with its status and body and with the origin it asked for.\<close>

theorem proxy_checks_origin:
  "(foreign_origin (pq_origin rq) env \<longrightarrow>
      (\<exists>r. run_state (fetch_worker fetch env rq) w = (Inr (Inl r), w) \<and> pr_status r \<in> {403, 405, 500})) \<and>
   (HELIUS_API_KEY env \<noteq> [] \<and> pq_upgrade rq = None \<and> pq_method rq = ''POST'' \<and> pq_origin rq = Some origin \<and>
      isOriginAllowed (Some origin) env \<and>
      run_state (fetch (HELIUS_RPC @ ''/?api-key='' @ HELIUS_API_KEY env) (pq_body rq)) w = (Inr r, w') \<longrightarrow>
      (\<exists>r'. run_state (fetch_worker fetch env rq) w = (Inr (Inl r'), w') \<and> pr_status r' = pr_status r \<and> pr_body r' = pr_body r \<and>
        map_of (pr_headers r') ''access-control-allow-origin'' = Some origin))"
proof (intro conjI impI)
  assume foreign: "foreign_origin (pq_origin rq) env"
  then have "\<not> isOriginAllowed (pq_origin rq) env" by (simp add: foreign_origin_def)
  with foreign have "handleHttp fetch env rq = returnE (if pq_method rq = ''OPTIONS'' then \<lparr>pr_status = 403, pr_body = None, pr_headers = []\<rparr>
      else if pq_method rq \<noteq> ''POST'' then plain_response 405 ''Method Not Allowed'' else plain_response 403 ''Origin not allowed'')"
    by (simp add: handleHttp_def Let_def)
  with foreign show "\<exists>r. run_state (fetch_worker fetch env rq) w = (Inr (Inl r), w) \<and> pr_status r \<in> {403, 405, 500}"
    by (auto simp: fetch_worker_def handleWs_def)
next
  assume h: "HELIUS_API_KEY env \<noteq> [] \<and> pq_upgrade rq = None \<and> pq_method rq = ''POST'' \<and> pq_origin rq = Some origin \<and>
      isOriginAllowed (Some origin) env \<and>
      run_state (fetch (HELIUS_RPC @ ''/?api-key='' @ HELIUS_API_KEY env) (pq_body rq)) w = (Inr r, w')"
  then have "origin \<noteq> []" by (simp add: isOriginAllowed_def)
  with h have "run_state (handleHttp fetch env rq) w = (Inr (r\<lparr>pr_headers := fold set_header (corsHeaders origin) (pr_headers r)\<rparr>), w')"
    by (simp add: handleHttp_def foreign_origin_def)
  with h show "\<exists>r'. run_state (fetch_worker fetch env rq) w = (Inr (Inl r'), w') \<and> pr_status r' = pr_status r \<and>
      pr_body r' = pr_body r \<and> map_of (pr_headers r') ''access-control-allow-origin'' = Some origin"
    by (simp add: fetch_worker_def corsHeaders_def set_header_def update_conv')
qed

definition demo_fetch :: "string \<Rightarrow> string \<Rightarrow> (nat, proxy_response result) state" where
  "demo_fetch url body = State (\<lambda>n. (Inr (plain_response 200 body), Suc n))"

definition demo_proxy :: proxy_env where
  "demo_proxy = \<lparr>HELIUS_API_KEY = ''k'', ALLOWED_ORIGINS = ''https://a, https://b''\<rparr>"

abbreviation demo_request :: "string \<Rightarrow> proxy_request" where
  "demo_request origin \<equiv> \<lparr>pq_method = ''POST'', pq_origin = Some origin, pq_upgrade = None, pq_body = ''{}''\<rparr>"

lemma demo_origins: "getAllowedOrigins demo_proxy = [''https://a'', ''https://b'']"
  by (simp add: getAllowedOrigins_def demo_proxy_def js_trim_def js_space_def)

theorem proxy_checks_origin_witness:
  "(\<exists>r. run_state (fetch_worker demo_fetch demo_proxy (demo_request ''https://c'')) 0 =
      (Inr (Inl r) :: (proxy_response + string \<times> nat bridge) result, 0) \<and> pr_status r \<in> {403, 405, 500}) \<and>
   (\<exists>r. run_state (fetch_worker demo_fetch demo_proxy (demo_request ''https://b'')) 0 =
      (Inr (Inl r) :: (proxy_response + string \<times> nat bridge) result, 1) \<and> pr_status r = 200 \<and> pr_body r = Some ''{}'' \<and>
      map_of (pr_headers r) ''access-control-allow-origin'' = Some ''https://b'')"
  using proxy_checks_origin [of "demo_request ''https://c''" demo_proxy demo_fetch 0 "[]" "plain_response 200 []" 0]
    proxy_checks_origin [of "demo_request ''https://b''" demo_proxy demo_fetch 0 "''https://b''" "plain_response 200 ''{}''" 1]
  by (simp add: foreign_origin_def isOriginAllowed_def demo_origins demo_fetch_def) (simp add: demo_proxy_def)

text \<open>C35. The bridge loses and reorders nothing while both sides are connected. What the client sent goes up to Helius in its
  order, what came before the upstream socket was open included: that is held back and sent first. What Helius sent goes down
  in its order. Relaying ends with the first event that closes the side it goes to.\<close>

theorem bridge_relays_in_order:
  assumes "bridge_run pl es s"
  shows "(if br_heliusReady s then relayed (br_up s) = client_messages (up_part es) \<and> br_bufferedMessages s = []
      else br_up s = [] \<and> br_bufferedMessages s = client_messages es) \<and>
    br_down s = helius_messages (down_part pl es) \<and>
    (br_helius s = Running \<longrightarrow> br_heliusReady s \<and> up_part es = es) \<and> (br_clientOpen s \<longrightarrow> down_part pl es = es)"
proof -
  have "br_helius s = Running \<Longrightarrow> up_part es = es" using bridge_up [OF assms] part_whole(1) by fastforce
  moreover have "br_clientOpen s \<Longrightarrow> down_part pl es = es" using bridge_down [OF assms] part_whole(2) by blast
  ultimately show ?thesis using bridge_up [OF assms] bridge_down [OF assms] by (auto split: if_splits)
qed

definition demo_platform :: platform where
  "demo_platform = \<lparr>pl_closeCode = (\<lambda>code. code = 1000 \<or> 3000 \<le> code \<and> code < 5000), pl_sendThrows = True\<rparr>"

definition demo_events :: "nat ws_event list" where
  "demo_events = [ClientMessage 1, ClientMessage 2, HeliusOpen, ClientMessage 3, KeepaliveTick, HeliusMessage 7,
     HeliusClose 1005 [], ClientMessage 4, KeepaliveTick]"

definition demo_bridge :: "nat bridge" where
  "demo_bridge = \<lparr>br_heliusReady = True, br_bufferedMessages = [], br_helius = Gone,
     br_up = [Relay 1, Relay 2, Relay 3, Ping], br_clientOpen = True, br_down = [7], br_closeFrame = None, br_keepalive = False\<rparr>"

lemma demo_bridge_run: "bridge_run demo_platform demo_events demo_bridge"
  by (rule replay_start)
    (simp add: demo_events_def demo_bridge_def demo_platform_def bridge_start_def heliusSend_def clientClose_def Let_def)

theorem bridge_relays_in_order_witness:
  "relayed (br_up demo_bridge) = [1, 2, 3] \<and> br_down demo_bridge = [7]"
  using bridge_relays_in_order [OF demo_bridge_run]
  by (simp add: demo_bridge_def demo_events_def demo_platform_def up_part_def down_part_def)

text \<open>A close of Helius without a status is not passed on. Such a close is reported with the code 1005, which \<open>close\<close>
  does not accept: the error is dropped, the client's socket stays open without a close frame, and what the client sends from
  then on is lost.\<close>

theorem close_without_status_lost:
  assumes "\<not> pl_closeCode pl 1005" and "bridge_run pl (es @ HeliusClose 1005 reason # fs) s"
    and "\<forall>e \<in> set (es @ fs). \<not> ends_down pl e"
  shows "br_clientOpen s \<and> br_closeFrame s = None \<and> \<not> br_helius s = Running \<and>
    length (relayed (br_up s)) \<le> length (client_messages es)"
proof -
  let ?es = "es @ HeliusClose 1005 reason # fs"
  have "up_part ?es = up_part es" unfolding up_part_def by (induction es) auto
  moreover have "length (client_messages (up_part es)) \<le> length (client_messages es)"
    using client_messages_append [of "up_part es" "dropWhile (\<lambda>e. \<not> ends_up e) es"] by (simp add: up_part_def)
  ultimately show ?thesis
    using bridge_up [OF assms(2)] bridge_down [OF assms(2)] assms(1,3) by (auto split: if_splits)
qed

theorem close_without_status_lost_witness:
  "br_clientOpen demo_bridge \<and> br_closeFrame demo_bridge = None \<and> relayed (br_up demo_bridge) = [1, 2, 3]"
  using close_without_status_lost [of demo_platform "take 6 demo_events" "[]" "drop 7 demo_events" demo_bridge] demo_bridge_run
  by (simp add: demo_platform_def demo_events_def demo_bridge_def)

end
